(* ===== verification/Prelude.thy ===== *)
theory Prelude
  imports Main "HOL-Library.Word"
begin

text \<open>
  Shared vocabulary of the Guardian development.

  Go values are modelled as follows: \<open>[]byte\<close> as \<open>bytes\<close> (a list of 8-bit words; a nil slice
  and an empty slice are the same value), \<open>string\<close> as \<open>string\<close> (a list of bytes seen as
  characters), \<open>uint32\<close> and \<open>uint64\<close> as words of that width, \<open>int64\<close> and \<open>int\<close> as \<open>int\<close>
  with the wrap-around written out by \<open>i64\<close> where an addition can leave the range.
  A fallible function returns \<open>go_error + 'a\<close>; an error carries the message (format string) of the source, and
  the sentinels that callers compare with \<open>errors.Is\<close> are constructors of their own.
\<close>

section \<open>Types\<close>

type_synonym byte = "8 word"
type_synonym bytes = "byte list"
type_synonym u32 = "32 word"
type_synonym u64 = "64 word"

datatype go_error =
    Err string
  | Wrap string go_error
  | ErrNoRows
  | ErrPeriodAllowanceExceeded
  | ErrVtxoOperationActive
  | ErrRecoveryBusy
  | ErrConstraint string

type_synonym 'a res = "go_error + 'a"

named_theorems guard_defs \<open>small definitions that proofs usually unfold\<close>
named_theorems enc_len \<open>lengths of encodings\<close>
named_theorems enc_inj \<open>injectivity of encodings\<close>

section \<open>Sequencing of fallible steps\<close>

text \<open>\<open>andThen m f\<close> is \<open>x, err := m; if err != nil { return err }; f(x)\<close>.\<close>

definition andThen :: "'a res \<Rightarrow> ('a \<Rightarrow> 'b res) \<Rightarrow> 'b res" where
  "andThen m f = (case m of Inl e \<Rightarrow> Inl e | Inr x \<Rightarrow> f x)"

lemma andThen_simps [simp]:
  "andThen (Inl e) f = Inl e"
  "andThen (Inr x) f = f x"
  by (simp_all add: andThen_def)

lemma andThen_Inr_iff: "andThen m f = Inr y \<longleftrightarrow> (\<exists>x. m = Inr x \<and> f x = Inr y)"
  by (cases m) auto

lemma andThen_Inl_iff: "andThen m f = Inl e \<longleftrightarrow> m = Inl e \<or> (\<exists>x. m = Inr x \<and> f x = Inl e)"
  by (cases m) auto

lemma andThen_cong [fundef_cong]: "m = m' \<Longrightarrow> (\<And>x. m' = Inr x \<Longrightarrow> f x = g x) \<Longrightarrow> andThen m f = andThen m' g"
  by (cases m') auto

text \<open>\<open>wrapErr\<close> is \<open>fmt.Errorf("prefix: %w", err)\<close> on the error path.\<close>

definition wrapErr :: "string \<Rightarrow> 'a res \<Rightarrow> 'a res" where
  "wrapErr p m = (case m of Inl e \<Rightarrow> Inl (Wrap p e) | Inr x \<Rightarrow> Inr x)"

lemma wrapErr_simps [simp]:
  "wrapErr p (Inl e) = Inl (Wrap p e)"
  "wrapErr p (Inr x) = Inr x"
  by (simp_all add: wrapErr_def)

lemma wrapErr_Inr_iff [simp]: "wrapErr p m = Inr x \<longleftrightarrow> m = Inr x"
  by (cases m) auto

text \<open>A loop that stops at the first error: \<open>for _, x := range xs { if err := f(x); ... }\<close>.\<close>

fun forEach :: "('a \<Rightarrow> unit res) \<Rightarrow> 'a list \<Rightarrow> unit res" where
  "forEach f [] = Inr ()"
| "forEach f (x # xs) = andThen (f x) (\<lambda>_. forEach f xs)"

lemma forEach_ok_iff: "forEach f xs = Inr () \<longleftrightarrow> (\<forall>x\<in>set xs. f x = Inr ())"
  by (induction xs) (auto simp: andThen_Inr_iff)

fun foldRes :: "('s \<Rightarrow> 'a \<Rightarrow> 's res) \<Rightarrow> 's \<Rightarrow> 'a list \<Rightarrow> 's res" where
  "foldRes f s [] = Inr s"
| "foldRes f s (x # xs) = andThen (f s x) (\<lambda>s'. foldRes f s' xs)"

lemma foldRes_append: "foldRes f s (xs @ ys) = andThen (foldRes f s xs) (\<lambda>s'. foldRes f s' ys)"
  by (induction xs arbitrary: s) (auto simp: andThen_def split: sum.splits)

section \<open>Signed 64-bit integers\<close>

definition i64 :: "int \<Rightarrow> int" where
  "i64 x = (x + 2 ^ 63) mod 2 ^ 64 - 2 ^ 63"

definition maxInt64 :: int where
  "maxInt64 = 2 ^ 63 - 1"

definition in_i64 :: "int \<Rightarrow> bool" where
  "in_i64 x \<longleftrightarrow> - (2 ^ 63) \<le> x \<and> x \<le> 2 ^ 63 - 1"

lemma i64_id: "in_i64 x \<Longrightarrow> i64 x = x"
  by (simp add: i64_def in_i64_def)

lemma in_i64_i64: "in_i64 (i64 x)"
proof -
  have "0 \<le> (x + 2 ^ 63) mod 2 ^ 64" "(x + 2 ^ 63) mod 2 ^ 64 < (2 ^ 64 :: int)"
    by simp_all
  then show ?thesis unfolding i64_def in_i64_def by simp
qed

section \<open>Strings and bytes\<close>

definition bytes_of :: "string \<Rightarrow> bytes" where
  "bytes_of s = map of_char s"

definition string_of :: "bytes \<Rightarrow> string" where
  "string_of b = map (\<lambda>w. char_of (unat w)) b"

lemma length_bytes_of [simp]: "length (bytes_of s) = length s"
  by (simp add: bytes_of_def)

lemma length_string_of [simp]: "length (string_of s) = length s"
  by (simp add: string_of_def)

lemma unat_of_char [simp]: "unat (of_char c :: byte) = of_char c"
proof -
  have "(of_char c :: byte) = word_of_nat (of_char c)"
    by (simp add: of_char_def horner_sum_eq_sum)
  moreover have "(of_char c :: nat) < 256"
    by (metis of_char_mod_256 mod_less_divisor zero_less_numeral)
  ultimately show ?thesis by (simp add: unat_word_ariths unsigned_of_nat take_bit_eq_mod)
qed

lemma string_of_bytes_of [simp]: "string_of (bytes_of s) = s"
  by (simp add: string_of_def bytes_of_def comp_def)

lemma bytes_of_inject [simp]: "bytes_of s = bytes_of t \<longleftrightarrow> s = t"
  by (metis string_of_bytes_of)

lemma bytes_of_string_of [simp]: "bytes_of (string_of b) = b"
proof -
  have "of_char (char_of (unat w) :: char) = (w :: byte)" for w
  proof -
    have "unat w < 256" using unsigned_less [of w] by simp
    then have "unat (of_char (char_of (unat w) :: char) :: byte) = unat w"
      by (simp only: unat_of_char) simp
    then show ?thesis by (simp only: word_unat_eq_iff)
  qed
  then show ?thesis by (simp add: bytes_of_def string_of_def comp_def)
qed

lemma bytes_of_append [simp]: "bytes_of (s @ t) = bytes_of s @ bytes_of t"
  by (simp add: bytes_of_def)

lemma bytes_of_Nil [simp]: "bytes_of [] = []"
  by (simp add: bytes_of_def)

lemma bytes_of_eq_Nil [simp]: "bytes_of s = [] \<longleftrightarrow> s = []"
  by (simp add: bytes_of_def)

section \<open>Fixed-width integer encodings\<close>

text \<open>\<open>le_bytes n x\<close> is the \<open>n\<close>-byte little-endian form of \<open>x\<close> (low bytes first, the rest cut off).\<close>

fun le_bytes :: "nat \<Rightarrow> nat \<Rightarrow> bytes" where
  "le_bytes 0 x = []"
| "le_bytes (Suc n) x = word_of_nat (x mod 256) # le_bytes n (x div 256)"

lemma length_le_bytes [simp]: "length (le_bytes n x) = n"
  by (induction n arbitrary: x) auto

fun le_value :: "bytes \<Rightarrow> nat" where
  "le_value [] = 0"
| "le_value (b # bs) = unat b + 256 * le_value bs"

lemma unat_byte_of_nat [simp]: "unat (word_of_nat n :: byte) = n mod 256"
  by (simp add: unsigned_of_nat take_bit_eq_mod)

lemma le_value_le_bytes: "le_value (le_bytes n x) = x mod 256 ^ n"
proof (induction n arbitrary: x)
  case (Suc n)
  have "x mod 256 ^ Suc n = x mod 256 + 256 * (x div 256 mod 256 ^ n)"
    by (simp add: mod_mult2_eq)
  with Suc show ?case by simp
qed simp

lemma le_bytes_inject:
  assumes "x < 256 ^ n" "y < 256 ^ n" "le_bytes n x = le_bytes n y"
  shows "x = y"
  using assms by (metis le_value_le_bytes mod_less)

definition le16 :: "nat \<Rightarrow> bytes" where "le16 n = le_bytes 2 n"
definition le32 :: "u32 \<Rightarrow> bytes" where "le32 w = le_bytes 4 (unat w)"
definition le64 :: "u64 \<Rightarrow> bytes" where "le64 w = le_bytes 8 (unat w)"
definition be32 :: "u32 \<Rightarrow> bytes" where "be32 w = rev (le_bytes 4 (unat w))"
definition be64 :: "u64 \<Rightarrow> bytes" where "be64 w = rev (le_bytes 8 (unat w))"

text \<open>\<open>uint64(x)\<close> for an \<open>int64\<close>, \<open>uint32(len(s))\<close> for a length.\<close>

definition u64_of :: "int \<Rightarrow> u64" where "u64_of x = word_of_int x"
definition u32_len :: "'a list \<Rightarrow> u32" where "u32_len xs = word_of_nat (length xs)"

lemma length_ints [simp, enc_len]:
  "length (le16 n) = 2" "length (le32 a) = 4" "length (le64 b) = 8"
  "length (be32 a) = 4" "length (be64 b) = 8"
  by (simp_all add: le16_def le32_def le64_def be32_def be64_def)

lemma unat_u32_less: "unat (w :: u32) < 256 ^ 4"
  using unsigned_less [of w] by simp

lemma unat_u64_less: "unat (w :: u64) < 256 ^ 8"
  using unsigned_less [of w] by simp

lemma le32_inject [simp, enc_inj]: "le32 a = le32 b \<longleftrightarrow> a = b"
  using le_bytes_inject [OF unat_u32_less [of a] unat_u32_less [of b]]
  by (auto simp: le32_def word_unat_eq_iff)

lemma le64_inject [simp, enc_inj]: "le64 a = le64 b \<longleftrightarrow> a = b"
  using le_bytes_inject [OF unat_u64_less [of a] unat_u64_less [of b]]
  by (auto simp: le64_def word_unat_eq_iff)

lemma be32_inject [simp, enc_inj]: "be32 a = be32 b \<longleftrightarrow> a = b"
  using le_bytes_inject [OF unat_u32_less [of a] unat_u32_less [of b]]
  by (auto simp: be32_def word_unat_eq_iff)

lemma be64_inject [simp, enc_inj]: "be64 a = be64 b \<longleftrightarrow> a = b"
  using le_bytes_inject [OF unat_u64_less [of a] unat_u64_less [of b]]
  by (auto simp: be64_def word_unat_eq_iff)

lemma u64_of_inject:
  assumes "0 \<le> x" "x \<le> maxInt64" "0 \<le> y" "y \<le> maxInt64" "u64_of x = u64_of y"
  shows "x = y"
proof -
  have "uint (word_of_int x :: u64) = x" "uint (word_of_int y :: u64) = y"
    using assms by (simp_all add: maxInt64_def unsigned_of_int take_bit_int_eq_self_iff)
  with assms(5) show ?thesis unfolding u64_of_def by metis
qed

lemma u32_len_inject:
  assumes "length xs < 2 ^ 32" "length ys < 2 ^ 32" "u32_len xs = u32_len ys"
  shows "length xs = length ys"
proof -
  have "unat (word_of_nat (length xs) :: u32) = length xs"
    "unat (word_of_nat (length ys) :: u32) = length ys"
    using assms by (simp_all add: unsigned_of_nat take_bit_nat_eq_self_iff)
  with assms(3) show ?thesis unfolding u32_len_def by metis
qed

text \<open>Equal concatenations with equally long heads split: the tool for injectivity of records.\<close>

lemma append_split_eq: "length a = length b \<Longrightarrow> a @ xs = b @ ys \<longleftrightarrow> a = b \<and> xs = ys"
  by simp

section \<open>Lists\<close>

text \<open>\<open>lookupBy p xs\<close> is the row a query by key returns: the first that satisfies \<open>p\<close>.\<close>

definition lookupBy :: "('a \<Rightarrow> bool) \<Rightarrow> 'a list \<Rightarrow> 'a option" where
  "lookupBy p xs = List.find p xs"

lemma lookupBy_simps [simp]:
  "lookupBy p [] = None"
  "lookupBy p (x # xs) = (if p x then Some x else lookupBy p xs)"
  by (simp_all add: lookupBy_def)

lemma lookupBy_append: "lookupBy p (xs @ ys) = (case lookupBy p xs of None \<Rightarrow> lookupBy p ys | Some x \<Rightarrow> Some x)"
  by (induction xs) auto

lemma lookupBy_SomeD: "lookupBy p xs = Some x \<Longrightarrow> x \<in> set xs \<and> p x"
  by (induction xs) (auto split: if_splits)

lemma lookupBy_None_iff: "lookupBy p xs = None \<longleftrightarrow> (\<forall>x\<in>set xs. \<not> p x)"
  by (induction xs) auto

lemma lookupBy_unique:
  assumes "distinct (map k xs)" "x \<in> set xs"
  shows "lookupBy (\<lambda>y. k y = k x) xs = Some x"
  using assms by (induction xs) (auto simp: image_iff)

end
