(* ===== verification/Go_Text.thy ===== *)
theory Go_Text
  imports Prelude "HOL-Library.List_Lexorder" "HOL-Library.Char_ord"
begin

text \<open>
  The text functions of the Go library that the service calls: \<open>encoding/hex\<close>, decimal printing and
  \<open>strconv.ParseUint\<close>, \<open>strings\<close> (prefix, split, lower case, \<open>TrimSpace\<close>) and \<open>unicode/utf8\<close>.
  Strings are compared bytewise, as Go and SQLite's binary collation do: \<open><\<close> on \<open>string\<close> is the
  lexicographic order of \<open>HOL-Library.List_Lexorder\<close> over \<open>HOL-Library.Char_ord\<close>.
\<close>

section \<open>Hexadecimal\<close>

definition nibble :: "nat \<Rightarrow> char" where
  "nibble n = (if n < 10 then char_of (48 + n) else char_of (87 + n))"

definition hexEncode :: "bytes \<Rightarrow> string" where
  "hexEncode b = concat (map (\<lambda>w. [nibble (unat w div 16), nibble (unat w mod 16)]) b)"

text \<open>\<open>hex.DecodeString\<close> takes both cases and rejects odd lengths.\<close>

definition unnibble :: "char \<Rightarrow> nat option" where
  "unnibble c = (let n = of_char c :: nat in
     if 48 \<le> n \<and> n \<le> 57 then Some (n - 48)
     else if 97 \<le> n \<and> n \<le> 102 then Some (n - 87)
     else if 65 \<le> n \<and> n \<le> 70 then Some (n - 55)
     else None)"

fun hexDecode :: "string \<Rightarrow> bytes option" where
  "hexDecode [] = Some []"
| "hexDecode [c] = None"
| "hexDecode (c # d # s) =
     (case (unnibble c, unnibble d) of
        (Some h, Some l) \<Rightarrow> map_option ((#) (word_of_nat (16 * h + l))) (hexDecode s)
      | _ \<Rightarrow> None)"

lemma of_char_char_of_small [simp]: "n < 256 \<Longrightarrow> (of_char (char_of n :: char) :: nat) = n"
  by simp

lemma unnibble_nibble [simp]: "n < 16 \<Longrightarrow> unnibble (nibble n) = Some n"
  by (auto simp: unnibble_def nibble_def Let_def)

lemma hexEncode_simps [simp]:
  "hexEncode [] = []"
  "hexEncode (w # b) = nibble (unat w div 16) # nibble (unat w mod 16) # hexEncode b"
  by (simp_all add: hexEncode_def)

lemma length_hexEncode [simp]: "length (hexEncode b) = 2 * length b"
  by (induction b) auto

lemma unat_byte_less: "unat (w :: byte) < 256"
  using unsigned_less [of w] by simp

lemma hexDecode_hexEncode [simp]: "hexDecode (hexEncode b) = Some b"
proof (induction b)
  case (Cons w b)
  have "unat w div 16 < 16" using unat_byte_less [of w] by simp
  moreover have "16 * (unat w div 16) + unat w mod 16 = unat w" by simp
  ultimately show ?case using Cons by simp
qed simp

lemma hexEncode_inject [simp]: "hexEncode a = hexEncode b \<longleftrightarrow> a = b"
  by (metis hexDecode_hexEncode option.inject)

lemma length_hexDecode: "hexDecode s = Some b \<Longrightarrow> length s = 2 * length b"
  by (induction s arbitrary: b rule: hexDecode.induct) (auto split: option.splits)

text \<open>Lower case. Only ASCII letters change: a string with other bytes is never hexadecimal.\<close>

definition toLowerChar :: "char \<Rightarrow> char" where
  "toLowerChar c = (let n = of_char c :: nat in if 65 \<le> n \<and> n \<le> 90 then char_of (n + 32) else c)"

definition toLower :: "string \<Rightarrow> string" where
  "toLower s = map toLowerChar s"

lemma length_toLower [simp]: "length (toLower s) = length s"
  by (simp add: toLower_def)

section \<open>Decimal numbers\<close>

fun showNat :: "nat \<Rightarrow> string" where
  "showNat n = (if n < 10 then [char_of (48 + n)] else showNat (n div 10) @ [char_of (48 + n mod 10)])"

declare showNat.simps [simp del]

definition showInt :: "int \<Rightarrow> string" where
  "showInt i = (if i < 0 then CHR ''-'' # showNat (nat (- i)) else showNat (nat i))"

definition digitVal :: "char \<Rightarrow> nat option" where
  "digitVal c = (let n = of_char c :: nat in if 48 \<le> n \<and> n \<le> 57 then Some (n - 48) else None)"

fun digitsVal :: "nat \<Rightarrow> string \<Rightarrow> nat option" where
  "digitsVal acc [] = Some acc"
| "digitsVal acc (c # s) = (case digitVal c of None \<Rightarrow> None | Some d \<Rightarrow> digitsVal (10 * acc + d) s)"

text \<open>\<open>strconv.ParseUint(s, 10, bits)\<close>: a syntax error for the empty string and other characters, a
  range error at \<open>2 ^ bits\<close>.\<close>

definition parseUint :: "nat \<Rightarrow> string \<Rightarrow> nat option" where
  "parseUint bits s =
     (if s = [] then None
      else case digitsVal 0 s of
             None \<Rightarrow> None
           | Some n \<Rightarrow> if n < 2 ^ bits then Some n else None)"

text \<open>\<open>strconv.ParseInt(s, 10, 64)\<close>: an optional sign, then digits.\<close>

definition parseInt64 :: "string \<Rightarrow> int option" where
  "parseInt64 s =
     (case s of
        [] \<Rightarrow> None
      | c # t \<Rightarrow>
          let neg = (c = CHR ''-''); body = (if neg \<or> c = CHR ''+'' then t else s) in
          if body = [] then None
          else case digitsVal 0 body of
                 None \<Rightarrow> None
               | Some n \<Rightarrow> if neg then (if n \<le> 2 ^ 63 then Some (- int n) else None)
                           else (if n < 2 ^ 63 then Some (int n) else None))"

lemma digitVal_digit [simp]: "d < 10 \<Longrightarrow> digitVal (char_of (48 + d)) = Some d"
  by (simp add: digitVal_def Let_def)

lemma digitsVal_append: "digitsVal a (s @ t) = (case digitsVal a s of None \<Rightarrow> None | Some b \<Rightarrow> digitsVal b t)"
  by (induction s arbitrary: a) (auto split: option.splits)

lemma showNat_not_Nil [simp]: "showNat n \<noteq> []"
  by (subst showNat.simps) simp

lemma digitsVal_showNat [simp]: "digitsVal 0 (showNat n) = Some n"
proof (induction n rule: showNat.induct)
  case (1 n)
  show ?case
  proof (cases "n < 10")
    case True
    then show ?thesis by (simp add: showNat.simps [of n])
  next
    case False
    with 1 have "digitsVal 0 (showNat (n div 10)) = Some (n div 10)" by simp
    with False show ?thesis by (simp add: showNat.simps [of n] digitsVal_append)
  qed
qed

lemma parseUint_showNat: "n < 2 ^ bits \<Longrightarrow> parseUint bits (showNat n) = Some n"
  by (simp add: parseUint_def)

lemma showNat_inject [simp]: "showNat m = showNat n \<longleftrightarrow> m = n"
  by (metis digitsVal_showNat option.inject)

definition isDigitChar :: "char \<Rightarrow> bool" where
  "isDigitChar c \<longleftrightarrow> digitVal c \<noteq> None"

lemma isDigitChar_digit [simp]: "(d :: nat) < 10 \<Longrightarrow> isDigitChar (char_of (48 + d))"
  by (simp add: isDigitChar_def)

lemma showNat_digits: "c \<in> set (showNat n) \<Longrightarrow> isDigitChar c"
proof (induction n rule: showNat.induct)
  case (1 n)
  then show ?case
    by (cases "n < 10") (auto simp: showNat.simps [of n])
qed

section \<open>Prefixes and splitting\<close>

definition hasPrefix :: "string \<Rightarrow> string \<Rightarrow> bool" where
  "hasPrefix s p \<longleftrightarrow> take (length p) s = p"

definition trimPrefix :: "string \<Rightarrow> string \<Rightarrow> string" where
  "trimPrefix s p = (if hasPrefix s p then drop (length p) s else s)"

lemma hasPrefix_append [simp]: "hasPrefix (p @ s) p"
  by (simp add: hasPrefix_def)

lemma trimPrefix_append [simp]: "trimPrefix (p @ s) p = s"
  by (simp add: trimPrefix_def)

text \<open>\<open>strings.Split(s, sep)\<close> for a one-character separator.\<close>

fun splitOn :: "char \<Rightarrow> string \<Rightarrow> string list" where
  "splitOn c [] = [[]]"
| "splitOn c (x # s) =
     (if x = c then [] # splitOn c s
      else case splitOn c s of [] \<Rightarrow> [[x]] | l # ls \<Rightarrow> (x # l) # ls)"

lemma splitOn_not_Nil [simp]: "splitOn c s \<noteq> []"
  by (cases s) (auto split: list.splits)

lemma splitOn_line: "c \<notin> set l \<Longrightarrow> splitOn c (l @ c # s) = l # splitOn c s"
  by (induction l) auto

lemma splitOn_last: "c \<notin> set l \<Longrightarrow> splitOn c l = [l]"
  by (induction l) auto

section \<open>UTF-8\<close>

definition contByte :: "nat \<Rightarrow> nat \<Rightarrow> char \<Rightarrow> bool" where
  "contByte lo hi c \<longleftrightarrow> lo \<le> of_char c \<and> of_char c \<le> hi"

definition runeError :: nat where "runeError = 65533"

text \<open>\<open>utf8.DecodeRuneInString\<close>: the rune and its width; \<open>(RuneError, 1)\<close> for an invalid encoding.\<close>

definition decodeRune :: "string \<Rightarrow> nat \<times> nat" where
  "decodeRune s =
     (case s of
        [] \<Rightarrow> (runeError, 0)
      | c0 # t \<Rightarrow>
         (let b0 = of_char c0 :: nat in
          if b0 < 128 then (b0, 1)
          else if 194 \<le> b0 \<and> b0 \<le> 223 then
            (case t of c1 # _ \<Rightarrow> if contByte 128 191 c1 then ((b0 - 192) * 64 + (of_char c1 - 128), 2)
                                  else (runeError, 1)
             | _ \<Rightarrow> (runeError, 1))
          else if 224 \<le> b0 \<and> b0 \<le> 239 then
            (case t of c1 # c2 # _ \<Rightarrow>
               if contByte (if b0 = 224 then 160 else 128) (if b0 = 237 then 159 else 191) c1 \<and> contByte 128 191 c2
               then ((b0 - 224) * 4096 + (of_char c1 - 128) * 64 + (of_char c2 - 128), 3)
               else (runeError, 1)
             | _ \<Rightarrow> (runeError, 1))
          else if 240 \<le> b0 \<and> b0 \<le> 244 then
            (case t of c1 # c2 # c3 # _ \<Rightarrow>
               if contByte (if b0 = 240 then 144 else 128) (if b0 = 244 then 143 else 191) c1
                  \<and> contByte 128 191 c2 \<and> contByte 128 191 c3
               then ((b0 - 240) * 262144 + (of_char c1 - 128) * 4096 + (of_char c2 - 128) * 64 + (of_char c3 - 128), 4)
               else (runeError, 1)
             | _ \<Rightarrow> (runeError, 1))
          else (runeError, 1)))"

lemma decodeRune_width: "s \<noteq> [] \<Longrightarrow> 1 \<le> snd (decodeRune s) \<and> snd (decodeRune s) \<le> length s"
  by (auto simp: decodeRune_def Let_def split: list.splits)

text \<open>The runes of a string with the bytes each of them was decoded from.\<close>

function runes :: "string \<Rightarrow> (nat \<times> string) list" where
  "runes s = (if s = [] then []
              else let (r, n) = decodeRune s in (r, take n s) # runes (drop n s))"
  by pat_completeness auto
termination
proof (relation "measure length", goal_cases)
  case (2 s x xa y)
  then have "snd (decodeRune s) = y" by (metis snd_conv)
  with 2 decodeRune_width [of s] show ?case by (cases s) auto
qed simp

declare runes.simps [simp del]

text \<open>\<open>utf8.ValidString\<close>.\<close>

definition utf8Valid :: "string \<Rightarrow> bool" where
  "utf8Valid s \<longleftrightarrow> list_all (\<lambda>(r, b). \<not> (r = runeError \<and> length b = 1)) (runes s)"

text \<open>\<open>unicode.IsSpace\<close> and \<open>strings.TrimSpace\<close>.\<close>

definition isSpaceRune :: "nat \<Rightarrow> bool" where
  "isSpaceRune r \<longleftrightarrow> 9 \<le> r \<and> r \<le> 13 \<or> r = 32 \<or> r = 133 \<or> r = 160 \<or> r = 5760 \<or> 8192 \<le> r \<and> r \<le> 8202
     \<or> r = 8232 \<or> r = 8233 \<or> r = 8239 \<or> r = 8287 \<or> r = 12288"

definition trimSpace :: "string \<Rightarrow> string" where
  "trimSpace s =
     (let isSp = (\<lambda>(r, b). isSpaceRune r) in
      concat (map snd (rev (dropWhile isSp (rev (dropWhile isSp (runes s)))))))"

lemma runes_ascii: "\<forall>c\<in>set s. (of_char c :: nat) < 128 \<Longrightarrow> runes s = map (\<lambda>c. (of_char c, [c])) s"
proof (induction s)
  case (Cons c s)
  then have "decodeRune (c # s) = (of_char c, 1)" by (simp add: decodeRune_def)
  with Cons show ?case by (simp add: runes.simps [of "c # s"])
qed (simp add: runes.simps)

text \<open>ASCII text with no space at either end is left alone.\<close>

lemma trimSpace_ends:
  assumes "\<forall>c\<in>set s. (of_char c :: nat) < 128"
    and "s \<noteq> [] \<Longrightarrow> \<not> isSpaceRune (of_char (hd s))" "s \<noteq> [] \<Longrightarrow> \<not> isSpaceRune (of_char (last s))"
  shows "trimSpace s = s"
proof (cases s)
  case Nil
  then show ?thesis by (simp add: trimSpace_def runes.simps)
next
  case (Cons c t)
  have drop: "dropWhile (\<lambda>(r, b). isSpaceRune r) (map (\<lambda>c. (of_char c, [c])) u) = map (\<lambda>c. (of_char c, [c])) u"
    if "u \<noteq> []" "\<not> isSpaceRune (of_char (hd u))" for u :: string
    using that by (cases u) auto
  have ne: "s \<noteq> []" "rev s \<noteq> []" using Cons by auto
  have "dropWhile (\<lambda>(r, b). isSpaceRune r) (map (\<lambda>c. (of_char c, [c])) s) = map (\<lambda>c. (of_char c, [c])) s"
    "dropWhile (\<lambda>(r, b). isSpaceRune r) (rev (map (\<lambda>c. (of_char c, [c])) s)) = rev (map (\<lambda>c. (of_char c, [c])) s)"
    using drop [OF ne(1)] drop [OF ne(2)] assms(2,3) [OF ne(1)] ne(1) by (simp_all add: hd_rev rev_map)
  then show ?thesis by (simp add: trimSpace_def runes_ascii [OF assms(1)] comp_def)
qed

section \<open>SQLite\<close>

text \<open>SQLite's \<open>length\<close> of a TEXT value: characters up to the first NUL; a lead byte takes the continuation bytes that follow.\<close>

function sqlLength :: "string \<Rightarrow> nat" where
  "sqlLength [] = 0"
| "sqlLength (c # s) =
     (if c = CHR 0x00 then 0
      else if (of_char c :: nat) \<ge> 192 then Suc (sqlLength (dropWhile (\<lambda>d. 128 \<le> (of_char d :: nat) \<and> (of_char d :: nat) < 192) s))
      else Suc (sqlLength s))"
  by pat_completeness auto
termination
  by (relation "measure length") (auto simp: le_imp_less_Suc length_dropWhile_le)

text \<open>Hexadecimal text is ASCII without NUL: its SQL length is its length.\<close>

lemma nibble_code: "n < 16 \<Longrightarrow> (of_char (nibble n) :: nat) \<in> {48..57} \<union> {97..102}"
  by (auto simp: nibble_def)

lemma hexEncode_chars: "c \<in> set (hexEncode b) \<Longrightarrow> (of_char c :: nat) \<in> {48..57} \<union> {97..102}"
proof (induction b)
  case (Cons w b)
  have "unat w < 256" using unsigned_less [of w] by simp
  then have n: "unat w div 16 < 16" "unat w mod 16 < 16" by simp_all
  from Cons.prems consider "c = nibble (unat w div 16)" | "c = nibble (unat w mod 16)" | "c \<in> set (hexEncode b)" by auto
  then show ?case by cases (use n nibble_code Cons.IH in blast)+
qed simp

lemma sqlLength_ascii: "\<forall>c\<in>set s. 0 < (of_char c :: nat) \<and> (of_char c :: nat) < 128 \<Longrightarrow> sqlLength s = length s"
  by (induction s) auto

lemma sqlLength_hexEncode: "sqlLength (hexEncode b) = length (hexEncode b)"
  by (rule sqlLength_ascii) (auto dest: hexEncode_chars)

end
