(* ===== verification/Json.thy ===== *)
theory Json
  imports Go_Text
begin

text \<open>
  The part of Go's \<open>encoding/json\<close> the ledger uses: \<open>json.Marshal\<close> of flat structs (strings with the
  library's HTML-safe escaping, integers, \<open>omitempty\<close>), \<open>json.Valid\<close>, and \<open>json.Unmarshal\<close> into such
  structs (keys matched up to case folding, unknown keys skipped, the last occurrence wins, \<open>null\<close> leaves
  a field alone, a value of another type is an error). The parser is a recursive descent on fuel;
  \<open>parseValue_fuel\<close> shows that the fuel it is started with is enough.
\<close>

section \<open>Printing\<close>

definition hexDigitChar :: "nat \<Rightarrow> char" where
  "hexDigitChar n = nibble (n mod 16)"

text \<open>One rune of a string literal, given with the bytes it came from.\<close>

definition jsonEscapeRune :: "nat \<times> string \<Rightarrow> string" where
  "jsonEscapeRune rb =
     (let (r, b) = rb in
      if r = 34 \<or> r = 92 then CHR 92 # b
      else if r = 8 then [CHR 92, CHR ''b''] else if r = 12 then [CHR 92, CHR ''f''] else if r = 10 then [CHR 92, CHR ''n'']
      else if r = 13 then [CHR 92, CHR ''r''] else if r = 9 then [CHR 92, CHR ''t'']
      else if r < 32 \<or> r = 60 \<or> r = 62 \<or> r = 38
        then CHR 92 # ''u00'' @ [hexDigitChar (r div 16), hexDigitChar r]
      else if r = runeError \<and> length b = 1 then CHR 92 # ''ufffd''
      else if r = 8232 \<or> r = 8233 then CHR 92 # ''u202'' @ [hexDigitChar r]
      else b)"

definition jsonString :: "string \<Rightarrow> string" where
  "jsonString s = CHR 34 # concat (map jsonEscapeRune (runes s)) @ [CHR 34]"

fun joinWith :: "string \<Rightarrow> string list \<Rightarrow> string" where
  "joinWith sep [] = []"
| "joinWith sep [x] = x"
| "joinWith sep (x # y # ys) = x @ sep @ joinWith sep (y # ys)"

text \<open>A struct: the fields that are present, each with its encoded value.\<close>

definition jsonStruct :: "(string \<times> string) list \<Rightarrow> string" where
  "jsonStruct fs = ''{'' @ joinWith '','' (map (\<lambda>(k, v). jsonString k @ '':'' @ v) fs) @ ''}''"

definition strField :: "string \<Rightarrow> string \<Rightarrow> (string \<times> string) list" where
  "strField k v = [(k, jsonString v)]"

definition intField :: "string \<Rightarrow> int \<Rightarrow> (string \<times> string) list" where
  "intField k v = [(k, showInt v)]"

definition omitStr :: "string \<Rightarrow> string \<Rightarrow> (string \<times> string) list" where
  "omitStr k v = (if v = [] then [] else strField k v)"

definition omitInt :: "string \<Rightarrow> int \<Rightarrow> (string \<times> string) list" where
  "omitInt k v = (if v = 0 then [] else intField k v)"

definition strListField :: "string \<Rightarrow> string list \<Rightarrow> (string \<times> string) list" where
  "strListField k vs = [(k, ''['' @ joinWith '','' (map jsonString vs) @ '']'')]"

section \<open>Parsing\<close>

datatype json =
    JNull
  | JBool bool
  | JNum string
  | JStr string
  | JArr "json list"
  | JObj "(string \<times> json) list"

definition isWs :: "char \<Rightarrow> bool" where
  "isWs c \<longleftrightarrow> c = CHR '' '' \<or> c = CHR 9 \<or> c = CHR 10 \<or> c = CHR 13"

definition skipWs :: "string \<Rightarrow> string" where
  "skipWs s = dropWhile isWs s"

definition encodeRune :: "nat \<Rightarrow> string" where
  "encodeRune r =
     (if r < 128 then [char_of r]
      else if r < 2048 then [char_of (192 + r div 64), char_of (128 + r mod 64)]
      else if r < 65536 then [char_of (224 + r div 4096), char_of (128 + r div 64 mod 64), char_of (128 + r mod 64)]
      else [char_of (240 + r div 262144), char_of (128 + r div 4096 mod 64),
            char_of (128 + r div 64 mod 64), char_of (128 + r mod 64)])"

fun hex4 :: "string \<Rightarrow> nat option" where
  "hex4 (a # b # c # d # _) =
     (case (unnibble a, unnibble b, unnibble c, unnibble d) of
        (Some w, Some x, Some y, Some z) \<Rightarrow> Some (4096 * w + 256 * x + 16 * y + z)
      | _ \<Rightarrow> None)"
| "hex4 _ = None"

text \<open>The body of a string literal up to its closing quote, as raw bytes; escapes are kept.\<close>

fun scanString :: "string \<Rightarrow> (string \<times> string) option" where
  "scanString [] = None"
| "scanString (c # s) =
     (if c = CHR 34 then Some ([], s)
      else if of_char c < (32 :: nat) then None
      else if c = CHR 92 then
        (case s of
           [] \<Rightarrow> None
         | e # t \<Rightarrow>
             if e \<in> {CHR 98, CHR 102, CHR 110, CHR 114, CHR 116, CHR 92, CHR 47, CHR 34}
             then map_option (\<lambda>(b, r). (c # e # b, r)) (scanString t)
             else if e = CHR 117 then
               (case hex4 t of
                  None \<Rightarrow> None
                | Some _ \<Rightarrow> map_option (\<lambda>(b, r). (c # e # take 4 t @ b, r)) (scanString (drop 4 t)))
             else None)
      else map_option (\<lambda>(b, r). (c # b, r)) (scanString s))"

definition simpleEscape :: "char \<Rightarrow> char" where
  "simpleEscape e =
     (if e = CHR 98 then CHR 8 else if e = CHR 102 then CHR 12 else if e = CHR 110 then CHR 10
      else if e = CHR 114 then CHR 13 else if e = CHR 116 then CHR 9 else e)"

text \<open>One step of \<open>unquote\<close>: the text to append and how many bytes it stands for. Escapes are replaced,
  lone surrogates and invalid UTF-8 read as U+FFFD.\<close>

definition unquoteEscape :: "string \<Rightarrow> string \<times> nat" where
  "unquoteEscape u =
     (case hex4 u of
        None \<Rightarrow> ([], 2)
      | Some r \<Rightarrow>
          if 55296 \<le> r \<and> r < 57344 then
            (let v = drop 4 u in
             case (if take 2 v = [CHR 92, CHR 117] then hex4 (drop 2 v) else None) of
               Some r2 \<Rightarrow>
                 if r < 56320 \<and> 56320 \<le> r2 \<and> r2 < 57344
                 then (encodeRune ((r - 55296) * 1024 + (r2 - 56320) + 65536), 12)
                 else (encodeRune runeError, 6)
             | None \<Rightarrow> (encodeRune runeError, 6))
          else (encodeRune r, 6))"

definition unquoteStep :: "string \<Rightarrow> string \<times> nat" where
  "unquoteStep s =
     (if take 1 s = [CHR 92] then
        (case drop 1 s of
           [] \<Rightarrow> ([], 1)
         | e # u \<Rightarrow> if e = CHR 117 then unquoteEscape u else ([simpleEscape e], 2))
      else (let (r, n) = decodeRune s in
            (if r = runeError \<and> n = 1 then encodeRune runeError else take n s, n)))"

lemma unquoteStep_width: "s \<noteq> [] \<Longrightarrow> 0 < snd (unquoteStep s)"
  using decodeRune_width [of s]
  by (auto simp: unquoteStep_def unquoteEscape_def Let_def split: list.splits option.splits prod.splits)

function unquote :: "string \<Rightarrow> string" where
  "unquote s = (if s = [] then []
                else fst (unquoteStep s) @ unquote (drop (snd (unquoteStep s)) s))"
  by pat_completeness auto
termination
  by (relation "measure length") (auto simp: unquoteStep_width)

declare unquote.simps [simp del]

lemma unquote_plain: "\<forall>c\<in>set s. (of_char c :: nat) < 128 \<and> c \<noteq> CHR 92 \<Longrightarrow> unquote s = s"
proof (induction s)
  case Nil
  then show ?case by (simp add: unquote.simps)
next
  case (Cons c s)
  then have "decodeRune (c # s) = (of_char c, 1)" by (simp add: decodeRune_def)
  with Cons.prems have "unquoteStep (c # s) = ([c], 1)" by (simp add: unquoteStep_def runeError_def)
  with Cons show ?case by (simp add: unquote.simps [of "c # s"])
qed

text \<open>A number literal and what follows it.\<close>

definition scanDigits :: "string \<Rightarrow> (string \<times> string) option" where
  "scanDigits s = (let ds = takeWhile isDigitChar s in
     if ds = [] then None else Some (ds, dropWhile isDigitChar s))"

definition scanIntPart :: "string \<Rightarrow> (string \<times> string) option" where
  "scanIntPart s =
     (case s of
        [] \<Rightarrow> None
      | c # t \<Rightarrow> if c = CHR ''0'' then Some (''0'', t) else scanDigits s)"

definition scanFracPart :: "string \<Rightarrow> (string \<times> string) option" where
  "scanFracPart s =
     (case s of
        c # t \<Rightarrow> if c = CHR ''.'' then map_option (\<lambda>(d, r). (c # d, r)) (scanDigits t) else Some ([], s)
      | [] \<Rightarrow> Some ([], s))"

definition scanExpPart :: "string \<Rightarrow> (string \<times> string) option" where
  "scanExpPart s =
     (case s of
        c # t \<Rightarrow>
          if c = CHR ''e'' \<or> c = CHR ''E'' then
            (case t of
               x # u \<Rightarrow> if x = CHR ''+'' \<or> x = CHR ''-''
                         then map_option (\<lambda>(d, r). (c # x # d, r)) (scanDigits u)
                         else map_option (\<lambda>(d, r). (c # d, r)) (scanDigits t)
             | [] \<Rightarrow> None)
          else Some ([], s)
      | [] \<Rightarrow> Some ([], s))"

definition scanNumber :: "string \<Rightarrow> (string \<times> string) option" where
  "scanNumber s =
     (let (sg, s1) = (case s of c # t \<Rightarrow> if c = CHR ''-'' then (''-'', t) else ([], s) | [] \<Rightarrow> ([], s)) in
      case scanIntPart s1 of
        None \<Rightarrow> None
      | Some (i, s2) \<Rightarrow>
         (case scanFracPart s2 of
            None \<Rightarrow> None
          | Some (f, s3) \<Rightarrow>
             (case scanExpPart s3 of
                None \<Rightarrow> None
              | Some (e, s4) \<Rightarrow> Some (sg @ i @ f @ e, s4))))"

definition maxNestingDepth :: nat where "maxNestingDepth = 10000"

text \<open>
  \<open>parseValue\<close>, the elements of an array and the members of an object. \<open>d\<close> counts the open brackets; the
  library gives up beyond 10000.
\<close>

fun parseValue :: "nat \<Rightarrow> nat \<Rightarrow> string \<Rightarrow> (json \<times> string) option"
and parseElems :: "nat \<Rightarrow> nat \<Rightarrow> string \<Rightarrow> (json list \<times> string) option"
and parseMembers :: "nat \<Rightarrow> nat \<Rightarrow> string \<Rightarrow> ((string \<times> json) list \<times> string) option" where
  "parseValue 0 d s = None"
| "parseValue (Suc f) d s =
     (case skipWs s of
        [] \<Rightarrow> None
      | c # t \<Rightarrow>
          if c = CHR ''{'' then
            (if d \<ge> maxNestingDepth then None
             else case skipWs t of
                    [] \<Rightarrow> None
                  | x # u \<Rightarrow> if x = CHR ''}'' then Some (JObj [], u)
                            else map_option (\<lambda>(m, r). (JObj m, r)) (parseMembers f (Suc d) (x # u)))
          else if c = CHR ''['' then
            (if d \<ge> maxNestingDepth then None
             else case skipWs t of
                    [] \<Rightarrow> None
                  | x # u \<Rightarrow> if x = CHR '']'' then Some (JArr [], u)
                            else map_option (\<lambda>(m, r). (JArr m, r)) (parseElems f (Suc d) (x # u)))
          else if c = CHR 34 then map_option (\<lambda>(b, r). (JStr (unquote b), r)) (scanString t)
          else if hasPrefix (c # t) ''true'' then Some (JBool True, drop 4 (c # t))
          else if hasPrefix (c # t) ''false'' then Some (JBool False, drop 5 (c # t))
          else if hasPrefix (c # t) ''null'' then Some (JNull, drop 4 (c # t))
          else map_option (\<lambda>(n, r). (JNum n, r)) (scanNumber (c # t)))"
| "parseElems 0 d s = None"
| "parseElems (Suc f) d s =
     (case parseValue f d s of
        None \<Rightarrow> None
      | Some (v, r) \<Rightarrow>
         (case skipWs r of
            [] \<Rightarrow> None
          | c # t \<Rightarrow> if c = CHR '']'' then Some ([v], t)
                    else if c = CHR '','' then map_option (\<lambda>(vs, r'). (v # vs, r')) (parseElems f d t)
                    else None))"
| "parseMembers 0 d s = None"
| "parseMembers (Suc f) d s =
     (case skipWs s of
        [] \<Rightarrow> None
      | c # t \<Rightarrow>
          if c \<noteq> CHR 34 then None
          else case scanString t of
                 None \<Rightarrow> None
               | Some (k, r) \<Rightarrow>
                  (case skipWs r of
                     [] \<Rightarrow> None
                   | x # u \<Rightarrow>
                       if x \<noteq> CHR '':'' then None
                       else case parseValue f d u of
                              None \<Rightarrow> None
                            | Some (v, r2) \<Rightarrow>
                               (case skipWs r2 of
                                  [] \<Rightarrow> None
                                | y # w \<Rightarrow>
                                    if y = CHR ''}'' then Some ([(unquote k, v)], w)
                                    else if y = CHR '','' then
                                      map_option (\<lambda>(ms, r'). ((unquote k, v) # ms, r')) (parseMembers f d w)
                                    else None)))"

definition parseJson :: "string \<Rightarrow> json option" where
  "parseJson s =
     (case parseValue (2 * length s + 1) 0 s of
        None \<Rightarrow> None
      | Some (v, r) \<Rightarrow> if skipWs r = [] then Some v else None)"

text \<open>Every parser consumes input.\<close>

lemma skipWs_length: "length (skipWs s) \<le> length s"
  by (simp add: skipWs_def length_dropWhile_le)

lemma scanString_length: "scanString s = Some (b, r) \<Longrightarrow> length r < length s"
  by (induction s arbitrary: b r rule: scanString.induct)
     (fastforce split: if_splits list.splits option.splits)+

lemma scanDigits_length: "scanDigits s = Some (d, r) \<Longrightarrow> length r < length s"
proof -
  assume "scanDigits s = Some (d, r)"
  then have "takeWhile isDigitChar s \<noteq> []" "r = dropWhile isDigitChar s"
    by (auto simp: scanDigits_def Let_def split: if_splits)
  moreover have "length s = length (takeWhile isDigitChar s) + length (dropWhile isDigitChar s)"
    by (metis length_append takeWhile_dropWhile_id)
  ultimately show ?thesis by (cases "takeWhile isDigitChar s") auto
qed

lemma scanIntPart_length: "scanIntPart s = Some (d, r) \<Longrightarrow> length r < length s"
  by (auto simp: scanIntPart_def dest: scanDigits_length split: list.splits if_splits)

lemma scanFracPart_length: "scanFracPart s = Some (d, r) \<Longrightarrow> length r \<le> length s"
  by (fastforce simp: scanFracPart_def dest: scanDigits_length split: list.splits if_splits)

lemma scanExpPart_length: "scanExpPart s = Some (d, r) \<Longrightarrow> length r \<le> length s"
  by (fastforce simp: scanExpPart_def dest: scanDigits_length split: list.splits if_splits)

lemma scanNumber_length:
  assumes "scanNumber s = Some (n, r)"
  shows "length r < length s"
proof -
  obtain sg s1 where s1: "(case s of c # t \<Rightarrow> if c = CHR ''-'' then (''-'', t) else ([], s) | [] \<Rightarrow> ([], s)) = (sg, s1)"
    by force
  then have "length s1 \<le> length s" by (auto split: list.splits if_splits)
  with assms s1 show ?thesis
    by (fastforce simp: scanNumber_def dest!: scanIntPart_length scanFracPart_length scanExpPart_length
        split: option.splits)
qed

lemma skipWs_ConsD: "skipWs s = c # t \<Longrightarrow> length t < length s"
  using skipWs_length [of s] by simp

lemma parse_length:
  "parseValue f d s = Some (v, r) \<Longrightarrow> length r < length s"
  "parseElems f d s = Some (vs, r) \<Longrightarrow> length r < length s"
  "parseMembers f d s = Some (ms, r) \<Longrightarrow> length r < length s"
proof (induction f d s and f d s and f d s arbitrary: v r and vs r and ms r
    rule: parseValue_parseElems_parseMembers.induct)
  case (2 f d s)
  then obtain c t where ct: "skipWs s = c # t" by (auto split: list.splits)
  have lt: "length t < length s" by (rule skipWs_ConsD [OF ct])
  have len: "length r \<le> length t" if "length r < Suc (length t)" for r :: string using that by simp
  consider (o) "c = CHR ''{''" | (a) "c = CHR ''[''" | (s) "c = CHR 34"
    | (other) "c \<noteq> CHR ''{''" "c \<noteq> CHR ''[''" "c \<noteq> CHR 34" by blast
  then show ?case
  proof cases
    case o
    with 2(3) ct obtain x u where x: "skipWs t = x # u" by (auto split: list.splits if_splits)
    have "length u < length t" by (rule skipWs_ConsD [OF x])
    with 2 ct o x lt show ?thesis by (fastforce split: if_splits)
  next
    case a
    with 2(3) ct obtain x u where x: "skipWs t = x # u" by (auto split: list.splits if_splits)
    have "length u < length t" by (rule skipWs_ConsD [OF x])
    with 2 ct a x lt show ?thesis by (fastforce split: if_splits)
  next
    case s
    with 2(3) ct lt show ?thesis by (auto dest: scanString_length)
  next
    case other
    with 2(3) ct lt show ?thesis by (auto split: if_splits dest!: scanNumber_length)
  qed
next
  case (4 f d s)
  then obtain w r1 c t where "parseValue f d s = Some (w, r1)" "skipWs r1 = c # t"
    by (auto split: option.splits list.splits)
  moreover from this have "length t < length s"
    using 4(1) skipWs_ConsD by (meson less_trans)
  ultimately show ?case using 4(2,3) by (fastforce split: if_splits)
next
  case (6 f d s)
  from 6(3) obtain c t k r1 x u w r2 y z where p:
    "skipWs s = c # t" "c = CHR 34" "scanString t = Some (k, r1)" "skipWs r1 = x # u" "x = CHR '':''"
    "parseValue f d u = Some (w, r2)" "skipWs r2 = y # z"
    by (auto split: option.splits list.splits if_splits)
  have "length u < length s"
    using skipWs_ConsD [OF p(1)] scanString_length [OF p(3)] skipWs_ConsD [OF p(4)] by simp
  moreover have "length r2 < length u" using 6(1) p by simp
  moreover note skipWs_ConsD [OF p(7)]
  ultimately have "length z < length s" by simp
  with 6(2,3) p show ?case by (fastforce split: if_splits)
qed auto

text \<open>More fuel than twice the length changes nothing.\<close>

lemma parse_fuel_Suc:
  "2 * length s + 1 \<le> f \<Longrightarrow> parseValue (Suc f) d s = parseValue f d s"
  "2 * length s + 2 \<le> f \<Longrightarrow> parseElems (Suc f) d s = parseElems f d s"
  "2 * length s + 2 \<le> f \<Longrightarrow> parseMembers (Suc f) d s = parseMembers f d s"
proof (induction f arbitrary: d s)
  case (Suc f)
  {
    case 1
    have sub: "2 * length (x # u) + 2 \<le> f" if "skipWs s = c # t" "skipWs t = x # u" for c t x u
      using 1 skipWs_ConsD [OF that(1)] skipWs_length [of t] that(2) by simp
    show ?case
      unfolding parseValue.simps(2) [of "Suc f"] parseValue.simps(2) [of f]
      using Suc.IH(2,3) sub by (auto split: list.splits)
  next
    case 2
    have v: "parseValue (Suc f) d s = parseValue f d s" using Suc.IH(1) 2 by simp
    have sub: "2 * length t + 2 \<le> f" if "parseValue f d s = Some (w, r)" "skipWs r = c # t" for w r c t
      using 2 parse_length(1) [OF that(1)] skipWs_ConsD [OF that(2)] by simp
    show ?case
      unfolding parseElems.simps(2) [of "Suc f"] parseElems.simps(2) [of f] v
      using Suc.IH(2) sub by (auto split: option.splits list.splits)
  next
    case 3
    have v: "parseValue (Suc f) d u = parseValue f d u"
      if "skipWs s = c # t" "scanString t = Some (k, r)" "skipWs r = x # u" for c t k r x u
      using Suc.IH(1) 3 skipWs_ConsD [OF that(1)] scanString_length [OF that(2)] skipWs_ConsD [OF that(3)]
      by simp
    have sub: "2 * length z + 2 \<le> f"
      if "skipWs s = c # t" "scanString t = Some (k, r)" "skipWs r = x # u"
        "parseValue f d u = Some (w, r2)" "skipWs r2 = y # z" for c t k r x u w r2 y z
      using 3 skipWs_ConsD [OF that(1)] scanString_length [OF that(2)] skipWs_ConsD [OF that(3)]
        parse_length(1) [OF that(4)] skipWs_ConsD [OF that(5)] by simp
    show ?case
      unfolding parseMembers.simps(2) [of "Suc f"] parseMembers.simps(2) [of f]
      using v Suc.IH(3) sub by (fastforce split: option.splits list.splits)
  }
qed simp_all

lemma parseValue_fuel:
  assumes "2 * length s + 1 \<le> f"
  shows "parseValue f d s = parseValue (2 * length s + 1) d s"
proof -
  obtain k where f: "f = 2 * length s + 1 + k" using assms le_Suc_ex by blast
  have "parseValue (2 * length s + 1 + k) d s = parseValue (2 * length s + 1) d s"
  proof (induction k)
    case (Suc k)
    with parse_fuel_Suc(1) [of s "2 * length s + 1 + k" d] show ?case by simp
  qed simp
  with f show ?thesis by simp
qed

text \<open>\<open>json.Valid\<close>.\<close>

definition jsonValid :: "string \<Rightarrow> bool" where
  "jsonValid s \<longleftrightarrow> parseJson s \<noteq> None"

section \<open>Decoding into a struct\<close>

text \<open>\<open>foldName\<close>: ASCII letters in upper case; the long s and the Kelvin sign fold to S and K.\<close>

fun foldKey :: "string \<Rightarrow> string" where
  "foldKey [] = []"
| "foldKey (c # s) =
     (case s of
        d # t \<Rightarrow>
          if c = CHR 197 \<and> d = CHR 191 then CHR ''S'' # foldKey t
          else (case t of
                  e # u \<Rightarrow> if c = CHR 226 \<and> d = CHR 132 \<and> e = CHR 170 then CHR ''K'' # foldKey u
                          else (if 97 \<le> (of_char c :: nat) \<and> (of_char c :: nat) \<le> 122
                                then char_of ((of_char c :: nat) - 32) else c) # foldKey s
                | [] \<Rightarrow> (if 97 \<le> (of_char c :: nat) \<and> (of_char c :: nat) \<le> 122
                         then char_of ((of_char c :: nat) - 32) else c) # foldKey s)
      | [] \<Rightarrow> [if 97 \<le> (of_char c :: nat) \<and> (of_char c :: nat) \<le> 122
               then char_of ((of_char c :: nat) - 32) else c])"

text \<open>The values of a field, in document order. \<open>json.Unmarshal\<close> of \<open>null\<close> changes nothing; a document that
  is neither an object nor \<open>null\<close> is a type error.\<close>

definition jsonMembers :: "string \<Rightarrow> (string \<times> json) list option" where
  "jsonMembers s =
     (case parseJson s of
        Some (JObj ms) \<Rightarrow> Some ms
      | Some JNull \<Rightarrow> Some []
      | _ \<Rightarrow> None)"

definition fieldVals :: "(string \<times> json) list \<Rightarrow> string \<Rightarrow> json list" where
  "fieldVals ms k = map snd (filter (\<lambda>(k', v). foldKey k' = foldKey k) ms)"

fun decStr :: "string \<Rightarrow> json list \<Rightarrow> string option" where
  "decStr acc [] = Some acc"
| "decStr acc (v # vs) =
     (case v of JNull \<Rightarrow> decStr acc vs | JStr s \<Rightarrow> decStr s vs | _ \<Rightarrow> None)"

fun decInt64 :: "int \<Rightarrow> json list \<Rightarrow> int option" where
  "decInt64 acc [] = Some acc"
| "decInt64 acc (v # vs) =
     (case v of
        JNull \<Rightarrow> decInt64 acc vs
      | JNum n \<Rightarrow> (case parseInt64 n of Some i \<Rightarrow> decInt64 i vs | None \<Rightarrow> None)
      | _ \<Rightarrow> None)"

fun decUint :: "nat \<Rightarrow> nat \<Rightarrow> json list \<Rightarrow> nat option" where
  "decUint bits acc [] = Some acc"
| "decUint bits acc (v # vs) =
     (case v of
        JNull \<Rightarrow> decUint bits acc vs
      | JNum n \<Rightarrow> (case parseUint bits n of Some i \<Rightarrow> decUint bits i vs | None \<Rightarrow> None)
      | _ \<Rightarrow> None)"

fun decStrElems :: "json list \<Rightarrow> string list option" where
  "decStrElems [] = Some []"
| "decStrElems (v # vs) =
     (case (case v of JNull \<Rightarrow> Some [] | JStr s \<Rightarrow> Some s | _ \<Rightarrow> None) of
        None \<Rightarrow> None
      | Some s \<Rightarrow> map_option ((#) s) (decStrElems vs))"

fun decStrList :: "string list \<Rightarrow> json list \<Rightarrow> string list option" where
  "decStrList acc [] = Some acc"
| "decStrList acc (v # vs) =
     (case v of
        JNull \<Rightarrow> decStrList [] vs
      | JArr xs \<Rightarrow> (case decStrElems xs of Some ss \<Rightarrow> decStrList ss vs | None \<Rightarrow> None)
      | _ \<Rightarrow> None)"

end
