(* ===== verification/Crypto.thy ===== *)
theory Crypto
  imports Prelude
begin

text \<open>
  \<open>crypto/sha256\<close> and \<open>crypto/hmac\<close> of the Go library, as FIPS 180-4 and RFC 2104 define them, and the
  two derived constructions the service writes itself: the tagged hash of \<open>taggedSHA256\<close> and the
  one-block HKDF of the cosigner derivations. The functions compute, but no proof of the development
  unfolds them: everything that is shown of a MAC rests on its length and on what it is applied to.
\<close>

unbundle bit_operations_syntax

section \<open>SHA-256\<close>

definition rotr32 :: "nat \<Rightarrow> u32 \<Rightarrow> u32" where
  "rotr32 n w = drop_bit n w OR push_bit (32 - n) w"

text \<open>FIPS 180-4 takes its constants from the first primes: the leading 32 bits of the fractional parts of the cube
  roots (\<open>sha256_K\<close>) and of the square roots (\<open>sha256_H0\<close>). \<open>iroot d n\<close> is the integer \<open>d\<close>-th root of
  \<open>n\<close>, found bit by bit from bit 39 down, which is enough for the roots taken here.\<close>

definition iroot :: "nat \<Rightarrow> nat \<Rightarrow> nat" where
  "iroot d n = fold (\<lambda>k r. if (r + 2 ^ k) ^ d \<le> n then r + 2 ^ k else r) (rev [0..<40]) 0"

definition first_primes :: "nat list" where
  "first_primes = filter (\<lambda>p. list_all (\<lambda>q. p mod q \<noteq> 0) [2..<p]) [2..<312]"

definition sha256_K :: "u32 list" where
  "sha256_K = map (\<lambda>p. word_of_nat (iroot 3 (p * 2 ^ 96))) first_primes"

definition sha256_H0 :: "u32 list" where
  "sha256_H0 = map (\<lambda>p. word_of_nat (iroot 2 (p * 2 ^ 64))) [2, 3, 5, 7, 11, 13, 17, 19]"

definition ssig0 :: "u32 \<Rightarrow> u32" where
  "ssig0 x = rotr32 7 x XOR rotr32 18 x XOR drop_bit 3 x"

definition ssig1 :: "u32 \<Rightarrow> u32" where
  "ssig1 x = rotr32 17 x XOR rotr32 19 x XOR drop_bit 10 x"

definition bsig0 :: "u32 \<Rightarrow> u32" where
  "bsig0 x = rotr32 2 x XOR rotr32 13 x XOR rotr32 22 x"

definition bsig1 :: "u32 \<Rightarrow> u32" where
  "bsig1 x = rotr32 6 x XOR rotr32 11 x XOR rotr32 25 x"

definition ch32 :: "u32 \<Rightarrow> u32 \<Rightarrow> u32 \<Rightarrow> u32" where
  "ch32 x y z = (x AND y) XOR (NOT x AND z)"

definition maj32 :: "u32 \<Rightarrow> u32 \<Rightarrow> u32 \<Rightarrow> u32" where
  "maj32 x y z = (x AND y) XOR (x AND z) XOR (y AND z)"

text \<open>The message schedule is kept in reverse: its head is the last word computed.\<close>

fun schedule :: "nat \<Rightarrow> u32 list \<Rightarrow> u32 list" where
  "schedule 0 w = w"
| "schedule (Suc n) w = schedule n ((ssig1 (w ! 1) + w ! 6 + ssig0 (w ! 14) + w ! 15) # w)"

fun sha_rounds :: "(u32 \<times> u32) list \<Rightarrow> u32 list \<Rightarrow> u32 list" where
  "sha_rounds ((k, w) # kws) [a, b, c, d, e, f, g, h] =
     (let t1 = h + bsig1 e + ch32 e f g + k + w;
          t2 = bsig0 a + maj32 a b c
      in sha_rounds kws [t1 + t2, a, b, c, d + t1, e, f, g])"
| "sha_rounds _ v = v"

fun word_of_be :: "bytes \<Rightarrow> u32" where
  "word_of_be [a, b, c, d] =
     push_bit 24 (ucast a) OR push_bit 16 (ucast b) OR push_bit 8 (ucast c) OR ucast d"
| "word_of_be _ = 0"

fun chunks :: "nat \<Rightarrow> nat \<Rightarrow> 'a list \<Rightarrow> 'a list list" where
  "chunks 0 n xs = []"
| "chunks (Suc k) n xs = take n xs # chunks k n (drop n xs)"

definition sha_block :: "u32 list \<Rightarrow> bytes \<Rightarrow> u32 list" where
  "sha_block h blk =
     (let w0 = map word_of_be (chunks 16 4 blk);
          w = rev (schedule 48 (rev w0))
      in map2 (+) h (sha_rounds (zip sha256_K w) h))"

definition sha_pad :: "bytes \<Rightarrow> bytes" where
  "sha_pad m = m @ [0x80] @ replicate ((119 - length m mod 64) mod 64) 0
                 @ be64 (word_of_nat (8 * length m))"

definition sha256 :: "bytes \<Rightarrow> bytes" where
  "sha256 m =
     (let p = sha_pad m in
      concat (map be32 (foldl sha_block sha256_H0 (chunks (length p div 64) 64 p))))"

lemma length_sha_rounds: "length v = 8 \<Longrightarrow> length (sha_rounds kws v) = 8"
  by (induction kws v rule: sha_rounds.induct) (auto simp: Let_def)

lemma length_sha_block: "length h = 8 \<Longrightarrow> length (sha_block h b) = 8"
  by (simp add: sha_block_def Let_def length_sha_rounds)

lemma length_sha_blocks: "length h = 8 \<Longrightarrow> length (foldl sha_block h bs) = 8"
  by (induction bs arbitrary: h) (auto simp: length_sha_block)

lemma length_sha256 [simp, enc_len]: "length (sha256 m) = 32"
proof -
  have "length (concat (map be32 ws)) = 4 * length ws" for ws :: "u32 list"
    by (induction ws) auto
  moreover have "length sha256_H0 = 8" by (simp add: sha256_H0_def)
  ultimately show ?thesis by (simp add: sha256_def Let_def length_sha_blocks)
qed

section \<open>HMAC and the derived constructions\<close>

definition hmac_key_block :: "bytes \<Rightarrow> bytes" where
  "hmac_key_block k =
     (let k' = (if length k > 64 then sha256 k else k) in k' @ replicate (64 - length k') 0)"

definition hmac_sha256 :: "bytes \<Rightarrow> bytes \<Rightarrow> bytes" where
  "hmac_sha256 key msg =
     (let kb = hmac_key_block key in
      sha256 (map (\<lambda>b. b XOR 0x5c) kb @ sha256 (map (\<lambda>b. b XOR 0x36) kb @ msg)))"

lemma length_hmac [simp, enc_len]: "length (hmac_sha256 k m) = 32"
  by (simp add: hmac_sha256_def Let_def)

text \<open>\<open>taggedSHA256\<close> of \<open>internal/policy/vtxo.go\<close>: the BIP340-style tagged hash.\<close>

definition taggedSHA256 :: "string \<Rightarrow> bytes \<Rightarrow> bytes" where
  "taggedSHA256 tag msg = (let th = sha256 (bytes_of tag) in sha256 (th @ th @ msg))"

lemma length_taggedSHA256 [simp, enc_len]: "length (taggedSHA256 t m) = 32"
  by (simp add: taggedSHA256_def Let_def)

end
