(* ===== verification/Program.thy ===== *)
theory Program
  imports Json Crypto
begin

text \<open>
  Package \<open>internal/program\<close>: the pins of the two product networks (\<open>pins.go\<close>, \<open>program.go\<close>), the
  exit-delay checks against them, the protection tiers (\<open>protection_tier.go\<close>) and the spending policy with
  its bounds, canonical JSON and digest (\<open>spending_policy.go\<close>). An error carries the format string of the
  source; the arguments of \<open>fmt.Errorf\<close> are not part of it.
\<close>

section \<open>Constants\<close>

definition NetworkMainnet :: string where "NetworkMainnet = ''mainnet''"
definition NetworkMutinynet :: string where "NetworkMutinynet = ''mutinynet''"
definition TxRecipientCapSats :: int where "TxRecipientCapSats = 50000"
definition PeriodAllowanceSats :: int where "PeriodAllowanceSats = 100000"
definition AbsoluteFeeCeiling :: int where "AbsoluteFeeCeiling = 5000"
definition FeerateCeilingSatPerV :: int where "FeerateCeilingSatPerV = 10"
definition DustSats :: int where "DustSats = 330"
definition PolicyVersion :: string where "PolicyVersion = ''vault-spending-policy-v1''"
definition VaultPolicyV1 :: string where "VaultPolicyV1 = ''vault-policy-v1''"
definition VaultPolicyV1ExitDelay :: u32 where "VaultPolicyV1ExitDelay = 4608"
definition VaultPolicyV1ExitDelayUnit :: string where "VaultPolicyV1ExitDelayUnit = ''seconds''"
definition VaultPolicyV1ArkdMinExitDelay :: u32 where "VaultPolicyV1ArkdMinExitDelay = 2048"
definition VaultPolicyV1BIP68SecondsMod :: u32 where "VaultPolicyV1BIP68SecondsMod = 512"
definition VaultBoardV1ExitDelay :: u32 where "VaultBoardV1ExitDelay = 604672"
definition VaultBoardV1ExitDelayUnit :: string where "VaultBoardV1ExitDelayUnit = ''seconds''"
definition VaultPolicyV1PinnedDelegate :: string where
  "VaultPolicyV1PinnedDelegate = ''032903b15efe236d9609da10e536fb32cdf1d144778797bbf32a9b94e86601be6a''"
definition VaultPolicyV1DelegateOrigin :: string where
  "VaultPolicyV1DelegateOrigin = ''https://delegator.mutinynet.arkade.sh''"
definition MainnetVaultPolicyV1ExitDelay :: u32 where "MainnetVaultPolicyV1ExitDelay = 605184"
definition MainnetVaultPolicyV1ArkdMinDelay :: u32 where "MainnetVaultPolicyV1ArkdMinDelay = 605184"
definition MainnetVaultBoardV1ExitDelay :: u32 where "MainnetVaultBoardV1ExitDelay = 7776256"
definition MainnetVaultPolicyV1PinnedDelegate :: string where
  "MainnetVaultPolicyV1PinnedDelegate = ''026d7d45360014bce9a8ad30a10c28dd1571a22a2e90c9682268404d37b5b114a6''"
definition MainnetVaultPolicyV1DelegateOrigin :: string where
  "MainnetVaultPolicyV1DelegateOrigin = ''https://delegate.arkade.money''"
definition MainnetAbsoluteFeeCeiling :: int where "MainnetAbsoluteFeeCeiling = 20000"
definition MainnetFeerateCeilingSatPerV :: int where "MainnetFeerateCeilingSatPerV = 25"

lemmas program_consts =
  NetworkMainnet_def NetworkMutinynet_def TxRecipientCapSats_def PeriodAllowanceSats_def
  AbsoluteFeeCeiling_def FeerateCeilingSatPerV_def DustSats_def PolicyVersion_def VaultPolicyV1_def
  VaultPolicyV1ExitDelay_def VaultPolicyV1ExitDelayUnit_def VaultPolicyV1ArkdMinExitDelay_def
  VaultPolicyV1BIP68SecondsMod_def VaultBoardV1ExitDelay_def VaultBoardV1ExitDelayUnit_def
  MainnetVaultPolicyV1ExitDelay_def MainnetVaultPolicyV1ArkdMinDelay_def MainnetVaultBoardV1ExitDelay_def
  MainnetAbsoluteFeeCeiling_def MainnetFeerateCeilingSatPerV_def

section \<open>Network pins\<close>

record NetworkPins =
  np_Network :: string
  np_PolicyExitDelay :: u32
  np_BoardExitDelay :: u32
  np_ArkdMinExitDelay :: u32
  np_DelegatePub :: string
  np_DelegateOrigin :: string
  np_AbsoluteFeeCeiling :: int
  np_FeerateCeilingSatPerV :: int

definition PinsFor :: "string \<Rightarrow> NetworkPins res" where
  "PinsFor network =
     (if network = NetworkMutinynet then Inr
        \<lparr> np_Network = NetworkMutinynet, np_PolicyExitDelay = VaultPolicyV1ExitDelay,
          np_BoardExitDelay = VaultBoardV1ExitDelay, np_ArkdMinExitDelay = VaultPolicyV1ArkdMinExitDelay,
          np_DelegatePub = VaultPolicyV1PinnedDelegate, np_DelegateOrigin = VaultPolicyV1DelegateOrigin,
          np_AbsoluteFeeCeiling = AbsoluteFeeCeiling, np_FeerateCeilingSatPerV = FeerateCeilingSatPerV \<rparr>
      else if network = NetworkMainnet then Inr
        \<lparr> np_Network = NetworkMainnet, np_PolicyExitDelay = MainnetVaultPolicyV1ExitDelay,
          np_BoardExitDelay = MainnetVaultBoardV1ExitDelay, np_ArkdMinExitDelay = MainnetVaultPolicyV1ArkdMinDelay,
          np_DelegatePub = MainnetVaultPolicyV1PinnedDelegate, np_DelegateOrigin = MainnetVaultPolicyV1DelegateOrigin,
          np_AbsoluteFeeCeiling = MainnetAbsoluteFeeCeiling, np_FeerateCeilingSatPerV = MainnetFeerateCeilingSatPerV \<rparr>
      else Inl (Err ''unsupported network %q''))"

definition ValidateVaultPolicyV1ExitDelayFor :: "string \<Rightarrow> u32 \<Rightarrow> string \<Rightarrow> unit res" where
  "ValidateVaultPolicyV1ExitDelayFor network delay unit =
     andThen (PinsFor network) (\<lambda>pins.
      if unit \<noteq> VaultPolicyV1ExitDelayUnit then Inl (Err ''vault-policy-v1 exit delay unit must be %s'')
      else if delay mod VaultPolicyV1BIP68SecondsMod \<noteq> 0
        then Inl (Err ''vault-policy-v1 exit delay must be a BIP68 seconds multiple of %d'')
      else if delay < np_ArkdMinExitDelay pins then Inl (Err ''vault-policy-v1 exit delay %d is below arkd minimum %d'')
      else if delay \<noteq> np_PolicyExitDelay pins then Inl (Err ''vault-policy-v1 exit delay is frozen at %d seconds'')
      else Inr ())"

definition ValidateVaultBoardV1ExitDelayFor :: "string \<Rightarrow> u32 \<Rightarrow> string \<Rightarrow> unit res" where
  "ValidateVaultBoardV1ExitDelayFor network delay unit =
     andThen (PinsFor network) (\<lambda>pins.
      if unit \<noteq> VaultBoardV1ExitDelayUnit then Inl (Err ''vault-board-v1 exit delay unit must be %s'')
      else if delay mod VaultPolicyV1BIP68SecondsMod \<noteq> 0
        then Inl (Err ''vault-board-v1 exit delay must be a BIP68 seconds multiple of %d'')
      else if delay \<noteq> np_BoardExitDelay pins then Inl (Err ''vault-board-v1 exit delay is frozen at %d seconds'')
      else Inr ())"

definition ValidateVaultBoardV1ExitDelay :: "u32 \<Rightarrow> string \<Rightarrow> unit res" where
  "ValidateVaultBoardV1ExitDelay delay unit =
     (if unit \<noteq> VaultBoardV1ExitDelayUnit then Inl (Err ''vault-board-v1 exit delay unit must be %s'')
      else if delay mod VaultPolicyV1BIP68SecondsMod \<noteq> 0
        then Inl (Err ''vault-board-v1 exit delay must be a BIP68 seconds multiple of %d'')
      else if delay \<noteq> VaultBoardV1ExitDelay then Inl (Err ''vault-board-v1 exit delay is frozen at %d seconds'')
      else Inr ())"

definition ValidateVaultPolicyV1ExitDelay :: "u32 \<Rightarrow> string \<Rightarrow> unit res" where
  "ValidateVaultPolicyV1ExitDelay delay unit =
     (if unit \<noteq> VaultPolicyV1ExitDelayUnit then Inl (Err ''vault-policy-v1 exit delay unit must be %s'')
      else if delay mod VaultPolicyV1BIP68SecondsMod \<noteq> 0
        then Inl (Err ''vault-policy-v1 exit delay must be a BIP68 seconds multiple of %d'')
      else if delay < VaultPolicyV1ArkdMinExitDelay then Inl (Err ''vault-policy-v1 exit delay %d is below arkd minimum %d'')
      else if delay \<noteq> VaultPolicyV1ExitDelay then Inl (Err ''vault-policy-v1 exit delay is frozen at %d seconds'')
      else Inr ())"

section \<open>Protection tiers\<close>

definition ProtectionTierLight :: string where "ProtectionTierLight = ''light''"
definition ProtectionTierStandard :: string where "ProtectionTierStandard = ''standard''"
definition ProtectionTierAdvanced :: string where "ProtectionTierAdvanced = ''advanced''"

lemmas tier_consts = ProtectionTierLight_def ProtectionTierStandard_def ProtectionTierAdvanced_def

definition ValidateProtectionTier :: "string \<Rightarrow> unit res" where
  "ValidateProtectionTier tier =
     (if tier \<in> {ProtectionTierLight, ProtectionTierStandard, ProtectionTierAdvanced} then Inr ()
      else Inl (Err ''unsupported protection tier %q''))"

definition ValidateProtectionTierRecovery :: "string \<Rightarrow> bool \<Rightarrow> unit res" where
  "ValidateProtectionTierRecovery tier hasRecovery =
     andThen (ValidateProtectionTier tier) (\<lambda>_.
       if (tier = ProtectionTierLight \<or> tier = ProtectionTierStandard) \<and> hasRecovery
         then Inl (Err ''%s protection must not include a recovery key'')
       else if tier = ProtectionTierAdvanced \<and> \<not> hasRecovery
         then Inl (Err ''advanced protection requires a recovery key'')
       else Inr ())"

section \<open>Spending policy\<close>

definition SpendingPolicyProgram :: string where "SpendingPolicyProgram = VaultPolicyV1"
definition SpendingPolicyPeriod :: string where "SpendingPolicyPeriod = ''rolling-24h''"
definition MinTxRecipientCapSats :: int where "MinTxRecipientCapSats = DustSats"
definition MaxTxRecipientCapSats :: int where "MaxTxRecipientCapSats = 100000000"
definition MinPeriodAllowanceSats :: int where "MinPeriodAllowanceSats = DustSats"
definition MaxPeriodAllowanceSats :: int where "MaxPeriodAllowanceSats = 1000000000"
definition MinAbsoluteFeeCapSats :: int where "MinAbsoluteFeeCapSats = 0"
definition MaxAbsoluteFeeCapSats :: int where "MaxAbsoluteFeeCapSats = 100000"
definition MinFeerateCapSatPerV :: int where "MinFeerateCapSatPerV = 1"
definition MaxFeerateCapSatPerV :: int where "MaxFeerateCapSatPerV = 100"

lemmas policy_consts =
  SpendingPolicyProgram_def SpendingPolicyPeriod_def MinTxRecipientCapSats_def MaxTxRecipientCapSats_def
  MinPeriodAllowanceSats_def MaxPeriodAllowanceSats_def MinAbsoluteFeeCapSats_def MaxAbsoluteFeeCapSats_def
  MinFeerateCapSatPerV_def MaxFeerateCapSatPerV_def

record SpendingPolicy =
  sp_Program :: string
  sp_Schema :: string
  sp_Period :: string
  sp_PeriodAllowanceSats :: int
  sp_TxRecipientCapSats :: int
  sp_AbsoluteFeeCapSats :: int
  sp_FeerateCapSatPerV :: int

record SpendingPolicyBounds =
  bd_Min :: int
  bd_Max :: int

record SpendingPolicyPreset =
  ps_ID :: string
  ps_Label :: string
  ps_Policy :: SpendingPolicy

record SpendingPolicyCapabilities =
  cap_Program :: string
  cap_Schema :: string
  cap_Period :: string
  cap_PeriodAllowanceSats :: SpendingPolicyBounds
  cap_TxRecipientCapSats :: SpendingPolicyBounds
  cap_AbsoluteFeeCapSats :: SpendingPolicyBounds
  cap_FeerateCapSatPerV :: SpendingPolicyBounds
  cap_Presets :: "SpendingPolicyPreset list"

definition DefaultSpendingPolicyFor :: "string \<Rightarrow> SpendingPolicy res" where
  "DefaultSpendingPolicyFor network =
     andThen (PinsFor network) (\<lambda>pins. Inr
       \<lparr> sp_Program = SpendingPolicyProgram, sp_Schema = PolicyVersion, sp_Period = SpendingPolicyPeriod,
         sp_PeriodAllowanceSats = PeriodAllowanceSats, sp_TxRecipientCapSats = TxRecipientCapSats,
         sp_AbsoluteFeeCapSats = np_AbsoluteFeeCeiling pins, sp_FeerateCapSatPerV = np_FeerateCeilingSatPerV pins \<rparr>)"

definition validatePolicyBound :: "int \<Rightarrow> int \<Rightarrow> int \<Rightarrow> unit res" where
  "validatePolicyBound value mn mx =
     (if value < mn \<or> value > mx then Inl (Err ''%s must be between %d and %d'') else Inr ())"

definition ValidateSpendingPolicyFor :: "string \<Rightarrow> SpendingPolicy \<Rightarrow> unit res" where
  "ValidateSpendingPolicyFor network p =
     andThen (PinsFor network) (\<lambda>pins.
     if sp_Program p \<noteq> SpendingPolicyProgram then Inl (Err ''spending policy program must be %s'')
     else if sp_Schema p \<noteq> PolicyVersion then Inl (Err ''spending policy schema must be %s'')
     else if sp_Period p \<noteq> SpendingPolicyPeriod then Inl (Err ''spending policy period must be %s'')
     else andThen (validatePolicyBound (sp_TxRecipientCapSats p) MinTxRecipientCapSats MaxTxRecipientCapSats) (\<lambda>_.
     andThen (validatePolicyBound (sp_PeriodAllowanceSats p) MinPeriodAllowanceSats MaxPeriodAllowanceSats) (\<lambda>_.
     if sp_PeriodAllowanceSats p < sp_TxRecipientCapSats p
       then Inl (Err ''period allowance must be at least the transaction recipient cap'')
     else andThen (validatePolicyBound (sp_AbsoluteFeeCapSats p) MinAbsoluteFeeCapSats MaxAbsoluteFeeCapSats) (\<lambda>_.
     if sp_AbsoluteFeeCapSats p \<noteq> np_AbsoluteFeeCeiling pins
       then Inl (Err ''absolute fee cap must match the release value %d'')
     else andThen (validatePolicyBound (sp_FeerateCapSatPerV p) MinFeerateCapSatPerV MaxFeerateCapSatPerV) (\<lambda>_.
     if sp_FeerateCapSatPerV p \<noteq> np_FeerateCeilingSatPerV pins
       then Inl (Err ''feerate cap must match the release value %d'')
     else Inr ())))))"

text \<open>\<open>json.Marshal\<close> of the struct, in declaration order.\<close>

definition marshalSpendingPolicy :: "SpendingPolicy \<Rightarrow> string" where
  "marshalSpendingPolicy p = jsonStruct
     (strField ''program'' (sp_Program p) @ strField ''schema'' (sp_Schema p) @ strField ''period'' (sp_Period p) @
      intField ''periodAllowanceSats'' (sp_PeriodAllowanceSats p) @
      intField ''txRecipientCapSats'' (sp_TxRecipientCapSats p) @
      intField ''absoluteFeeCapSats'' (sp_AbsoluteFeeCapSats p) @
      intField ''feerateCapSatPerV'' (sp_FeerateCapSatPerV p))"

definition CanonicalSpendingPolicyJSONFor :: "string \<Rightarrow> SpendingPolicy \<Rightarrow> bytes res" where
  "CanonicalSpendingPolicyJSONFor network p =
     andThen (ValidateSpendingPolicyFor network p) (\<lambda>_. Inr (bytes_of (marshalSpendingPolicy p)))"

definition SpendingPolicyDigestFor :: "string \<Rightarrow> SpendingPolicy \<Rightarrow> bytes res" where
  "SpendingPolicyDigestFor network p =
     andThen (CanonicalSpendingPolicyJSONFor network p) (\<lambda>raw. Inr (sha256 raw))"

definition SpendingPolicyDigestHexFor :: "string \<Rightarrow> SpendingPolicy \<Rightarrow> string res" where
  "SpendingPolicyDigestHexFor network p =
     andThen (SpendingPolicyDigestFor network p) (\<lambda>digest. Inr (hexEncode digest))"

text \<open>\<open>SpendingPolicyFromValues\<close> starts from the Mutinynet default; the panic of \<open>DefaultSpendingPolicy\<close>
  is the error branch, and \<open>DefaultSpendingPolicy_ok\<close> below shows that it is never taken.\<close>

definition DefaultSpendingPolicy :: "SpendingPolicy res" where
  "DefaultSpendingPolicy = DefaultSpendingPolicyFor NetworkMutinynet"

definition SpendingPolicyFromValues :: "int \<Rightarrow> int \<Rightarrow> int \<Rightarrow> int \<Rightarrow> SpendingPolicy res" where
  "SpendingPolicyFromValues txCap allowance feeCap feerate =
     andThen DefaultSpendingPolicy (\<lambda>p. Inr
       (p \<lparr> sp_TxRecipientCapSats := txCap, sp_PeriodAllowanceSats := allowance,
            sp_AbsoluteFeeCapSats := feeCap, sp_FeerateCapSatPerV := feerate \<rparr>))"

definition CurrentSpendingPolicyCapabilitiesFor :: "string \<Rightarrow> SpendingPolicyCapabilities res" where
  "CurrentSpendingPolicyCapabilitiesFor network =
     andThen (PinsFor network) (\<lambda>pins.
     andThen (DefaultSpendingPolicyFor network) (\<lambda>everyday.
     andThen (SpendingPolicyFromValues 25000 50000 (np_AbsoluteFeeCeiling pins) (np_FeerateCeilingSatPerV pins)) (\<lambda>lower.
     Inr \<lparr> cap_Program = SpendingPolicyProgram, cap_Schema = PolicyVersion, cap_Period = SpendingPolicyPeriod,
           cap_PeriodAllowanceSats = \<lparr> bd_Min = MinPeriodAllowanceSats, bd_Max = MaxPeriodAllowanceSats \<rparr>,
           cap_TxRecipientCapSats = \<lparr> bd_Min = MinTxRecipientCapSats, bd_Max = MaxTxRecipientCapSats \<rparr>,
           cap_AbsoluteFeeCapSats = \<lparr> bd_Min = np_AbsoluteFeeCeiling pins, bd_Max = np_AbsoluteFeeCeiling pins \<rparr>,
           cap_FeerateCapSatPerV = \<lparr> bd_Min = np_FeerateCeilingSatPerV pins, bd_Max = np_FeerateCeilingSatPerV pins \<rparr>,
           cap_Presets =
             [ \<lparr> ps_ID = ''lower-exposure'', ps_Label = ''Lower exposure'', ps_Policy = lower \<rparr>,
               \<lparr> ps_ID = ''everyday'', ps_Label = ''Everyday'', ps_Policy = everyday \<rparr> ] \<rparr>)))"

section \<open>Lemmas\<close>

lemma PinsFor_cases:
  assumes "PinsFor network = Inr pins"
  obtains "network = NetworkMutinynet" "np_AbsoluteFeeCeiling pins = AbsoluteFeeCeiling"
      "np_FeerateCeilingSatPerV pins = FeerateCeilingSatPerV"
    | "network = NetworkMainnet" "np_AbsoluteFeeCeiling pins = MainnetAbsoluteFeeCeiling"
      "np_FeerateCeilingSatPerV pins = MainnetFeerateCeilingSatPerV"
  using assms by (auto simp: PinsFor_def split: if_splits)

lemma validatePolicyBound_ok [simp]: "validatePolicyBound v a b = Inr () \<longleftrightarrow> a \<le> v \<and> v \<le> b"
  by (auto simp: validatePolicyBound_def)

lemma ValidateSpendingPolicyFor_ok_iff:
  "ValidateSpendingPolicyFor network p = Inr () \<longleftrightarrow>
     (\<exists>pins. PinsFor network = Inr pins \<and>
        sp_Program p = SpendingPolicyProgram \<and> sp_Schema p = PolicyVersion \<and> sp_Period p = SpendingPolicyPeriod \<and>
        DustSats \<le> sp_TxRecipientCapSats p \<and> sp_TxRecipientCapSats p \<le> MaxTxRecipientCapSats \<and>
        sp_TxRecipientCapSats p \<le> sp_PeriodAllowanceSats p \<and> sp_PeriodAllowanceSats p \<le> MaxPeriodAllowanceSats \<and>
        sp_AbsoluteFeeCapSats p = np_AbsoluteFeeCeiling pins \<and> sp_FeerateCapSatPerV p = np_FeerateCeilingSatPerV pins)"
  (is "?L \<longleftrightarrow> ?R")
proof
  assume ?L
  then show ?R
    by (auto simp: ValidateSpendingPolicyFor_def andThen_Inr_iff MinTxRecipientCapSats_def split: if_splits)
next
  assume ?R
  then obtain pins where p: "PinsFor network = Inr pins" "sp_Program p = SpendingPolicyProgram"
      "sp_Schema p = PolicyVersion" "sp_Period p = SpendingPolicyPeriod"
      "DustSats \<le> sp_TxRecipientCapSats p" "sp_TxRecipientCapSats p \<le> MaxTxRecipientCapSats"
      "sp_TxRecipientCapSats p \<le> sp_PeriodAllowanceSats p" "sp_PeriodAllowanceSats p \<le> MaxPeriodAllowanceSats"
      "sp_AbsoluteFeeCapSats p = np_AbsoluteFeeCeiling pins" "sp_FeerateCapSatPerV p = np_FeerateCeilingSatPerV pins"
    by auto
  from p(1) show ?L
    by (rule PinsFor_cases)
      (use p in \<open>simp_all add: ValidateSpendingPolicyFor_def andThen_Inr_iff policy_consts program_consts\<close>)
qed

lemma DefaultSpendingPolicy_ok: "\<exists>p. DefaultSpendingPolicy = Inr p"
  by (simp add: DefaultSpendingPolicy_def DefaultSpendingPolicyFor_def PinsFor_def)

lemma comma_split:
  assumes "c \<notin> set a" "c \<notin> set b" "a @ c # x = b @ c # y"
  shows "a = b \<and> x = y"
  using assms by (induction a arbitrary: b) (auto simp: Cons_eq_append_conv append_eq_Cons_conv)

lemma showInt_chars: "c \<in> set (showInt n) \<Longrightarrow> isDigitChar c \<or> c = CHR ''-''"
  using showNat_digits by (auto simp: showInt_def split: if_splits)

lemma showInt_sep [simp]: "CHR '','' \<notin> set (showInt n)" "CHR ''}'' \<notin> set (showInt n)"
  by (auto dest!: showInt_chars simp: isDigitChar_def digitVal_def)

lemma showInt_inject [simp]: "showInt a = showInt b \<longleftrightarrow> a = b"
proof
  assume eq: "showInt a = showInt b"
  have no: "showNat n \<noteq> CHR ''-'' # s" for n s
    using showNat_digits [of "CHR ''-''" n] by (auto simp: isDigitChar_def digitVal_def)
  from eq no [of "nat a"] no [of "nat b"] show "a = b"
    by (auto simp: showInt_def split: if_splits dest: sym)
qed simp

lemma jsonStruct_ints_inject:
  assumes "jsonStruct (fs @ intField k1 a1 @ intField k2 b1 @ intField k3 c1 @ intField k4 d1) =
           jsonStruct (fs @ intField k1 a2 @ intField k2 b2 @ intField k3 c2 @ intField k4 d2)"
  shows "a1 = a2 \<and> b1 = b2 \<and> c1 = c2 \<and> d1 = d2"
proof -
  have join: "joinWith '','' (xs @ y # ys) =
      (if xs = [] then [] else joinWith '','' xs @ '','') @ joinWith '','' (y # ys)" for xs y ys
    by (induction "'',''" xs rule: joinWith.induct) (auto simp: neq_Nil_conv)
  have "showInt a1 @ CHR '','' # jsonString k2 @ '':'' @ showInt b1 @ CHR '','' # jsonString k3 @ '':'' @ showInt c1
          @ CHR '','' # jsonString k4 @ '':'' @ showInt d1 @ ''}'' =
        showInt a2 @ CHR '','' # jsonString k2 @ '':'' @ showInt b2 @ CHR '','' # jsonString k3 @ '':'' @ showInt c2
          @ CHR '','' # jsonString k4 @ '':'' @ showInt d2 @ ''}''"
    using assms by (simp add: jsonStruct_def intField_def join)
  then have "showInt a1 = showInt a2" and
    "showInt b1 @ CHR '','' # jsonString k3 @ '':'' @ showInt c1 @ CHR '','' # jsonString k4 @ '':'' @ showInt d1 @ ''}'' =
     showInt b2 @ CHR '','' # jsonString k3 @ '':'' @ showInt c2 @ CHR '','' # jsonString k4 @ '':'' @ showInt d2 @ ''}''"
    by (auto dest!: comma_split [rotated 2])
  moreover from this(2) have "showInt b1 = showInt b2" and
    "showInt c1 @ CHR '','' # jsonString k4 @ '':'' @ showInt d1 @ ''}'' =
     showInt c2 @ CHR '','' # jsonString k4 @ '':'' @ showInt d2 @ ''}''"
    by (auto dest!: comma_split [rotated 2])
  moreover from this(2) have "showInt c1 = showInt c2" "showInt d1 = showInt d2"
    by (auto dest!: comma_split [rotated 2])
  ultimately show ?thesis by simp
qed

section \<open>Properties\<close>

text \<open>
  A policy exit delay is accepted for a network exactly when the network is a product network, the unit is
  seconds and the delay is that network's pin. In particular both pins pass the BIP68 and arkd-minimum checks
  that come before the comparison with the pin, so the release can enroll at all.
\<close>

theorem exit_delay_pinned:
  "ValidateVaultPolicyV1ExitDelayFor network delay unit = Inr () \<longleftrightarrow>
     unit = ''seconds'' \<and> (network = ''mutinynet'' \<and> delay = 4608 \<or> network = ''mainnet'' \<and> delay = 605184)"
  by (auto simp: ValidateVaultPolicyV1ExitDelayFor_def PinsFor_def program_consts andThen_Inr_iff split: if_splits)

text \<open>
  On one network, two policies with the same canonical JSON are the same policy: the digest enrolled for a
  vault commits to every field of its spending policy (up to collisions of SHA-256).
\<close>

theorem spending_policy_json_injective:
  assumes "CanonicalSpendingPolicyJSONFor network p = Inr raw"
    and "CanonicalSpendingPolicyJSONFor network q = Inr raw"
  shows "p = q"
proof -
  from assms have v: "ValidateSpendingPolicyFor network p = Inr ()" "ValidateSpendingPolicyFor network q = Inr ()"
    and "marshalSpendingPolicy p = marshalSpendingPolicy q"
    by (auto simp: CanonicalSpendingPolicyJSONFor_def andThen_Inr_iff)
  moreover from v have "sp_Program p = sp_Program q" "sp_Schema p = sp_Schema q" "sp_Period p = sp_Period q"
    by (auto simp: ValidateSpendingPolicyFor_ok_iff)
  ultimately show ?thesis
    using jsonStruct_ints_inject [of
        "strField ''program'' (sp_Program q) @ strField ''schema'' (sp_Schema q) @ strField ''period'' (sp_Period q)"]
    by (auto simp: marshalSpendingPolicy_def intro!: SpendingPolicy.equality)
qed

theorem spending_policy_json_injective_witness:
  "\<exists>p raw. DefaultSpendingPolicyFor ''mainnet'' = Inr p \<and> CanonicalSpendingPolicyJSONFor ''mainnet'' p = Inr raw \<and>
     (\<forall>q. CanonicalSpendingPolicyJSONFor ''mainnet'' q = Inr raw \<longrightarrow> p = q)"
proof -
  obtain p where p: "DefaultSpendingPolicyFor ''mainnet'' = Inr p" "ValidateSpendingPolicyFor ''mainnet'' p = Inr ()"
    by (auto simp: DefaultSpendingPolicyFor_def ValidateSpendingPolicyFor_ok_iff PinsFor_def program_consts policy_consts)
  then have raw: "CanonicalSpendingPolicyJSONFor ''mainnet'' p = Inr (bytes_of (marshalSpendingPolicy p))"
    by (simp add: CanonicalSpendingPolicyJSONFor_def)
  with p(1) show ?thesis using spending_policy_json_injective [OF raw] by blast
qed

text \<open>
  On each product network the capabilities are computed without error, and every preset they offer passes
  the validation of that network and lies within the bounds they publish.
\<close>

theorem capabilities_presets_valid:
  assumes "network \<in> {NetworkMutinynet, NetworkMainnet}"
  shows "\<exists>caps. CurrentSpendingPolicyCapabilitiesFor network = Inr caps \<and> cap_Presets caps \<noteq> [] \<and>
    (\<forall>ps\<in>set (cap_Presets caps). ValidateSpendingPolicyFor network (ps_Policy ps) = Inr () \<and>
       bd_Min (cap_PeriodAllowanceSats caps) \<le> sp_PeriodAllowanceSats (ps_Policy ps) \<and>
       sp_PeriodAllowanceSats (ps_Policy ps) \<le> bd_Max (cap_PeriodAllowanceSats caps) \<and>
       bd_Min (cap_TxRecipientCapSats caps) \<le> sp_TxRecipientCapSats (ps_Policy ps) \<and>
       sp_TxRecipientCapSats (ps_Policy ps) \<le> bd_Max (cap_TxRecipientCapSats caps))"
  using assms
  by (auto simp: CurrentSpendingPolicyCapabilitiesFor_def SpendingPolicyFromValues_def DefaultSpendingPolicy_def
      DefaultSpendingPolicyFor_def ValidateSpendingPolicyFor_ok_iff PinsFor_def program_consts policy_consts)

theorem capabilities_presets_valid_witness:
  "\<exists>caps. CurrentSpendingPolicyCapabilitiesFor ''mainnet'' = Inr caps \<and> cap_Presets caps \<noteq> []"
  using capabilities_presets_valid [of "''mainnet''"] by (auto simp: NetworkMainnet_def)

end
