(* ===== verification/Vtxo.thy ===== *)
theory Vtxo
  imports Program "HOL-Library.Multiset"
begin

text \<open>
  The rows of the spend ledger and what authenticates them (\<open>internal/policy/vtxo.go\<close>): the canonical
  encodings of an operation and of a reserved input, their HMAC seals, the canonical order of a bundle, the
  bundle, reserve and abort digests, and the state predicates. The locale \<open>sealed_row\<close> is the contract every
  authenticated row type of the ledger keeps; it is interpreted here for operations and for inputs.
\<close>

section \<open>Length-prefixed fields\<close>

definition appendCredentialField :: "bytes \<Rightarrow> bytes \<Rightarrow> bytes res" where
  "appendCredentialField dst field =
     (if length field > 4294967295 then Inl (Err ''policy field too large'')
      else Inr (dst @ le32 (u32_len field) @ field))"

text \<open>\<open>for _, field := range fields { out, err = appendCredentialField(out, field) }\<close>\<close>

definition appendFields :: "bytes \<Rightarrow> bytes list \<Rightarrow> bytes res" where
  "appendFields dst fs = foldRes appendCredentialField dst fs"

definition credField :: "bytes \<Rightarrow> bytes" where
  "credField field = le32 (u32_len field) @ field"

lemma appendFields_Inr_iff:
  "appendFields dst fs = Inr out \<longleftrightarrow> (\<forall>f\<in>set fs. length f \<le> 4294967295) \<and> out = dst @ concat (map credField fs)"
  unfolding appendFields_def
  by (induction fs arbitrary: dst) (auto simp: andThen_Inr_iff appendCredentialField_def credField_def)

lemma credField_split:
  assumes "length f \<le> 4294967295" "length g \<le> 4294967295" "credField f @ x = credField g @ y"
  shows "f = g \<and> x = y"
proof -
  from assms(3) have "u32_len f = u32_len g" and rest: "f @ x = g @ y"
    unfolding credField_def append_assoc by (simp_all add: append_split_eq)
  with assms(1,2) have "length f = length g" using u32_len_inject [of f g] by simp
  with rest show ?thesis by simp
qed

lemma credFields_split [enc_inj]:
  assumes "length fs = length gs" "\<forall>f\<in>set fs. length f \<le> 4294967295" "\<forall>f\<in>set gs. length f \<le> 4294967295"
    "concat (map credField fs) @ x = concat (map credField gs) @ y"
  shows "fs = gs \<and> x = y"
  using assms
proof (induction fs gs rule: list_induct2)
  case (Cons f fs g gs)
  from Cons.prems have "f = g \<and> concat (map credField fs) @ x = concat (map credField gs) @ y"
    by (intro credField_split) auto
  with Cons.IH Cons.prems show ?case by auto
qed simp

section \<open>Rows\<close>

definition vtxoPurposeSpend :: string where "vtxoPurposeSpend = ''spend''"
definition vtxoStateReserved :: string where "vtxoStateReserved = ''reserved''"
definition vtxoStateSigned :: string where "vtxoStateSigned = ''signed''"
definition vtxoStateSubmitted :: string where "vtxoStateSubmitted = ''submitted''"
definition vtxoStateFinalized :: string where "vtxoStateFinalized = ''finalized''"
definition vtxoStateAborted :: string where "vtxoStateAborted = ''aborted''"
definition vtxoStateUnresolved :: string where "vtxoStateUnresolved = ''unresolved''"
definition VtxoFeePolicyDigestTag :: string where "VtxoFeePolicyDigestTag = ''arkade-vault/arkade-intent-fee-policy/v1''"
definition MaxVtxoOperationInputs :: nat where "MaxVtxoOperationInputs = 50"
definition vtxoOperationCanonicalVer :: u32 where "vtxoOperationCanonicalVer = 2"
definition vtxoOperationInputKind :: string where "vtxoOperationInputKind = ''input''"
definition vtxoOperationMACDomain :: string where "vtxoOperationMACDomain = ''arkade-2fa-vault/vtxo-operation/v1''"
definition vtxoBundleDigestTag :: string where "vtxoBundleDigestTag = ''arkade-2fa-vault/vtxo-bundle/v1''"
definition vtxoReserveDigestTag :: string where "vtxoReserveDigestTag = ''arkade-vault/vtxo-reserve/v1''"
definition vtxoAbortDigestTag :: string where "vtxoAbortDigestTag = ''arkade-vault/vtxo-abort/v1''"

lemmas vtxo_states = vtxoStateReserved_def vtxoStateSigned_def vtxoStateSubmitted_def vtxoStateFinalized_def
  vtxoStateAborted_def vtxoStateUnresolved_def

record VtxoOperation =
  op_OperationID :: string
  op_VaultID :: string
  op_Purpose :: string
  op_BundleDigest :: bytes
  op_State :: string
  op_AmountSats :: int
  op_FeeSats :: int
  op_FeePolicyDigest :: bytes
  op_DestScript :: bytes
  op_ChangeScript :: bytes
  op_ChangeSats :: int
  op_ChangeVout :: "u32 option"
  op_UnsignedPSBT :: string
  op_AuthorizedPSBT :: string
  op_PendingProofDigest :: bytes
  op_AuthorizedPendingProof :: string
  op_CheckpointPSBTs :: string
  op_CheckpointRequestPSBTs :: string
  op_CheckpointTapscript :: bytes
  op_ArkTxid :: string
  op_ExpiresAt :: string
  op_CreatedAt :: string
  op_LastDestScript :: bytes
  op_IntegrityMAC :: bytes

record VtxoOperationInput =
  vi_OperationID :: string
  vi_Txid :: bytes
  vi_Vout :: int
  vi_ValueSats :: int
  vi_Script :: bytes
  vi_IntegrityMAC :: bytes

record VtxoBundleInput =
  bi_Txid :: bytes
  bi_Vout :: u32
  bi_ValueSats :: u64

section \<open>State predicates\<close>

definition requireVtxoState :: "string \<Rightarrow> unit res" where
  "requireVtxoState state =
     (if state \<in> {vtxoStateReserved, vtxoStateSigned, vtxoStateSubmitted, vtxoStateFinalized, vtxoStateAborted,
                  vtxoStateUnresolved} then Inr ()
      else Inl (Err ''unknown vtxo operation state''))"

definition vtxoStateCountsTowardAllowance :: "string \<Rightarrow> bool" where
  "vtxoStateCountsTowardAllowance state \<longleftrightarrow>
     state \<in> {vtxoStateReserved, vtxoStateSigned, vtxoStateSubmitted, vtxoStateFinalized, vtxoStateUnresolved}"

definition vtxoStateAwaitingSettlement :: "string \<Rightarrow> bool" where
  "vtxoStateAwaitingSettlement state \<longleftrightarrow> state = vtxoStateSigned \<or> state = vtxoStateSubmitted"

definition vtxoStateBlocksNewOperation :: "string \<Rightarrow> bool" where
  "vtxoStateBlocksNewOperation state \<longleftrightarrow>
     state \<in> {vtxoStateReserved, vtxoStateSigned, vtxoStateSubmitted, vtxoStateUnresolved}"

definition vtxoStateLocksInputs :: "string \<Rightarrow> bool" where
  "vtxoStateLocksInputs state \<longleftrightarrow>
     state \<in> {vtxoStateReserved, vtxoStateSigned, vtxoStateSubmitted, vtxoStateFinalized}"

lemmas vtxo_state_preds = requireVtxoState_def vtxoStateCountsTowardAllowance_def vtxoStateAwaitingSettlement_def
  vtxoStateBlocksNewOperation_def vtxoStateLocksInputs_def

section \<open>Canonical encodings\<close>

text \<open>The optional change index: a zero byte, or a one byte and the index.\<close>

definition encVout :: "u32 option \<Rightarrow> bytes" where
  "encVout v = (case v of None \<Rightarrow> [0] | Some i \<Rightarrow> 1 # le32 i)"

definition changeShape :: "int \<Rightarrow> u32 option \<Rightarrow> bytes \<Rightarrow> unit res" where
  "changeShape sats vout script =
     (if sats = 0 then
        (if vout \<noteq> None \<or> script \<noteq> [] then Inl (Err ''invalid no-change shape'') else Inr ())
      else if sats < DustSats \<or> vout = None \<or> vout \<noteq> Some 1 \<or> script = [] then Inl (Err ''invalid change shape'')
      else Inr ())"

definition canonicalVtxoOperation :: "VtxoOperation \<Rightarrow> bytes res" where
  "canonicalVtxoOperation r =
     (if op_OperationID r = [] \<or> op_VaultID r = [] then Inl (Err ''vtxo operation identity required'')
      else if op_Purpose r \<noteq> vtxoPurposeSpend then Inl (Err ''vtxo purpose must be spend'')
      else andThen (requireVtxoState (op_State r)) (\<lambda>_.
      if length (op_BundleDigest r) \<noteq> 32 then Inl (Err ''bundle digest must be 32 bytes'')
      else if op_AmountSats r < 0 \<or> op_FeeSats r < 0 \<or> op_ChangeSats r < 0 then Inl (Err ''negative vtxo outflow'')
      else if length (op_FeePolicyDigest r) \<noteq> 32 then Inl (Err ''fee policy digest must be 32 bytes'')
      else if (op_PendingProofDigest r = []) \<noteq> (op_AuthorizedPendingProof r = [])
        then Inl (Err ''pending proof persistence must be all-or-nothing'')
      else if op_PendingProofDigest r \<noteq> [] \<and> length (op_PendingProofDigest r) \<noteq> 32
        then Inl (Err ''pending proof digest must be 32 bytes'')
      else andThen (changeShape (op_ChangeSats r) (op_ChangeVout r) (op_ChangeScript r)) (\<lambda>_.
      andThen (appendCredentialField [] (bytes_of vtxoOperationMACDomain)) (\<lambda>out.
      andThen (appendFields (out @ le32 vtxoOperationCanonicalVer)
        [ bytes_of (op_OperationID r), bytes_of (op_VaultID r), bytes_of (op_Purpose r),
          op_BundleDigest r, bytes_of (op_State r), op_FeePolicyDigest r, op_DestScript r, op_ChangeScript r,
          bytes_of (op_UnsignedPSBT r), bytes_of (op_AuthorizedPSBT r),
          op_PendingProofDigest r, bytes_of (op_AuthorizedPendingProof r),
          bytes_of (op_CheckpointPSBTs r), bytes_of (op_CheckpointRequestPSBTs r), op_CheckpointTapscript r,
          bytes_of (op_ArkTxid r), bytes_of (op_ExpiresAt r), bytes_of (op_CreatedAt r), op_LastDestScript r ])
        (\<lambda>out. Inr (out @ le64 (u64_of (op_AmountSats r)) @ le64 (u64_of (op_FeeSats r)) @
                  le64 (u64_of (op_ChangeSats r)) @ encVout (op_ChangeVout r)))))))"

definition canonicalVtxoOperationInput :: "VtxoOperationInput \<Rightarrow> bytes res" where
  "canonicalVtxoOperationInput r =
     (if vi_OperationID r = [] then Inl (Err ''vtxo operation id required'')
      else if length (vi_Txid r) \<noteq> 32 then Inl (Err ''vtxo input txid must be 32 bytes'')
      else if vi_Vout r < 0 then Inl (Err ''vtxo input vout'')
      else if vi_ValueSats r < 0 then Inl (Err ''negative vtxo input value'')
      else andThen (appendCredentialField [] (bytes_of vtxoOperationMACDomain)) (\<lambda>out.
      andThen (appendCredentialField (out @ le32 vtxoOperationCanonicalVer) (bytes_of vtxoOperationInputKind)) (\<lambda>out.
      andThen (appendCredentialField out (bytes_of (vi_OperationID r))) (\<lambda>out.
      andThen (appendCredentialField out (vi_Txid r)) (\<lambda>out.
      appendCredentialField (out @ le32 (word_of_int (vi_Vout r)) @ le64 (u64_of (vi_ValueSats r))) (vi_Script r))))))"

section \<open>Seals\<close>

definition vtxoOperationMAC :: "VtxoOperation \<Rightarrow> bytes \<Rightarrow> bytes res" where
  "vtxoOperationMAC r key =
     (if length key \<noteq> 32 then Inl (Err ''vtxo operation integrity key must be 32 bytes'')
      else andThen (canonicalVtxoOperation r) (\<lambda>payload. Inr (hmac_sha256 key payload)))"

definition vtxoOperationInputMAC :: "VtxoOperationInput \<Rightarrow> bytes \<Rightarrow> bytes res" where
  "vtxoOperationInputMAC r key =
     (if length key \<noteq> 32 then Inl (Err ''vtxo operation integrity key must be 32 bytes'')
      else andThen (canonicalVtxoOperationInput r) (\<lambda>payload. Inr (hmac_sha256 key payload)))"

definition SealVtxoOperation :: "VtxoOperation \<Rightarrow> bytes \<Rightarrow> VtxoOperation res" where
  "SealVtxoOperation r key = andThen (vtxoOperationMAC r key) (\<lambda>mac. Inr (r \<lparr> op_IntegrityMAC := mac \<rparr>))"

definition VerifyVtxoOperation :: "VtxoOperation \<Rightarrow> bytes \<Rightarrow> unit res" where
  "VerifyVtxoOperation r key =
     (if length (op_IntegrityMAC r) \<noteq> 32 then Inl (Err ''vtxo operation integrity MAC missing or malformed'')
      else andThen (vtxoOperationMAC r key) (\<lambda>want.
        if op_IntegrityMAC r \<noteq> want then Inl (Err ''vtxo operation integrity MAC mismatch'') else Inr ()))"

definition SealVtxoOperationInput :: "VtxoOperationInput \<Rightarrow> bytes \<Rightarrow> VtxoOperationInput res" where
  "SealVtxoOperationInput r key = andThen (vtxoOperationInputMAC r key) (\<lambda>mac. Inr (r \<lparr> vi_IntegrityMAC := mac \<rparr>))"

definition VerifyVtxoOperationInput :: "VtxoOperationInput \<Rightarrow> bytes \<Rightarrow> unit res" where
  "VerifyVtxoOperationInput r key =
     (if length (vi_IntegrityMAC r) \<noteq> 32 then Inl (Err ''vtxo operation input integrity MAC missing or malformed'')
      else andThen (vtxoOperationInputMAC r key) (\<lambda>want.
        if vi_IntegrityMAC r \<noteq> want then Inl (Err ''vtxo operation input integrity MAC mismatch'') else Inr ()))"

section \<open>Canonical bundles and digests\<close>

definition canonicalVtxoTxid :: "bytes \<Rightarrow> (string \<times> bytes) res" where
  "canonicalVtxoTxid txid =
     (if length txid = 32 then Inr (hexEncode txid, txid)
      else if length txid = 64 then
        (case hexDecode (toLower (string_of txid)) of
           None \<Rightarrow> Inl (Err ''vtxo input txid must be 32 bytes or 64 hex chars'')
         | Some decoded \<Rightarrow>
             if length decoded \<noteq> 32 then Inl (Err ''vtxo input txid must be 32 bytes or 64 hex chars'')
             else Inr (hexEncode decoded, decoded))
      else Inl (Err ''vtxo input txid must be 32 bytes or 64 hex chars''))"

text \<open>\<open>sort.SliceStable\<close>, as insertion: an element goes before the first one that is not less than it, so
  equal elements keep their order.\<close>

fun insertStable :: "('a \<Rightarrow> 'a \<Rightarrow> bool) \<Rightarrow> 'a \<Rightarrow> 'a list \<Rightarrow> 'a list" where
  "insertStable lt x [] = [x]"
| "insertStable lt x (y # ys) = (if lt y x then y # insertStable lt x ys else x # y # ys)"

fun sliceStable :: "('a \<Rightarrow> 'a \<Rightarrow> bool) \<Rightarrow> 'a list \<Rightarrow> 'a list" where
  "sliceStable lt [] = []"
| "sliceStable lt (x # xs) = insertStable lt x (sliceStable lt xs)"

type_synonym keyed = "VtxoBundleInput \<times> string"

text \<open>The loop over the inputs: each is normalised, and a key seen before is an error.\<close>

fun keyBundleInputs :: "string list \<Rightarrow> VtxoBundleInput list \<Rightarrow> keyed list res" where
  "keyBundleInputs seen [] = Inr []"
| "keyBundleInputs seen (i # rest) =
     andThen (canonicalVtxoTxid (bi_Txid i)) (\<lambda>(canon, raw).
       (let key = canon @ '':'' @ showNat (unat (bi_Vout i)) in
        if key \<in> set seen then Inl (Err ''duplicate vtxo outpoint'')
        else andThen (keyBundleInputs (key # seen) rest) (\<lambda>ks. Inr ((i \<lparr> bi_Txid := raw \<rparr>, canon) # ks))))"

definition keyedLess :: "keyed \<Rightarrow> keyed \<Rightarrow> bool" where
  "keyedLess a b \<longleftrightarrow> (if snd a \<noteq> snd b then snd a < snd b else bi_Vout (fst a) < bi_Vout (fst b))"

definition CanonicalVtxoBundleInputs :: "VtxoBundleInput list \<Rightarrow> VtxoBundleInput list res" where
  "CanonicalVtxoBundleInputs inputs =
     (if length inputs > 65535 then Inl (Err ''too many vtxo inputs'')
      else andThen (keyBundleInputs [] inputs) (\<lambda>ordered. Inr (map fst (sliceStable keyedLess ordered))))"

definition encBundleInput :: "VtxoBundleInput \<Rightarrow> bytes" where
  "encBundleInput i = bi_Txid i @ le32 (bi_Vout i) @ le64 (bi_ValueSats i)"

record BundleTerms =
  bt_Purpose :: string
  bt_VaultID :: string
  bt_DestScript :: bytes
  bt_ChangeScript :: bytes
  bt_AmountSats :: u64
  bt_FeeSats :: u64
  bt_ChangeSats :: u64
  bt_ChangeVout :: "u32 option"
  bt_FeePolicyDigest :: bytes
  bt_CreatedAt :: string

text \<open>The parameters of \<open>ComputeVtxoBundleDigest\<close> other than the inputs are one record; the payload it hashes
  is a definition of its own.\<close>

definition vtxoBundlePayload :: "BundleTerms \<Rightarrow> VtxoBundleInput list \<Rightarrow> bytes res" where
  "vtxoBundlePayload t inputs =
     (if bt_Purpose t \<noteq> vtxoPurposeSpend then Inl (Err ''vtxo purpose must be spend'')
      else if bt_VaultID t = [] then Inl (Err ''vault id required'')
      else if length (bt_FeePolicyDigest t) \<noteq> 32 then Inl (Err ''fee policy digest must be 32 bytes'')
      else andThen (changeShape (uint (bt_ChangeSats t)) (bt_ChangeVout t) (bt_ChangeScript t)) (\<lambda>_.
      andThen (CanonicalVtxoBundleInputs inputs) (\<lambda>ordered.
      if ordered = [] \<or> length ordered > MaxVtxoOperationInputs then Inl (Err ''vtxo input count must be 1..%d'')
      else andThen (appendFields [] [bytes_of (bt_Purpose t), bytes_of (bt_VaultID t), bt_DestScript t]) (\<lambda>p.
      andThen (appendCredentialField (p @ le64 (bt_AmountSats t)) (bt_ChangeScript t)) (\<lambda>p.
      andThen (appendCredentialField
        (p @ le64 (bt_FeeSats t) @ le64 (bt_ChangeSats t) @ encVout (bt_ChangeVout t)) (bt_FeePolicyDigest t)) (\<lambda>p.
      appendCredentialField (p @ le16 (length ordered) @ concat (map encBundleInput ordered))
        (bytes_of (bt_CreatedAt t))))))))"

definition ComputeVtxoBundleDigest :: "BundleTerms \<Rightarrow> VtxoBundleInput list \<Rightarrow> bytes res" where
  "ComputeVtxoBundleDigest t inputs =
     andThen (vtxoBundlePayload t inputs) (\<lambda>payload. Inr (taggedSHA256 vtxoBundleDigestTag payload))"

definition ComputeIntentFeePolicyDigest :: "string \<Rightarrow> string \<Rightarrow> string \<Rightarrow> string \<Rightarrow> bytes" where
  "ComputeIntentFeePolicyDigest offchainInput offchainOutput onchainInput onchainOutput =
     taggedSHA256 VtxoFeePolicyDigestTag
       (concat (map (\<lambda>p. le32 (u32_len p) @ bytes_of p) [offchainInput, offchainOutput, onchainInput, onchainOutput]))"

definition decodeOperationID :: "string \<Rightarrow> bytes res" where
  "decodeOperationID operationID =
     (case hexDecode operationID of
        None \<Rightarrow> Inl (Err ''operation id must be 16 bytes encoded as lowercase hex'')
      | Some raw \<Rightarrow>
          if length raw \<noteq> 16 \<or> operationID \<noteq> toLower operationID
          then Inl (Err ''operation id must be 16 bytes encoded as lowercase hex'') else Inr raw)"

definition ComputeVtxoReserveDigest :: "string \<Rightarrow> string \<Rightarrow> string \<Rightarrow> bytes \<Rightarrow> u64 \<Rightarrow> bytes res" where
  "ComputeVtxoReserveDigest operationID vaultID purpose destScript amountSats =
     andThen (decodeOperationID operationID) (\<lambda>operationRaw.
      if vaultID = [] then Inl (Err ''vault id required'')
      else if purpose \<noteq> vtxoPurposeSpend then Inl (Err ''vtxo purpose must be spend'')
      else if destScript = [] then Inl (Err ''destination script required'')
      else if amountSats = 0 then Inl (Err ''amount required'')
      else andThen (appendFields (le32 1) [operationRaw, bytes_of vaultID, bytes_of purpose, destScript]) (\<lambda>payload.
        Inr (taggedSHA256 vtxoReserveDigestTag (payload @ le64 amountSats))))"

definition ComputeVtxoAbortDigest :: "string \<Rightarrow> string \<Rightarrow> string \<Rightarrow> bytes res" where
  "ComputeVtxoAbortDigest operationID vaultID purpose =
     andThen (decodeOperationID operationID) (\<lambda>operationRaw.
      if vaultID = [] then Inl (Err ''vault id required'')
      else if purpose \<noteq> vtxoPurposeSpend then Inl (Err ''vtxo purpose must be spend'')
      else andThen (appendFields (le32 1) [operationRaw, bytes_of vaultID, bytes_of purpose]) (\<lambda>payload.
        Inr (taggedSHA256 vtxoAbortDigestTag payload)))"

section \<open>Authenticated rows\<close>

text \<open>
  The contract of an authenticated row type: \<open>seal\<close> stores the HMAC of the canonical encoding in the row and
  leaves the rest alone, \<open>verify\<close> recomputes it, and the encoding does not depend on the stored tag. The
  encoding determines the row up to its tag for the rows that satisfy \<open>typed\<close> (integers within the width of
  their Go type).
\<close>

locale sealed_row =
  fixes canon :: "'r \<Rightarrow> bytes res"
    and tag :: "'r \<Rightarrow> bytes"
    and set_tag :: "bytes \<Rightarrow> 'r \<Rightarrow> 'r"
    and seal :: "'r \<Rightarrow> bytes \<Rightarrow> 'r res"
    and verify :: "'r \<Rightarrow> bytes \<Rightarrow> unit res"
    and typed :: "'r \<Rightarrow> bool"
  assumes tag_set [simp]: "tag (set_tag m r) = m"
    and set_tag_tag [simp]: "set_tag (tag r) r = r"
    and set_set [simp]: "set_tag m (set_tag m' r) = set_tag m r"
    and canon_set [simp]: "canon (set_tag m r) = canon r"
    and seal_iff: "seal r k = Inr r' \<longleftrightarrow> length k = 32 \<and> (\<exists>p. canon r = Inr p \<and> r' = set_tag (hmac_sha256 k p) r)"
    and verify_iff: "verify r k = Inr () \<longleftrightarrow> length k = 32 \<and> (\<exists>p. canon r = Inr p \<and> tag r = hmac_sha256 k p)"
    and canon_inj: "typed r \<Longrightarrow> typed r' \<Longrightarrow> canon r = Inr p \<Longrightarrow> canon r' = Inr p \<Longrightarrow> set_tag m r = set_tag m r'"
begin

lemma verify_seal: "seal r k = Inr r' \<Longrightarrow> verify r' k = Inr ()"
  by (auto simp: seal_iff verify_iff)

lemma seal_total: "length k = 32 \<Longrightarrow> canon r = Inr p \<Longrightarrow> seal r k = Inr (set_tag (hmac_sha256 k p) r)"
  by (simp add: seal_iff)

lemma seal_content: "seal r k = Inr r' \<Longrightarrow> set_tag m r' = set_tag m r"
  by (auto simp: seal_iff)

lemma seal_of_verified: "verify r k = Inr () \<Longrightarrow> seal r k = Inr r"
  by (auto simp: seal_iff verify_iff) (metis set_tag_tag)

text \<open>Two different rows that pass under one tag exhibit a collision of the MAC on two different messages.\<close>

lemma forgery_is_collision:
  assumes "typed r" "typed r'" "verify r k = Inr ()" "verify r' k = Inr ()" "tag r = tag r'" "r \<noteq> r'"
  shows "\<exists>p p'. canon r = Inr p \<and> canon r' = Inr p' \<and> p \<noteq> p' \<and> hmac_sha256 k p = hmac_sha256 k p'"
proof -
  obtain p p' where p: "canon r = Inr p" "tag r = hmac_sha256 k p"
    "canon r' = Inr p'" "tag r' = hmac_sha256 k p'"
    using assms(3,4) by (auto simp: verify_iff)
  moreover have "p \<noteq> p'"
  proof
    assume "p = p'"
    with p assms(1,2) have "set_tag (tag r) r = set_tag (tag r) r'" using canon_inj by blast
    with assms(5,6) show False by (metis set_tag_tag)
  qed
  ultimately show ?thesis using assms(5) by auto
qed

end

section \<open>Injectivity of the encodings\<close>

definition op_typed :: "VtxoOperation \<Rightarrow> bool" where
  "op_typed r \<longleftrightarrow> in_i64 (op_AmountSats r) \<and> in_i64 (op_FeeSats r) \<and> in_i64 (op_ChangeSats r)"

definition vi_typed :: "VtxoOperationInput \<Rightarrow> bool" where
  "vi_typed r \<longleftrightarrow> in_i64 (vi_ValueSats r) \<and> vi_Vout r < 2 ^ 32"

definition opFields :: "VtxoOperation \<Rightarrow> bytes list" where
  "opFields r =
     [ bytes_of (op_OperationID r), bytes_of (op_VaultID r), bytes_of (op_Purpose r),
       op_BundleDigest r, bytes_of (op_State r), op_FeePolicyDigest r, op_DestScript r, op_ChangeScript r,
       bytes_of (op_UnsignedPSBT r), bytes_of (op_AuthorizedPSBT r),
       op_PendingProofDigest r, bytes_of (op_AuthorizedPendingProof r),
       bytes_of (op_CheckpointPSBTs r), bytes_of (op_CheckpointRequestPSBTs r), op_CheckpointTapscript r,
       bytes_of (op_ArkTxid r), bytes_of (op_ExpiresAt r), bytes_of (op_CreatedAt r), op_LastDestScript r ]"

definition opHead :: bytes where
  "opHead = credField (bytes_of vtxoOperationMACDomain) @ le32 vtxoOperationCanonicalVer"

lemma appendCredentialField_Inr_iff:
  "appendCredentialField dst f = Inr out \<longleftrightarrow> length f \<le> 4294967295 \<and> out = dst @ credField f"
  by (auto simp: appendCredentialField_def credField_def)

definition opShape :: "VtxoOperation \<Rightarrow> bool" where
  "opShape r \<longleftrightarrow> op_OperationID r \<noteq> [] \<and> op_VaultID r \<noteq> [] \<and> op_Purpose r = vtxoPurposeSpend \<and>
     requireVtxoState (op_State r) = Inr () \<and> length (op_BundleDigest r) = 32 \<and>
     0 \<le> op_AmountSats r \<and> 0 \<le> op_FeeSats r \<and> 0 \<le> op_ChangeSats r \<and> length (op_FeePolicyDigest r) = 32 \<and>
     (op_PendingProofDigest r = []) = (op_AuthorizedPendingProof r = []) \<and>
     (op_PendingProofDigest r = [] \<or> length (op_PendingProofDigest r) = 32) \<and>
     changeShape (op_ChangeSats r) (op_ChangeVout r) (op_ChangeScript r) = Inr () \<and>
     (\<forall>f\<in>set (opFields r). length f \<le> 4294967295)"

definition opEnc :: "VtxoOperation \<Rightarrow> bytes" where
  "opEnc r = opHead @ concat (map credField (opFields r)) @ le64 (u64_of (op_AmountSats r)) @ le64 (u64_of (op_FeeSats r)) @
     le64 (u64_of (op_ChangeSats r)) @ encVout (op_ChangeVout r)"

lemma canonicalVtxoOperation_Inr_iff: "canonicalVtxoOperation r = Inr p \<longleftrightarrow> opShape r \<and> p = opEnc r"
  unfolding canonicalVtxoOperation_def opFields_def [symmetric] opShape_def opEnc_def
  by (auto simp: andThen_Inr_iff appendFields_Inr_iff appendCredentialField_Inr_iff opHead_def vtxoOperationMACDomain_def)

lemma canonicalVtxoOperation_InrD:
  assumes "canonicalVtxoOperation r = Inr p"
  shows "op_Purpose r = vtxoPurposeSpend \<and> requireVtxoState (op_State r) = Inr () \<and>
    0 \<le> op_AmountSats r \<and> 0 \<le> op_FeeSats r \<and> 0 \<le> op_ChangeSats r \<and>
    (\<forall>f\<in>set (opFields r). length f \<le> 4294967295) \<and>
    p = opHead @ concat (map credField (opFields r)) @ le64 (u64_of (op_AmountSats r)) @ le64 (u64_of (op_FeeSats r)) @
        le64 (u64_of (op_ChangeSats r)) @ encVout (op_ChangeVout r)"
  using assms unfolding canonicalVtxoOperation_Inr_iff opShape_def opEnc_def by blast

lemma encVout_inject [simp]: "encVout v = encVout w \<longleftrightarrow> v = w"
  by (auto simp: encVout_def split: option.splits)

lemma in_i64_le: "in_i64 x \<Longrightarrow> x \<le> maxInt64"
  by (simp add: in_i64_def maxInt64_def)

lemma canonicalVtxoOperation_inject:
  assumes "op_typed r" "op_typed s" "canonicalVtxoOperation r = Inr p" "canonicalVtxoOperation s = Inr p"
  shows "r \<lparr> op_IntegrityMAC := m \<rparr> = s \<lparr> op_IntegrityMAC := m \<rparr>"
proof -
  note r = canonicalVtxoOperation_InrD [OF assms(3)]
  note s = canonicalVtxoOperation_InrD [OF assms(4)]
  from r s have "concat (map credField (opFields r)) @ le64 (u64_of (op_AmountSats r)) @ le64 (u64_of (op_FeeSats r)) @
        le64 (u64_of (op_ChangeSats r)) @ encVout (op_ChangeVout r) =
      concat (map credField (opFields s)) @ le64 (u64_of (op_AmountSats s)) @ le64 (u64_of (op_FeeSats s)) @
        le64 (u64_of (op_ChangeSats s)) @ encVout (op_ChangeVout s)" by simp
  moreover have "length (opFields r) = length (opFields s)" by (simp add: opFields_def)
  ultimately have f: "opFields r = opFields s" and
    t: "le64 (u64_of (op_AmountSats r)) @ le64 (u64_of (op_FeeSats r)) @ le64 (u64_of (op_ChangeSats r)) @ encVout (op_ChangeVout r) =
        le64 (u64_of (op_AmountSats s)) @ le64 (u64_of (op_FeeSats s)) @ le64 (u64_of (op_ChangeSats s)) @ encVout (op_ChangeVout s)"
    using credFields_split r s by blast+
  from t have "u64_of (op_AmountSats r) = u64_of (op_AmountSats s)" "u64_of (op_FeeSats r) = u64_of (op_FeeSats s)"
    "u64_of (op_ChangeSats r) = u64_of (op_ChangeSats s)" and v: "op_ChangeVout r = op_ChangeVout s"
    by (simp_all add: append_split_eq)
  then have "op_AmountSats r = op_AmountSats s" "op_FeeSats r = op_FeeSats s" "op_ChangeSats r = op_ChangeSats s"
    using u64_of_inject r s assms(1,2) by (auto simp: op_typed_def dest!: in_i64_le)
  with f v show ?thesis by (intro VtxoOperation.equality) (simp_all add: opFields_def)
qed

lemma canonicalVtxoOperationInput_InrD:
  assumes "canonicalVtxoOperationInput r = Inr p"
  shows "vi_OperationID r \<noteq> [] \<and> length (vi_OperationID r) \<le> 4294967295 \<and> length (vi_Txid r) = 32 \<and> 0 \<le> vi_Vout r \<and>
    0 \<le> vi_ValueSats r \<and> length (vi_Script r) \<le> 4294967295 \<and>
    p = opHead @ concat (map credField [bytes_of vtxoOperationInputKind, bytes_of (vi_OperationID r), vi_Txid r]) @
        le32 (word_of_int (vi_Vout r)) @ le64 (u64_of (vi_ValueSats r)) @ credField (vi_Script r)"
  using assms unfolding canonicalVtxoOperationInput_def
  by (auto simp: andThen_Inr_iff appendCredentialField_Inr_iff opHead_def split: if_splits)

lemma word_of_int_u32_inject:
  assumes "0 \<le> x" "x < 2 ^ 32" "0 \<le> y" "y < 2 ^ 32" "(word_of_int x :: u32) = word_of_int y"
  shows "x = y"
proof -
  have "uint (word_of_int x :: u32) = x" "uint (word_of_int y :: u32) = y"
    using assms(1-4) by (simp_all add: unsigned_of_int take_bit_int_eq_self_iff)
  with assms(5) show ?thesis by metis
qed

lemma canonicalVtxoOperationInput_inject:
  assumes "vi_typed r" "vi_typed s" "canonicalVtxoOperationInput r = Inr p" "canonicalVtxoOperationInput s = Inr p"
  shows "r \<lparr> vi_IntegrityMAC := m \<rparr> = s \<lparr> vi_IntegrityMAC := m \<rparr>"
proof -
  note r = canonicalVtxoOperationInput_InrD [OF assms(3)]
  note s = canonicalVtxoOperationInput_InrD [OF assms(4)]
  let ?F = "\<lambda>r. [bytes_of vtxoOperationInputKind, bytes_of (vi_OperationID r), vi_Txid r]"
  let ?T = "\<lambda>r. le32 (word_of_int (vi_Vout r)) @ le64 (u64_of (vi_ValueSats r)) @ credField (vi_Script r)"
  from r s have "concat (map credField (?F r)) @ ?T r = concat (map credField (?F s)) @ ?T s"
    by (metis append_same_eq same_append_eq)
  with r s have f: "?F r = ?F s" and t: "?T r = ?T s"
    using credFields_split [of "?F r" "?F s" "?T r" "?T s"] by (auto simp: vtxoOperationInputKind_def)
  from t have "(word_of_int (vi_Vout r) :: u32) = word_of_int (vi_Vout s)" "u64_of (vi_ValueSats r) = u64_of (vi_ValueSats s)"
    "credField (vi_Script r) = credField (vi_Script s)" by (simp_all add: append_split_eq)
  then have "vi_Vout r = vi_Vout s" "vi_ValueSats r = vi_ValueSats s" "vi_Script r = vi_Script s"
    using r s assms(1,2) word_of_int_u32_inject u64_of_inject credField_split [of "vi_Script r" "vi_Script s" "[]" "[]"]
    by (auto simp: vi_typed_def dest!: in_i64_le)
  with f show ?thesis by (intro VtxoOperationInput.equality) simp_all
qed

interpretation op_row: sealed_row canonicalVtxoOperation op_IntegrityMAC "\<lambda>m r. r \<lparr> op_IntegrityMAC := m \<rparr>"
  SealVtxoOperation VerifyVtxoOperation op_typed
proof
  show "canonicalVtxoOperation (r \<lparr> op_IntegrityMAC := m \<rparr>) = canonicalVtxoOperation r" for m r
    by (simp add: canonicalVtxoOperation_def)
  show "SealVtxoOperation r k = Inr r' \<longleftrightarrow>
      length k = 32 \<and> (\<exists>p. canonicalVtxoOperation r = Inr p \<and> r' = r \<lparr> op_IntegrityMAC := hmac_sha256 k p \<rparr>)" for r r' k
    by (auto simp: SealVtxoOperation_def vtxoOperationMAC_def andThen_Inr_iff)
  show "VerifyVtxoOperation r k = Inr () \<longleftrightarrow>
      length k = 32 \<and> (\<exists>p. canonicalVtxoOperation r = Inr p \<and> op_IntegrityMAC r = hmac_sha256 k p)" for r k
    by (auto simp: VerifyVtxoOperation_def vtxoOperationMAC_def andThen_Inr_iff split: if_splits)
  show "op_typed r \<Longrightarrow> op_typed r' \<Longrightarrow> canonicalVtxoOperation r = Inr p \<Longrightarrow> canonicalVtxoOperation r' = Inr p \<Longrightarrow>
      r \<lparr> op_IntegrityMAC := m \<rparr> = r' \<lparr> op_IntegrityMAC := m \<rparr>" for r r' p m
    by (rule canonicalVtxoOperation_inject)
qed simp_all

interpretation in_row: sealed_row canonicalVtxoOperationInput vi_IntegrityMAC "\<lambda>m r. r \<lparr> vi_IntegrityMAC := m \<rparr>"
  SealVtxoOperationInput VerifyVtxoOperationInput vi_typed
proof
  show "canonicalVtxoOperationInput (r \<lparr> vi_IntegrityMAC := m \<rparr>) = canonicalVtxoOperationInput r" for m r
    by (simp add: canonicalVtxoOperationInput_def)
  show "SealVtxoOperationInput r k = Inr r' \<longleftrightarrow>
      length k = 32 \<and> (\<exists>p. canonicalVtxoOperationInput r = Inr p \<and> r' = r \<lparr> vi_IntegrityMAC := hmac_sha256 k p \<rparr>)" for r r' k
    by (auto simp: SealVtxoOperationInput_def vtxoOperationInputMAC_def andThen_Inr_iff)
  show "VerifyVtxoOperationInput r k = Inr () \<longleftrightarrow>
      length k = 32 \<and> (\<exists>p. canonicalVtxoOperationInput r = Inr p \<and> vi_IntegrityMAC r = hmac_sha256 k p)" for r k
    by (auto simp: VerifyVtxoOperationInput_def vtxoOperationInputMAC_def andThen_Inr_iff split: if_splits)
  show "vi_typed r \<Longrightarrow> vi_typed r' \<Longrightarrow> canonicalVtxoOperationInput r = Inr p \<Longrightarrow> canonicalVtxoOperationInput r' = Inr p \<Longrightarrow>
      r \<lparr> vi_IntegrityMAC := m \<rparr> = r' \<lparr> vi_IntegrityMAC := m \<rparr>" for r r' p m
    by (rule canonicalVtxoOperationInput_inject)
qed simp_all

section \<open>Canonical bundles\<close>

lemma sorted_wrt_unique:
  assumes "asymp R" "sorted_wrt R xs" "sorted_wrt R ys" "set xs = set ys"
  shows "xs = ys"
  using assms(2-)
proof (induction xs arbitrary: ys)
  case (Cons x xs)
  then obtain y zs where ys: "ys = y # zs" by (cases ys) auto
  have "x = y"
  proof (rule ccontr)
    assume "x \<noteq> y"
    with Cons.prems ys have "x \<in> set zs" "y \<in> set xs" by auto
    with Cons.prems ys have "R y x" "R x y" by auto
    with assms(1) show False by (auto dest: asympD)
  qed
  moreover have "x \<notin> set xs" "y \<notin> set zs"
    using Cons.prems ys assms(1) by (auto dest: asympD)
  ultimately show ?case using Cons.IH [of zs] Cons.prems ys by (auto simp: insert_ident)
qed simp

lemma mset_insertStable [simp]: "mset (insertStable lt x xs) = add_mset x (mset xs)"
  by (induction xs) auto

lemma mset_sliceStable [simp]: "mset (sliceStable lt xs) = mset xs"
  by (induction xs) auto

lemma set_sliceStable [simp]: "set (sliceStable lt xs) = set xs"
  by (metis mset_sliceStable set_mset_mset)

lemma set_insertStable [simp]: "set (insertStable lt x xs) = insert x (set xs)"
  by (induction xs) auto

lemma sorted_insertStable:
  assumes "transp lt" "sorted_wrt lt ys" "\<forall>y\<in>set ys. \<not> lt y x \<longrightarrow> lt x y"
  shows "sorted_wrt lt (insertStable lt x ys)"
  using assms(2,3) by (induction ys) (auto dest: transpD [OF assms(1)])

lemma sorted_sliceStable:
  assumes "transp lt" "distinct xs" "\<And>x y. x \<in> set xs \<Longrightarrow> y \<in> set xs \<Longrightarrow> x \<noteq> y \<Longrightarrow> lt x y \<or> lt y x"
  shows "sorted_wrt lt (sliceStable lt xs)"
  using assms(2,3)
proof (induction xs)
  case (Cons x xs)
  then have "sorted_wrt lt (sliceStable lt xs)" by auto
  moreover have "\<forall>y\<in>set (sliceStable lt xs). \<not> lt y x \<longrightarrow> lt x y" using Cons.prems by fastforce
  ultimately show ?case using sorted_insertStable [OF assms(1)] by simp
qed simp

lemma keyedLess_transp: "transp keyedLess"
  by (rule transpI) (auto simp: keyedLess_def split: if_splits)

lemma keyedLess_asymp: "asymp keyedLess"
  by (rule asympI) (auto simp: keyedLess_def split: if_splits)

definition normInput :: "VtxoBundleInput \<Rightarrow> keyed option" where
  "normInput i = (case canonicalVtxoTxid (bi_Txid i) of
     Inl _ \<Rightarrow> None | Inr (canon, raw) \<Rightarrow> Some (i \<lparr> bi_Txid := raw \<rparr>, canon))"

definition outpointKey :: "keyed \<Rightarrow> string" where
  "outpointKey k = snd k @ '':'' @ showNat (unat (bi_Vout (fst k)))"

lemma keyBundleInputs_iff:
  "keyBundleInputs seen ins = Inr ks \<longleftrightarrow>
     map normInput ins = map Some ks \<and> distinct (map outpointKey ks) \<and> set (map outpointKey ks) \<inter> set seen = {}"
proof (induction ins arbitrary: seen ks)
  case (Cons i ins)
  show ?case
  proof (cases "canonicalVtxoTxid (bi_Txid i)")
    case (Inr cr)
    obtain c raw where cr: "cr = (c, raw)" by (cases cr)
    have n: "normInput i = Some (i \<lparr> bi_Txid := raw \<rparr>, c)" using Inr cr by (simp add: normInput_def)
    have k: "c @ '':'' @ showNat (unat (bi_Vout i)) = outpointKey (i \<lparr> bi_Txid := raw \<rparr>, c)"
      by (simp add: outpointKey_def)
    show ?thesis
      unfolding keyBundleInputs.simps Inr cr andThen_simps prod.case k Let_def
      by (cases ks) (auto simp: andThen_Inr_iff Cons.IH n)
  qed (auto simp: normInput_def)
qed auto

lemma canonicalVtxoTxid_InrD:
  "canonicalVtxoTxid txid = Inr (c, raw) \<Longrightarrow> c = hexEncode raw \<and> length raw = 32"
  by (auto simp: canonicalVtxoTxid_def split: if_splits option.splits)

lemma normInput_SomeD:
  "normInput i = Some k \<Longrightarrow> snd k = hexEncode (bi_Txid (fst k)) \<and> length (bi_Txid (fst k)) = 32"
  by (auto simp: normInput_def split: sum.splits prod.splits dest: canonicalVtxoTxid_InrD)

lemma keyBundleInputs_norm:
  assumes "keyBundleInputs seen ins = Inr ks" "k \<in> set ks"
  shows "snd k = hexEncode (bi_Txid (fst k)) \<and> length (bi_Txid (fst k)) = 32"
proof -
  from assms have "Some k \<in> set (map normInput ins)" by (simp add: keyBundleInputs_iff)
  then show ?thesis by (metis (no_types, lifting) ex_map_conv normInput_SomeD)
qed

lemma keyedLess_total:
  assumes "keyBundleInputs seen ins = Inr ks" "j \<in> set ks" "k \<in> set ks" "j \<noteq> k"
  shows "keyedLess j k \<or> keyedLess k j"
proof -
  from assms have "outpointKey j \<noteq> outpointKey k"
    by (auto simp: keyBundleInputs_iff distinct_map dest: inj_onD)
  then have "snd j \<noteq> snd k \<or> bi_Vout (fst j) \<noteq> bi_Vout (fst k)" by (auto simp: outpointKey_def)
  then show ?thesis by (auto simp: keyedLess_def)
qed

lemma sliceStable_keyed_sorted:
  assumes "keyBundleInputs seen ins = Inr ks"
  shows "sorted_wrt keyedLess (sliceStable keyedLess ks)"
proof (rule sorted_sliceStable [OF keyedLess_transp])
  show "distinct ks" using assms by (auto simp: keyBundleInputs_iff distinct_map)
qed (rule keyedLess_total [OF assms])

lemma keyBundleInputs_perm:
  assumes "mset ins = mset ins'" "keyBundleInputs [] ins = Inr ks"
  shows "\<exists>ks'. keyBundleInputs [] ins' = Inr ks' \<and> mset ks' = mset ks"
proof -
  from assms(2) have n: "map normInput ins = map Some ks" "distinct (map outpointKey ks)"
    by (simp_all add: keyBundleInputs_iff)
  have m: "image_mset normInput (mset ins') = image_mset Some (mset ks)"
    using arg_cong [OF n(1), of mset] assms(1) by simp
  have "None \<notin># image_mset normInput (mset ins')" unfolding m by auto
  then have s: "map normInput ins' = map Some (map (the \<circ> normInput) ins')"
    by (auto simp: image_iff)
  have ks': "mset (map (the \<circ> normInput) ins') = mset ks"
  proof -
    have "image_mset the (image_mset normInput (mset ins')) = image_mset the (image_mset Some (mset ks))" by (simp only: m)
    then show ?thesis by (simp add: multiset.map_comp comp_def)
  qed
  then have "mset (map outpointKey (map (the \<circ> normInput) ins')) = mset (map outpointKey ks)"
    by (metis mset_map)
  with n(2) have "distinct (map outpointKey (map (the \<circ> normInput) ins'))"
    by (metis mset_eq_imp_distinct_iff)
  with s have "keyBundleInputs [] ins' = Inr (map (the \<circ> normInput) ins')" unfolding keyBundleInputs_iff by simp
  with ks' show ?thesis by blast
qed

lemma CanonicalVtxoBundleInputs_perm:
  assumes "mset ins = mset ins'" "CanonicalVtxoBundleInputs ins = Inr out"
  shows "CanonicalVtxoBundleInputs ins' = Inr out"
proof -
  from assms(2) obtain ks where ks: "keyBundleInputs [] ins = Inr ks" "out = map fst (sliceStable keyedLess ks)"
    "length ins \<le> 65535"
    by (auto simp: CanonicalVtxoBundleInputs_def andThen_Inr_iff split: if_splits)
  with assms(1) obtain ks' where ks': "keyBundleInputs [] ins' = Inr ks'" "mset ks' = mset ks"
    using keyBundleInputs_perm by blast
  have "sliceStable keyedLess ks' = sliceStable keyedLess ks"
    using sorted_wrt_unique [OF keyedLess_asymp sliceStable_keyed_sorted [OF ks'(1)] sliceStable_keyed_sorted [OF ks(1)]]
      mset_eq_setD [OF ks'(2)] by simp
  moreover have "length ins' \<le> 65535" using ks(3) assms(1) by (metis size_mset)
  ultimately show ?thesis using ks ks' by (simp add: CanonicalVtxoBundleInputs_def)
qed

lemma CanonicalVtxoBundleInputs_InrD:
  assumes "CanonicalVtxoBundleInputs ins = Inr out" "i \<in> set out"
  shows "length (bi_Txid i) = 32"
  using assms keyBundleInputs_norm
  by (fastforce simp: CanonicalVtxoBundleInputs_def andThen_Inr_iff split: if_splits)

lemma length_keyBundleInputs: "keyBundleInputs seen ins = Inr ks \<Longrightarrow> length ks = length ins"
  by (metis keyBundleInputs_iff length_map)

lemma encBundleInputs_inject:
  assumes "length xs = length ys" "\<forall>i\<in>set xs. length (bi_Txid i) = 32" "\<forall>i\<in>set ys. length (bi_Txid i) = 32"
    "concat (map encBundleInput xs) @ p = concat (map encBundleInput ys) @ q"
  shows "xs = ys \<and> p = q"
  using assms
proof (induction xs ys rule: list_induct2)
  case (Cons x xs y ys)
  then have "bi_Txid x = bi_Txid y" "bi_Vout x = bi_Vout y" "bi_ValueSats x = bi_ValueSats y"
    and rest: "concat (map encBundleInput xs) @ p = concat (map encBundleInput ys) @ q"
    by (simp_all add: encBundleInput_def append_split_eq)
  then show ?case using Cons by (auto intro: VtxoBundleInput.equality)
qed simp

lemma le16_inject: "a < 65536 \<Longrightarrow> b < 65536 \<Longrightarrow> le16 a = le16 b \<Longrightarrow> a = b"
  unfolding le16_def by (rule le_bytes_inject [where n = 2]) simp_all

lemma encVout_prefix_free: "encVout v @ x = encVout w @ y \<Longrightarrow> v = w \<and> x = y"
  by (auto simp: encVout_def append_split_eq split: option.splits)

lemma vtxoBundlePayload_InrD:
  assumes "vtxoBundlePayload t ins = Inr p"
  obtains ordered where "CanonicalVtxoBundleInputs ins = Inr ordered" "length ordered \<le> 50"
    "bt_Purpose t = vtxoPurposeSpend" "length (bt_FeePolicyDigest t) = 32"
    "\<forall>f\<in>{bytes_of (bt_VaultID t), bt_DestScript t, bt_ChangeScript t, bytes_of (bt_CreatedAt t)}. length f \<le> 4294967295"
    "p = concat (map credField [bytes_of vtxoPurposeSpend, bytes_of (bt_VaultID t), bt_DestScript t]) @
       le64 (bt_AmountSats t) @ concat (map credField [bt_ChangeScript t]) @ le64 (bt_FeeSats t) @ le64 (bt_ChangeSats t) @
       encVout (bt_ChangeVout t) @ concat (map credField [bt_FeePolicyDigest t]) @ le16 (length ordered) @
       concat (map encBundleInput ordered) @ concat (map credField [bytes_of (bt_CreatedAt t)])"
  using assms unfolding vtxoBundlePayload_def
  by (auto simp: andThen_Inr_iff appendFields_Inr_iff appendCredentialField_Inr_iff MaxVtxoOperationInputs_def
      split: if_splits)

lemma bundleTail_inject:
  assumes "length xs \<le> 50" "length ys \<le> 50" "\<forall>i\<in>set xs. length (bi_Txid i) = 32" "\<forall>i\<in>set ys. length (bi_Txid i) = 32"
    "length d = 32" "length e = 32" "length c \<le> 4294967295" "length c' \<le> 4294967295"
    "encVout v @ concat (map credField [d]) @ le16 (length xs) @ concat (map encBundleInput xs) @ concat (map credField [bytes_of c]) =
     encVout w @ concat (map credField [e]) @ le16 (length ys) @ concat (map encBundleInput ys) @ concat (map credField [bytes_of c'])"
  shows "v = w \<and> d = e \<and> xs = ys \<and> c = c'"
proof -
  from encVout_prefix_free [OF assms(9)] have v: "v = w"
    and *: "concat (map credField [d]) @ le16 (length xs) @ concat (map encBundleInput xs) @ concat (map credField [bytes_of c]) =
     concat (map credField [e]) @ le16 (length ys) @ concat (map encBundleInput ys) @ concat (map credField [bytes_of c'])" by blast+
  from credFields_split [OF _ _ _ *] assms(5,6) have d: "d = e" and l: "le16 (length xs) = le16 (length ys)" and
    r: "concat (map encBundleInput xs) @ concat (map credField [bytes_of c]) =
      concat (map encBundleInput ys) @ concat (map credField [bytes_of c'])"
    by (simp_all add: append_split_eq)
  from l assms(1,2) have "length xs = length ys" using le16_inject by simp
  from encBundleInputs_inject [OF this assms(3,4) r] have "xs = ys" "credField (bytes_of c) @ [] = credField (bytes_of c') @ []"
    by simp_all
  with v d assms(7,8) credField_split [of "bytes_of c" "bytes_of c'" "[]" "[]"] show ?thesis by simp
qed

section \<open>Properties\<close>

text \<open>
  The MAC of an operation row binds every persisted field. Two rows with integers of their Go width whose
  canonical encodings agree differ at most in the stored tag.
\<close>

theorem operation_encoding_injective:
  assumes "op_typed r" "op_typed s"
    and "canonicalVtxoOperation r = Inr p" "canonicalVtxoOperation s = Inr p"
  shows "r \<lparr> op_IntegrityMAC := [] \<rparr> = s \<lparr> op_IntegrityMAC := [] \<rparr>"
  using op_row.canon_inj [OF assms] .

text \<open>A reservation in the shape the ledger writes it, used as the concrete input of the witnesses.\<close>

definition sampleOperation :: VtxoOperation where
  "sampleOperation = \<lparr> op_OperationID = ''a'', op_VaultID = ''v'', op_Purpose = ''spend'', op_BundleDigest = replicate 32 1,
     op_State = ''reserved'', op_AmountSats = 1000, op_FeeSats = 10, op_FeePolicyDigest = replicate 32 2,
     op_DestScript = [81], op_ChangeScript = [], op_ChangeSats = 0, op_ChangeVout = None, op_UnsignedPSBT = [],
     op_AuthorizedPSBT = [], op_PendingProofDigest = [], op_AuthorizedPendingProof = [], op_CheckpointPSBTs = [],
     op_CheckpointRequestPSBTs = [], op_CheckpointTapscript = [], op_ArkTxid = [],
     op_ExpiresAt = ''2026-01-01T00:10:00Z'', op_CreatedAt = ''2026-01-01T00:00:00Z'', op_LastDestScript = [], op_IntegrityMAC = [] \<rparr>"

definition sampleInput :: "nat \<Rightarrow> VtxoOperationInput" where
  "sampleInput n = \<lparr> vi_OperationID = ''a'', vi_Txid = replicate 32 (word_of_nat n), vi_Vout = 0, vi_ValueSats = 1010,
     vi_Script = [81], vi_IntegrityMAC = [] \<rparr>"

definition sampleKey :: bytes where "sampleKey = replicate 32 7"

lemma sampleOperation_canon: "\<exists>p. canonicalVtxoOperation sampleOperation = Inr p"
  by (simp add: canonicalVtxoOperation_Inr_iff opShape_def opFields_def sampleOperation_def requireVtxoState_def
      vtxo_states vtxoPurposeSpend_def changeShape_def)

lemma sampleInput_canon: "\<exists>p. canonicalVtxoOperationInput (sampleInput n) = Inr p"
  by (simp add: sampleInput_def canonicalVtxoOperationInput_def vtxoOperationMACDomain_def appendCredentialField_def
      vtxoOperationInputKind_def)

theorem operation_encoding_injective_witness:
  "\<exists>p. canonicalVtxoOperation sampleOperation = Inr p \<and>
     (\<forall>s. op_typed s \<and> canonicalVtxoOperation s = Inr p \<longrightarrow> op_AmountSats s = 1000)"
proof -
  obtain p where p: "canonicalVtxoOperation sampleOperation = Inr p" using sampleOperation_canon by blast
  have t: "op_typed sampleOperation" by (simp add: op_typed_def sampleOperation_def in_i64_def)
  have "op_AmountSats s = 1000" if "op_typed s" "canonicalVtxoOperation s = Inr p" for s
    using operation_encoding_injective [OF t that(1) p that(2)]
    by (cases s) (simp add: sampleOperation_def)
  with p show ?thesis by blast
qed

text \<open>
  No message is both the encoding of an operation and the encoding of an input, so a tag of one kind never
  verifies a row of the other although both are made under the same key and domain.
\<close>

theorem operation_input_encodings_disjoint:
  assumes "canonicalVtxoOperation r = Inr p"
  shows "canonicalVtxoOperationInput i \<noteq> Inr p"
proof
  assume i: "canonicalVtxoOperationInput i = Inr p"
  note D = canonicalVtxoOperation_InrD [OF assms] canonicalVtxoOperationInput_InrD [OF i]
  let ?O = "[bytes_of (op_OperationID r), bytes_of (op_VaultID r), bytes_of vtxoPurposeSpend]"
  let ?I = "[bytes_of vtxoOperationInputKind, bytes_of (vi_OperationID i), vi_Txid i]"
  obtain x where "opFields r = ?O @ x" using D(1) by (simp add: opFields_def)
  with D obtain y where "p = opHead @ concat (map credField ?O) @ y" by (metis append_assoc concat_append map_append)
  with D(2) obtain z where "concat (map credField ?O) @ y = concat (map credField ?I) @ z" by (metis same_append_eq)
  moreover have "\<forall>f\<in>set ?O. length f \<le> 4294967295" "\<forall>f\<in>set ?I. length f \<le> 4294967295"
    using D by (auto simp: opFields_def vtxoOperationInputKind_def vtxoPurposeSpend_def)
  ultimately have "?O = ?I" using credFields_split [of ?O ?I y z] by simp
  then have "length (bytes_of vtxoPurposeSpend) = length (vi_Txid i)" by simp
  with D show False by (simp add: vtxoPurposeSpend_def)
qed

theorem operation_input_encodings_disjoint_witness:
  "\<exists>p. canonicalVtxoOperation sampleOperation = Inr p \<and> canonicalVtxoOperationInput (sampleInput 1) \<noteq> Inr p"
  using operation_input_encodings_disjoint sampleOperation_canon by blast

text \<open>
  A sealed operation row verifies under the same key, sealing changes nothing but the tag, and sealing
  succeeds for every row that has a canonical encoding.
\<close>

theorem operation_seal_verify:
  assumes "canonicalVtxoOperation r = Inr p" "length key = 32"
  shows "\<exists>s. SealVtxoOperation r key = Inr s \<and> VerifyVtxoOperation s key = Inr () \<and>
    s \<lparr> op_IntegrityMAC := m \<rparr> = r \<lparr> op_IntegrityMAC := m \<rparr>"
  using op_row.seal_total [OF assms(2,1)] op_row.verify_seal op_row.seal_content by blast

theorem operation_seal_verify_witness:
  "\<exists>s. SealVtxoOperation sampleOperation sampleKey = Inr s \<and> VerifyVtxoOperation s sampleKey = Inr ()"
proof -
  obtain p where "canonicalVtxoOperation sampleOperation = Inr p" using sampleOperation_canon by blast
  then show ?thesis using operation_seal_verify [of sampleOperation p sampleKey] by (auto simp: sampleKey_def)
qed

text \<open>
  C36: tampering with a stored operation is detected unless it breaks the MAC: a row that differs from a verified
  row and carries its tag is refused, or else the two rows' encodings are two distinct messages with one HMAC.
\<close>

theorem operation_tamper_detected:
  assumes "op_typed r" "op_typed s" "VerifyVtxoOperation r key = Inr ()"
    and "op_IntegrityMAC s = op_IntegrityMAC r" "s \<noteq> r"
  shows "(\<exists>e. VerifyVtxoOperation s key = Inl e) \<or>
    (\<exists>p q. canonicalVtxoOperation r = Inr p \<and> canonicalVtxoOperation s = Inr q \<and> p \<noteq> q \<and>
       hmac_sha256 key p = hmac_sha256 key q)"
proof (cases "VerifyVtxoOperation s key")
  case (Inr u)
  then show ?thesis using op_row.forgery_is_collision [OF assms(1,2,3)] assms(4,5) by simp
qed simp

theorem operation_tamper_detected_witness:
  "\<exists>r. SealVtxoOperation sampleOperation sampleKey = Inr r \<and>
     ((\<exists>e. VerifyVtxoOperation (r \<lparr> op_AmountSats := 9 \<rparr>) sampleKey = Inl e) \<or>
      (\<exists>p q. canonicalVtxoOperation r = Inr p \<and> canonicalVtxoOperation (r \<lparr> op_AmountSats := 9 \<rparr>) = Inr q \<and> p \<noteq> q \<and>
         hmac_sha256 sampleKey p = hmac_sha256 sampleKey q))"
proof -
  obtain p where p: "canonicalVtxoOperation sampleOperation = Inr p" using sampleOperation_canon by blast
  let ?r = "sampleOperation \<lparr> op_IntegrityMAC := hmac_sha256 sampleKey p \<rparr>"
  have r: "SealVtxoOperation sampleOperation sampleKey = Inr ?r"
    using op_row.seal_total [OF _ p] by (simp add: sampleKey_def)
  have "op_typed ?r" "op_typed (?r \<lparr> op_AmountSats := 9 \<rparr>)" "?r \<lparr> op_AmountSats := 9 \<rparr> \<noteq> ?r"
    by (simp_all add: op_typed_def sampleOperation_def in_i64_def)
  with operation_tamper_detected [OF _ _ op_row.verify_seal [OF r], of "?r \<lparr> op_AmountSats := 9 \<rparr>"] r
  show ?thesis by auto
qed

text \<open>
  C39: the index of an input row is authenticated modulo \<open>2\<^sup>3\<^sup>2\<close> only. The encoding truncates the Go \<open>int\<close>
  with \<open>uint32(rec.Vout)\<close>, so a verified row stays verified when \<open>2\<^sup>3\<^sup>2\<close> is added to its index.
\<close>

theorem input_vout_truncated:
  assumes "VerifyVtxoOperationInput r key = Inr ()"
  shows "VerifyVtxoOperationInput (r \<lparr> vi_Vout := vi_Vout r + 2 ^ 32 \<rparr>) key = Inr ()"
proof -
  have w: "(4294967296 :: u32) = 0" by (simp add: word_eq_iff_unsigned)
  from assms obtain p where "length key = 32" "canonicalVtxoOperationInput r = Inr p" "vi_IntegrityMAC r = hmac_sha256 key p"
    by (auto simp: in_row.verify_iff)
  moreover from canonicalVtxoOperationInput_InrD [OF this(2)] have "\<not> vi_Vout r < 0" "\<not> vi_Vout r + 2 ^ 32 < 0" by auto
  then have "canonicalVtxoOperationInput (r \<lparr> vi_Vout := vi_Vout r + 2 ^ 32 \<rparr>) = canonicalVtxoOperationInput r"
    by (simp add: canonicalVtxoOperationInput_def w)
  ultimately show ?thesis by (simp add: in_row.verify_iff)
qed

theorem input_vout_truncated_witness:
  "\<exists>s. SealVtxoOperationInput (sampleInput 1) sampleKey = Inr s \<and>
     VerifyVtxoOperationInput (s \<lparr> vi_Vout := vi_Vout s + 2 ^ 32 \<rparr>) sampleKey = Inr ()"
proof -
  obtain p where "canonicalVtxoOperationInput (sampleInput 1) = Inr p" using sampleInput_canon by blast
  then obtain s where s: "SealVtxoOperationInput (sampleInput 1) sampleKey = Inr s"
    using in_row.seal_total [of sampleKey] by (auto simp: sampleKey_def)
  from input_vout_truncated [OF in_row.verify_seal [OF s]] s show ?thesis by blast
qed

text \<open>
  The canonical bundle is strictly sorted by transaction id and index, so it has no duplicate outpoint; its
  transaction ids are 32 bytes; and it holds the normalised form of every input, once.
\<close>

theorem bundle_inputs_canonical:
  assumes "CanonicalVtxoBundleInputs ins = Inr out"
  shows "sorted_wrt (\<lambda>a b. hexEncode (bi_Txid a) < hexEncode (bi_Txid b) \<or>
           bi_Txid a = bi_Txid b \<and> bi_Vout a < bi_Vout b) out \<and>
    (\<forall>i\<in>set out. length (bi_Txid i) = 32) \<and>
    image_mset (map_option fst \<circ> normInput) (mset ins) = image_mset Some (mset out)"
proof -
  from assms obtain ks where ks: "keyBundleInputs [] ins = Inr ks" "out = map fst (sliceStable keyedLess ks)"
    by (auto simp: CanonicalVtxoBundleInputs_def andThen_Inr_iff split: if_splits)
  have "image_mset normInput (mset ins) = image_mset Some (mset ks)"
    using ks(1) by (metis keyBundleInputs_iff mset_map)
  then have "image_mset (map_option fst) (image_mset normInput (mset ins)) = image_mset (map_option fst) (image_mset Some (mset ks))"
    by simp
  then have "image_mset (map_option fst \<circ> normInput) (mset ins) = image_mset Some (mset out)"
    using ks(2) by (simp add: multiset.map_comp comp_def)
  moreover have "sorted_wrt (\<lambda>j k. hexEncode (bi_Txid (fst j)) < hexEncode (bi_Txid (fst k)) \<or>
      bi_Txid (fst j) = bi_Txid (fst k) \<and> bi_Vout (fst j) < bi_Vout (fst k)) (sliceStable keyedLess ks)"
    using sliceStable_keyed_sorted [OF ks(1)]
    by (rule sorted_wrt_mono_rel [rotated])
      (auto simp: keyedLess_def keyBundleInputs_norm [OF ks(1)] split: if_splits)
  ultimately show ?thesis using ks(2) CanonicalVtxoBundleInputs_InrD [OF assms] by (simp add: sorted_wrt_map)
qed

definition sampleBundle :: "VtxoBundleInput list" where
  "sampleBundle = [ \<lparr> bi_Txid = replicate 32 9, bi_Vout = 1, bi_ValueSats = 500 \<rparr>,
                    \<lparr> bi_Txid = replicate 32 9, bi_Vout = 0, bi_ValueSats = 700 \<rparr> ]"

lemma sampleBundle_canonical: "CanonicalVtxoBundleInputs sampleBundle = Inr (rev sampleBundle)"
  by (simp add: sampleBundle_def CanonicalVtxoBundleInputs_def canonicalVtxoTxid_def keyedLess_def)


theorem bundle_inputs_canonical_witness:
  "CanonicalVtxoBundleInputs sampleBundle = Inr (rev sampleBundle) \<and>
   sorted_wrt (\<lambda>a b. hexEncode (bi_Txid a) < hexEncode (bi_Txid b) \<or>
     bi_Txid a = bi_Txid b \<and> bi_Vout a < bi_Vout b) (rev sampleBundle)"
  using bundle_inputs_canonical [OF sampleBundle_canonical] sampleBundle_canonical by simp

definition sampleTerms :: BundleTerms where
  "sampleTerms = \<lparr> bt_Purpose = ''spend'', bt_VaultID = ''v'', bt_DestScript = [81], bt_ChangeScript = [], bt_AmountSats = 1000,
     bt_FeeSats = 10, bt_ChangeSats = 0, bt_ChangeVout = None, bt_FeePolicyDigest = replicate 32 2,
     bt_CreatedAt = ''2026-01-01T00:00:00Z'' \<rparr>"

lemma sampleTerms_payload: "\<exists>p. vtxoBundlePayload sampleTerms sampleBundle = Inr p"
proof -
  have "sampleBundle \<noteq> []" "length sampleBundle = 2" by (simp_all add: sampleBundle_def)
  then show ?thesis
    by (simp add: vtxoBundlePayload_def sampleTerms_def vtxoPurposeSpend_def changeShape_def sampleBundle_canonical
        MaxVtxoOperationInputs_def appendFields_def appendCredentialField_def)
qed

text \<open>
  The bundle digest does not depend on the order in which the caller lists the inputs.
\<close>

theorem bundle_digest_order_independent:
  assumes "mset ins = mset ins'" "ComputeVtxoBundleDigest t ins = Inr d"
  shows "ComputeVtxoBundleDigest t ins' = Inr d"
proof -
  from assms(2) obtain p where "vtxoBundlePayload t ins = Inr p"
    by (auto simp: ComputeVtxoBundleDigest_def andThen_Inr_iff)
  then obtain out where out: "CanonicalVtxoBundleInputs ins = Inr out" by (rule vtxoBundlePayload_InrD)
  with CanonicalVtxoBundleInputs_perm [OF assms(1)] have "CanonicalVtxoBundleInputs ins' = CanonicalVtxoBundleInputs ins"
    by simp
  then have "vtxoBundlePayload t ins' = vtxoBundlePayload t ins" by (simp add: vtxoBundlePayload_def)
  with assms(2) show ?thesis by (simp add: ComputeVtxoBundleDigest_def)
qed

theorem bundle_digest_order_independent_witness:
  "\<exists>d. ComputeVtxoBundleDigest sampleTerms sampleBundle = Inr d \<and>
       ComputeVtxoBundleDigest sampleTerms (rev sampleBundle) = Inr d"
proof -
  obtain d where d: "ComputeVtxoBundleDigest sampleTerms sampleBundle = Inr d"
    using sampleTerms_payload by (auto simp: ComputeVtxoBundleDigest_def)
  with bundle_digest_order_independent [OF _ d, of "rev sampleBundle"] show ?thesis by simp
qed

text \<open>
  The hashed payload of a bundle determines every term of the spend and the canonical list of its inputs: no
  script, amount, change or outpoint can be exchanged under one digest without a collision of the tagged hash.
\<close>

theorem bundle_payload_injective:
  assumes "vtxoBundlePayload t ins = Inr p" "vtxoBundlePayload u ins' = Inr p"
  shows "t = u \<and> CanonicalVtxoBundleInputs ins = CanonicalVtxoBundleInputs ins'"
proof -
  from assms(1) obtain xs where x: "CanonicalVtxoBundleInputs ins = Inr xs" "length xs \<le> 50" "bt_Purpose t = vtxoPurposeSpend"
    "length (bt_FeePolicyDigest t) = 32"
    "\<forall>f\<in>{bytes_of (bt_VaultID t), bt_DestScript t, bt_ChangeScript t, bytes_of (bt_CreatedAt t)}. length f \<le> 4294967295"
    and px: "p = concat (map credField [bytes_of vtxoPurposeSpend, bytes_of (bt_VaultID t), bt_DestScript t]) @
       le64 (bt_AmountSats t) @ concat (map credField [bt_ChangeScript t]) @ le64 (bt_FeeSats t) @ le64 (bt_ChangeSats t) @
       encVout (bt_ChangeVout t) @ concat (map credField [bt_FeePolicyDigest t]) @ le16 (length xs) @
       concat (map encBundleInput xs) @ concat (map credField [bytes_of (bt_CreatedAt t)])"
    by (rule vtxoBundlePayload_InrD)
  from assms(2) obtain ys where y: "CanonicalVtxoBundleInputs ins' = Inr ys" "length ys \<le> 50" "bt_Purpose u = vtxoPurposeSpend"
    "length (bt_FeePolicyDigest u) = 32"
    "\<forall>f\<in>{bytes_of (bt_VaultID u), bt_DestScript u, bt_ChangeScript u, bytes_of (bt_CreatedAt u)}. length f \<le> 4294967295"
    and py: "p = concat (map credField [bytes_of vtxoPurposeSpend, bytes_of (bt_VaultID u), bt_DestScript u]) @
       le64 (bt_AmountSats u) @ concat (map credField [bt_ChangeScript u]) @ le64 (bt_FeeSats u) @ le64 (bt_ChangeSats u) @
       encVout (bt_ChangeVout u) @ concat (map credField [bt_FeePolicyDigest u]) @ le16 (length ys) @
       concat (map encBundleInput ys) @ concat (map credField [bytes_of (bt_CreatedAt u)])"
    by (rule vtxoBundlePayload_InrD)
  have "[bytes_of vtxoPurposeSpend, bytes_of (bt_VaultID t), bt_DestScript t] =
        [bytes_of vtxoPurposeSpend, bytes_of (bt_VaultID u), bt_DestScript u] \<and> 
     le64 (bt_AmountSats t) @ concat (map credField [bt_ChangeScript t]) @ le64 (bt_FeeSats t) @ le64 (bt_ChangeSats t) @
       encVout (bt_ChangeVout t) @ concat (map credField [bt_FeePolicyDigest t]) @ le16 (length xs) @
       concat (map encBundleInput xs) @ concat (map credField [bytes_of (bt_CreatedAt t)]) =
     le64 (bt_AmountSats u) @ concat (map credField [bt_ChangeScript u]) @ le64 (bt_FeeSats u) @ le64 (bt_ChangeSats u) @
       encVout (bt_ChangeVout u) @ concat (map credField [bt_FeePolicyDigest u]) @ le16 (length ys) @
       concat (map encBundleInput ys) @ concat (map credField [bytes_of (bt_CreatedAt u)])"
    by (rule credFields_split) (use x(5) y(5) px py in \<open>auto simp: vtxoPurposeSpend_def\<close>)
  then have 1: "bt_VaultID t = bt_VaultID u" "bt_DestScript t = bt_DestScript u" "bt_AmountSats t = bt_AmountSats u"
    and "concat (map credField [bt_ChangeScript t]) @ le64 (bt_FeeSats t) @ le64 (bt_ChangeSats t) @
       encVout (bt_ChangeVout t) @ concat (map credField [bt_FeePolicyDigest t]) @ le16 (length xs) @
       concat (map encBundleInput xs) @ concat (map credField [bytes_of (bt_CreatedAt t)]) =
     concat (map credField [bt_ChangeScript u]) @ le64 (bt_FeeSats u) @ le64 (bt_ChangeSats u) @
       encVout (bt_ChangeVout u) @ concat (map credField [bt_FeePolicyDigest u]) @ le16 (length ys) @
       concat (map encBundleInput ys) @ concat (map credField [bytes_of (bt_CreatedAt u)])"
    by (simp_all add: append_split_eq)
  from credFields_split [OF _ _ _ this(4)] x(5) y(5) have 2: "bt_ChangeScript t = bt_ChangeScript u"
    "bt_FeeSats t = bt_FeeSats u" "bt_ChangeSats t = bt_ChangeSats u"
    and "encVout (bt_ChangeVout t) @ concat (map credField [bt_FeePolicyDigest t]) @ le16 (length xs) @
       concat (map encBundleInput xs) @ concat (map credField [bytes_of (bt_CreatedAt t)]) =
       encVout (bt_ChangeVout u) @ concat (map credField [bt_FeePolicyDigest u]) @ le16 (length ys) @
       concat (map encBundleInput ys) @ concat (map credField [bytes_of (bt_CreatedAt u)])"
    by (simp_all add: append_split_eq)
  from bundleTail_inject [OF _ _ _ _ _ _ _ _ this(4)] x(1,2,4,5) y(1,2,4,5) CanonicalVtxoBundleInputs_InrD
  have "bt_ChangeVout t = bt_ChangeVout u" "bt_FeePolicyDigest t = bt_FeePolicyDigest u" "xs = ys"
    "bt_CreatedAt t = bt_CreatedAt u" by simp_all
  with 1 2 x(1,3) y(1,3) show ?thesis by (auto intro: BundleTerms.equality)
qed

theorem bundle_payload_injective_witness:
  "\<exists>p. vtxoBundlePayload sampleTerms sampleBundle = Inr p \<and>
     (\<forall>u ins. vtxoBundlePayload u ins = Inr p \<longrightarrow> bt_AmountSats u = 1000 \<and> length ins = 2)"
proof -
  obtain p where p: "vtxoBundlePayload sampleTerms sampleBundle = Inr p" using sampleTerms_payload by blast
  have "bt_AmountSats u = 1000 \<and> length ins = 2" if "vtxoBundlePayload u ins = Inr p" for u ins
  proof -
    from bundle_payload_injective [OF p that] have "u = sampleTerms" "CanonicalVtxoBundleInputs ins = Inr (rev sampleBundle)"
      by (simp_all add: sampleBundle_canonical)
    moreover from this(2) obtain ks where "keyBundleInputs [] ins = Inr ks" "rev sampleBundle = map fst (sliceStable keyedLess ks)"
      by (auto simp: CanonicalVtxoBundleInputs_def andThen_Inr_iff split: if_splits)
    then have "length ins = 2"
      using length_keyBundleInputs [of "[]" ins ks] arg_cong [of _ _ length] mset_sliceStable [of keyedLess ks]
      by (metis length_map length_rev sampleBundle_def size_mset length_Cons list.size(3) numeral_2_eq_2)
    ultimately show ?thesis by (simp add: sampleTerms_def)
  qed
  with p show ?thesis by blast
qed

end
