(* ===== verification/Tenant.thy ===== *)
theory Tenant
  imports Vtxo
begin

text \<open>
  The tenant rows of the ledger and what authenticates them: the vault descriptor and the WebAuthn credential
  (\<open>internal/policy/tenant.go\<close>), the recovery envelope (\<open>envelope.go\<close>), the conversions between the application
  view and the rows, and the canonical comparisons. The descriptor and the credential interpret \<open>sealed_row\<close>.
\<close>

definition vaultRecordMACDomain :: string where "vaultRecordMACDomain = ''arkade-vault/vault-record/v2''"
definition vaultCredentialMACDomain :: string where "vaultCredentialMACDomain = ''arkade-vault/vault-credential/v1''"
definition CosignerModeHKDFSHA256V1 :: string where "CosignerModeHKDFSHA256V1 = ''hkdf-sha256-v1''"

record VaultRecord =
  vr_VaultID :: string
  vr_TemplateVersion :: string
  vr_PolicyVersion :: string
  vr_ProtectionTier :: string
  vr_Network :: string
  vr_RPID :: string
  vr_Origin :: string
  vr_PhoneBIP340 :: bytes
  vr_PhoneDirectP256 :: bytes
  vr_ExternalOwnerWallet :: bytes
  vr_RecoveryKey :: bytes
  vr_VaultCosignerBase :: bytes
  vr_ArkadeCosignerBase :: bytes
  vr_ArkadeCosignerOrigin :: string
  vr_ArkadeCosignerVersion :: string
  vr_CosignerMode :: string
  vr_SavingsAddress :: string
  vr_SavingsScript :: bytes
  vr_RecipientDustSats :: int
  vr_TxRecipientCapSats :: int
  vr_PeriodAllowanceSats :: int
  vr_AbsoluteFeeCapSats :: int
  vr_FeerateCapSatPerV :: int
  vr_IntegrityMAC :: bytes

record VaultCredential =
  vc_CredentialID :: bytes
  vc_VaultID :: string
  vc_WebAuthnP256 :: bytes
  vc_UserHandle :: bytes
  vc_Resident :: bool
  vc_IntegrityMAC :: bytes

record Credential =
  cr_ID :: bytes
  cr_WebAuthnP256 :: bytes
  cr_PhoneDirectP256 :: bytes
  cr_PhoneBIP340 :: bytes
  cr_ExternalOwnerWallet :: bytes
  cr_RPID :: string
  cr_Origin :: string
  cr_RecoveryKey :: bytes
  cr_VaultCosignerBase :: bytes
  cr_ArkadeCosignerBase :: bytes
  cr_ArkadeCosignerOrigin :: string
  cr_ArkadeCosignerVersion :: string
  cr_TemplateVersion :: string
  cr_PolicyVersion :: string
  cr_ProtectionTier :: string
  cr_Network :: string
  cr_VaultID :: string
  cr_SavingsAddress :: string
  cr_SavingsScript :: bytes
  cr_RecipientDustSats :: int
  cr_TxRecipientCapSats :: int
  cr_PeriodAllowanceSats :: int
  cr_AbsoluteFeeCapSats :: int
  cr_FeerateCapSatPerV :: int
  cr_IntegrityMAC :: bytes

definition vaultRecordFromCredential :: "Credential \<Rightarrow> VaultRecord" where
  "vaultRecordFromCredential c =
     \<lparr> vr_VaultID = cr_VaultID c, vr_TemplateVersion = cr_TemplateVersion c, vr_PolicyVersion = cr_PolicyVersion c,
       vr_ProtectionTier = cr_ProtectionTier c, vr_Network = cr_Network c, vr_RPID = cr_RPID c, vr_Origin = cr_Origin c,
       vr_PhoneBIP340 = cr_PhoneBIP340 c, vr_PhoneDirectP256 = cr_PhoneDirectP256 c,
       vr_ExternalOwnerWallet = cr_ExternalOwnerWallet c, vr_RecoveryKey = cr_RecoveryKey c,
       vr_VaultCosignerBase = cr_VaultCosignerBase c, vr_ArkadeCosignerBase = cr_ArkadeCosignerBase c,
       vr_ArkadeCosignerOrigin = cr_ArkadeCosignerOrigin c, vr_ArkadeCosignerVersion = cr_ArkadeCosignerVersion c,
       vr_CosignerMode = CosignerModeHKDFSHA256V1,
       vr_SavingsAddress = cr_SavingsAddress c, vr_SavingsScript = cr_SavingsScript c,
       vr_RecipientDustSats = cr_RecipientDustSats c, vr_TxRecipientCapSats = cr_TxRecipientCapSats c,
       vr_PeriodAllowanceSats = cr_PeriodAllowanceSats c, vr_AbsoluteFeeCapSats = cr_AbsoluteFeeCapSats c,
       vr_FeerateCapSatPerV = cr_FeerateCapSatPerV c, vr_IntegrityMAC = [] \<rparr>"

definition toCredential :: "VaultRecord \<Rightarrow> VaultCredential \<Rightarrow> Credential" where
  "toCredential v cred =
     \<lparr> cr_ID = vc_CredentialID cred, cr_WebAuthnP256 = vc_WebAuthnP256 cred, cr_PhoneDirectP256 = vr_PhoneDirectP256 v,
       cr_PhoneBIP340 = vr_PhoneBIP340 v, cr_ExternalOwnerWallet = vr_ExternalOwnerWallet v,
       cr_RPID = vr_RPID v, cr_Origin = vr_Origin v, cr_RecoveryKey = vr_RecoveryKey v,
       cr_VaultCosignerBase = vr_VaultCosignerBase v, cr_ArkadeCosignerBase = vr_ArkadeCosignerBase v,
       cr_ArkadeCosignerOrigin = vr_ArkadeCosignerOrigin v, cr_ArkadeCosignerVersion = vr_ArkadeCosignerVersion v,
       cr_TemplateVersion = vr_TemplateVersion v, cr_PolicyVersion = vr_PolicyVersion v,
       cr_ProtectionTier = vr_ProtectionTier v, cr_Network = vr_Network v, cr_VaultID = vr_VaultID v,
       cr_SavingsAddress = vr_SavingsAddress v, cr_SavingsScript = vr_SavingsScript v,
       cr_RecipientDustSats = vr_RecipientDustSats v, cr_TxRecipientCapSats = vr_TxRecipientCapSats v,
       cr_PeriodAllowanceSats = vr_PeriodAllowanceSats v, cr_AbsoluteFeeCapSats = vr_AbsoluteFeeCapSats v,
       cr_FeerateCapSatPerV = vr_FeerateCapSatPerV v, cr_IntegrityMAC = [] \<rparr>"

section \<open>MACs of the descriptor and the credential\<close>

text \<open>The message \<open>vaultRecordMAC\<close> authenticates.\<close>

definition vaultRecordPayload :: "VaultRecord \<Rightarrow> bytes res" where
  "vaultRecordPayload v =
     andThen (appendCredentialField [] (bytes_of vaultRecordMACDomain)) (\<lambda>out.
     andThen (appendFields (out @ le32 1)
       [ bytes_of (vr_VaultID v), bytes_of (vr_TemplateVersion v), bytes_of (vr_PolicyVersion v), bytes_of (vr_ProtectionTier v),
         bytes_of (vr_CosignerMode v), bytes_of (vr_Network v), bytes_of (vr_RPID v), bytes_of (vr_Origin v),
         vr_PhoneBIP340 v, vr_PhoneDirectP256 v, vr_ExternalOwnerWallet v, vr_RecoveryKey v,
         vr_VaultCosignerBase v, vr_ArkadeCosignerBase v,
         bytes_of (vr_ArkadeCosignerOrigin v), bytes_of (vr_ArkadeCosignerVersion v) ]) (\<lambda>out.
     appendFields (out @ le64 (u64_of (vr_RecipientDustSats v)) @ le64 (u64_of (vr_TxRecipientCapSats v)) @
         le64 (u64_of (vr_PeriodAllowanceSats v)) @ le64 (u64_of (vr_AbsoluteFeeCapSats v)) @
         le64 (u64_of (vr_FeerateCapSatPerV v)))
       [ bytes_of (vr_SavingsAddress v), vr_SavingsScript v ]))"

definition vaultRecordMAC :: "VaultRecord \<Rightarrow> bytes \<Rightarrow> bytes res" where
  "vaultRecordMAC v key =
     (if length key \<noteq> 32 then Inl (Err ''credential integrity key must be 32 bytes'')
      else andThen (vaultRecordPayload v) (\<lambda>out. Inr (hmac_sha256 key out)))"

definition sealVaultRecord :: "VaultRecord \<Rightarrow> bytes \<Rightarrow> VaultRecord res" where
  "sealVaultRecord v key = andThen (vaultRecordMAC v key) (\<lambda>mac. Inr (v \<lparr> vr_IntegrityMAC := mac \<rparr>))"

definition verifyVaultRecord :: "VaultRecord \<Rightarrow> bytes \<Rightarrow> unit res" where
  "verifyVaultRecord v key =
     (if length (vr_IntegrityMAC v) \<noteq> 32 then Inl (Err ''vault integrity MAC missing or malformed'')
      else andThen (vaultRecordMAC v key) (\<lambda>want.
        if vr_IntegrityMAC v \<noteq> want then Inl (Err ''vault integrity MAC mismatch'') else Inr ()))"

definition vaultCredentialPayload :: "VaultCredential \<Rightarrow> bytes res" where
  "vaultCredentialPayload c =
     andThen (appendCredentialField [] (bytes_of vaultCredentialMACDomain)) (\<lambda>out.
     andThen (appendFields out [vc_CredentialID c, bytes_of (vc_VaultID c), vc_WebAuthnP256 c, vc_UserHandle c]) (\<lambda>out.
     Inr (out @ (if vc_Resident c then [1] else [0]))))"

definition vaultCredentialMAC :: "VaultCredential \<Rightarrow> bytes \<Rightarrow> bytes res" where
  "vaultCredentialMAC c key =
     (if length key \<noteq> 32 then Inl (Err ''credential integrity key must be 32 bytes'')
      else andThen (vaultCredentialPayload c) (\<lambda>out. Inr (hmac_sha256 key out)))"

definition sealVaultCredential :: "VaultCredential \<Rightarrow> bytes \<Rightarrow> VaultCredential res" where
  "sealVaultCredential c key = andThen (vaultCredentialMAC c key) (\<lambda>mac. Inr (c \<lparr> vc_IntegrityMAC := mac \<rparr>))"

definition verifyVaultCredential :: "VaultCredential \<Rightarrow> bytes \<Rightarrow> unit res" where
  "verifyVaultCredential c key =
     (if length (vc_IntegrityMAC c) \<noteq> 32 then Inl (Err ''vault credential integrity MAC missing or malformed'')
      else andThen (vaultCredentialMAC c key) (\<lambda>want.
        if vc_IntegrityMAC c \<noteq> want then Inl (Err ''vault credential integrity MAC mismatch'') else Inr ()))"

section \<open>Canonical comparisons\<close>

definition VaultRecordsCanonicallyEqual :: "VaultRecord \<Rightarrow> VaultRecord \<Rightarrow> unit res" where
  "VaultRecordsCanonicallyEqual got want =
     (if vr_VaultID got \<noteq> vr_VaultID want then Inl (Err ''vault_id'')
      else if vr_TemplateVersion got \<noteq> vr_TemplateVersion want then Inl (Err ''template_version'')
      else if vr_PolicyVersion got \<noteq> vr_PolicyVersion want then Inl (Err ''policy_version'')
      else if vr_ProtectionTier got \<noteq> vr_ProtectionTier want then Inl (Err ''protection_tier'')
      else if vr_Network got \<noteq> vr_Network want then Inl (Err ''network'')
      else if vr_RPID got \<noteq> vr_RPID want then Inl (Err ''rp_id'')
      else if vr_Origin got \<noteq> vr_Origin want then Inl (Err ''origin'')
      else if vr_PhoneBIP340 got \<noteq> vr_PhoneBIP340 want then Inl (Err ''phone_bip340'')
      else if vr_PhoneDirectP256 got \<noteq> vr_PhoneDirectP256 want then Inl (Err ''phone_direct_p256'')
      else if vr_ExternalOwnerWallet got \<noteq> vr_ExternalOwnerWallet want then Inl (Err ''external_owner_wallet'')
      else if vr_RecoveryKey got \<noteq> vr_RecoveryKey want then Inl (Err ''recovery_key'')
      else if vr_VaultCosignerBase got \<noteq> vr_VaultCosignerBase want then Inl (Err ''vault_cosigner_base'')
      else if vr_ArkadeCosignerBase got \<noteq> vr_ArkadeCosignerBase want then Inl (Err ''arkade_cosigner_base'')
      else if vr_ArkadeCosignerOrigin got \<noteq> vr_ArkadeCosignerOrigin want then Inl (Err ''arkade_cosigner_origin'')
      else if vr_ArkadeCosignerVersion got \<noteq> vr_ArkadeCosignerVersion want then Inl (Err ''arkade_cosigner_version'')
      else if vr_CosignerMode got \<noteq> vr_CosignerMode want then Inl (Err ''cosigner_mode'')
      else if vr_SavingsAddress got \<noteq> vr_SavingsAddress want then Inl (Err ''savings_address'')
      else if vr_SavingsScript got \<noteq> vr_SavingsScript want then Inl (Err ''savings_script'')
      else if vr_RecipientDustSats got \<noteq> vr_RecipientDustSats want then Inl (Err ''recipient_dust_sats'')
      else if vr_TxRecipientCapSats got \<noteq> vr_TxRecipientCapSats want then Inl (Err ''tx_recipient_cap_sats'')
      else if vr_PeriodAllowanceSats got \<noteq> vr_PeriodAllowanceSats want then Inl (Err ''period_allowance_sats'')
      else if vr_AbsoluteFeeCapSats got \<noteq> vr_AbsoluteFeeCapSats want then Inl (Err ''absolute_fee_cap_sats'')
      else if vr_FeerateCapSatPerV got \<noteq> vr_FeerateCapSatPerV want then Inl (Err ''feerate_cap_sat_vb'')
      else Inr ())"

definition VaultCredentialsCanonicallyEqual :: "VaultCredential \<Rightarrow> VaultCredential \<Rightarrow> unit res" where
  "VaultCredentialsCanonicallyEqual got want =
     (if vc_CredentialID got \<noteq> vc_CredentialID want then Inl (Err ''credential_id'')
      else if vc_VaultID got \<noteq> vc_VaultID want then Inl (Err ''vault_id'')
      else if vc_WebAuthnP256 got \<noteq> vc_WebAuthnP256 want then Inl (Err ''webauthn_p256'')
      else if vc_UserHandle got \<noteq> vc_UserHandle want then Inl (Err ''user_handle'')
      else if vc_Resident got \<noteq> vc_Resident want then Inl (Err ''resident'')
      else Inr ())"

section \<open>Recovery envelope\<close>

definition vaultEnvelopeDomain :: string where "vaultEnvelopeDomain = ''arkade-vault/vault-envelope/v2''"
definition vaultEnvelopeMACSalt :: string where "vaultEnvelopeMACSalt = ''arkade-vault/vault-envelope-mac/v2''"

record CredentialEnvelope =
  ce_Version :: u32
  ce_Binding :: string
  ce_Nonce :: bytes
  ce_Ciphertext :: bytes
  ce_DirectSig :: bytes
  ce_PhoneSig :: bytes
  ce_IntegrityMAC :: bytes

definition DeriveVaultEnvelopeMACKey :: "bytes \<Rightarrow> string \<Rightarrow> bytes res" where
  "DeriveVaultEnvelopeMACKey integrityKey vaultID =
     (if length integrityKey \<noteq> 32 then Inl (Err ''credential integrity key must be 32 bytes'')
      else if vaultID = [] then Inl (Err ''vault id required'')
      else Inr (hmac_sha256 (bytes_of vaultEnvelopeMACSalt) (integrityKey @ [0] @ bytes_of vaultID)))"

definition validateCredentialEnvelope :: "CredentialEnvelope \<Rightarrow> unit res" where
  "validateCredentialEnvelope e =
     (if ce_Version e \<noteq> 2 then Inl (Err ''credential envelope version must be %d'')
      else if ce_Binding e = [] \<or> length (ce_Binding e) > 16384 then Inl (Err ''credential envelope binding must be 1..%d bytes'')
      else if length (ce_Nonce e) \<noteq> 12 then Inl (Err ''credential envelope nonce must be %d bytes'')
      else if length (ce_Ciphertext e) \<noteq> 48 then Inl (Err ''credential envelope ciphertext must be %d bytes'')
      else if length (ce_DirectSig e) \<noteq> 64 then Inl (Err ''credential envelope direct signature must be %d bytes'')
      else if length (ce_PhoneSig e) \<noteq> 64 then Inl (Err ''credential envelope phone signature must be %d bytes'')
      else if ce_IntegrityMAC e \<noteq> [] \<and> length (ce_IntegrityMAC e) \<noteq> 32
        then Inl (Err ''credential envelope integrity MAC must be 32 bytes'')
      else Inr ())"

definition vaultEnvelopePayload :: "CredentialEnvelope \<Rightarrow> string \<Rightarrow> bytes \<Rightarrow> bytes" where
  "vaultEnvelopePayload e vaultID credentialID =
     credField (bytes_of vaultEnvelopeDomain) @ le32 (ce_Version e) @
     concat (map credField [bytes_of vaultID, credentialID, bytes_of (ce_Binding e), ce_Nonce e, ce_Ciphertext e,
       ce_DirectSig e, ce_PhoneSig e])"

definition vaultEnvelopeMAC :: "CredentialEnvelope \<Rightarrow> string \<Rightarrow> bytes \<Rightarrow> bytes \<Rightarrow> bytes res" where
  "vaultEnvelopeMAC e vaultID credentialID integrityKey =
     andThen (DeriveVaultEnvelopeMACKey integrityKey vaultID) (\<lambda>key.
     andThen (validateCredentialEnvelope e) (\<lambda>_.
     Inr (hmac_sha256 key (vaultEnvelopePayload e vaultID credentialID))))"

definition SealVaultEnvelope :: "CredentialEnvelope \<Rightarrow> string \<Rightarrow> bytes \<Rightarrow> bytes \<Rightarrow> CredentialEnvelope res" where
  "SealVaultEnvelope e vaultID credentialID integrityKey =
     andThen (vaultEnvelopeMAC e vaultID credentialID integrityKey) (\<lambda>mac. Inr (e \<lparr> ce_IntegrityMAC := mac \<rparr>))"

definition VerifyVaultEnvelope :: "CredentialEnvelope \<Rightarrow> string \<Rightarrow> bytes \<Rightarrow> bytes \<Rightarrow> unit res" where
  "VerifyVaultEnvelope e vaultID credentialID integrityKey =
     (if length (ce_IntegrityMAC e) \<noteq> 32 then Inl (Err ''credential envelope integrity MAC missing or malformed'')
      else andThen (vaultEnvelopeMAC e vaultID credentialID integrityKey) (\<lambda>want.
        if ce_IntegrityMAC e \<noteq> want then Inl (Err ''credential envelope integrity MAC mismatch'') else Inr ()))"

definition envelopesEqual :: "CredentialEnvelope \<Rightarrow> CredentialEnvelope \<Rightarrow> bool" where
  "envelopesEqual a b \<longleftrightarrow> ce_Version a = ce_Version b \<and> ce_Binding a = ce_Binding b \<and> ce_Nonce a = ce_Nonce b \<and>
     ce_Ciphertext a = ce_Ciphertext b \<and> ce_DirectSig a = ce_DirectSig b \<and> ce_PhoneSig a = ce_PhoneSig b \<and>
     ce_IntegrityMAC a = ce_IntegrityMAC b"

section \<open>Injectivity\<close>

lemma u64_of_inject_i64:
  assumes "in_i64 x" "in_i64 y" "u64_of x = u64_of y"
  shows "x = y"
proof -
  have "x mod 2 ^ 64 = y mod 2 ^ 64"
    using assms(3) by (simp add: u64_of_def word_of_int_eq_iff take_bit_eq_mod)
  then have "(x - y) mod 2 ^ 64 = 0" by (metis mod_eq_dvd_iff dvd_imp_mod_0)
  moreover have "\<bar>x - y\<bar> < 2 ^ 64" using assms(1,2) by (auto simp: in_i64_def)
  ultimately have "x - y = 0" by (metis dvd_eq_mod_eq_0 zdvd_not_zless abs_of_nonneg dvd_abs_iff abs_ge_zero abs_eq_0
        less_le zero_less_abs_iff)
  then show ?thesis by simp
qed

definition vr_typed :: "VaultRecord \<Rightarrow> bool" where
  "vr_typed v \<longleftrightarrow> in_i64 (vr_RecipientDustSats v) \<and> in_i64 (vr_TxRecipientCapSats v) \<and> in_i64 (vr_PeriodAllowanceSats v) \<and>
     in_i64 (vr_AbsoluteFeeCapSats v) \<and> in_i64 (vr_FeerateCapSatPerV v)"

definition vrFields :: "VaultRecord \<Rightarrow> bytes list" where
  "vrFields v = [ bytes_of (vr_VaultID v), bytes_of (vr_TemplateVersion v), bytes_of (vr_PolicyVersion v), bytes_of (vr_ProtectionTier v),
     bytes_of (vr_CosignerMode v), bytes_of (vr_Network v), bytes_of (vr_RPID v), bytes_of (vr_Origin v),
     vr_PhoneBIP340 v, vr_PhoneDirectP256 v, vr_ExternalOwnerWallet v, vr_RecoveryKey v,
     vr_VaultCosignerBase v, vr_ArkadeCosignerBase v,
     bytes_of (vr_ArkadeCosignerOrigin v), bytes_of (vr_ArkadeCosignerVersion v) ]"

definition vrInts :: "VaultRecord \<Rightarrow> bytes" where
  "vrInts v = le64 (u64_of (vr_RecipientDustSats v)) @ le64 (u64_of (vr_TxRecipientCapSats v)) @
     le64 (u64_of (vr_PeriodAllowanceSats v)) @ le64 (u64_of (vr_AbsoluteFeeCapSats v)) @ le64 (u64_of (vr_FeerateCapSatPerV v))"

lemma length_vrInts [simp]: "length (vrInts v) = 40"
  by (simp add: vrInts_def)

definition vrTail :: "VaultRecord \<Rightarrow> bytes list" where
  "vrTail v = [bytes_of (vr_SavingsAddress v), vr_SavingsScript v]"

lemma vaultRecordPayload_Inr_iff:
  "vaultRecordPayload v = Inr p \<longleftrightarrow> (\<forall>f\<in>set (vrFields v) \<union> set (vrTail v). length f \<le> 4294967295) \<and>
     p = credField (bytes_of vaultRecordMACDomain) @ le32 1 @ concat (map credField (vrFields v)) @ vrInts v @ concat (map credField (vrTail v))"
  unfolding vaultRecordPayload_def vrFields_def [symmetric] vrTail_def [symmetric]
  by (auto simp: andThen_Inr_iff appendFields_Inr_iff appendCredentialField_Inr_iff vaultRecordMACDomain_def vrInts_def)

lemma vaultRecordPayload_inject:
  assumes "vr_typed v" "vr_typed w" "vaultRecordPayload v = Inr p" "vaultRecordPayload w = Inr p"
  shows "v \<lparr> vr_IntegrityMAC := m \<rparr> = w \<lparr> vr_IntegrityMAC := m \<rparr>"
proof -
  note D = assms(3,4) [unfolded vaultRecordPayload_Inr_iff]
  have "length (vrFields v) = length (vrFields w)" by (simp add: vrFields_def)
  from credFields_split [OF this, of "vrInts v @ concat (map credField (vrTail v))" "vrInts w @ concat (map credField (vrTail w))"] D
  have f: "vrFields v = vrFields w" and "vrInts v @ concat (map credField (vrTail v)) = vrInts w @ concat (map credField (vrTail w))"
    by auto
  then have i: "vrInts v = vrInts w" and "concat (map credField (vrTail v)) @ [] = concat (map credField (vrTail w)) @ []"
    by (simp_all add: append_split_eq)
  from credFields_split [OF _ _ _ this(2)] D have t: "vrTail v = vrTail w" by (auto simp: vrTail_def)
  from i have "u64_of (vr_RecipientDustSats v) = u64_of (vr_RecipientDustSats w)"
    "u64_of (vr_TxRecipientCapSats v) = u64_of (vr_TxRecipientCapSats w)"
    "u64_of (vr_PeriodAllowanceSats v) = u64_of (vr_PeriodAllowanceSats w)"
    "u64_of (vr_AbsoluteFeeCapSats v) = u64_of (vr_AbsoluteFeeCapSats w)"
    "u64_of (vr_FeerateCapSatPerV v) = u64_of (vr_FeerateCapSatPerV w)"
    by (simp_all add: vrInts_def append_split_eq)
  with assms(1,2) f t show ?thesis
    by (intro VaultRecord.equality) (auto simp: vr_typed_def vrFields_def vrTail_def intro!: u64_of_inject_i64)
qed

lemma vaultCredentialPayload_Inr_iff:
  "vaultCredentialPayload c = Inr p \<longleftrightarrow>
     (\<forall>f\<in>{vc_CredentialID c, bytes_of (vc_VaultID c), vc_WebAuthnP256 c, vc_UserHandle c}. length f \<le> 4294967295) \<and>
     p = credField (bytes_of vaultCredentialMACDomain) @
         concat (map credField [vc_CredentialID c, bytes_of (vc_VaultID c), vc_WebAuthnP256 c, vc_UserHandle c]) @
         (if vc_Resident c then [1] else [0])"
  by (auto simp: vaultCredentialPayload_def andThen_Inr_iff appendFields_Inr_iff appendCredentialField_Inr_iff
      vaultCredentialMACDomain_def)

lemma vaultCredentialPayload_inject:
  assumes "vaultCredentialPayload c = Inr p" "vaultCredentialPayload d = Inr p"
  shows "c \<lparr> vc_IntegrityMAC := m \<rparr> = d \<lparr> vc_IntegrityMAC := m \<rparr>"
proof -
  note D = assms [unfolded vaultCredentialPayload_Inr_iff]
  let ?F = "\<lambda>c. [vc_CredentialID c, bytes_of (vc_VaultID c), vc_WebAuthnP256 c, vc_UserHandle c]"
  let ?b = "\<lambda>c. (if vc_Resident c then [1] else [0]) :: bytes"
  have "concat (map credField (?F c)) @ ?b c = concat (map credField (?F d)) @ ?b d"
    using D by (metis same_append_eq)
  with credFields_split [of "?F c" "?F d" "?b c" "?b d"] D have "?F c = ?F d" "?b c = ?b d" by auto
  then show ?thesis by (intro VaultCredential.equality) (auto split: if_splits)
qed

interpretation vault_row: sealed_row vaultRecordPayload vr_IntegrityMAC "\<lambda>m v. v \<lparr> vr_IntegrityMAC := m \<rparr>"
  sealVaultRecord verifyVaultRecord vr_typed
proof
  show "vaultRecordPayload (v \<lparr> vr_IntegrityMAC := m \<rparr>) = vaultRecordPayload v" for m v
    by (simp add: vaultRecordPayload_def)
  show "sealVaultRecord v k = Inr v' \<longleftrightarrow>
      length k = 32 \<and> (\<exists>p. vaultRecordPayload v = Inr p \<and> v' = v \<lparr> vr_IntegrityMAC := hmac_sha256 k p \<rparr>)" for v v' k
    by (auto simp: sealVaultRecord_def vaultRecordMAC_def andThen_Inr_iff)
  show "verifyVaultRecord v k = Inr () \<longleftrightarrow>
      length k = 32 \<and> (\<exists>p. vaultRecordPayload v = Inr p \<and> vr_IntegrityMAC v = hmac_sha256 k p)" for v k
    by (auto simp: verifyVaultRecord_def vaultRecordMAC_def andThen_Inr_iff split: if_splits)
  show "vr_typed r \<Longrightarrow> vr_typed r' \<Longrightarrow> vaultRecordPayload r = Inr p \<Longrightarrow> vaultRecordPayload r' = Inr p \<Longrightarrow>
      r \<lparr> vr_IntegrityMAC := m \<rparr> = r' \<lparr> vr_IntegrityMAC := m \<rparr>" for r r' p m
    by (rule vaultRecordPayload_inject)
qed simp_all

interpretation cred_row: sealed_row vaultCredentialPayload vc_IntegrityMAC "\<lambda>m c. c \<lparr> vc_IntegrityMAC := m \<rparr>"
  sealVaultCredential verifyVaultCredential "\<lambda>_. True"
proof
  show "vaultCredentialPayload (c \<lparr> vc_IntegrityMAC := m \<rparr>) = vaultCredentialPayload c" for m c
    by (simp add: vaultCredentialPayload_def)
  show "sealVaultCredential c k = Inr c' \<longleftrightarrow>
      length k = 32 \<and> (\<exists>p. vaultCredentialPayload c = Inr p \<and> c' = c \<lparr> vc_IntegrityMAC := hmac_sha256 k p \<rparr>)" for c c' k
    by (auto simp: sealVaultCredential_def vaultCredentialMAC_def andThen_Inr_iff)
  show "verifyVaultCredential c k = Inr () \<longleftrightarrow>
      length k = 32 \<and> (\<exists>p. vaultCredentialPayload c = Inr p \<and> vc_IntegrityMAC c = hmac_sha256 k p)" for c k
    by (auto simp: verifyVaultCredential_def vaultCredentialMAC_def andThen_Inr_iff split: if_splits)
  show "vaultCredentialPayload r = Inr p \<Longrightarrow> vaultCredentialPayload r' = Inr p \<Longrightarrow>
      r \<lparr> vc_IntegrityMAC := m \<rparr> = r' \<lparr> vc_IntegrityMAC := m \<rparr>" for r r' p m
    by (rule vaultCredentialPayload_inject)
qed simp_all

lemma vaultEnvelopePayload_inject:
  assumes "validateCredentialEnvelope e = Inr ()" "validateCredentialEnvelope f = Inr ()"
    and "\<forall>x\<in>{bytes_of u, bytes_of v, c, d}. length x \<le> 4294967295"
    and "vaultEnvelopePayload e u c = vaultEnvelopePayload f v d"
  shows "u = v \<and> c = d \<and> e \<lparr> ce_IntegrityMAC := m \<rparr> = f \<lparr> ce_IntegrityMAC := m \<rparr>"
proof -
  let ?F = "\<lambda>e u c. [bytes_of u, c, bytes_of (ce_Binding e), ce_Nonce e, ce_Ciphertext e, ce_DirectSig e, ce_PhoneSig e]"
  have V: "ce_Version e = ce_Version f" and eq: "concat (map credField (?F e u c)) @ [] = concat (map credField (?F f v d)) @ []"
    using assms(4) by (simp_all add: vaultEnvelopePayload_def append_split_eq)
  have "?F e u c = ?F f v d"
    using credFields_split [OF _ _ _ eq] assms(1-3) by (auto simp: validateCredentialEnvelope_def split: if_splits)
  with V show ?thesis by (auto intro: CredentialEnvelope.equality)
qed

section \<open>Properties\<close>

text \<open>
  The canonical comparison of two vault descriptors accepts exactly the descriptors that agree in every
  field but the MAC; no field is left out.
\<close>

theorem vault_records_equal_iff:
  "VaultRecordsCanonicallyEqual got want = Inr () \<longleftrightarrow>
     got \<lparr> vr_IntegrityMAC := [] \<rparr> = want \<lparr> vr_IntegrityMAC := [] \<rparr>"
  (is "?L \<longleftrightarrow> ?R")
proof
  assume ?L
  then show ?R
    by (intro VaultRecord.equality) (auto simp: VaultRecordsCanonicallyEqual_def split: if_splits)
next
  assume ?R
  then show ?L
    by (cases got, cases want) (simp add: VaultRecordsCanonicallyEqual_def)
qed

text \<open>
  the MAC of a vault descriptor binds every field of it, the spending limits included: two descriptors with
  64-bit integers and the same MAC message are equal up to the stored tag.
\<close>

theorem vault_record_encoding_injective:
  assumes "vr_typed v" "vr_typed w" "vaultRecordPayload v = Inr p" "vaultRecordPayload w = Inr p"
  shows "VaultRecordsCanonicallyEqual v w = Inr ()"
  using vault_row.canon_inj [OF assms, of "[]"]
  by (cases v, cases w) (simp add: VaultRecordsCanonicallyEqual_def)

definition sampleVault :: VaultRecord where
  "sampleVault = \<lparr> vr_VaultID = ''v'', vr_TemplateVersion = ''t'', vr_PolicyVersion = ''vault-spending-policy-v1'',
     vr_ProtectionTier = ''light'', vr_Network = ''mainnet'', vr_RPID = ''rp'', vr_Origin = ''https://rp'',
     vr_PhoneBIP340 = [2], vr_PhoneDirectP256 = [3], vr_ExternalOwnerWallet = [4], vr_RecoveryKey = [],
     vr_VaultCosignerBase = [5], vr_ArkadeCosignerBase = [6], vr_ArkadeCosignerOrigin = ''o'', vr_ArkadeCosignerVersion = ''1'',
     vr_CosignerMode = ''hkdf-sha256-v1'', vr_SavingsAddress = ''a'', vr_SavingsScript = [81], vr_RecipientDustSats = 330,
     vr_TxRecipientCapSats = 50000, vr_PeriodAllowanceSats = 100000, vr_AbsoluteFeeCapSats = 20000, vr_FeerateCapSatPerV = 25,
     vr_IntegrityMAC = [] \<rparr>"

definition sampleCredential :: VaultCredential where
  "sampleCredential = \<lparr> vc_CredentialID = [1, 2], vc_VaultID = ''v'', vc_WebAuthnP256 = [3], vc_UserHandle = [4], vc_Resident = True,
     vc_IntegrityMAC = [] \<rparr>"

theorem vault_record_encoding_injective_witness:
  "\<exists>p. vaultRecordPayload sampleVault = Inr p \<and>
     VaultRecordsCanonicallyEqual sampleVault (sampleVault \<lparr> vr_IntegrityMAC := [9] \<rparr>) = Inr ()"
proof -
  have t: "vr_typed sampleVault" "vr_typed (sampleVault \<lparr> vr_IntegrityMAC := [9] \<rparr>)"
    by (simp_all add: vr_typed_def sampleVault_def in_i64_def)
  have "\<exists>p. vaultRecordPayload sampleVault = Inr p"
    by (simp add: vaultRecordPayload_Inr_iff vrFields_def vrTail_def sampleVault_def)
  then obtain p where p: "vaultRecordPayload sampleVault = Inr p" ..
  then have q: "vaultRecordPayload (sampleVault \<lparr> vr_IntegrityMAC := [9] \<rparr>) = Inr p"
    by (simp add: vault_row.canon_set)
  from p vault_record_encoding_injective [OF t p q] show ?thesis by blast
qed

text \<open>
  The recovery envelope is bound to its tenant. The message its MAC covers determines the vault id, the
  credential id and every field of a valid envelope, so an envelope sealed for one vault and passkey is the
  message of no other.
\<close>

theorem envelope_binds_vault_and_credential:
  assumes "validateCredentialEnvelope e = Inr ()" "validateCredentialEnvelope f = Inr ()"
    and "length u \<le> 4294967295" "length v \<le> 4294967295" "length c \<le> 4294967295" "length d \<le> 4294967295"
    and "vaultEnvelopePayload e u c = vaultEnvelopePayload f v d"
  shows "u = v \<and> c = d \<and> envelopesEqual (e \<lparr> ce_IntegrityMAC := [] \<rparr>) (f \<lparr> ce_IntegrityMAC := [] \<rparr>)"
  using vaultEnvelopePayload_inject [OF assms(1,2) _ assms(7), of "[]"] assms(3-6)
  by (simp add: envelopesEqual_def)

theorem envelope_binds_vault_and_credential_witness:
  "\<exists>e. validateCredentialEnvelope e = Inr () \<and>
     vaultEnvelopePayload e ''vault-a'' [1] \<noteq> vaultEnvelopePayload e ''vault-b'' [1]"
proof -
  let ?e = "\<lparr> ce_Version = 2, ce_Binding = ''b'', ce_Nonce = replicate 12 0, ce_Ciphertext = replicate 48 0,
    ce_DirectSig = replicate 64 0, ce_PhoneSig = replicate 64 0, ce_IntegrityMAC = [] \<rparr>"
  have v: "validateCredentialEnvelope ?e = Inr ()" by (simp add: validateCredentialEnvelope_def)
  have "vaultEnvelopePayload ?e ''vault-a'' [1] \<noteq> vaultEnvelopePayload ?e ''vault-b'' [1]"
    using envelope_binds_vault_and_credential [OF v v, of "''vault-a''" "''vault-b''" "[1]" "[1]"] by auto
  with v show ?thesis by blast
qed

end
