(* ===== verification/Board_Data.thy ===== *)
theory Board_Data
  imports Vtxo
begin

text \<open>
  The rows of the boarding ledger (\<open>vault_board.go\<close>): enrollments, operations, phase authorizations, dispatches and Operator
  results, their canonical encodings and their seals. Every row type is an instance of \<open>sealed_row\<close>. The rows of the Ledger
  Savings tables (\<open>ledger_savings.go\<close>) are declared here too, since the ledger's database holds both.
\<close>

section \<open>Rows\<close>

definition VaultBoardPhaseRegister :: string where "VaultBoardPhaseRegister = ''register''"
definition VaultBoardPhaseDelete :: string where "VaultBoardPhaseDelete = ''delete''"
definition VaultBoardPhaseFinalize :: string where "VaultBoardPhaseFinalize = ''finalize''"
definition VaultBoardAuthSubmitted :: string where "VaultBoardAuthSubmitted = ''submitted''"
definition VaultBoardAuthReleased :: string where "VaultBoardAuthReleased = ''released''"
definition VaultBoardAuthRejected :: string where "VaultBoardAuthRejected = ''rejected''"
definition vaultBoardEnrollmentMACDomain :: string where "vaultBoardEnrollmentMACDomain = ''arkade-vault/vault-board-v1-enrollment/v1''"
definition vaultBoardOperationMACDomain :: string where "vaultBoardOperationMACDomain = ''arkade-vault/vault-board-v1-operation/v1''"
definition vaultBoardAuthorizationDomain :: string where "vaultBoardAuthorizationDomain = ''arkade-vault/vault-board-v1-authorization/v1''"
definition vaultBoardDispatchMACDomain :: string where "vaultBoardDispatchMACDomain = ''arkade-vault/vault-board-v1-dispatch/v1''"
definition vaultBoardSubmissionMACDomain :: string where "vaultBoardSubmissionMACDomain = ''arkade-vault/vault-board-v1-submission/v1''"
definition vaultBoardOperationIDDomain :: string where "vaultBoardOperationIDDomain = ''arkade-vault/vault-board-v1-operation-id/v1''"
definition vaultBoardCanonicalVersion :: u32 where "vaultBoardCanonicalVersion = 1"
definition MaxVaultBoardOperatorRefBytes :: nat where "MaxVaultBoardOperatorRefBytes = 256"

lemmas board_names [guard_defs] = VaultBoardPhaseRegister_def VaultBoardPhaseDelete_def VaultBoardPhaseFinalize_def
  VaultBoardAuthSubmitted_def VaultBoardAuthReleased_def VaultBoardAuthRejected_def

record VaultBoardEnrollment =
  be_VaultID :: string
  be_Program :: string
  be_BoardingPub :: bytes
  be_CosignerPub :: bytes
  be_OperatorPub :: bytes
  be_ExitDelay :: u32
  be_ExitDelayUnit :: string
  be_PkScript :: bytes
  be_Address :: string
  be_IntegrityMAC :: bytes

record VaultBoardOperation =
  bo_OperationID :: string
  bo_VaultID :: string
  bo_Txid :: bytes
  bo_Vout :: u32
  bo_ValueSats :: int
  bo_BoardingScript :: bytes
  bo_ReceiverScript :: bytes
  bo_SequenceAnchorMTP :: int
  bo_CreatedAt :: string
  bo_IntegrityMAC :: bytes

record VaultBoardAuthorization =
  ba_OperationID :: string
  ba_Attempt :: u32
  ba_Phase :: string
  ba_RequestDigest :: bytes
  ba_TreeSessionPub :: bytes
  ba_ReceiverSats :: int
  ba_FeeSats :: int
  ba_ExpireAt :: int
  ba_CommitmentTxid :: string
  ba_ReceiverTxid :: string
  ba_ReceiverVout :: u32
  ba_CreatedAt :: string
  ba_IntegrityMAC :: bytes

record VaultBoardSubmission =
  bs_OperationID :: string
  bs_Attempt :: u32
  bs_Phase :: string
  bs_RequestDigest :: bytes
  bs_Outcome :: string
  bs_OperatorRef :: string
  bs_CommitmentTxid :: string
  bs_ReceiverTxid :: string
  bs_ReceiverVout :: u32
  bs_CreatedAt :: string
  bs_IntegrityMAC :: bytes

record VaultBoardDispatch =
  bd_OperationID :: string
  bd_Attempt :: u32
  bd_Phase :: string
  bd_RequestDigest :: bytes
  bd_CreatedAt :: string
  bd_IntegrityMAC :: bytes

text \<open>A row of \<open>vault_board_conflict\<close>; its phase column is always \<open>finalize\<close>.\<close>

record BoardConflictRow =
  cr_operation_id :: string
  cr_attempt :: u32
  cr_payload :: string
  cr_integrity_mac :: bytes

record LedgerSavingsEnrollment =
  le_VaultID :: string
  le_ContextJSON :: bytes
  le_DescriptorHash :: string
  le_IntegrityMAC :: bytes

text \<open>A row of \<open>ledger_savings_recovery_event\<close>.\<close>

record SavingsEventRow =
  se_event_id :: int
  se_vault_id :: string
  se_record :: bytes
  se_integrity_mac :: bytes

section \<open>Encodings and seals\<close>

definition boardCanonical :: "string \<Rightarrow> bytes list \<Rightarrow> bytes res" where
  "boardCanonical domain fs =
     andThen (appendCredentialField [] (bytes_of domain)) (\<lambda>out. appendFields (out @ le32 vaultBoardCanonicalVersion) fs)"

definition canonicalVaultBoardEnrollment :: "VaultBoardEnrollment \<Rightarrow> bytes res" where
  "canonicalVaultBoardEnrollment r =
     (if be_VaultID r = [] \<or> be_Program r \<noteq> ''vault-board-v1'' \<or> length (be_BoardingPub r) \<noteq> 33 \<or> length (be_CosignerPub r) \<noteq> 33 \<or>
         length (be_OperatorPub r) \<noteq> 33 \<or> length (be_PkScript r) \<noteq> 34 \<or> be_Address r = [] \<or> be_ExitDelay r = 0 \<or> be_ExitDelayUnit r = []
      then Inl (Err ''invalid vault-board-v1 enrollment'')
      else andThen (boardCanonical vaultBoardEnrollmentMACDomain
          [bytes_of (be_VaultID r), bytes_of (be_Program r), be_BoardingPub r, be_CosignerPub r, be_OperatorPub r,
           bytes_of (be_ExitDelayUnit r), be_PkScript r, bytes_of (be_Address r)]) (\<lambda>out.
        Inr (out @ le32 (be_ExitDelay r))))"

definition ComputeVaultBoardOperationID :: "string \<Rightarrow> bytes \<Rightarrow> u32 \<Rightarrow> string res" where
  "ComputeVaultBoardOperationID vaultID txid vout =
     (if vaultID = [] \<or> length txid \<noteq> 32 then Inl (Err ''vault-board-v1 outpoint required'')
      else andThen (boardCanonical vaultBoardOperationIDDomain [bytes_of vaultID, txid]) (\<lambda>payload.
        Inr (hexEncode (taggedSHA256 vaultBoardOperationIDDomain (payload @ le32 vout)))))"

definition canonicalVaultBoardOperation :: "VaultBoardOperation \<Rightarrow> bytes res" where
  "canonicalVaultBoardOperation r =
     (if bo_OperationID r = [] \<or> bo_VaultID r = [] \<or> length (bo_Txid r) \<noteq> 32 \<or> bo_ValueSats r \<le> 0 \<or> length (bo_BoardingScript r) \<noteq> 34 \<or>
         bo_ReceiverScript r = [] \<or> bo_SequenceAnchorMTP r \<le> 0 \<or> bo_CreatedAt r = []
      then Inl (Err ''invalid vault-board-v1 operation'')
      else case ComputeVaultBoardOperationID (bo_VaultID r) (bo_Txid r) (bo_Vout r) of
        Inl e \<Rightarrow> Inl (Err ''vault-board-v1 operation id mismatch'')
      | Inr wantID \<Rightarrow>
          if bo_OperationID r \<noteq> wantID then Inl (Err ''vault-board-v1 operation id mismatch'')
          else andThen (boardCanonical vaultBoardOperationMACDomain
              [bytes_of (bo_OperationID r), bytes_of (bo_VaultID r), bo_Txid r, bo_BoardingScript r, bo_ReceiverScript r,
               bytes_of (bo_CreatedAt r)]) (\<lambda>out.
            Inr (out @ le32 (bo_Vout r) @ le64 (u64_of (bo_ValueSats r)) @ le64 (u64_of (bo_SequenceAnchorMTP r)))))"

text \<open>\<open>s\<close> is its own canonical transaction id.\<close>

definition canonicalTxidText :: "string \<Rightarrow> bool" where
  "canonicalTxidText s = (case canonicalVtxoTxid (bytes_of s) of Inl _ \<Rightarrow> False | Inr (canon, _) \<Rightarrow> s = canon)"

definition authorizationFields :: "VaultBoardAuthorization \<Rightarrow> unit res" where
  "authorizationFields r =
     (if ba_Phase r = VaultBoardPhaseRegister then
        (if ba_ExpireAt r \<le> 0 \<or> length (ba_TreeSessionPub r) \<noteq> 33 \<or> ba_ReceiverSats r \<le> 0 \<or> ba_FeeSats r < 0 \<or>
            ba_ReceiverSats r > maxInt64 - ba_FeeSats r \<or> ba_CommitmentTxid r \<noteq> [] \<or> ba_ReceiverTxid r \<noteq> [] \<or> ba_ReceiverVout r \<noteq> 0
         then Inl (Err ''vault-board-v1 register attempt fields required'') else Inr ())
      else if ba_Phase r = VaultBoardPhaseFinalize then
        (if ba_ExpireAt r \<noteq> 0 \<or> ba_TreeSessionPub r \<noteq> [] \<or> ba_ReceiverSats r \<noteq> 0 \<or> ba_FeeSats r \<noteq> 0 \<or>
            \<not> canonicalTxidText (ba_CommitmentTxid r) \<or> \<not> canonicalTxidText (ba_ReceiverTxid r)
         then Inl (Err ''vault-board-v1 finalize fields'') else Inr ())
      else if ba_Phase r = VaultBoardPhaseDelete then
        (if ba_ExpireAt r \<le> 0 \<or> ba_TreeSessionPub r \<noteq> [] \<or> ba_ReceiverSats r \<noteq> 0 \<or> ba_FeeSats r \<noteq> 0 \<or>
            ba_CommitmentTxid r \<noteq> [] \<or> ba_ReceiverTxid r \<noteq> [] \<or> ba_ReceiverVout r \<noteq> 0
         then Inl (Err ''vault-board-v1 delete fields'') else Inr ())
      else Inl (Err ''invalid vault-board-v1 phase''))"

definition canonicalVaultBoardAuthorization :: "VaultBoardAuthorization \<Rightarrow> bytes res" where
  "canonicalVaultBoardAuthorization r =
     (if ba_OperationID r = [] \<or> length (ba_RequestDigest r) \<noteq> 32 \<or> ba_CreatedAt r = [] then Inl (Err ''invalid vault-board-v1 authorization'')
      else andThen (authorizationFields r) (\<lambda>_.
        andThen (boardCanonical vaultBoardAuthorizationDomain
          [bytes_of (ba_OperationID r), bytes_of (ba_Phase r), ba_RequestDigest r, ba_TreeSessionPub r, bytes_of (ba_CommitmentTxid r),
           bytes_of (ba_ReceiverTxid r), bytes_of (ba_CreatedAt r)]) (\<lambda>out.
        Inr (out @ le32 (ba_Attempt r) @ le64 (u64_of (ba_ReceiverSats r)) @ le64 (u64_of (ba_FeeSats r)) @
          le64 (u64_of (ba_ExpireAt r)) @ le32 (ba_ReceiverVout r)))))"

definition submissionFields :: "VaultBoardSubmission \<Rightarrow> unit res" where
  "submissionFields r =
     (let empty = bs_CommitmentTxid r = [] \<and> bs_ReceiverTxid r = [] \<and> bs_ReceiverVout r = 0 in
      if bs_Phase r = VaultBoardPhaseRegister then
        (if \<not> (bs_Outcome r = VaultBoardAuthSubmitted \<and> bs_OperatorRef r \<noteq> []) \<and>
            \<not> (bs_Outcome r = VaultBoardAuthRejected \<and> bs_OperatorRef r = []) \<or> \<not> empty
         then Inl (Err ''vault-board-v1 intent id required'') else Inr ())
      else if bs_Phase r = VaultBoardPhaseDelete then
        (if bs_Outcome r \<noteq> VaultBoardAuthReleased \<or> bs_OperatorRef r \<noteq> [] \<or> \<not> empty
         then Inl (Err ''vault-board-v1 delete result'') else Inr ())
      else if bs_Phase r = VaultBoardPhaseFinalize then
        (if bs_Outcome r \<noteq> VaultBoardAuthSubmitted \<or> bs_OperatorRef r \<noteq> [] \<or>
            \<not> canonicalTxidText (bs_CommitmentTxid r) \<or> \<not> canonicalTxidText (bs_ReceiverTxid r)
         then Inl (Err ''vault-board-v1 finalize result'') else Inr ())
      else Inl (Err ''invalid vault-board-v1 phase''))"

definition canonicalVaultBoardSubmission :: "VaultBoardSubmission \<Rightarrow> bytes res" where
  "canonicalVaultBoardSubmission r =
     (if bs_OperationID r = [] \<or> length (bs_RequestDigest r) \<noteq> 32 \<or> bs_CreatedAt r = [] \<or>
         length (bs_OperatorRef r) > MaxVaultBoardOperatorRefBytes then Inl (Err ''invalid vault-board-v1 submission'')
      else andThen (submissionFields r) (\<lambda>_.
        andThen (boardCanonical vaultBoardSubmissionMACDomain
          [bytes_of (bs_OperationID r), bytes_of (bs_Phase r), bs_RequestDigest r, bytes_of (bs_Outcome r), bytes_of (bs_OperatorRef r),
           bytes_of (bs_CommitmentTxid r), bytes_of (bs_ReceiverTxid r), bytes_of (bs_CreatedAt r)]) (\<lambda>out.
        Inr (out @ le32 (bs_Attempt r) @ le32 (bs_ReceiverVout r)))))"

definition canonicalVaultBoardDispatch :: "VaultBoardDispatch \<Rightarrow> bytes res" where
  "canonicalVaultBoardDispatch r =
     (if bd_OperationID r = [] \<or> length (bd_RequestDigest r) \<noteq> 32 \<or> bd_CreatedAt r = [] then Inl (Err ''invalid vault-board-v1 dispatch'')
      else if bd_Phase r \<notin> {VaultBoardPhaseRegister, VaultBoardPhaseDelete, VaultBoardPhaseFinalize} then Inl (Err ''invalid vault-board-v1 phase'')
      else andThen (boardCanonical vaultBoardDispatchMACDomain
          [bytes_of (bd_OperationID r), bytes_of (bd_Phase r), bd_RequestDigest r, bytes_of (bd_CreatedAt r)]) (\<lambda>out.
        Inr (out @ le32 (bd_Attempt r))))"

definition vaultBoardMAC :: "('r \<Rightarrow> bytes res) \<Rightarrow> 'r \<Rightarrow> bytes \<Rightarrow> bytes res" where
  "vaultBoardMAC canonical r key =
     (if length key \<noteq> 32 then Inl (Err ''vault-board-v1 integrity key'')
      else andThen (canonical r) (\<lambda>payload. Inr (hmac_sha256 key payload)))"

definition verifyVaultBoardMAC :: "('r \<Rightarrow> bytes res) \<Rightarrow> 'r \<Rightarrow> bytes \<Rightarrow> bytes \<Rightarrow> unit res" where
  "verifyVaultBoardMAC canonical r got key =
     (if length got \<noteq> 32 then Inl (Err ''vault-board-v1 %s integrity MAC missing or malformed'')
      else andThen (vaultBoardMAC canonical r key) (\<lambda>want.
        if got \<noteq> want then Inl (Err ''vault-board-v1 %s integrity MAC mismatch'') else Inr ()))"

definition SealVaultBoardEnrollment :: "VaultBoardEnrollment \<Rightarrow> bytes \<Rightarrow> VaultBoardEnrollment res" where
  "SealVaultBoardEnrollment r key = andThen (vaultBoardMAC canonicalVaultBoardEnrollment r key) (\<lambda>mac. Inr (r \<lparr> be_IntegrityMAC := mac \<rparr>))"

definition VerifyVaultBoardEnrollment :: "VaultBoardEnrollment \<Rightarrow> bytes \<Rightarrow> unit res" where
  "VerifyVaultBoardEnrollment r key = verifyVaultBoardMAC canonicalVaultBoardEnrollment r (be_IntegrityMAC r) key"

definition SealVaultBoardOperation :: "VaultBoardOperation \<Rightarrow> bytes \<Rightarrow> VaultBoardOperation res" where
  "SealVaultBoardOperation r key = andThen (vaultBoardMAC canonicalVaultBoardOperation r key) (\<lambda>mac. Inr (r \<lparr> bo_IntegrityMAC := mac \<rparr>))"

definition VerifyVaultBoardOperation :: "VaultBoardOperation \<Rightarrow> bytes \<Rightarrow> unit res" where
  "VerifyVaultBoardOperation r key = verifyVaultBoardMAC canonicalVaultBoardOperation r (bo_IntegrityMAC r) key"

definition SealVaultBoardAuthorization :: "VaultBoardAuthorization \<Rightarrow> bytes \<Rightarrow> VaultBoardAuthorization res" where
  "SealVaultBoardAuthorization r key = andThen (vaultBoardMAC canonicalVaultBoardAuthorization r key) (\<lambda>mac. Inr (r \<lparr> ba_IntegrityMAC := mac \<rparr>))"

definition VerifyVaultBoardAuthorization :: "VaultBoardAuthorization \<Rightarrow> bytes \<Rightarrow> unit res" where
  "VerifyVaultBoardAuthorization r key = verifyVaultBoardMAC canonicalVaultBoardAuthorization r (ba_IntegrityMAC r) key"

definition SealVaultBoardDispatch :: "VaultBoardDispatch \<Rightarrow> bytes \<Rightarrow> VaultBoardDispatch res" where
  "SealVaultBoardDispatch r key = andThen (vaultBoardMAC canonicalVaultBoardDispatch r key) (\<lambda>mac. Inr (r \<lparr> bd_IntegrityMAC := mac \<rparr>))"

definition VerifyVaultBoardDispatch :: "VaultBoardDispatch \<Rightarrow> bytes \<Rightarrow> unit res" where
  "VerifyVaultBoardDispatch r key = verifyVaultBoardMAC canonicalVaultBoardDispatch r (bd_IntegrityMAC r) key"

definition SealVaultBoardSubmission :: "VaultBoardSubmission \<Rightarrow> bytes \<Rightarrow> VaultBoardSubmission res" where
  "SealVaultBoardSubmission r key = andThen (vaultBoardMAC canonicalVaultBoardSubmission r key) (\<lambda>mac. Inr (r \<lparr> bs_IntegrityMAC := mac \<rparr>))"

definition VerifyVaultBoardSubmission :: "VaultBoardSubmission \<Rightarrow> bytes \<Rightarrow> unit res" where
  "VerifyVaultBoardSubmission r key = verifyVaultBoardMAC canonicalVaultBoardSubmission r (bs_IntegrityMAC r) key"

section \<open>The encodings determine the rows\<close>

definition boardHead :: "string \<Rightarrow> bytes" where
  "boardHead domain = credField (bytes_of domain) @ le32 vaultBoardCanonicalVersion"

lemma boardCanonical_Inr_iff:
  "boardCanonical domain fs = Inr out \<longleftrightarrow>
     length domain \<le> 4294967295 \<and> (\<forall>f\<in>set fs. length f \<le> 4294967295) \<and> out = boardHead domain @ concat (map credField fs)"
  by (auto simp: boardCanonical_def andThen_Inr_iff appendCredentialField_Inr_iff appendFields_Inr_iff boardHead_def)

lemma boardCanonical_split:
  assumes "boardCanonical d fs = Inr out" "boardCanonical d gs = Inr out'" "out @ x = out' @ y" "length fs = length gs"
  shows "fs = gs \<and> x = y"
  using assms credFields_split [of fs gs x y] by (auto simp: boardCanonical_Inr_iff)

definition bo_typed :: "VaultBoardOperation \<Rightarrow> bool" where
  "bo_typed r \<longleftrightarrow> in_i64 (bo_ValueSats r) \<and> in_i64 (bo_SequenceAnchorMTP r)"

definition ba_typed :: "VaultBoardAuthorization \<Rightarrow> bool" where
  "ba_typed r \<longleftrightarrow> in_i64 (ba_ReceiverSats r) \<and> in_i64 (ba_FeeSats r) \<and> in_i64 (ba_ExpireAt r)"

lemma canonicalEnrollment_inject:
  assumes "canonicalVaultBoardEnrollment r = Inr p" "canonicalVaultBoardEnrollment s = Inr p"
  shows "r \<lparr> be_IntegrityMAC := m \<rparr> = s \<lparr> be_IntegrityMAC := m \<rparr>"
proof -
  from assms obtain a b where
    "boardCanonical vaultBoardEnrollmentMACDomain [bytes_of (be_VaultID r), bytes_of (be_Program r), be_BoardingPub r, be_CosignerPub r,
       be_OperatorPub r, bytes_of (be_ExitDelayUnit r), be_PkScript r, bytes_of (be_Address r)] = Inr a" "p = a @ le32 (be_ExitDelay r)"
    "boardCanonical vaultBoardEnrollmentMACDomain [bytes_of (be_VaultID s), bytes_of (be_Program s), be_BoardingPub s, be_CosignerPub s,
       be_OperatorPub s, bytes_of (be_ExitDelayUnit s), be_PkScript s, bytes_of (be_Address s)] = Inr b" "p = b @ le32 (be_ExitDelay s)"
    by (auto simp: canonicalVaultBoardEnrollment_def andThen_Inr_iff split: if_splits)
  with boardCanonical_split [of vaultBoardEnrollmentMACDomain _ a _ b "le32 (be_ExitDelay r)" "le32 (be_ExitDelay s)"]
  show ?thesis by (intro VaultBoardEnrollment.equality) fastforce+
qed

lemma canonicalOperation_inject:
  assumes "bo_typed r" "bo_typed s" "canonicalVaultBoardOperation r = Inr p" "canonicalVaultBoardOperation s = Inr p"
  shows "r \<lparr> bo_IntegrityMAC := m \<rparr> = s \<lparr> bo_IntegrityMAC := m \<rparr>"
proof -
  let ?f = "\<lambda>r. [bytes_of (bo_OperationID r), bytes_of (bo_VaultID r), bo_Txid r, bo_BoardingScript r, bo_ReceiverScript r, bytes_of (bo_CreatedAt r)]"
  let ?t = "\<lambda>r. le32 (bo_Vout r) @ le64 (u64_of (bo_ValueSats r)) @ le64 (u64_of (bo_SequenceAnchorMTP r))"
  have d: "\<exists>a. boardCanonical vaultBoardOperationMACDomain (?f r) = Inr a \<and> p = a @ ?t r \<and> 0 \<le> bo_ValueSats r \<and> 0 \<le> bo_SequenceAnchorMTP r"
    if "canonicalVaultBoardOperation r = Inr p" for r
    using that by (auto simp: canonicalVaultBoardOperation_def andThen_Inr_iff split: if_splits sum.splits)
  obtain a b where a: "boardCanonical vaultBoardOperationMACDomain (?f r) = Inr a" "boardCanonical vaultBoardOperationMACDomain (?f s) = Inr b"
    "a @ ?t r = b @ ?t s" and pos: "0 \<le> bo_ValueSats r" "0 \<le> bo_SequenceAnchorMTP r" "0 \<le> bo_ValueSats s" "0 \<le> bo_SequenceAnchorMTP s"
    using d [OF assms(3)] d [OF assms(4)] by auto
  have e: "?f r = ?f s" "?t r = ?t s" using boardCanonical_split [OF a] by simp_all
  then have "u64_of (bo_ValueSats r) = u64_of (bo_ValueSats s)" "u64_of (bo_SequenceAnchorMTP r) = u64_of (bo_SequenceAnchorMTP s)" "bo_Vout r = bo_Vout s"
    by (simp_all add: append_split_eq)
  with pos assms(1,2) have "bo_ValueSats r = bo_ValueSats s" "bo_SequenceAnchorMTP r = bo_SequenceAnchorMTP s" "bo_Vout r = bo_Vout s"
    using u64_of_inject by (auto simp: bo_typed_def dest!: in_i64_le)
  with e(1) show ?thesis by (intro VaultBoardOperation.equality) simp_all
qed

lemma authorizationFields_nonneg:
  "authorizationFields r = Inr () \<Longrightarrow> 0 \<le> ba_ReceiverSats r \<and> 0 \<le> ba_FeeSats r \<and> 0 \<le> ba_ExpireAt r"
  by (auto simp: authorizationFields_def split: if_splits)

lemma canonicalAuthorization_inject:
  assumes "ba_typed r" "ba_typed s" "canonicalVaultBoardAuthorization r = Inr p" "canonicalVaultBoardAuthorization s = Inr p"
  shows "r \<lparr> ba_IntegrityMAC := m \<rparr> = s \<lparr> ba_IntegrityMAC := m \<rparr>"
proof -
  let ?f = "\<lambda>r. [bytes_of (ba_OperationID r), bytes_of (ba_Phase r), ba_RequestDigest r, ba_TreeSessionPub r, bytes_of (ba_CommitmentTxid r),
    bytes_of (ba_ReceiverTxid r), bytes_of (ba_CreatedAt r)]"
  let ?t = "\<lambda>r. le32 (ba_Attempt r) @ le64 (u64_of (ba_ReceiverSats r)) @ le64 (u64_of (ba_FeeSats r)) @
    le64 (u64_of (ba_ExpireAt r)) @ le32 (ba_ReceiverVout r)"
  have d: "\<exists>a. boardCanonical vaultBoardAuthorizationDomain (?f r) = Inr a \<and> p = a @ ?t r \<and> authorizationFields r = Inr ()"
    if "canonicalVaultBoardAuthorization r = Inr p" for r
    using that by (auto simp: canonicalVaultBoardAuthorization_def andThen_Inr_iff split: if_splits)
  obtain a b where a: "boardCanonical vaultBoardAuthorizationDomain (?f r) = Inr a" "boardCanonical vaultBoardAuthorizationDomain (?f s) = Inr b"
    "a @ ?t r = b @ ?t s" and ok: "authorizationFields r = Inr ()" "authorizationFields s = Inr ()"
    using d [OF assms(3)] d [OF assms(4)] by auto
  have e: "?f r = ?f s" "?t r = ?t s" using boardCanonical_split [OF a] by simp_all
  then have u: "u64_of (ba_ReceiverSats r) = u64_of (ba_ReceiverSats s)" "u64_of (ba_FeeSats r) = u64_of (ba_FeeSats s)"
    "u64_of (ba_ExpireAt r) = u64_of (ba_ExpireAt s)" and w: "ba_Attempt r = ba_Attempt s" "ba_ReceiverVout r = ba_ReceiverVout s"
    by (simp_all add: append_split_eq)
  have "ba_ReceiverSats r = ba_ReceiverSats s" "ba_FeeSats r = ba_FeeSats s" "ba_ExpireAt r = ba_ExpireAt s"
    using u u64_of_inject authorizationFields_nonneg [OF ok(1)] authorizationFields_nonneg [OF ok(2)] assms(1,2)
    by (auto simp: ba_typed_def dest!: in_i64_le)
  with e(1) w show ?thesis by (intro VaultBoardAuthorization.equality) simp_all
qed

lemma canonicalSubmission_inject:
  assumes "canonicalVaultBoardSubmission r = Inr p" "canonicalVaultBoardSubmission s = Inr p"
  shows "r \<lparr> bs_IntegrityMAC := m \<rparr> = s \<lparr> bs_IntegrityMAC := m \<rparr>"
proof -
  let ?f = "\<lambda>r. [bytes_of (bs_OperationID r), bytes_of (bs_Phase r), bs_RequestDigest r, bytes_of (bs_Outcome r), bytes_of (bs_OperatorRef r),
    bytes_of (bs_CommitmentTxid r), bytes_of (bs_ReceiverTxid r), bytes_of (bs_CreatedAt r)]"
  let ?t = "\<lambda>r. le32 (bs_Attempt r) @ le32 (bs_ReceiverVout r)"
  have d: "\<exists>a. boardCanonical vaultBoardSubmissionMACDomain (?f r) = Inr a \<and> p = a @ ?t r" if "canonicalVaultBoardSubmission r = Inr p" for r
    using that by (auto simp: canonicalVaultBoardSubmission_def andThen_Inr_iff split: if_splits)
  obtain a b where a: "boardCanonical vaultBoardSubmissionMACDomain (?f r) = Inr a" "boardCanonical vaultBoardSubmissionMACDomain (?f s) = Inr b"
    "a @ ?t r = b @ ?t s" using d [OF assms(1)] d [OF assms(2)] by auto
  have e: "?f r = ?f s" "?t r = ?t s" using boardCanonical_split [OF a] by simp_all
  then have "bs_Attempt r = bs_Attempt s" "bs_ReceiverVout r = bs_ReceiverVout s" by (simp_all add: append_split_eq)
  with e(1) show ?thesis by (intro VaultBoardSubmission.equality) simp_all
qed

lemma canonicalDispatch_inject:
  assumes "canonicalVaultBoardDispatch r = Inr p" "canonicalVaultBoardDispatch s = Inr p"
  shows "r \<lparr> bd_IntegrityMAC := m \<rparr> = s \<lparr> bd_IntegrityMAC := m \<rparr>"
proof -
  let ?f = "\<lambda>r. [bytes_of (bd_OperationID r), bytes_of (bd_Phase r), bd_RequestDigest r, bytes_of (bd_CreatedAt r)]"
  have d: "\<exists>a. boardCanonical vaultBoardDispatchMACDomain (?f r) = Inr a \<and> p = a @ le32 (bd_Attempt r)" if "canonicalVaultBoardDispatch r = Inr p" for r
    using that by (auto simp: canonicalVaultBoardDispatch_def andThen_Inr_iff split: if_splits)
  obtain a b where a: "boardCanonical vaultBoardDispatchMACDomain (?f r) = Inr a" "boardCanonical vaultBoardDispatchMACDomain (?f s) = Inr b"
    "a @ le32 (bd_Attempt r) = b @ le32 (bd_Attempt s)" using d [OF assms(1)] d [OF assms(2)] by auto
  have "?f r = ?f s" "bd_Attempt r = bd_Attempt s" using boardCanonical_split [OF a] by simp_all
  then show ?thesis by (intro VaultBoardDispatch.equality) simp_all
qed

lemma boardSeal_iff:
  "andThen (vaultBoardMAC canon r k) (\<lambda>mac. Inr (f mac)) = Inr r' \<longleftrightarrow> length k = 32 \<and> (\<exists>p. canon r = Inr p \<and> r' = f (hmac_sha256 k p))"
  by (auto simp: vaultBoardMAC_def andThen_Inr_iff)

lemma boardVerify_iff:
  "verifyVaultBoardMAC canon r got k = Inr () \<longleftrightarrow> length k = 32 \<and> (\<exists>p. canon r = Inr p \<and> got = hmac_sha256 k p)"
  by (auto simp: verifyVaultBoardMAC_def vaultBoardMAC_def andThen_Inr_iff split: if_splits)

lemma board_field_tags [simp]:
  "authorizationFields (a \<lparr> ba_IntegrityMAC := m \<rparr>) = authorizationFields a"
  "submissionFields (u \<lparr> bs_IntegrityMAC := m \<rparr>) = submissionFields u"
  by (simp_all add: authorizationFields_def submissionFields_def Let_def)

lemma canonical_board_tags [simp]:
  "canonicalVaultBoardEnrollment (e \<lparr> be_IntegrityMAC := m \<rparr>) = canonicalVaultBoardEnrollment e"
  "canonicalVaultBoardOperation (r \<lparr> bo_IntegrityMAC := m \<rparr>) = canonicalVaultBoardOperation r"
  "canonicalVaultBoardAuthorization (a \<lparr> ba_IntegrityMAC := m \<rparr>) = canonicalVaultBoardAuthorization a"
  "canonicalVaultBoardSubmission (u \<lparr> bs_IntegrityMAC := m \<rparr>) = canonicalVaultBoardSubmission u"
  "canonicalVaultBoardDispatch (d \<lparr> bd_IntegrityMAC := m \<rparr>) = canonicalVaultBoardDispatch d"
  by (simp_all add: canonicalVaultBoardEnrollment_def canonicalVaultBoardOperation_def canonicalVaultBoardAuthorization_def
      canonicalVaultBoardSubmission_def canonicalVaultBoardDispatch_def split: sum.splits)

interpretation board_enrollment: sealed_row canonicalVaultBoardEnrollment be_IntegrityMAC "\<lambda>m r. r \<lparr> be_IntegrityMAC := m \<rparr>"
  SealVaultBoardEnrollment VerifyVaultBoardEnrollment "\<lambda>_. True"
  by unfold_locales ((rule canonicalEnrollment_inject; assumption) | simp add: SealVaultBoardEnrollment_def VerifyVaultBoardEnrollment_def boardSeal_iff boardVerify_iff)+

interpretation board_operation: sealed_row canonicalVaultBoardOperation bo_IntegrityMAC "\<lambda>m r. r \<lparr> bo_IntegrityMAC := m \<rparr>"
  SealVaultBoardOperation VerifyVaultBoardOperation bo_typed
  by unfold_locales ((rule canonicalOperation_inject; assumption) | simp add: SealVaultBoardOperation_def VerifyVaultBoardOperation_def boardSeal_iff boardVerify_iff)+

interpretation board_authorization: sealed_row canonicalVaultBoardAuthorization ba_IntegrityMAC "\<lambda>m r. r \<lparr> ba_IntegrityMAC := m \<rparr>"
  SealVaultBoardAuthorization VerifyVaultBoardAuthorization ba_typed
  by unfold_locales ((rule canonicalAuthorization_inject; assumption) | simp add: SealVaultBoardAuthorization_def VerifyVaultBoardAuthorization_def boardSeal_iff boardVerify_iff)+

interpretation board_submission: sealed_row canonicalVaultBoardSubmission bs_IntegrityMAC "\<lambda>m r. r \<lparr> bs_IntegrityMAC := m \<rparr>"
  SealVaultBoardSubmission VerifyVaultBoardSubmission "\<lambda>_. True"
  by unfold_locales ((rule canonicalSubmission_inject; assumption) | simp add: SealVaultBoardSubmission_def VerifyVaultBoardSubmission_def boardSeal_iff boardVerify_iff)+

interpretation board_dispatch: sealed_row canonicalVaultBoardDispatch bd_IntegrityMAC "\<lambda>m r. r \<lparr> bd_IntegrityMAC := m \<rparr>"
  SealVaultBoardDispatch VerifyVaultBoardDispatch "\<lambda>_. True"
  by unfold_locales ((rule canonicalDispatch_inject; assumption) | simp add: SealVaultBoardDispatch_def VerifyVaultBoardDispatch_def boardSeal_iff boardVerify_iff)+

end
