(* ===== verification/Monotonic.thy ===== *)
theory Monotonic
  imports Go_Text Crypto
begin

text \<open>
  The external policy sequence (\<open>internal/policy/monotonic.go\<close>): a small authenticated text file beside the
  database that never goes back. \<open>mo_file\<close> is the content of the file at the configured path (\<open>None\<close> when
  it does not exist). How the write of the file ends is an argument: it succeeds, it fails before the rename
  (the old file stays), or the rename took place and the directory could not be opened or synced (the new file
  is there and an error is returned). The locale \<open>sequence_guard\<close> is what the ledger relies on.
\<close>

definition monotonicFileVersion :: string where "monotonicFileVersion = ''arkade-vault-policy-sequence/v2''"
definition monotonicMACDomain :: string where "monotonicMACDomain = ''arkade-vault/policy-sequence/v2''"

record Monotonic =
  mo_key :: bytes
  mo_file :: "string option"

datatype write_result = WriteOk | WriteFailed | WriteUnsynced

definition OpenMonotonic :: "string \<Rightarrow> string option \<Rightarrow> bytes \<Rightarrow> Monotonic res" where
  "OpenMonotonic path file integrityKey =
     (if path = [] then Inl (Err ''monotonic path required'')
      else if length integrityKey \<noteq> 32 then Inl (Err ''integrity key required'')
      else Inr \<lparr> mo_key = integrityKey, mo_file = file \<rparr>)"

definition unhex :: "char \<Rightarrow> int" where
  "unhex c = (let n = of_char c :: int in
     if 48 \<le> n \<and> n \<le> 57 then n - 48 else if 97 \<le> n \<and> n \<le> 102 then n - 97 + 10 else - 1)"

fun unhexPairs :: "string \<Rightarrow> bytes res" where
  "unhexPairs (a # b # s) =
     (if unhex a < 0 \<or> unhex b < 0 then Inl (Err ''monotonic counter MAC'')
      else andThen (unhexPairs s) (\<lambda>out. Inr (word_of_int (unhex a * 16 + unhex b) # out)))"
| "unhexPairs s = Inr []"

definition parseHexMAC :: "string \<Rightarrow> bytes res" where
  "parseHexMAC s = (if length s \<noteq> 64 then Inl (Err ''monotonic counter MAC'') else unhexPairs s)"

text \<open>One line of the file: \<open>count=\<close> and \<open>mac=\<close> set the value, the last one wins; any other line is skipped.\<close>

definition parseMonotonicLine :: "nat \<times> bytes \<Rightarrow> string \<Rightarrow> (nat \<times> bytes) res" where
  "parseMonotonicLine st line =
     andThen
       (if hasPrefix line ''count='' then
          (case parseUint 64 (trimPrefix line ''count='') of
             None \<Rightarrow> Inl (Err ''monotonic counter'') | Some n \<Rightarrow> Inr n)
        else Inr (fst st)) (\<lambda>count.
     andThen (if hasPrefix line ''mac='' then parseHexMAC (trimPrefix line ''mac='') else Inr (snd st)) (\<lambda>mac.
     Inr (count, mac)))"

definition parseMonotonic :: "string \<Rightarrow> (u64 \<times> bytes) res" where
  "parseMonotonic raw =
     (let lines = splitOn (CHR 10) raw in
      if length lines < 3 \<or> hd lines \<noteq> monotonicFileVersion then Inl (Err ''monotonic counter version'')
      else andThen (foldRes parseMonotonicLine (0, []) (tl lines)) (\<lambda>(count, mac).
        if length mac \<noteq> 32 then Inl (Err ''monotonic counter MAC missing'') else Inr (word_of_nat count, mac)))"

definition monotonicMac :: "Monotonic \<Rightarrow> u64 \<Rightarrow> bytes" where
  "monotonicMac m count = hmac_sha256 (mo_key m) (bytes_of monotonicMACDomain @ be64 count)"

text \<open>\<open>(m *Monotonic) read\<close>: \<open>None\<close> when the file does not exist.\<close>

definition monotonicRead :: "Monotonic \<Rightarrow> u64 option res" where
  "monotonicRead m =
     (case mo_file m of
        None \<Rightarrow> Inr None
      | Some raw \<Rightarrow> andThen (parseMonotonic raw) (\<lambda>(count, mac).
          if mac \<noteq> monotonicMac m count then Inl (Err ''monotonic counter MAC mismatch'') else Inr (Some count)))"

definition monotonicPayload :: "u64 \<Rightarrow> bytes \<Rightarrow> string" where
  "monotonicPayload count mac =
     monotonicFileVersion @ [CHR 10] @ ''count='' @ showNat (unat count) @ [CHR 10] @
     ''mac='' @ hexEncode mac @ [CHR 10]"

definition monotonicWrite :: "write_result \<Rightarrow> Monotonic \<Rightarrow> u64 \<Rightarrow> unit res \<times> Monotonic" where
  "monotonicWrite w m count =
     (let m' = m \<lparr> mo_file := Some (monotonicPayload count (monotonicMac m count)) \<rparr> in
      case w of
        WriteOk \<Rightarrow> (Inr (), m')
      | WriteFailed \<Rightarrow> (Inl (Err ''write''), m)
      | WriteUnsynced \<Rightarrow> (Inl (Err ''sync''), m'))"

definition Observe :: "write_result \<Rightarrow> Monotonic \<Rightarrow> u64 \<Rightarrow> unit res \<times> Monotonic" where
  "Observe w m dbCount =
     (case monotonicRead m of
        Inl e \<Rightarrow> (Inl e, m)
      | Inr None \<Rightarrow>
          if dbCount \<noteq> 0 then (Inl (Err ''policy sequence is missing for a non-empty policy ledger''), m)
          else monotonicWrite w m 0
      | Inr (Some fileCount) \<Rightarrow>
          if dbCount < fileCount
          then (Inl (Err ''policy ledger is behind the external sequence (%d < %d); refuse to start from a rolled-back database''), m)
          else if dbCount = fileCount then (Inr (), m)
          else monotonicWrite w m dbCount)"

section \<open>The file round trip\<close>

lemma unhex_nibble: "n < 16 \<Longrightarrow> unhex (nibble n) = int n"
proof -
  assume "n < 16"
  then consider "n < 10" | "10 \<le> n" "n < 16" by linarith
  then show ?thesis
  proof cases
    case 1
    then have "(of_char (nibble n) :: nat) = 48 + n" by (simp add: nibble_def)
    then have "(of_char (nibble n) :: int) = 48 + int n" by (metis of_nat_add of_nat_numeral of_nat_of_char)
    with 1 show ?thesis by (simp add: unhex_def Let_def)
  next
    case 2
    then have "(of_char (nibble n) :: nat) = 87 + n" by (simp add: nibble_def)
    then have "(of_char (nibble n) :: int) = 87 + int n" by (metis of_nat_add of_nat_numeral of_nat_of_char)
    with 2 show ?thesis by (simp add: unhex_def Let_def)
  qed
qed

lemma unhexPairs_hexEncode: "unhexPairs (hexEncode b) = Inr b"
proof (induction b)
  case (Cons w b)
  have w: "unat w < 256" by (rule unat_byte_less)
  have "word_of_int (int (unat w div 16) * 16 + int (unat w mod 16)) = w"
  proof -
    have "int (unat w div 16) * 16 + int (unat w mod 16) = int (unat w div 16 * 16 + unat w mod 16)"
      by (simp only: of_nat_add of_nat_mult of_nat_numeral)
    then have e: "int (unat w div 16) * 16 + int (unat w mod 16) = int (unat w)" by (simp only: div_mult_mod_eq)
    show ?thesis unfolding e by simp
  qed
  with w Cons show ?case by (simp add: unhex_nibble)
qed simp

lemma parseHexMAC_hexEncode: "length b = 32 \<Longrightarrow> parseHexMAC (hexEncode b) = Inr b"
  by (simp add: parseHexMAC_def unhexPairs_hexEncode)

lemma nibble_not_newline: "n < 16 \<Longrightarrow> nibble n \<noteq> CHR 10"
proof
  assume "n < 16" "nibble n = CHR 10"
  then have "(of_char (nibble n) :: nat) = 10" by simp
  moreover have "(of_char (nibble n) :: nat) = (if n < 10 then 48 + n else 87 + n)" using \<open>n < 16\<close> by (simp add: nibble_def)
  ultimately show False by (simp split: if_splits)
qed

lemma hexEncode_no_newline: "CHR 10 \<notin> set (hexEncode b)"
proof (induction b)
  case (Cons w b)
  have "unat w div 16 < 16" using unat_byte_less [of w] by simp
  then show ?case using Cons nibble_not_newline [of "unat w div 16"] nibble_not_newline [of "unat w mod 16"]
    by (auto dest: sym)
qed simp

lemma showNat_no_newline: "CHR 10 \<notin> set (showNat n)"
  using showNat_digits [of "CHR 10" n] by (auto simp: isDigitChar_def digitVal_def)

lemma payload_lines:
  "splitOn (CHR 10) (monotonicPayload count mac) =
     [monotonicFileVersion, ''count='' @ showNat (unat count), ''mac='' @ hexEncode mac, []]"
proof -
  have v: "CHR 10 \<notin> set monotonicFileVersion" by (simp add: monotonicFileVersion_def)
  have c: "CHR 10 \<notin> set (''count='' @ showNat (unat count))" using showNat_no_newline by simp
  have m: "CHR 10 \<notin> set (''mac='' @ hexEncode mac)" using hexEncode_no_newline by simp
  have "monotonicPayload count mac = monotonicFileVersion @ CHR 10 # (''count='' @ showNat (unat count)) @ CHR 10 #
      (''mac='' @ hexEncode mac) @ CHR 10 # []"
    by (simp add: monotonicPayload_def)
  then show ?thesis by (simp only: splitOn_line [OF v] splitOn_line [OF c] splitOn_line [OF m] splitOn.simps)
qed

lemma parse_payload:
  assumes "length mac = 32"
  shows "parseMonotonic (monotonicPayload count mac) = Inr (count, mac)"
proof -
  have c: "parseMonotonicLine (a, b) (''count='' @ showNat (unat count)) = Inr (unat count, b)" for a b
    using parseUint_showNat [of "unat count" 64] unat_u64_less [of count]
    by (simp add: parseMonotonicLine_def hasPrefix_def trimPrefix_def)
  have m: "parseMonotonicLine (a, b) (''mac='' @ hexEncode mac) = Inr (a, mac)" for a b
    using assms by (simp add: parseMonotonicLine_def hasPrefix_def trimPrefix_def parseHexMAC_hexEncode)
  have e: "parseMonotonicLine (a, b) [] = Inr (a, b)" for a b
    by (simp add: parseMonotonicLine_def hasPrefix_def)
  show ?thesis
    unfolding parseMonotonic_def payload_lines Let_def using assms by (simp add: c m e del: append.simps)
qed

lemma read_payload:
  "monotonicRead (m \<lparr> mo_file := Some (monotonicPayload count (monotonicMac m count)) \<rparr>) = Inr (Some count)"
proof -
  have "monotonicMac (m \<lparr> mo_file := f \<rparr>) c = monotonicMac m c" for f c by (simp add: monotonicMac_def)
  moreover have "length (monotonicMac m count) = 32" by (simp add: monotonicMac_def)
  ultimately show ?thesis by (simp add: monotonicRead_def parse_payload)
qed

section \<open>The contract\<close>

text \<open>A run of observations, whatever their outcomes.\<close>

fun observeAll :: "('w \<Rightarrow> 's \<Rightarrow> u64 \<Rightarrow> unit res \<times> 's) \<Rightarrow> 's \<Rightarrow> ('w \<times> u64) list \<Rightarrow> 's" where
  "observeAll obs s [] = s"
| "observeAll obs s (x # xs) = observeAll obs (snd (obs (fst x) s (snd x))) xs"

text \<open>
  What the ledger relies on. \<open>level s\<close> is the stored sequence, \<open>None\<close> before the first write. A successful
  observation leaves exactly the observed count, which is at least the old level; a failed one leaves the old
  level or, when only the sync failed, the new one, which is above it. \<open>valid\<close> holds of every state whose file
  authenticates.
\<close>

locale sequence_guard =
  fixes valid :: "'s \<Rightarrow> bool"
    and level :: "'s \<Rightarrow> u64 option"
    and observe :: "'w \<Rightarrow> 's \<Rightarrow> u64 \<Rightarrow> unit res \<times> 's"
  assumes observe_ok: "valid s \<Longrightarrow> observe w s n = (Inr (), s') \<Longrightarrow>
      valid s' \<and> level s' = Some n \<and> (\<forall>c. level s = Some c \<longrightarrow> c \<le> n)"
    and observe_err: "valid s \<Longrightarrow> observe w s n = (Inl e, s') \<Longrightarrow>
      valid s' \<and> (level s' = level s \<or> level s' = Some n \<and> (\<forall>c. level s = Some c \<longrightarrow> c < n))"
    and observe_missing: "level s = None \<Longrightarrow> valid s \<Longrightarrow> n \<noteq> 0 \<Longrightarrow> \<exists>e. observe w s n = (Inl e, s)"
begin

lemma observe_valid: "valid s \<Longrightarrow> valid (snd (observe w s n))"
proof (cases "observe w s n")
  case (Pair r s')
  assume "valid s"
  with Pair show ?thesis using observe_ok [of s w n s'] observe_err [of s w n _ s'] by (cases r) auto
qed

lemma observe_mono: "valid s \<Longrightarrow> level s = Some c \<Longrightarrow> \<exists>d. level (snd (observe w s n)) = Some d \<and> c \<le> d"
proof (cases "observe w s n")
  case (Pair r s')
  assume "valid s" "level s = Some c"
  with Pair show ?thesis using observe_ok [of s w n s'] observe_err [of s w n _ s'] by (cases r) auto
qed

lemma observeAll_mono:
  "valid s \<Longrightarrow> level s = Some c \<Longrightarrow> \<exists>d. level (observeAll observe s xs) = Some d \<and> c \<le> d"
proof (induction xs arbitrary: s c)
  case (Cons x xs)
  obtain w n where x: "x = (w, n)" by (cases x)
  obtain d where "level (snd (observe w s n)) = Some d" "c \<le> d" using observe_mono Cons.prems by blast
  moreover have "valid (snd (observe w s n))" using observe_valid Cons.prems by blast
  ultimately show ?case using Cons.IH [of "snd (observe w s n)" d] x by force
qed simp

lemma observe_behind: "valid s \<Longrightarrow> level s = Some c \<Longrightarrow> n < c \<Longrightarrow> \<exists>e s'. observe w s n = (Inl e, s') \<and> level s' = Some c"
proof (cases "observe w s n")
  case (Pair r s')
  assume "valid s" "level s = Some c" "n < c"
  with Pair show ?thesis using observe_ok [of s w n s'] observe_err [of s w n _ s'] by (cases r) auto
qed

text \<open>Once a count has been accepted, every later observation of a smaller count is refused.\<close>

lemma accepted_then_behind:
  assumes "valid s" "observe w s n = (Inr (), s')" "k < n"
  shows "\<exists>e s''. observe v (observeAll observe s' xs) k = (Inl e, s'')"
proof -
  from observe_ok [OF assms(1,2)] have "valid s'" "level s' = Some n" by auto
  then obtain d where d: "level (observeAll observe s' xs) = Some d" "n \<le> d" using observeAll_mono by blast
  have "valid (observeAll observe s xs)" if "valid s" for s
    using that by (induction xs arbitrary: s) (auto simp: observe_valid)
  with \<open>valid s'\<close> d assms(3) show ?thesis using observe_behind [of "observeAll observe s' xs" d k v] by fastforce
qed

end

definition monotonicLevel :: "Monotonic \<Rightarrow> u64 option" where
  "monotonicLevel m = (case monotonicRead m of Inr c \<Rightarrow> c | Inl _ \<Rightarrow> None)"

definition monotonicValid :: "Monotonic \<Rightarrow> bool" where
  "monotonicValid m \<longleftrightarrow> (\<exists>c. monotonicRead m = Inr c)"

lemma read_written: "monotonicRead (snd (monotonicWrite WriteOk m n)) = Inr (Some n)"
  by (simp add: monotonicWrite_def Let_def read_payload)

lemma monotonicWrite_cases:
  assumes "monotonicWrite w m n = (r, m')"
  shows "r = Inr () \<and> monotonicRead m' = Inr (Some n) \<or> (\<exists>e. r = Inl e \<and> (m' = m \<or> monotonicRead m' = Inr (Some n)))"
  using assms by (auto simp: monotonicWrite_def Let_def read_payload split: write_result.splits)

lemma Observe_cases:
  assumes "monotonicRead m = Inr c" "Observe w m n = (r, m')"
  shows "r = Inr () \<and> monotonicRead m' = Inr (Some n) \<and> (c = None \<longrightarrow> n = 0) \<and> (\<forall>d. c = Some d \<longrightarrow> d \<le> n) \<or>
    (\<exists>e. r = Inl e \<and> (m' = m \<or> monotonicRead m' = Inr (Some n) \<and> (c = None \<longrightarrow> n = 0) \<and> (\<forall>d. c = Some d \<longrightarrow> d < n)))"
  using assms monotonicWrite_cases [of w m n r m'] monotonicWrite_cases [of w m 0 r m']
  by (auto simp: Observe_def not_less split: option.splits if_splits)

interpretation mono_seq: sequence_guard monotonicValid monotonicLevel Observe
proof
  show "monotonicValid s' \<and> monotonicLevel s' = Some n \<and> (\<forall>c. monotonicLevel s = Some c \<longrightarrow> c \<le> n)"
    if "monotonicValid s" "Observe w s n = (Inr (), s')" for s w n s'
    using that Observe_cases [of s _ w n "Inr ()" s'] by (fastforce simp: monotonicValid_def monotonicLevel_def)
  show "monotonicValid s' \<and> (monotonicLevel s' = monotonicLevel s \<or>
      monotonicLevel s' = Some n \<and> (\<forall>c. monotonicLevel s = Some c \<longrightarrow> c < n))"
    if "monotonicValid s" "Observe w s n = (Inl e, s')" for s w n e s'
    using that Observe_cases [of s _ w n "Inl e" s'] by (fastforce simp: monotonicValid_def monotonicLevel_def)
  show "\<exists>e. Observe w s n = (Inl e, s)" if "monotonicLevel s = None" "monotonicValid s" "n \<noteq> 0" for s n w
    using that by (auto simp: monotonicValid_def monotonicLevel_def Observe_def split: option.splits)
qed

section \<open>Properties\<close>

text \<open>
  What the sequence file is written with is read back: after a write of any count that did not fail before
  the rename, under any key, the file parses, authenticates and yields that count.
\<close>

theorem sequence_file_round_trip:
  assumes "w \<noteq> WriteFailed"
  shows "monotonicRead (snd (monotonicWrite w m count)) = Inr (Some count)"
  using assms by (cases w) (simp_all add: monotonicWrite_def Let_def read_payload)

theorem sequence_file_round_trip_witness:
  "monotonicRead (snd (monotonicWrite WriteOk \<lparr> mo_key = replicate 32 7, mo_file = None \<rparr> 41)) = Inr (Some 41)"
  by (rule sequence_file_round_trip) simp

text \<open>
  C20: rollback is refused for ever. Once an observation of a count has succeeded, then whatever observations
  follow (successful, failed or half-written), a database whose count is smaller is refused.
\<close>

theorem sequence_rollback_refused:
  assumes "monotonicValid m" "Observe w m n = (Inr (), m')" "k < n"
  shows "\<exists>e m''. Observe v (observeAll Observe m' later) k = (Inl e, m'')"
  by (rule mono_seq.accepted_then_behind [OF assms])

theorem sequence_rollback_refused_witness:
  "\<exists>m m' e m''. Observe WriteOk m 9 = (Inr (), m') \<and>
     Observe WriteOk (observeAll Observe m' [(WriteFailed, 12), (WriteUnsynced, 15)]) 8 = (Inl e, m'')"
proof -
  let ?m = "snd (monotonicWrite WriteOk \<lparr> mo_key = replicate 32 7, mo_file = None \<rparr> 5)"
  have r: "monotonicRead ?m = Inr (Some 5)" by (rule read_written)
  then have v: "monotonicValid ?m" by (simp add: monotonicValid_def)
  have o: "Observe WriteOk ?m 9 = (Inr (), snd (monotonicWrite WriteOk ?m 9))"
    using r by (simp add: Observe_def monotonicWrite_def Let_def)
  from sequence_rollback_refused [OF v o, of 8 WriteOk "[(WriteFailed, 12), (WriteUnsynced, 15)]"] o
  show ?thesis by fastforce
qed

end
