(* ===== verification/Go_Time.thy ===== *)
theory Go_Time
  imports Go_Text "HOL-Library.Monad_Syntax"
begin

text \<open>
  The part of Go's \<open>time\<close> package the ledger uses. A \<open>time.Time\<close> is an \<open>int\<close>: nanoseconds since the
  Unix epoch. \<open>time.Parse(time.RFC3339, s)\<close> and \<open>t.UTC().Format(layout)\<close> for the layouts
  \<open>RFC3339\<close> and \<open>RFC3339Nano\<close> are written out, with the leniencies of the library's parser (a one-digit
  hour, a fraction of any length after a period or a comma, zone offsets up to 24 hours and 60 minutes).
\<close>

section \<open>Instants and durations\<close>

type_synonym time = int

definition second :: int where "second = 1000000000"

definition unixSec :: "time \<Rightarrow> int" where
  "unixSec t = t div second"

definition allowanceWindow :: int where
  "allowanceWindow = 24 * 3600 * second"

definition timeAfter :: "time \<Rightarrow> time \<Rightarrow> bool" where "timeAfter a b \<longleftrightarrow> a > b"
definition timeBefore :: "time \<Rightarrow> time \<Rightarrow> bool" where "timeBefore a b \<longleftrightarrow> a < b"

lemmas time_defs [guard_defs] = timeAfter_def timeBefore_def

section \<open>The proleptic Gregorian calendar\<close>

text \<open>
  Years are counted from March, so that the leap day ends the year; an era is 400 years or 146097 days,
  719468 days lie between 0000-03-01 and 1970-01-01.
\<close>

definition yearOfEra :: "int \<Rightarrow> int \<times> int" where
  "yearOfEra doe =
     (let c = min 3 (doe div 36524); r1 = doe - c * 36524;
          q = min 24 (r1 div 1461); r2 = r1 - q * 1461;
          y = min 3 (r2 div 365)
      in (100 * c + 4 * q + y, r2 - y * 365))"

definition civilFromDays :: "int \<Rightarrow> int \<times> int \<times> int" where
  "civilFromDays z =
     (let z' = z + 719468; era = z' div 146097;
          (yoe, doy) = yearOfEra (z' mod 146097);
          mp = (5 * doy + 2) div 153;
          m = (if mp < 10 then mp + 3 else mp - 9);
          y = yoe + era * 400
      in (if m \<le> 2 then y + 1 else y, m, doy - (153 * mp + 2) div 5 + 1))"

definition daysFromCivil :: "int \<Rightarrow> int \<Rightarrow> int \<Rightarrow> int" where
  "daysFromCivil y m d =
     (let y' = (if m \<le> 2 then y - 1 else y); yoe = y' mod 400;
          doy = (153 * (if m > 2 then m - 3 else m + 9) + 2) div 5 + d - 1
      in (y' div 400) * 146097 + yoe * 365 + yoe div 4 - yoe div 100 + doy - 719468)"

definition isLeap :: "int \<Rightarrow> bool" where
  "isLeap y \<longleftrightarrow> y mod 4 = 0 \<and> (y mod 100 \<noteq> 0 \<or> y mod 400 = 0)"

definition daysIn :: "int \<Rightarrow> int \<Rightarrow> int" where
  "daysIn m y = (if m = 2 then (if isLeap y then 29 else 28)
                 else if m = 4 \<or> m = 6 \<or> m = 9 \<or> m = 11 then 30 else 31)"

lemma yearOfEra_spec:
  assumes "0 \<le> doe" "doe < 146097" "yearOfEra doe = (yoe, doy)"
  shows "0 \<le> yoe \<and> yoe < 400 \<and> 0 \<le> doy \<and> doy \<le> 365
         \<and> yoe * 365 + yoe div 4 - yoe div 100 + doy = doe
         \<and> (doy = 365 \<longrightarrow> isLeap (yoe + 1))"
proof -
  define c where "c = min 3 (doe div 36524)"
  define r1 where "r1 = doe - c * 36524"
  define q where "q = min 24 (r1 div 1461)"
  define r2 where "r2 = r1 - q * 1461"
  define y where "y = min 3 (r2 div 365)"
  have eq: "yoe = 100 * c + 4 * q + y" "doy = r2 - y * 365"
    using assms(3) by (simp_all add: yearOfEra_def Let_def c_def r1_def q_def r2_def y_def)
  have c: "0 \<le> c" "c \<le> 3" "0 \<le> r1" "r1 \<le> 36524" "r1 = 36524 \<longrightarrow> c = 3"
    using assms(1,2) by (auto simp: c_def r1_def min_def)
  have q: "0 \<le> q" "q \<le> 24" "0 \<le> r2" "r2 \<le> 1460" "r2 = 1460 \<longrightarrow> q < 24 \<or> r1 = 36524"
    using c(3,4) by (auto simp: q_def r2_def min_def)
  have y: "0 \<le> y" "y \<le> 3" "0 \<le> doy" "doy \<le> 365" "doy = 365 \<longrightarrow> y = 3 \<and> r2 = 1460"
    using q(3,4) by (auto simp: eq(2) y_def min_def)
  have div4: "yoe div 4 = 25 * c + q" using y(1,2) by (simp add: eq(1))
  have div100: "yoe div 100 = c" using y(1,2) q(1,2) by (simp add: eq(1))
  have "isLeap (yoe + 1)" if "doy = 365"
  proof -
    have "y = 3" "q < 24 \<or> c = 3" using that y(5) q(5) c(5) by auto
    then have sum: "yoe + 1 = 4 * (25 * c + q + 1)" "yoe + 1 = 100 * c + (4 * q + 4)"
      by (simp_all add: eq(1))
    from sum(1) have "(yoe + 1) mod 4 = 0" by simp
    moreover have "(yoe + 1) mod 100 \<noteq> 0 \<or> (yoe + 1) mod 400 = 0"
    proof (cases "q < 24")
      case True
      then have "(4 * q + 4) mod 100 = 4 * q + 4" using q(1) by simp
      then have "(yoe + 1) mod 100 = 4 * q + 4" unfolding sum(2) by simp
      then show ?thesis using q(1) by simp
    next
      case False
      with \<open>q < 24 \<or> c = 3\<close> q(2) have "yoe + 1 = 400" using sum(2) by simp
      then show ?thesis by simp
    qed
    ultimately show ?thesis by (simp add: isLeap_def)
  qed
  then show ?thesis
    using c q y div4 div100 by (simp add: eq r2_def r1_def)
qed

lemma isLeap_era: "isLeap (y + 400 * e) \<longleftrightarrow> isLeap y"
proof -
  have "(y + 400 * e) mod 4 = y mod 4" "(y + 400 * e) mod 100 = y mod 100"
    using mod_mult_self2 [of y 4 "100 * e"] mod_mult_self2 [of y 100 "4 * e"] by simp_all
  then show ?thesis by (simp add: isLeap_def)
qed

lemma civilFromDays_spec:
  assumes "civilFromDays z = (y, m, d)"
  shows "1 \<le> m \<and> m \<le> 12 \<and> 1 \<le> d \<and> d \<le> daysIn m y \<and> daysFromCivil y m d = z"
proof -
  define z' where "z' = z + 719468"
  define era where "era = z' div 146097"
  define doe where "doe = z' mod 146097"
  obtain yoe doy where yd: "yearOfEra doe = (yoe, doy)" by force
  define mp where "mp = (5 * doy + 2) div 153"
  have doe: "0 \<le> doe" "doe < 146097" by (simp_all add: doe_def)
  note spec = yearOfEra_spec [OF doe yd]
  have mp: "0 \<le> mp" "mp \<le> 11" using spec by (auto simp: mp_def)
  have m: "m = (if mp < 10 then mp + 3 else mp - 9)" and d: "d = doy - (153 * mp + 2) div 5 + 1"
    and y: "y = (if m \<le> 2 then yoe + era * 400 + 1 else yoe + era * 400)"
    using assms yd by (auto simp: civilFromDays_def Let_def mp_def era_def doe_def z'_def)
  have y': "(if m \<le> 2 then y - 1 else y) = yoe + era * 400" using y by simp
  have mp_m: "(if m > 2 then m - 3 else m + 9) = mp" using m mp by auto
  have "daysFromCivil y m d = era * 146097 + (yoe * 365 + yoe div 4 - yoe div 100 + doy) - 719468"
    using spec by (simp add: daysFromCivil_def Let_def y' mp_m d)
  also have "\<dots> = z" using spec by (simp add: era_def doe_def z'_def)
  finally have days: "daysFromCivil y m d = z" .
  have d1: "1 \<le> d" "d \<le> 31" using spec by (auto simp: d mp_def)
  have "d \<le> daysIn m y"
  proof (cases "m = 2")
    case True
    then have mp11: "mp = 11" using m mp by (auto split: if_splits)
    have "isLeap y \<longleftrightarrow> isLeap (yoe + 1)"
      using True y isLeap_era [of "yoe + 1" era] by (simp add: algebra_simps)
    moreover have "d = doy - 336" using mp11 by (simp add: d)
    ultimately show ?thesis using spec True by (auto simp: daysIn_def)
  next
    case False
    have "d \<le> 30" if "m = 4 \<or> m = 6 \<or> m = 9 \<or> m = 11"
    proof -
      have "mp = 1 \<or> mp = 3 \<or> mp = 6 \<or> mp = 8" using that m mp by (auto split: if_splits)
      then show ?thesis using spec by (auto simp: d mp_def)
    qed
    with False d1 show ?thesis by (auto simp: daysIn_def)
  qed
  with days d1 m mp show ?thesis by auto
qed

section \<open>Formatting\<close>

text \<open>\<open>appendInt(b, x, width)\<close>: a sign and at least \<open>width\<close> digits.\<close>

definition padInt :: "nat \<Rightarrow> int \<Rightarrow> string" where
  "padInt w x = (let ds = showNat (nat \<bar>x\<bar>) in
     (if x < 0 then ''-'' else []) @ replicate (w - length ds) CHR ''0'' @ ds)"

definition formatDateTime :: "int \<Rightarrow> string" where
  "formatDateTime sec =
     (let (y, m, d) = civilFromDays (sec div 86400); sod = sec mod 86400 in
      padInt 4 y @ ''-'' @ padInt 2 m @ ''-'' @ padInt 2 d @ ''T''
      @ padInt 2 (sod div 3600) @ '':'' @ padInt 2 (sod div 60 mod 60) @ '':'' @ padInt 2 (sod mod 60))"

definition formatRFC3339 :: "time \<Rightarrow> string" where
  "formatRFC3339 t = formatDateTime (unixSec t) @ ''Z''"

text \<open>\<open>RFC3339Nano\<close> appends the fraction without its trailing zeros, and nothing when it is zero.\<close>

definition formatRFC3339Nano :: "time \<Rightarrow> string" where
  "formatRFC3339Nano t =
     (let frac = rev (dropWhile (\<lambda>c. c = CHR ''0'') (rev (padInt 9 (t mod second)))) in
      formatDateTime (unixSec t) @ (if frac = [] then [] else CHR ''.'' # frac) @ ''Z'')"

text \<open>The zero \<open>time.Time\<close>, the first instant of year 1, which \<open>time.Parse\<close> returns with an error.\<close>

definition zeroTime :: time where "zeroTime = - 62135596800 * second"

section \<open>Parsing\<close>

definition expectChar :: "char \<Rightarrow> string \<Rightarrow> string option" where
  "expectChar c s = (case s of [] \<Rightarrow> None | x # t \<Rightarrow> if x = c then Some t else None)"

text \<open>\<open>getnum(s, fixed)\<close>: two digits, or one when the field is not of fixed width.\<close>

definition getnum :: "bool \<Rightarrow> string \<Rightarrow> (int \<times> string) option" where
  "getnum fixed s =
     (case s of
        [] \<Rightarrow> None
      | c # t \<Rightarrow>
         (case digitVal c of
            None \<Rightarrow> None
          | Some a \<Rightarrow>
             (case t of
                [] \<Rightarrow> if fixed then None else Some (int a, t)
              | d # u \<Rightarrow> (case digitVal d of
                            None \<Rightarrow> if fixed then None else Some (int a, t)
                          | Some b \<Rightarrow> Some (int (10 * a + b), u)))))"

definition parseYear :: "string \<Rightarrow> (int \<times> string) option" where
  "parseYear s = (if length s < 4 then None
                  else map_option (\<lambda>n. (int n, drop 4 s)) (digitsVal 0 (take 4 s)))"

text \<open>\<open>parseNanoseconds\<close> keeps nine digits of the fraction.\<close>

definition parseFraction :: "string \<Rightarrow> int \<times> string" where
  "parseFraction s =
     (case s of
        c # d # t \<Rightarrow>
          if (c = CHR ''.'' \<or> c = CHR '','') \<and> isDigitChar d
          then let ds = takeWhile isDigitChar (d # t); k = take 9 ds in
               (int (the (digitsVal 0 k)) * 10 ^ (9 - length k), dropWhile isDigitChar (d # t))
          else (0, s)
      | _ \<Rightarrow> (0, s))"

definition parseZone :: "string \<Rightarrow> (int \<times> string) option" where
  "parseZone s =
     (case s of
        [] \<Rightarrow> None
      | z # t \<Rightarrow>
          if z = CHR ''Z'' then Some (0, t)
          else if length s < 6 \<or> s ! 3 \<noteq> CHR '':'' then None
          else do {
            (hr, _) \<leftarrow> getnum True (take 2 (drop 1 s));
            (mm, _) \<leftarrow> getnum True (take 2 (drop 4 s));
            if hr > 24 \<or> mm > 60 then None
            else if z = CHR ''+'' then Some ((hr * 60 + mm) * 60, drop 6 s)
            else if z = CHR ''-'' then Some (- ((hr * 60 + mm) * 60), drop 6 s)
            else None
          })"

text \<open>\<open>time.Parse(time.RFC3339, s)\<close>; \<open>None\<close> for every parse error.\<close>

definition parseRFC3339 :: "string \<Rightarrow> time option" where
  "parseRFC3339 s = do {
     (year, s) \<leftarrow> parseYear s;
     s \<leftarrow> expectChar CHR ''-'' s;
     (month, s) \<leftarrow> getnum True s;
     if month < 1 \<or> 12 < month then None else do {
     s \<leftarrow> expectChar CHR ''-'' s;
     (day, s) \<leftarrow> getnum True s;
     s \<leftarrow> expectChar CHR ''T'' s;
     (hour, s) \<leftarrow> getnum False s;
     if 24 \<le> hour then None else do {
     s \<leftarrow> expectChar CHR '':'' s;
     (minute, s) \<leftarrow> getnum True s;
     if 60 \<le> minute then None else do {
     s \<leftarrow> expectChar CHR '':'' s;
     (sec, s) \<leftarrow> getnum True s;
     if 60 \<le> sec then None else do {
     (nsec, s) \<leftarrow> Some (parseFraction s);
     (offset, s) \<leftarrow> parseZone s;
     if s \<noteq> [] then None
     else if day < 1 \<or> daysIn month year < day then None
     else Some ((daysFromCivil year month day * 86400 + hour * 3600 + minute * 60 + sec - offset) * second + nsec)
     }}}}}"

lemma showNat_2: "n < 100 \<Longrightarrow> replicate (2 - length (showNat n)) CHR ''0'' @ showNat n
    = [char_of (48 + n div 10), char_of (48 + n mod 10)]"
proof -
  have "CHR ''0'' = char_of (48 :: nat)" by code_simp
  then show "n < 100 \<Longrightarrow> ?thesis"
    by (cases "n < 10") (auto simp: showNat.simps [of n] showNat.simps [of "n div 10"])
qed

lemma padInt_2: "0 \<le> x \<Longrightarrow> x < 100 \<Longrightarrow>
    padInt 2 x = [char_of (48 + nat x div 10), char_of (48 + nat x mod 10)]"
  using showNat_2 [of "nat x"] by (simp add: padInt_def Let_def)

lemma getnum_padInt [simp]: "0 \<le> x \<Longrightarrow> x < 100 \<Longrightarrow> getnum f (padInt 2 x @ s) = Some (x, s)"
proof -
  assume x: "0 \<le> x" "x < 100"
  have "nat x div 10 < 10" "nat x mod 10 < 10" using x by auto
  then have "getnum f (padInt 2 x @ s) = Some (int (10 * (nat x div 10) + nat x mod 10), s)"
    by (simp add: getnum_def padInt_2 x)
  then show ?thesis using x by simp
qed

lemma showNat_length_le: "n < 10 ^ k \<Longrightarrow> 0 < k \<Longrightarrow> length (showNat n) \<le> k"
proof (induction k arbitrary: n)
  case (Suc k)
  show ?case
  proof (cases "n < 10")
    case False
    then have "k > 0" using Suc.prems by (cases k) auto
    moreover have "n div 10 < 10 ^ k" using Suc.prems by (simp add: less_mult_imp_div_less mult.commute)
    ultimately show ?thesis using Suc.IH False by (simp add: showNat.simps [of n])
  qed (simp add: showNat.simps)
qed simp

lemma digitsVal_zeros: "digitsVal 0 (replicate k CHR ''0'' @ s) = digitsVal 0 s"
  by (induction k) (auto simp: digitVal_def)

lemma parseYear_padInt [simp]: "0 \<le> y \<Longrightarrow> y \<le> 9999 \<Longrightarrow> parseYear (padInt 4 y @ s) = Some (y, s)"
proof -
  assume y: "0 \<le> y" "y \<le> 9999"
  then have "length (showNat (nat y)) \<le> 4" by (intro showNat_length_le) auto
  then have "length (padInt 4 y) = 4" using y by (simp add: padInt_def Let_def)
  moreover have "digitsVal 0 (padInt 4 y) = Some (nat y)"
    using y by (simp add: padInt_def Let_def digitsVal_zeros)
  ultimately show ?thesis using y by (simp add: parseYear_def)
qed

lemma expectChar_Cons [simp]: "expectChar c (c # s) = Some s"
  by (simp add: expectChar_def)

lemma parse_tail_Z [simp]: "parseFraction ''Z'' = (0, ''Z'')" "parseZone ''Z'' = Some (0, [])"
  by (simp_all add: parseFraction_def parseZone_def)

text \<open>A formatted instant parses back to its second, for every year Go can print with four digits.\<close>

definition fourDigitYear :: "time \<Rightarrow> bool" where
  "fourDigitYear t \<longleftrightarrow> (let (y, m, d) = civilFromDays (unixSec t div 86400) in 0 \<le> y \<and> y \<le> 9999)"

lemma parse_dateTime:
  assumes "civilFromDays (sec div 86400) = (y, m, d)" "0 \<le> y" "y \<le> 9999"
  shows "parseRFC3339 (formatDateTime sec @ rest) =
    (case parseZone (snd (parseFraction rest)) of
       None \<Rightarrow> None
     | Some (offset, s) \<Rightarrow> if s \<noteq> [] then None else Some ((sec - offset) * second + fst (parseFraction rest)))"
proof -
  define sod where "sod = sec mod 86400"
  note spec = civilFromDays_spec [OF assms(1)]
  have d: "d < 100" using spec by (auto simp: daysIn_def split: if_splits)
  have sod: "0 \<le> sod" "sod < 86400" by (simp_all add: sod_def)
  have "sod div 3600 = sod div 60 div 60" by (simp add: div_mult2_eq [symmetric])
  then have "sod div 3600 * 60 + sod div 60 mod 60 = sod div 60" by simp
  then have hms: "sod div 3600 * 3600 + sod div 60 mod 60 * 60 + sod mod 60 = sod"
    using div_mult_mod_eq [of sod 60] by linarith
  have sum: "sec div 86400 * 86400 + sod = sec" by (simp add: sod_def)
  have h24: "sod div 3600 < 24" "\<not> 60 \<le> sod mod 60" "\<not> 60 \<le> sod div 60 mod 60"
    using sod pos_mod_bound [of 60 sod] pos_mod_bound [of 60 "sod div 60"] by simp_all
  have total: "sec div 86400 * 86400 + sod div 3600 * 3600 + sod div 60 mod 60 * 60 + sod mod 60 = sec" using hms sum by simp
  have "parseRFC3339 (formatDateTime sec @ rest) =
    (case parseZone (snd (parseFraction rest)) of
       None \<Rightarrow> None
     | Some (offset, s) \<Rightarrow> if s \<noteq> [] then None
         else Some ((sec div 86400 * 86400 + sod div 3600 * 3600 + sod div 60 mod 60 * 60 + sod mod 60 - offset) * second + fst (parseFraction rest)))"
    using spec assms(2,3) d sod h24
    by (simp add: parseRFC3339_def formatDateTime_def assms(1) Let_def sod_def [symmetric] split: option.splits prod.splits)
  then show ?thesis unfolding total .
qed

lemma parse_formatRFC3339:
  assumes "fourDigitYear t"
  shows "parseRFC3339 (formatRFC3339 t) = Some (unixSec t * second)"
proof -
  obtain y m d where c: "civilFromDays (unixSec t div 86400) = (y, m, d)" by (metis prod_cases3)
  have "0 \<le> y" "y \<le> 9999" using assms c by (simp_all add: fourDigitYear_def)
  from parse_dateTime [OF c this, of "''Z''"] show ?thesis by (simp add: formatRFC3339_def parseFraction_def parseZone_def)
qed

end
