(* ===== verification/Store.thy ===== *)
theory Store
  imports Tenant Board_Data Monotonic Go_Time
begin

text \<open>
  The state of the authenticated SQLite ledger (\<open>ledger.go\<close>), its transactions, the economic sequence
  (\<open>sequence_base.go\<close>) and the WebAuthn sign counters (\<open>signcount.go\<close>).

  A table is the list of its rows in insertion order. An operation is a function on the ledger that returns its
  result and the ledger after it (\<open>act\<close>). Inside a transaction the database is the transaction's own view;
  \<open>inTx\<close> puts the old database back when the body fails or the commit fails, while the sequence file, which is
  outside SQLite, keeps what was written. SQLite's primary keys, foreign keys and CHECK constraints are written out
  at the inserts as the error \<open>ErrConstraint\<close>; failures of the driver itself (I/O, busy timeouts, contexts) are
  not modelled, except a failed COMMIT. The mutex \<open>l.mu\<close> makes every locked operation one step. The clock is read
  as an argument: one reading for the whole locked section of an operation.
\<close>

section \<open>State\<close>

record SignCountRow =
  sc_vault_id :: string
  sc_credential_id :: bytes
  sc_sign_count :: int
  sc_updated_at :: string
  sc_integrity_mac :: bytes

text \<open>A row of \<open>light_renewal_operation\<close> or \<open>light_delegation_operation\<close>, and of their event tables.\<close>

record JournalOp =
  jo_operation_id :: string
  jo_vault_id :: string
  jo_payload :: string
  jo_integrity_mac :: bytes

record JournalEvent =
  je_operation_id :: string
  je_phase :: string
  je_payload :: string
  je_integrity_mac :: bytes

record DB =
  db_vault :: "VaultRecord list"
  db_vault_credential :: "VaultCredential list"
  db_webauthn_sign_count :: "SignCountRow list"
  db_vtxo_operation :: "VtxoOperation list"
  db_vtxo_operation_input :: "VtxoOperationInput list"
  db_light_renewal_operation :: "JournalOp list"
  db_light_renewal_event :: "JournalEvent list"
  db_light_delegation_operation :: "JournalOp list"
  db_light_delegation_event :: "JournalEvent list"
  db_policy_sequence_base :: "(int \<times> bytes) list"
  db_vault_board_enrollment :: "VaultBoardEnrollment list"
  db_vault_board_operation :: "VaultBoardOperation list"
  db_vault_board_authorization :: "VaultBoardAuthorization list"
  db_vault_board_dispatch :: "VaultBoardDispatch list"
  db_vault_board_submission :: "VaultBoardSubmission list"
  db_vault_board_conflict :: "BoardConflictRow list"
  db_ledger_savings_enrollment :: "LedgerSavingsEnrollment list"
  db_ledger_savings_recovery_event :: "SavingsEventRow list"

record Ledger =
  lg_db :: DB
  lg_network :: string
  lg_integrityKey :: bytes
  lg_monotonic :: "Monotonic option"

type_synonym 'a act = "Ledger \<Rightarrow> 'a res \<times> Ledger"

section \<open>Sequencing and transactions\<close>

definition actBind :: "'a act \<Rightarrow> ('a \<Rightarrow> 'b act) \<Rightarrow> 'b act" where
  "actBind m f l = (case m l of (Inl e, l') \<Rightarrow> (Inl e, l') | (Inr x, l') \<Rightarrow> f x l')"

text \<open>A step that reads the ledger, and a step that replaces the database.\<close>

definition actRead :: "(Ledger \<Rightarrow> 'a res) \<Rightarrow> 'a act" where
  "actRead g l = (g l, l)"

definition actDB :: "(Ledger \<Rightarrow> DB res) \<Rightarrow> unit act" where
  "actDB g l = (case g l of Inl e \<Rightarrow> (Inl e, l) | Inr d \<Rightarrow> (Inr (), l \<lparr> lg_db := d \<rparr>))"

definition actPure :: "'a \<Rightarrow> 'a act" where
  "actPure x l = (Inr x, l)"

text \<open>\<open>BEGIN IMMEDIATE ... COMMIT\<close>, with the deferred \<open>ROLLBACK\<close>.\<close>

definition inTx :: "bool \<Rightarrow> 'a act \<Rightarrow> 'a act" where
  "inTx commit_ok body l =
     (case body l of
        (Inl e, l') \<Rightarrow> (Inl e, l' \<lparr> lg_db := lg_db l \<rparr>)
      | (Inr x, l') \<Rightarrow> if commit_ok then (Inr x, l') else (Inl (Err ''commit''), l' \<lparr> lg_db := lg_db l \<rparr>))"

lemma actBind_Inr_iff:
  "actBind m f l = (Inr y, l'') \<longleftrightarrow> (\<exists>x l'. m l = (Inr x, l') \<and> f x l' = (Inr y, l''))"
  by (auto simp: actBind_def split: prod.splits sum.splits)

lemma actBind_Inl_iff:
  "actBind m f l = (Inl e, l'') \<longleftrightarrow> m l = (Inl e, l'') \<or> (\<exists>x l'. m l = (Inr x, l') \<and> f x l' = (Inl e, l''))"
  by (auto simp: actBind_def split: prod.splits sum.splits)

lemma actRead_Inr_iff: "actRead g l = (Inr x, l') \<longleftrightarrow> g l = Inr x \<and> l' = l"
  by (auto simp: actRead_def)

lemma actRead_Inl_iff: "actRead g l = (Inl e, l') \<longleftrightarrow> g l = Inl e \<and> l' = l"
  by (auto simp: actRead_def)

lemma actDB_Inr_iff: "actDB g l = (Inr u, l') \<longleftrightarrow> (\<exists>d. g l = Inr d \<and> l' = l \<lparr> lg_db := d \<rparr>)"
  by (auto simp: actDB_def split: sum.splits)

lemma actDB_InrD: "actDB g l = (Inr u, l') \<Longrightarrow> g l = Inr (lg_db l')"
  by (auto simp: actDB_Inr_iff)

lemma actDB_Inl_iff: "actDB g l = (Inl e, l') \<longleftrightarrow> g l = Inl e \<and> l' = l"
  by (auto simp: actDB_def split: sum.splits)

lemma actPure_Inr_iff: "actPure x l = (Inr y, l') \<longleftrightarrow> y = x \<and> l' = l"
  by (auto simp: actPure_def)

lemma inTx_Inr_iff: "inTx c body l = (Inr x, l') \<longleftrightarrow> c \<and> body l = (Inr x, l')"
  by (auto simp: inTx_def split: prod.splits sum.splits)

lemma inTx_InlD: "inTx c body l = (Inl e, l') \<Longrightarrow> \<exists>r l''. body l = (r, l'') \<and> l' = l'' \<lparr> lg_db := lg_db l \<rparr>"
  by (auto simp: inTx_def split: prod.splits sum.splits if_splits)

lemmas act_iffs = actBind_Inr_iff actRead_Inr_iff actDB_Inr_iff actPure_Inr_iff inTx_Inr_iff

section \<open>The integrity key\<close>

definition integrityKeyCopy :: "Ledger \<Rightarrow> bytes res" where
  "integrityKeyCopy l =
     (if length (lg_integrityKey l) \<noteq> 32 then Inl (Err ''policy integrity key required'') else Inr (lg_integrityKey l))"

definition RequireIntegrityKey :: "bytes \<Rightarrow> Ledger \<Rightarrow> unit res" where
  "RequireIntegrityKey key l =
     (if length key \<noteq> 32 then Inl (Err ''policy integrity key must be 32 bytes'')
      else if length (lg_integrityKey l) \<noteq> 32 then Inl (Err ''policy integrity key is not initialized'')
      else if lg_integrityKey l \<noteq> key then Inl (Err ''policy integrity key mismatch'')
      else Inr ())"

lemma integrityKeyCopy_Inr_iff: "integrityKeyCopy l = Inr k \<longleftrightarrow> length k = 32 \<and> lg_integrityKey l = k"
  by (auto simp: integrityKeyCopy_def)

section \<open>The economic sequence\<close>

definition policySequenceBaseMAC :: "string \<Rightarrow> u64 \<Rightarrow> bytes \<Rightarrow> bytes" where
  "policySequenceBaseMAC network base key =
     hmac_sha256 key (bytes_of ''arkade-vault/policy-sequence-base/v1'' @ [0] @ bytes_of network @ [0] @ le64 base)"

definition readPolicySequenceBase :: "DB \<Rightarrow> string \<Rightarrow> bytes \<Rightarrow> u64 option res" where
  "readPolicySequenceBase db network key =
     (if length key \<noteq> 32 then Inl (Err ''policy integrity key required'')
      else case db_policy_sequence_base db of
        [] \<Rightarrow> Inr None
      | (base, tag) # rest \<Rightarrow>
          if tag \<noteq> policySequenceBaseMAC network (u64_of base) key then Inl (Err ''policy sequence base MAC mismatch'')
          else if base < 0 \<or> rest \<noteq> [] then Inl (Err ''invalid policy sequence base'')
          else Inr (Some (u64_of base)))"

definition insertPolicySequenceBase :: "string \<Rightarrow> u64 \<Rightarrow> bytes \<Rightarrow> DB \<Rightarrow> DB res" where
  "insertPolicySequenceBase network base key db =
     (if base > 9223372036854775807 then Inl (Err ''policy sequence base overflow'')
      else if db_policy_sequence_base db \<noteq> [] then Inl (ErrConstraint ''policy_sequence_base'')
      else Inr (db \<lparr> db_policy_sequence_base := [(uint base, policySequenceBaseMAC network base key)] \<rparr>))"

definition economicRows :: "DB \<Rightarrow> nat" where
  "economicRows db = length (db_vtxo_operation db) + length (db_light_renewal_operation db) + length (db_light_renewal_event db) +
     length (db_light_delegation_operation db) + length (db_light_delegation_event db) +
     length (db_vault_board_authorization db) + length (db_vault_board_dispatch db) + length (db_vault_board_submission db) +
     length (db_ledger_savings_recovery_event db) + length (db_vault_board_conflict db)"

definition economicOutflowCount :: "DB \<Rightarrow> u64 res" where
  "economicOutflowCount db = Inr (word_of_nat (economicRows db))"

definition currentEconomicSequence :: "Ledger \<Rightarrow> u64 res" where
  "currentEconomicSequence l =
     andThen (readPolicySequenceBase (lg_db l) (lg_network l) (lg_integrityKey l)) (\<lambda>b.
     case b of
       None \<Rightarrow> Inl (Err ''policy sequence base missing'')
     | Some base \<Rightarrow> andThen (economicOutflowCount (lg_db l)) (\<lambda>cnt.
         if cnt > 18446744073709551615 - base then Inl (Err ''economic sequence overflow'')
         else Inr (base + cnt)))"

definition observeEconomicOutflowsLocked :: "write_result \<Rightarrow> unit act" where
  "observeEconomicOutflowsLocked w l =
     (case lg_monotonic l of
        None \<Rightarrow> (Inr (), l)
      | Some m \<Rightarrow>
          (case currentEconomicSequence l of
             Inl e \<Rightarrow> (Inl e, l)
           | Inr n \<Rightarrow> (case Observe w m n of (r, m') \<Rightarrow> (r, l \<lparr> lg_monotonic := Some m' \<rparr>))))"

definition AttachMonotonic :: "write_result \<Rightarrow> Monotonic \<Rightarrow> unit act" where
  "AttachMonotonic w m l = observeEconomicOutflowsLocked w (l \<lparr> lg_monotonic := Some m \<rparr>)"

section \<open>Sign counters\<close>

definition signCountMACDomain :: string where "signCountMACDomain = ''arkade-2fa-vault/webauthn-sign-count/v1''"

definition signCountMessage :: "string \<Rightarrow> bytes \<Rightarrow> u32 \<Rightarrow> bytes" where
  "signCountMessage vaultID credentialID cnt =
     bytes_of signCountMACDomain @ bytes_of vaultID @ credentialID @ be32 cnt"

definition signCountMAC :: "string \<Rightarrow> bytes \<Rightarrow> u32 \<Rightarrow> bytes \<Rightarrow> bytes" where
  "signCountMAC vaultID credentialID cnt key = hmac_sha256 key (signCountMessage vaultID credentialID cnt)"

definition verifySignCountMAC :: "string \<Rightarrow> bytes \<Rightarrow> u32 \<Rightarrow> bytes \<Rightarrow> bytes \<Rightarrow> unit res" where
  "verifySignCountMAC vaultID credentialID cnt mac key =
     (if mac \<noteq> signCountMAC vaultID credentialID cnt key then Inl (Err ''webauthn sign count MAC mismatch'') else Inr ())"

definition scKey :: "SignCountRow \<Rightarrow> string \<times> bytes" where
  "scKey r = (sc_vault_id r, sc_credential_id r)"

text \<open>The row of a vault and credential. Scanning into a \<open>uint32\<close> fails outside its range.\<close>

definition selectSignCount :: "string \<Rightarrow> bytes \<Rightarrow> DB \<Rightarrow> (u32 \<times> bytes) option res" where
  "selectSignCount vaultID credentialID db =
     (case lookupBy (\<lambda>r. scKey r = (vaultID, credentialID)) (db_webauthn_sign_count db) of
        None \<Rightarrow> Inr None
      | Some r \<Rightarrow>
          if sc_sign_count r < 0 \<or> sc_sign_count r \<ge> 2 ^ 32 then Inl (Err ''sql: Scan error: value out of range'')
          else Inr (Some (word_of_int (sc_sign_count r), sc_integrity_mac r)))"

definition vaultExists :: "string \<Rightarrow> DB \<Rightarrow> bool" where
  "vaultExists vaultID db \<longleftrightarrow> vaultID \<in> set (map vr_VaultID (db_vault db))"

text \<open>\<open>INSERT ... ON CONFLICT DO UPDATE\<close>.\<close>

definition upsertSignCount :: "SignCountRow \<Rightarrow> DB \<Rightarrow> DB res" where
  "upsertSignCount row db =
     (if \<not> vaultExists (sc_vault_id row) db then Inl (ErrConstraint ''FOREIGN KEY webauthn_sign_count.vault_id'')
      else Inr (db \<lparr> db_webauthn_sign_count :=
        (if \<exists>r\<in>set (db_webauthn_sign_count db). scKey r = scKey row
         then map (\<lambda>r. if scKey r = scKey row then row else r) (db_webauthn_sign_count db)
         else db_webauthn_sign_count db @ [row]) \<rparr>))"

definition advanceSignCountLocked :: "time \<Rightarrow> string \<Rightarrow> bytes \<Rightarrow> u32 \<Rightarrow> unit act" where
  "advanceSignCountLocked now vaultID credentialID incoming =
     actDB (\<lambda>l.
       let write = upsertSignCount
         \<lparr> sc_vault_id = vaultID, sc_credential_id = credentialID, sc_sign_count = uint incoming,
           sc_updated_at = formatRFC3339Nano now,
           sc_integrity_mac = signCountMAC vaultID credentialID incoming (lg_integrityKey l) \<rparr> (lg_db l)
       in andThen (selectSignCount vaultID credentialID (lg_db l)) (\<lambda>found.
         case found of
           None \<Rightarrow> write
         | Some (stored, mac) \<Rightarrow>
             andThen (verifySignCountMAC vaultID credentialID stored mac (lg_integrityKey l)) (\<lambda>_.
             if incoming = 0 \<and> stored > 0 then Inl (Err ''webauthn sign count went backwards'')
             else if incoming > 0 \<and> incoming < stored then Inl (Err ''webauthn sign count went backwards'')
             else if incoming > 0 \<and> incoming = stored then Inl (Err ''webauthn sign count went backwards'')
             else if incoming = 0 \<and> stored = 0 then Inr (lg_db l)
             else write)))"

definition verifySignCountReplayLocked :: "string \<Rightarrow> bytes \<Rightarrow> u32 \<Rightarrow> Ledger \<Rightarrow> unit res" where
  "verifySignCountReplayLocked vaultID credentialID incoming l =
     andThen (selectSignCount vaultID credentialID (lg_db l)) (\<lambda>found.
     case found of
       None \<Rightarrow> Inl (Err ''webauthn sign count replay state missing'')
     | Some (stored, mac) \<Rightarrow>
         andThen (verifySignCountMAC vaultID credentialID stored mac (lg_integrityKey l)) (\<lambda>_.
         if incoming \<noteq> stored then Inl (Err ''webauthn sign count replay mismatch'') else Inr ()))"

definition AdvanceSignCount :: "time \<Rightarrow> string \<Rightarrow> bytes \<Rightarrow> u32 \<Rightarrow> unit act" where
  "AdvanceSignCount now vaultID credentialID incoming l =
     (if vaultID = [] \<or> credentialID = [] then (Inl (Err ''sign count identity required''), l)
      else if length (lg_integrityKey l) \<noteq> 32 then (Inl (Err ''sign count ledger required''), l)
      else advanceSignCountLocked now vaultID credentialID incoming l)"

definition addOutflow :: "int \<Rightarrow> int \<Rightarrow> int res" where
  "addOutflow amount fee =
     (if amount < 0 \<or> fee < 0 then Inl (Err ''negative outflow'')
      else if fee > 0 \<and> amount > maxInt64 - fee then Inl (Err ''amount+fee overflow'')
      else Inr (i64 (amount + fee)))"

section \<open>Lemmas\<close>

lemma addOutflow_Inr_iff:
  assumes "in_i64 a" "in_i64 f"
  shows "addOutflow a f = Inr r \<longleftrightarrow> 0 \<le> a \<and> 0 \<le> f \<and> a + f \<le> maxInt64 \<and> r = a + f"
proof -
  have "i64 (a + f) = a + f" if "0 \<le> a" "0 \<le> f" "a + f \<le> maxInt64"
    using that by (intro i64_id) (simp add: in_i64_def maxInt64_def)
  then show ?thesis using assms by (auto simp: addOutflow_def in_i64_def maxInt64_def)
qed

lemma addOutflow_bounds: "addOutflow a f = Inr r \<Longrightarrow> 0 \<le> a \<and> 0 \<le> f \<and> (a \<le> maxInt64 \<longrightarrow> r = a + f \<and> r \<le> maxInt64)"
proof -
  assume h: "addOutflow a f = Inr r"
  then have "0 \<le> a" "0 \<le> f" by (auto simp: addOutflow_def split: if_splits)
  moreover have "r = a + f \<and> r \<le> maxInt64" if "a \<le> maxInt64"
  proof -
    from h \<open>0 \<le> a\<close> \<open>0 \<le> f\<close> that have "a + f \<le> maxInt64" by (auto simp: addOutflow_def split: if_splits)
    then have "in_i64 (a + f)" using \<open>0 \<le> a\<close> \<open>0 \<le> f\<close> by (simp add: in_i64_def maxInt64_def)
    with h \<open>a + f \<le> maxInt64\<close> show ?thesis by (auto simp: addOutflow_def i64_id split: if_splits)
  qed
  ultimately show ?thesis by blast
qed

lemma observe_frame:
  "observeEconomicOutflowsLocked w l = (r, l') \<Longrightarrow>
     lg_db l' = lg_db l \<and> lg_network l' = lg_network l \<and> lg_integrityKey l' = lg_integrityKey l"
  by (auto simp: observeEconomicOutflowsLocked_def split: option.splits sum.splits prod.splits)

text \<open>A relation between the ledger before and after an action that is kept by reads, by writes of the sequence file and by
  sequencing, and that survives a rollback, is kept by every action built from kept ones.\<close>

definition frames :: "(Ledger \<Rightarrow> Ledger \<Rightarrow> bool) \<Rightarrow> 'a act \<Rightarrow> bool" where
  "frames R m \<longleftrightarrow> (\<forall>l. R l (snd (m l)))"

lemma framesD: "frames R m \<Longrightarrow> m l = (x, l') \<Longrightarrow> R l l'"
  unfolding frames_def by (metis snd_conv)

locale action_frame =
  fixes R :: "Ledger \<Rightarrow> Ledger \<Rightarrow> bool"
  assumes R_refl: "R l l"
    and R_trans: "R l l' \<Longrightarrow> R l' l'' \<Longrightarrow> R l l''"
    and R_file: "R l (l \<lparr> lg_monotonic := m \<rparr>)"
    and R_rollback: "R l l' \<Longrightarrow> R l (l' \<lparr> lg_db := lg_db l \<rparr>)"
begin

lemma frame_read: "frames R (actRead g)"
  by (simp add: frames_def actRead_def R_refl)

lemma frame_pure: "frames R (actPure x)"
  by (simp add: frames_def actPure_def R_refl)

lemma frame_DB: "(\<And>l d. h l = Inr d \<Longrightarrow> R l (l \<lparr> lg_db := d \<rparr>)) \<Longrightarrow> frames R (actDB h)"
  by (simp add: frames_def actDB_def R_refl split: sum.splits)

lemma frame_bind:
  assumes "frames R m" "\<And>x. frames R (f x)"
  shows "frames R (actBind m f)"
  unfolding frames_def actBind_def
  using framesD [OF assms(1)] framesD [OF assms(2)] R_trans by (auto split: prod.splits sum.splits) (metis snd_conv surj_pair)

lemma frame_observe: "frames R (observeEconomicOutflowsLocked w)"
  by (auto simp: frames_def observeEconomicOutflowsLocked_def R_refl R_file split: option.splits sum.splits prod.splits)

lemma frame_inTx:
  assumes "frames R m"
  shows "frames R (inTx c m)"
  unfolding frames_def inTx_def using framesD [OF assms] R_rollback by (auto split: prod.splits sum.splits)

lemma frame_wrapped: "frames R m \<Longrightarrow> frames R (\<lambda>l. case m l of (res, l') \<Rightarrow> (wrapErr p res, l'))"
  by (simp add: frames_def split: prod.splits) (metis snd_conv)

lemmas frame_intros = frame_read frame_pure frame_bind frame_observe frame_inTx frame_wrapped

end

lemma upsert_lookup:
  assumes "upsertSignCount row db = Inr db'"
  shows "lookupBy (\<lambda>r. scKey r = k) (db_webauthn_sign_count db') =
    (if k = scKey row then Some row else lookupBy (\<lambda>r. scKey r = k) (db_webauthn_sign_count db))"
proof -
  let ?T = "db_webauthn_sign_count db"
  have m: "lookupBy (\<lambda>r. scKey r = k) (map (\<lambda>r. if scKey r = scKey row then row else r) xs) =
      (if k = scKey row \<and> (\<exists>r\<in>set xs. scKey r = scKey row) then Some row else lookupBy (\<lambda>r. scKey r = k) xs)" for xs k
    by (induction xs) auto
  have a: "lookupBy (\<lambda>r. scKey r = k) (xs @ [row]) =
      (if k = scKey row then Some row else lookupBy (\<lambda>r. scKey r = k) xs)" if "\<forall>r\<in>set xs. scKey r \<noteq> scKey row" for xs k
    using that by (induction xs) auto
  from assms show ?thesis
    by (auto simp: upsertSignCount_def m a split: if_splits)
qed

lemma upsert_frame:
  "upsertSignCount row db = Inr db' \<Longrightarrow> db' = db \<lparr> db_webauthn_sign_count := db_webauthn_sign_count db' \<rparr>"
  by (auto simp: upsertSignCount_def split: if_splits)

lemma advanceSignCount_frame:
  assumes "advanceSignCountLocked now v c n l = (r, l')"
  shows "l' = l \<lparr> lg_db := lg_db l \<lparr> db_webauthn_sign_count := db_webauthn_sign_count (lg_db l') \<rparr> \<rparr>"
proof (cases r)
  case (Inl e)
  then show ?thesis using assms by (simp add: advanceSignCountLocked_def actDB_Inl_iff)
next
  case (Inr u)
  note g = assms [unfolded advanceSignCountLocked_def Inr]
  have l': "l' = l \<lparr> lg_db := lg_db l' \<rparr>" using g by (auto simp: actDB_Inr_iff)
  note d = actDB_InrD [OF g, unfolded Let_def andThen_Inr_iff]
  then obtain found where "selectSignCount v c (lg_db l) = Inr found" by blast
  with d have "lg_db l' = lg_db l \<or> (\<exists>row. upsertSignCount row (lg_db l) = Inr (lg_db l'))"
    by (cases found) (auto simp: andThen_Inr_iff split: if_splits)
  then have "lg_db l' = lg_db l \<lparr> db_webauthn_sign_count := db_webauthn_sign_count (lg_db l') \<rparr>"
    using upsert_frame by (cases "lg_db l' = lg_db l") auto
  with l' show ?thesis by simp
qed

lemma selectSignCount_after:
  assumes "upsertSignCount row db = Inr db'" "sc_sign_count row = uint n"
  shows "selectSignCount (sc_vault_id row) (sc_credential_id row) db' = Inr (Some (n, sc_integrity_mac row))"
proof -
  have "uint n < 2 ^ 32" "0 \<le> uint n" using uint_lt2p [of n] by simp_all
  moreover have "(sc_vault_id row, sc_credential_id row) = scKey row" by (simp add: scKey_def)
  ultimately show ?thesis using assms(2) by (simp add: selectSignCount_def upsert_lookup [OF assms(1)])
qed

lemma advanceSignCount_InrD:
  assumes "advanceSignCountLocked now v c incoming l = (Inr (), l')"
  shows "\<forall>stored mac. selectSignCount v c (lg_db l) = Inr (Some (stored, mac)) \<longrightarrow> stored < incoming \<or> stored = 0 \<and> incoming = 0"
    "selectSignCount v c (lg_db l') = Inr (Some (incoming, signCountMAC v c incoming (lg_integrityKey l)))"
    "lg_integrityKey l' = lg_integrityKey l"
proof -
  let ?row = "\<lparr> sc_vault_id = v, sc_credential_id = c, sc_sign_count = uint incoming, sc_updated_at = formatRFC3339Nano now,
    sc_integrity_mac = signCountMAC v c incoming (lg_integrityKey l) \<rparr>"
  define d where "d = lg_db l'"
  have d: "l' = l \<lparr> lg_db := d \<rparr>" using assms by (auto simp: advanceSignCountLocked_def actDB_Inr_iff d_def)
  note g = actDB_InrD [OF assms [unfolded advanceSignCountLocked_def], folded d_def]
  from g obtain found where sel: "selectSignCount v c (lg_db l) = Inr found"
    by (auto simp: Let_def andThen_Inr_iff)
  have w: "found = None \<and> upsertSignCount ?row (lg_db l) = Inr d \<or>
      (\<exists>stored. found = Some (stored, signCountMAC v c stored (lg_integrityKey l)) \<and>
        (stored = 0 \<and> incoming = 0 \<and> d = lg_db l \<or> stored < incoming \<and> upsertSignCount ?row (lg_db l) = Inr d))"
  proof (cases found)
    case None
    then show ?thesis using g sel by auto
  next
    case (Some sm)
    obtain stored mac where sm: "sm = (stored, mac)" by (cases sm)
    have "stored < incoming \<or> stored = 0 \<and> incoming = 0" if "\<not> (incoming = 0 \<and> stored > 0)"
      "\<not> (incoming > 0 \<and> incoming < stored)" "\<not> (incoming > 0 \<and> incoming = stored)"
      using that by (metis linorder_neqE word_gt_0 word_not_simps(1))
    then show ?thesis using g sel Some sm
      by (auto simp: Let_def andThen_Inr_iff verifySignCountMAC_def split: if_splits)
  qed
  show "selectSignCount v c (lg_db l') = Inr (Some (incoming, signCountMAC v c incoming (lg_integrityKey l)))"
    unfolding d_def [symmetric] using w sel selectSignCount_after [of ?row "lg_db l" d incoming] by auto
  show "\<forall>stored mac. selectSignCount v c (lg_db l) = Inr (Some (stored, mac)) \<longrightarrow> stored < incoming \<or> stored = 0 \<and> incoming = 0"
    using sel w by auto
  show "lg_integrityKey l' = lg_integrityKey l" using d by simp
qed

lemma replay_iff:
  "selectSignCount v c (lg_db l) = Inr (Some (m, signCountMAC v c m (lg_integrityKey l))) \<Longrightarrow>
     verifySignCountReplayLocked v c n l = Inr () \<longleftrightarrow> n = m"
  by (simp add: verifySignCountReplayLocked_def verifySignCountMAC_def)

section \<open>Properties\<close>

text \<open>
  C21: an accepted authenticator counter either moves strictly forward or the authenticator has no counter (zero
  before and after); afterwards the stored counter is the accepted one, authenticated, so that only an exact replay
  of it passes the replay check.
\<close>

theorem sign_count_advances:
  assumes "advanceSignCountLocked now v c incoming l = (Inr (), l')"
  shows "(\<forall>stored mac. selectSignCount v c (lg_db l) = Inr (Some (stored, mac)) \<longrightarrow>
            stored < incoming \<or> stored = 0 \<and> incoming = 0) \<and>
    (\<forall>n. verifySignCountReplayLocked v c n l' = Inr () \<longleftrightarrow> n = incoming)"
  using advanceSignCount_InrD [OF assms] replay_iff [of v c l' incoming] by simp

definition sampleDB :: DB where
  "sampleDB = \<lparr> db_vault = [sampleVault], db_vault_credential = [sampleCredential], db_webauthn_sign_count = [], db_vtxo_operation = [],
     db_vtxo_operation_input = [], db_light_renewal_operation = [], db_light_renewal_event = [],
     db_light_delegation_operation = [], db_light_delegation_event = [],
     db_policy_sequence_base = [(5, policySequenceBaseMAC ''mainnet'' 5 sampleKey)],
     db_vault_board_enrollment = [], db_vault_board_operation = [], db_vault_board_authorization = [], db_vault_board_dispatch = [],
     db_vault_board_submission = [], db_vault_board_conflict = [], db_ledger_savings_enrollment = [],
     db_ledger_savings_recovery_event = [] \<rparr>"

definition sampleLedger :: Ledger where
  "sampleLedger = \<lparr> lg_db = sampleDB, lg_network = ''mainnet'', lg_integrityKey = sampleKey, lg_monotonic = None \<rparr>"

theorem sign_count_advances_witness:
  "\<exists>l'. advanceSignCountLocked 0 ''v'' [1, 2] 7 sampleLedger = (Inr (), l') \<and>
     verifySignCountReplayLocked ''v'' [1, 2] 7 l' = Inr () \<and> verifySignCountReplayLocked ''v'' [1, 2] 8 l' \<noteq> Inr ()"
proof -
  obtain l' where l': "advanceSignCountLocked 0 ''v'' [1, 2] 7 sampleLedger = (Inr (), l')"
    by (simp add: advanceSignCountLocked_def actDB_def sampleLedger_def sampleDB_def selectSignCount_def upsertSignCount_def
        vaultExists_def sampleVault_def)
  with sign_count_advances [OF l'] show ?thesis by auto
qed

text \<open>
  The message under the sign-counter MAC does not separate the vault id from the credential id. Moving the
  tail of a vault id to the front of the credential id gives the same message and therefore the same tag.
\<close>

theorem sign_count_message_ambiguous:
  "signCountMAC (vault @ suffix) credential n key = signCountMAC vault (bytes_of suffix @ credential) n key"
  by (simp add: signCountMAC_def signCountMessage_def)

text \<open>
  \<open>addOutflow\<close> returns the exact sum of two 64-bit amounts when both are non-negative and the sum fits, and an
  error in every other case; it never wraps.
\<close>

theorem add_outflow_exact:
  assumes "in_i64 amount" "in_i64 fee"
  shows "addOutflow amount fee =
    (if amount < 0 \<or> fee < 0 then Inl (Err ''negative outflow'')
     else if amount + fee > maxInt64 then Inl (Err ''amount+fee overflow'')
     else Inr (amount + fee))"
proof -
  have "i64 (amount + fee) = amount + fee" if "0 \<le> amount" "0 \<le> fee" "amount + fee \<le> maxInt64"
    using that by (intro i64_id) (simp add: in_i64_def maxInt64_def)
  then show ?thesis using assms by (auto simp: addOutflow_def in_i64_def maxInt64_def)
qed

theorem add_outflow_exact_witness:
  "addOutflow 9223372036854775807 1 = Inl (Err ''amount+fee overflow'') \<and> addOutflow 9223372036854775806 1 = Inr maxInt64"
  using add_outflow_exact [of 9223372036854775807 1] add_outflow_exact [of 9223372036854775806 1]
  by (simp add: in_i64_def maxInt64_def)

text \<open>
  C19: once the economic sequence has been observed with success, putting back a database with a smaller sequence
  (fewer economic rows on the same base) is refused by the next observation, whatever was attempted in between.
\<close>

theorem database_rollback_refused:
  assumes "lg_monotonic l = Some m" "monotonicValid m"
    and "observeEconomicOutflowsLocked w l = (Inr (), l')" "currentEconomicSequence l = Inr n"
    and "lg_monotonic l' = Some m'" "lg_monotonic old = Some (observeAll Observe m' attempts)"
    and "currentEconomicSequence old = Inr k" "k < n"
  shows "\<exists>e old'. observeEconomicOutflowsLocked v old = (Inl e, old')"
proof -
  have o: "Observe w m n = (Inr (), m')"
    using assms(1,3,4,5) by (auto simp: observeEconomicOutflowsLocked_def split: prod.splits)
  obtain e m'' where "Observe v (observeAll Observe m' attempts) k = (Inl e, m'')"
    using mono_seq.accepted_then_behind [OF assms(2) o assms(8)] by blast
  with assms(6,7) show ?thesis by (simp add: observeEconomicOutflowsLocked_def)
qed

lemma sample_sequence:
  "currentEconomicSequence (sampleLedger \<lparr> lg_monotonic := m \<rparr>) = Inr 5"
  "currentEconomicSequence (sampleLedger \<lparr> lg_db := sampleDB \<lparr> db_vtxo_operation := [r] \<rparr>, lg_monotonic := m \<rparr>) = Inr 6"
  by (simp_all add: currentEconomicSequence_def readPolicySequenceBase_def economicOutflowCount_def economicRows_def
      sampleLedger_def sampleDB_def sampleKey_def u64_of_def)

theorem database_rollback_refused_witness:
  "\<exists>l l' old e old'. observeEconomicOutflowsLocked WriteOk l = (Inr (), l') \<and> currentEconomicSequence l = Inr 6 \<and>
     currentEconomicSequence old = Inr 5 \<and> lg_monotonic old = lg_monotonic l' \<and>
     observeEconomicOutflowsLocked WriteOk old = (Inl e, old')"
proof -
  let ?m = "snd (monotonicWrite WriteOk \<lparr> mo_key = sampleKey, mo_file = None \<rparr> 5)"
  have r: "monotonicRead ?m = Inr (Some 5)" by (rule read_written)
  then have v: "monotonicValid ?m" by (simp add: monotonicValid_def)
  let ?l = "sampleLedger \<lparr> lg_db := sampleDB \<lparr> db_vtxo_operation := [sampleOperation] \<rparr>, lg_monotonic := Some ?m \<rparr>"
  have s: "currentEconomicSequence ?l = Inr 6" by (rule sample_sequence)
  define m' where "m' = snd (monotonicWrite WriteOk ?m 6)"
  have o: "observeEconomicOutflowsLocked WriteOk ?l = (Inr (), ?l \<lparr> lg_monotonic := Some m' \<rparr>)"
    using r s unfolding m'_def by (simp add: observeEconomicOutflowsLocked_def Observe_def monotonicWrite_def Let_def)
  obtain e old' where "observeEconomicOutflowsLocked WriteOk (sampleLedger \<lparr> lg_monotonic := Some m' \<rparr>) = (Inl e, old')"
    using database_rollback_refused [OF _ v o s, of m' "sampleLedger \<lparr> lg_monotonic := Some m' \<rparr>" "[]" 5 WriteOk]
      sample_sequence(1) [of "Some m'"] by auto
  with o s sample_sequence(1) [of "Some m'"] show ?thesis by fastforce
qed

end
