(* ===== verification/Renewal.thy ===== *)
theory Renewal
  imports Store "HOL-Library.AList"
begin

text \<open>
  The Bitcoin payment batch journal (\<open>spending_renewal.go\<close>) with its release evidence
  (\<open>bitcoin_conflict.go\<close>, \<open>bitcoin_ended_batch.go\<close>): one reservation row and append-only phase events, all stored as
  canonical JSON under a MAC. This theory holds the data, the encodings, the authenticated load and the phase machine
  \<open>validateRenewalTransition\<close>; the operations that write the journal are in \<open>Journal_Ledger\<close>.

  A Go map is an association list updated with \<open>AList.update\<close>; indexing a missing event gives the zero struct.
\<close>

section \<open>Data\<close>

record SpendingRenewalOperation =
  ro_OperationID :: string
  ro_VaultID :: string
  ro_InputTxid :: string
  ro_InputVout :: u32
  ro_FeeSats :: int
  ro_PlanDigest :: string
  ro_Plan :: string
  ro_ExpiresAt :: string
  ro_CreatedAt :: string
  ro_Kind :: string
  ro_AmountSats :: int

record SpendingRenewalEvent =
  re_OperationID :: string
  re_Phase :: string
  re_RequestDigest :: string
  re_Outcome :: string
  re_OperatorRef :: string
  re_Evidence :: string
  re_CreatedAt :: string

type_synonym renewal_events = "(string \<times> SpendingRenewalEvent) list"

record SpendingRenewalSnapshot =
  rs_Operation :: SpendingRenewalOperation
  rs_Events :: renewal_events

definition zeroRenewalEvent :: SpendingRenewalEvent where
  "zeroRenewalEvent = \<lparr> re_OperationID = [], re_Phase = [], re_RequestDigest = [], re_Outcome = [], re_OperatorRef = [],
     re_Evidence = [], re_CreatedAt = [] \<rparr>"

text \<open>\<open>events[phase]\<close>, and \<open>_, ok := events[phase]\<close>.\<close>

definition ev :: "renewal_events \<Rightarrow> string \<Rightarrow> SpendingRenewalEvent" where
  "ev events phase = (case map_of events phase of Some e \<Rightarrow> e | None \<Rightarrow> zeroRenewalEvent)"

definition hasEv :: "(string \<times> 'e) list \<Rightarrow> string \<Rightarrow> bool" where
  "hasEv events phase \<longleftrightarrow> map_of events phase \<noteq> None"

section \<open>JSON\<close>

definition marshalRenewalOperation :: "SpendingRenewalOperation \<Rightarrow> string" where
  "marshalRenewalOperation r = jsonStruct
     (strField ''operationId'' (ro_OperationID r) @ strField ''vaultId'' (ro_VaultID r) @
      strField ''inputTxid'' (ro_InputTxid r) @ intField ''inputVout'' (uint (ro_InputVout r)) @
      intField ''feeSats'' (ro_FeeSats r) @ strField ''planDigest'' (ro_PlanDigest r) @ strField ''plan'' (ro_Plan r) @
      strField ''expiresAt'' (ro_ExpiresAt r) @ strField ''createdAt'' (ro_CreatedAt r) @
      omitStr ''kind'' (ro_Kind r) @ omitInt ''amountSats'' (ro_AmountSats r))"

definition unmarshalRenewalOperation :: "string \<Rightarrow> SpendingRenewalOperation option" where
  "unmarshalRenewalOperation s =
     (case jsonMembers s of
        None \<Rightarrow> None
      | Some ms \<Rightarrow>
          (case (decStr [] (fieldVals ms ''operationId''), decStr [] (fieldVals ms ''vaultId''), decStr [] (fieldVals ms ''inputTxid''),
                 decUint 32 0 (fieldVals ms ''inputVout''), decInt64 0 (fieldVals ms ''feeSats''),
                 decStr [] (fieldVals ms ''planDigest''), decStr [] (fieldVals ms ''plan''), decStr [] (fieldVals ms ''expiresAt''),
                 decStr [] (fieldVals ms ''createdAt''), decStr [] (fieldVals ms ''kind''), decInt64 0 (fieldVals ms ''amountSats'')) of
             (Some oid, Some vid, Some txid, Some vout, Some fee, Some pd, Some plan, Some ex, Some cr, Some kind, Some amount) \<Rightarrow>
               Some \<lparr> ro_OperationID = oid, ro_VaultID = vid, ro_InputTxid = txid, ro_InputVout = word_of_nat vout, ro_FeeSats = fee,
                      ro_PlanDigest = pd, ro_Plan = plan, ro_ExpiresAt = ex, ro_CreatedAt = cr, ro_Kind = kind, ro_AmountSats = amount \<rparr>
           | _ \<Rightarrow> None))"

definition marshalRenewalEvent :: "SpendingRenewalEvent \<Rightarrow> string" where
  "marshalRenewalEvent e = jsonStruct
     (strField ''operationId'' (re_OperationID e) @ strField ''phase'' (re_Phase e) @ strField ''requestDigest'' (re_RequestDigest e) @
      omitStr ''outcome'' (re_Outcome e) @ omitStr ''operatorRef'' (re_OperatorRef e) @ omitStr ''evidence'' (re_Evidence e) @
      strField ''createdAt'' (re_CreatedAt e))"

definition unmarshalRenewalEvent :: "string \<Rightarrow> SpendingRenewalEvent option" where
  "unmarshalRenewalEvent s =
     (case jsonMembers s of
        None \<Rightarrow> None
      | Some ms \<Rightarrow>
          (case (decStr [] (fieldVals ms ''operationId''), decStr [] (fieldVals ms ''phase''), decStr [] (fieldVals ms ''requestDigest''),
                 decStr [] (fieldVals ms ''outcome''), decStr [] (fieldVals ms ''operatorRef''), decStr [] (fieldVals ms ''evidence''),
                 decStr [] (fieldVals ms ''createdAt'')) of
             (Some oid, Some ph, Some rd, Some oc, Some oref, Some evd, Some cr) \<Rightarrow>
               Some \<lparr> re_OperationID = oid, re_Phase = ph, re_RequestDigest = rd, re_Outcome = oc, re_OperatorRef = oref,
                      re_Evidence = evd, re_CreatedAt = cr \<rparr>
           | _ \<Rightarrow> None))"

section \<open>Validation\<close>

definition canonicalRenewalHex :: "string \<Rightarrow> nat \<Rightarrow> bool" where
  "canonicalRenewalHex value n \<longleftrightarrow>
     (case hexDecode value of None \<Rightarrow> False | Some raw \<Rightarrow> length raw = n \<and> hexEncode raw = value)"

definition SpendingBitcoinBatchKind :: string where "SpendingBitcoinBatchKind = ''spending-bitcoin-v1''"

definition isBitcoinBatch :: "string \<Rightarrow> bool" where
  "isBitcoinBatch kind \<longleftrightarrow> kind = SpendingBitcoinBatchKind"

definition delegationSetVaultProgram :: string where "delegationSetVaultProgram = ''vault-policy-v1''"

definition ValidDelegationVaultID :: "string \<Rightarrow> string \<Rightarrow> bool" where
  "ValidDelegationVaultID programID vaultID \<longleftrightarrow>
     programID = delegationSetVaultProgram \<and> vaultID \<noteq> [] \<and> utf8Valid vaultID \<and> trimSpace vaultID = vaultID"

definition validateSpendingRenewalOperation :: "SpendingRenewalOperation \<Rightarrow> unit res" where
  "validateSpendingRenewalOperation r =
     (if \<not> isBitcoinBatch (ro_Kind r) \<or> ro_AmountSats r < 330 \<or> ro_AmountSats r > 21000000 * 100000000
        then Inl (Err ''invalid batch operation kind or amount'')
      else if \<not> canonicalRenewalHex (ro_OperationID r) 16 \<or>
          (\<not> ValidDelegationVaultID delegationSetVaultProgram (ro_VaultID r) \<or> length (ro_VaultID r) > 256) \<or>
          \<not> canonicalRenewalHex (ro_InputTxid r) 32 \<or> \<not> canonicalRenewalHex (ro_PlanDigest r) 32 \<or>
          ro_FeeSats r < 0 \<or> ro_FeeSats r > 5000 \<or> ro_Plan r = [] \<or> length (ro_Plan r) > 8192 \<or> \<not> jsonValid (ro_Plan r)
        then Inl (Err ''invalid Light renewal reservation'')
      else case (parseRFC3339 (ro_ExpiresAt r), parseRFC3339 (ro_CreatedAt r)) of
        (Some expiry, Some created) \<Rightarrow>
          if \<not> timeAfter expiry created \<or> timeAfter expiry (created + 600 * second)
            then Inl (Err ''invalid Light renewal times'') else Inr ()
      | _ \<Rightarrow> Inl (Err ''invalid Light renewal times''))"

definition renewalPhases :: "string list" where
  "renewalPhases = [''register_authorized'', ''register_dispatched'', ''register_result'', ''final_authorized'', ''final_dispatched'',
     ''final_result'', ''confirmed'', ''delete_authorized'', ''delete_dispatched'', ''delete_result'', ''released'', ''cancelled'']"

definition validateSpendingRenewalEvent :: "SpendingRenewalEvent \<Rightarrow> unit res" where
  "validateSpendingRenewalEvent e =
     (if \<not> canonicalRenewalHex (re_OperationID e) 16 \<or> \<not> canonicalRenewalHex (re_RequestDigest e) 32 \<or>
         length (re_Evidence e) > 900000 \<or> length (re_OperatorRef e) > 256
        then Inl (Err ''invalid Light renewal phase'')
      else if parseRFC3339 (re_CreatedAt e) = None then Inl (Err ''parsing time'')
      else if re_Phase e \<in> {''register_authorized'', ''final_authorized'', ''delete_authorized''} then
        (if re_Evidence e = [] \<or> \<not> jsonValid (re_Evidence e) \<or> re_Outcome e \<noteq> [] \<or> re_OperatorRef e \<noteq> []
         then Inl (Err ''Light renewal authorization evidence required'') else Inr ())
      else if re_Phase e \<in> {''register_dispatched'', ''final_dispatched'', ''delete_dispatched''} then
        (if re_Evidence e \<noteq> [] \<or> re_Outcome e \<noteq> [] \<or> re_OperatorRef e \<noteq> []
         then Inl (Err ''invalid Light renewal dispatch'') else Inr ())
      else if re_Phase e = ''register_result'' then
        (if re_Evidence e \<noteq> [] \<or> \<not> (re_Outcome e = ''registered'' \<and> re_OperatorRef e \<noteq> [] \<or>
                                    re_Outcome e = ''rejected'' \<and> re_OperatorRef e = [])
         then Inl (Err ''invalid Light renewal registration result'') else Inr ())
      else if re_Phase e = ''final_result'' then
        (if re_Outcome e \<noteq> ''submitted'' \<or> re_OperatorRef e \<noteq> [] \<or> re_Evidence e \<noteq> []
         then Inl (Err ''invalid Light renewal final result'') else Inr ())
      else if re_Phase e = ''delete_result'' then
        (if re_Outcome e \<noteq> ''released'' \<or> re_OperatorRef e \<noteq> [] \<or> re_Evidence e \<noteq> []
         then Inl (Err ''invalid Light renewal deletion result'') else Inr ())
      else if re_Phase e = ''confirmed'' then
        (if re_Outcome e \<noteq> ''confirmed'' \<or> \<not> canonicalRenewalHex (re_OperatorRef e) 32 \<or> re_Evidence e = [] \<or> \<not> jsonValid (re_Evidence e)
         then Inl (Err ''invalid Light renewal confirmation'') else Inr ())
      else if re_Phase e = ''released'' then
        (if re_Outcome e \<noteq> [] \<or> re_OperatorRef e \<noteq> [] \<or> re_Evidence e = [] \<or> \<not> jsonValid (re_Evidence e)
         then Inl (Err ''Light renewal release evidence required'') else Inr ())
      else if re_Phase e = ''cancelled'' then
        (if re_Outcome e \<noteq> [] \<or> re_OperatorRef e \<noteq> [] \<or> re_Evidence e \<noteq> []
         then Inl (Err ''invalid Light renewal release'') else Inr ())
      else Inl (Err ''unsupported Light renewal phase''))"

definition renewalMAC :: "bytes \<Rightarrow> string \<Rightarrow> string \<Rightarrow> bytes" where
  "renewalMAC key domain payload = hmac_sha256 key (bytes_of (domain @ '':'') @ bytes_of payload)"

section \<open>Authenticated load\<close>

type_synonym renewal_map = "(string \<times> SpendingRenewalSnapshot) list"

definition loadRenewalOp :: "bytes \<Rightarrow> renewal_map \<Rightarrow> JournalOp \<Rightarrow> renewal_map res" where
  "loadRenewalOp key out row =
     (if length (jo_payload row) > 16384 \<or> jo_integrity_mac row \<noteq> renewalMAC key ''vaulted-light/renewal-operation/v1'' (jo_payload row)
        then Inl (Err ''Light renewal operation integrity'')
      else case unmarshalRenewalOperation (jo_payload row) of
        None \<Rightarrow> Inl (Err ''json'')
      | Some op \<Rightarrow>
          if marshalRenewalOperation op \<noteq> jo_payload row \<or> ro_OperationID op \<noteq> jo_operation_id row \<or> ro_VaultID op \<noteq> jo_vault_id row \<or>
             validateSpendingRenewalOperation op \<noteq> Inr ()
          then Inl (Err ''Light renewal operation binding'')
          else Inr (AList.update (jo_operation_id row) \<lparr> rs_Operation = op, rs_Events = [] \<rparr> out))"

definition loadRenewalEvent :: "bytes \<Rightarrow> renewal_map \<Rightarrow> JournalEvent \<Rightarrow> renewal_map res" where
  "loadRenewalEvent key out row =
     (if length (je_payload row) > 1048576 \<or> je_integrity_mac row \<noteq> renewalMAC key ''vaulted-light/renewal-event/v1'' (je_payload row)
        then Inl (Err ''Light renewal event integrity'')
      else case unmarshalRenewalEvent (je_payload row) of
        None \<Rightarrow> Inl (Err ''json'')
      | Some e \<Rightarrow>
          (case map_of out (je_operation_id row) of
             None \<Rightarrow> Inl (Err ''Light renewal event binding'')
           | Some s \<Rightarrow>
               if marshalRenewalEvent e \<noteq> je_payload row \<or> re_OperationID e \<noteq> je_operation_id row \<or> re_Phase e \<noteq> je_phase row \<or>
                  validateSpendingRenewalEvent e \<noteq> Inr ()
               then Inl (Err ''Light renewal event binding'')
               else Inr (AList.update (je_operation_id row) (s \<lparr> rs_Events := AList.update (je_phase row) e (rs_Events s) \<rparr>) out)))"

definition loadSpendingRenewals :: "DB \<Rightarrow> bytes \<Rightarrow> renewal_map res" where
  "loadSpendingRenewals db key =
     andThen (foldRes (loadRenewalOp key) [] (db_light_renewal_operation db)) (\<lambda>out.
       foldRes (loadRenewalEvent key) out (db_light_renewal_event db))"

definition renewalTerminal :: "SpendingRenewalSnapshot \<Rightarrow> bool" where
  "renewalTerminal s \<longleftrightarrow> hasEv (rs_Events s) ''confirmed'' \<or> hasEv (rs_Events s) ''released'' \<or> hasEv (rs_Events s) ''cancelled'' \<or>
     re_Outcome (ev (rs_Events s) ''register_result'') = ''rejected''"

section \<open>Release evidence\<close>

record BitcoinConflictEvidence =
  bc_Kind :: string
  bc_CommitmentTxid :: string
  bc_FundingTxid :: string
  bc_FundingVout :: u32
  bc_ConflictingTxid :: string
  bc_ConflictingVin :: u32
  bc_BlockHash :: string
  bc_BlockHeight :: int
  bc_TipHash :: string
  bc_TipHeight :: int
  bc_RawTransaction :: string

definition BitcoinConflictKind :: string where "BitcoinConflictKind = ''bitcoin-commitment-conflict-v1''"
definition BitcoinConflictConfirmations :: int where "BitcoinConflictConfirmations = 6"

definition marshalBitcoinConflict :: "BitcoinConflictEvidence \<Rightarrow> string" where
  "marshalBitcoinConflict p = jsonStruct
     (strField ''kind'' (bc_Kind p) @ strField ''commitmentTxid'' (bc_CommitmentTxid p) @ strField ''fundingTxid'' (bc_FundingTxid p) @
      intField ''fundingVout'' (uint (bc_FundingVout p)) @ strField ''conflictingTxid'' (bc_ConflictingTxid p) @
      intField ''conflictingVin'' (uint (bc_ConflictingVin p)) @ strField ''blockHash'' (bc_BlockHash p) @
      intField ''blockHeight'' (bc_BlockHeight p) @ strField ''tipHash'' (bc_TipHash p) @ intField ''tipHeight'' (bc_TipHeight p) @
      strField ''rawTransaction'' (bc_RawTransaction p))"

text \<open>\<open>mergeBitcoinConflict\<close> decodes the members of an object into an existing value; absent members keep their value.\<close>

definition zeroBitcoinConflict :: BitcoinConflictEvidence where
  "zeroBitcoinConflict = \<lparr> bc_Kind = [], bc_CommitmentTxid = [], bc_FundingTxid = [], bc_FundingVout = 0, bc_ConflictingTxid = [],
     bc_ConflictingVin = 0, bc_BlockHash = [], bc_BlockHeight = 0, bc_TipHash = [], bc_TipHeight = 0, bc_RawTransaction = [] \<rparr>"

definition mergeBitcoinConflict :: "BitcoinConflictEvidence \<Rightarrow> (string \<times> json) list \<Rightarrow> BitcoinConflictEvidence option" where
  "mergeBitcoinConflict p ms =
     (case (decStr (bc_Kind p) (fieldVals ms ''kind''), decStr (bc_CommitmentTxid p) (fieldVals ms ''commitmentTxid''),
            decStr (bc_FundingTxid p) (fieldVals ms ''fundingTxid''),
            decUint 32 (unat (bc_FundingVout p)) (fieldVals ms ''fundingVout''), decStr (bc_ConflictingTxid p) (fieldVals ms ''conflictingTxid''),
            decUint 32 (unat (bc_ConflictingVin p)) (fieldVals ms ''conflictingVin''), decStr (bc_BlockHash p) (fieldVals ms ''blockHash''),
            decInt64 (bc_BlockHeight p) (fieldVals ms ''blockHeight''), decStr (bc_TipHash p) (fieldVals ms ''tipHash''),
            decInt64 (bc_TipHeight p) (fieldVals ms ''tipHeight''), decStr (bc_RawTransaction p) (fieldVals ms ''rawTransaction'')) of
        (Some k, Some c, Some f, Some fv, Some x, Some xv, Some bh, Some bn, Some th, Some tn, Some raw) \<Rightarrow>
          Some \<lparr> bc_Kind = k, bc_CommitmentTxid = c, bc_FundingTxid = f, bc_FundingVout = word_of_nat fv, bc_ConflictingTxid = x,
                 bc_ConflictingVin = word_of_nat xv, bc_BlockHash = bh, bc_BlockHeight = bn, bc_TipHash = th, bc_TipHeight = tn,
                 bc_RawTransaction = raw \<rparr>
      | _ \<Rightarrow> None)"

definition unmarshalBitcoinConflict :: "string \<Rightarrow> BitcoinConflictEvidence option" where
  "unmarshalBitcoinConflict s =
     (case jsonMembers s of None \<Rightarrow> None | Some ms \<Rightarrow> mergeBitcoinConflict zeroBitcoinConflict ms)"

definition validateBitcoinConflictEvidence :: "BitcoinConflictEvidence \<Rightarrow> unit res" where
  "validateBitcoinConflictEvidence p =
     (if bc_Kind p \<noteq> BitcoinConflictKind \<or> \<not> canonicalRenewalHex (bc_CommitmentTxid p) 32 \<or>
         \<not> canonicalRenewalHex (bc_FundingTxid p) 32 \<or> \<not> canonicalRenewalHex (bc_ConflictingTxid p) 32 \<or>
         bc_CommitmentTxid p = bc_ConflictingTxid p \<or> \<not> canonicalRenewalHex (bc_BlockHash p) 32 \<or>
         \<not> canonicalRenewalHex (bc_TipHash p) 32 \<or> bc_BlockHeight p \<le> 0 \<or> bc_TipHeight p < bc_BlockHeight p \<or>
         bc_TipHeight p > 2 ^ 53 - 1 \<or>
         i64 (bc_TipHeight p - bc_BlockHeight p) < BitcoinConflictConfirmations - 1 \<or> bc_RawTransaction p = [] \<or>
         length (bc_RawTransaction p) > 512 * 1024 \<or> \<not> canonicalRenewalHex (bc_RawTransaction p) (length (bc_RawTransaction p) div 2)
      then Inl (Err ''confirmed Bitcoin conflict evidence required'') else Inr ())"

definition validateBitcoinConflictRelease :: "SpendingRenewalSnapshot \<Rightarrow> SpendingRenewalEvent \<Rightarrow> unit res" where
  "validateBitcoinConflictRelease s e =
     (if \<not> isBitcoinBatch (ro_Kind (rs_Operation s)) \<or> re_Phase (ev (rs_Events s) ''final_dispatched'') = [] \<or>
         re_RequestDigest e \<noteq> re_RequestDigest (ev (rs_Events s) ''final_dispatched'')
        then Inl (Err ''Bitcoin conflict does not bind the dispatched payment'')
      else case unmarshalBitcoinConflict (re_Evidence e) of
        None \<Rightarrow> Inl (Err ''json'')
      | Some p \<Rightarrow>
          if marshalBitcoinConflict p \<noteq> re_Evidence e then Inl (Err ''Bitcoin conflict evidence changed'')
          else validateBitcoinConflictEvidence p)"

text \<open>\<open>eb_InputCommitmentTxids\<close> is \<open>None\<close> for a nil slice, which marshals to \<open>null\<close>.\<close>

record BitcoinEndedBatchEvidence =
  eb_Kind :: string
  eb_CommitmentTxid :: string
  eb_BatchEndedAt :: int
  eb_FinalDispatchedAt :: string
  eb_InputTxid :: string
  eb_InputVout :: u32
  eb_InputValueSats :: u64
  eb_InputExpiresAt :: int
  eb_InputCommitmentTxids :: "string list option"

definition BitcoinEndedBatchKind :: string where "BitcoinEndedBatchKind = ''operator-ended-before-dispatch-v1''"

fun decSlice :: "string list option \<Rightarrow> json list \<Rightarrow> string list option option" where
  "decSlice acc [] = Some acc"
| "decSlice acc (v # vs) =
     (case v of
        JNull \<Rightarrow> decSlice None vs
      | JArr xs \<Rightarrow> (case decStrElems xs of Some ss \<Rightarrow> decSlice (Some ss) vs | None \<Rightarrow> None)
      | _ \<Rightarrow> None)"

definition marshalEndedBatch :: "BitcoinEndedBatchEvidence \<Rightarrow> string" where
  "marshalEndedBatch p = jsonStruct
     (strField ''kind'' (eb_Kind p) @ strField ''commitmentTxid'' (eb_CommitmentTxid p) @ intField ''batchEndedAt'' (eb_BatchEndedAt p) @
      strField ''finalDispatchedAt'' (eb_FinalDispatchedAt p) @ strField ''inputTxid'' (eb_InputTxid p) @
      intField ''inputVout'' (uint (eb_InputVout p)) @ intField ''inputValueSats'' (uint (eb_InputValueSats p)) @
      intField ''inputExpiresAt'' (eb_InputExpiresAt p) @
      (case eb_InputCommitmentTxids p of None \<Rightarrow> [(''inputCommitmentTxids'', ''null'')]
       | Some xs \<Rightarrow> strListField ''inputCommitmentTxids'' xs))"

definition unmarshalEndedBatch :: "string \<Rightarrow> BitcoinEndedBatchEvidence option" where
  "unmarshalEndedBatch s =
     (case jsonMembers s of
        None \<Rightarrow> None
      | Some ms \<Rightarrow>
          (case (decStr [] (fieldVals ms ''kind''), decStr [] (fieldVals ms ''commitmentTxid''), decInt64 0 (fieldVals ms ''batchEndedAt''),
                 decStr [] (fieldVals ms ''finalDispatchedAt''), decStr [] (fieldVals ms ''inputTxid''),
                 decUint 32 0 (fieldVals ms ''inputVout''), decUint 64 0 (fieldVals ms ''inputValueSats''),
                 decInt64 0 (fieldVals ms ''inputExpiresAt''), decSlice None (fieldVals ms ''inputCommitmentTxids'')) of
             (Some k, Some c, Some be, Some fd, Some it, Some iv, Some val, Some ie, Some cs) \<Rightarrow>
               Some \<lparr> eb_Kind = k, eb_CommitmentTxid = c, eb_BatchEndedAt = be, eb_FinalDispatchedAt = fd, eb_InputTxid = it,
                      eb_InputVout = word_of_nat iv, eb_InputValueSats = word_of_nat val, eb_InputExpiresAt = ie,
                      eb_InputCommitmentTxids = cs \<rparr>
           | _ \<Rightarrow> None))"

definition validateEndedBatchEvidence :: "BitcoinEndedBatchEvidence \<Rightarrow> unit res" where
  "validateEndedBatchEvidence p =
     (let txids = (case eb_InputCommitmentTxids p of None \<Rightarrow> [] | Some xs \<Rightarrow> xs) in
      case parseRFC3339 (eb_FinalDispatchedAt p) of
        None \<Rightarrow> Inl (Err ''ended Operator batch release evidence required'')
      | Some dispatchedAt \<Rightarrow>
          if eb_Kind p \<noteq> BitcoinEndedBatchKind \<or>
             \<not> canonicalRenewalHex (eb_CommitmentTxid p) 32 \<or> \<not> canonicalRenewalHex (eb_InputTxid p) 32 \<or>
             eb_BatchEndedAt p \<le> 0 \<or> unixSec dispatchedAt \<le> eb_BatchEndedAt p \<or>
             eb_InputValueSats p < 330 \<or> eb_InputValueSats p > 2100000000000000 \<or>
             eb_InputExpiresAt p \<le> unixSec dispatchedAt \<or> txids = [] \<or> length txids > 128
          then Inl (Err ''ended Operator batch release evidence required'')
          else forEach (\<lambda>txid. if \<not> canonicalRenewalHex txid 32
                               then Inl (Err ''ended Operator batch input commitment changed'') else Inr ()) txids)"

definition bitcoinPlanChange :: "string \<Rightarrow> int res" where
  "bitcoinPlanChange raw =
     (case jsonMembers raw of
        None \<Rightarrow> Inl (Err ''ended Operator batch plan changed'')
      | Some ms \<Rightarrow>
          (case decInt64 0 (fieldVals ms ''changeSats'') of
             None \<Rightarrow> Inl (Err ''ended Operator batch plan changed'')
           | Some change \<Rightarrow> if change < 0 then Inl (Err ''ended Operator batch plan changed'') else Inr change))"

definition validateBitcoinEndedBatchRelease :: "SpendingRenewalSnapshot \<Rightarrow> SpendingRenewalEvent \<Rightarrow> unit res" where
  "validateBitcoinEndedBatchRelease s e =
     (if \<not> isBitcoinBatch (ro_Kind (rs_Operation s)) \<or> re_Phase (ev (rs_Events s) ''final_dispatched'') = [] \<or>
         re_Phase (ev (rs_Events s) ''final_result'') \<noteq> [] \<or>
         re_RequestDigest e \<noteq> re_RequestDigest (ev (rs_Events s) ''final_dispatched'')
        then Inl (Err ''ended Operator batch does not bind the dispatched payment'')
      else case unmarshalEndedBatch (re_Evidence e) of
        None \<Rightarrow> Inl (Err ''json'')
      | Some p \<Rightarrow>
          andThen (bitcoinPlanChange (ro_Plan (rs_Operation s))) (\<lambda>change.
          if marshalEndedBatch p \<noteq> re_Evidence e \<or>
             eb_FinalDispatchedAt p \<noteq> re_CreatedAt (ev (rs_Events s) ''final_dispatched'') \<or>
             eb_InputTxid p \<noteq> ro_InputTxid (rs_Operation s) \<or> eb_InputVout p \<noteq> ro_InputVout (rs_Operation s) \<or>
             eb_InputValueSats p \<noteq> u64_of (i64 (ro_AmountSats (rs_Operation s) + ro_FeeSats (rs_Operation s) + change))
          then Inl (Err ''ended Operator batch release evidence changed'')
          else validateEndedBatchEvidence p))"

definition validateBitcoinDispatchedRelease :: "SpendingRenewalSnapshot \<Rightarrow> SpendingRenewalEvent \<Rightarrow> unit res" where
  "validateBitcoinDispatchedRelease s e =
     (case jsonMembers (re_Evidence e) of
        None \<Rightarrow> Inl (Err ''Bitcoin release evidence required'')
      | Some ms \<Rightarrow>
          (case decStr [] (fieldVals ms ''kind'') of
             None \<Rightarrow> Inl (Err ''Bitcoin release evidence required'')
           | Some kind \<Rightarrow>
               if kind = BitcoinConflictKind then validateBitcoinConflictRelease s e
               else if kind = BitcoinEndedBatchKind then validateBitcoinEndedBatchRelease s e
               else Inl (Err ''unsupported Bitcoin release evidence'')))"

section \<open>The phase machine\<close>

definition parseOrZero :: "string \<Rightarrow> time" where
  "parseOrZero s = (case parseRFC3339 s of Some t \<Rightarrow> t | None \<Rightarrow> zeroTime)"

definition requirePhase :: "(string \<times> 'e) list \<Rightarrow> string \<Rightarrow> unit res" where
  "requirePhase events phase = (if hasEv events phase then Inr () else Inl (Err ''Light renewal requires %s''))"

definition validateRenewalTransition :: "SpendingRenewalSnapshot \<Rightarrow> SpendingRenewalEvent \<Rightarrow> time \<Rightarrow> unit res" where
  "validateRenewalTransition s e now =
     (if renewalTerminal s then Inl (Err ''Light renewal already terminal'')
      else
      let events = rs_Events s; expiry = parseOrZero (ro_ExpiresAt (rs_Operation s)); phase = re_Phase e in
      if phase = ''register_authorized'' then
        (if events \<noteq> [] \<or> \<not> timeBefore now expiry then Inl (Err ''Light renewal registration expired or started'') else Inr ())
      else if phase = ''register_dispatched'' then
        andThen (requirePhase events ''register_authorized'') (\<lambda>_.
        if \<not> timeBefore now expiry \<or> re_RequestDigest e \<noteq> re_RequestDigest (ev events ''register_authorized'')
        then Inl (Err ''Light renewal dispatch changed or expired'') else Inr ())
      else if phase = ''register_result'' then
        andThen (requirePhase events ''register_dispatched'') (\<lambda>_.
        if re_RequestDigest e \<noteq> re_RequestDigest (ev events ''register_dispatched'') \<or>
           re_Phase (ev events ''delete_authorized'') \<noteq> [] \<or> re_Phase (ev events ''final_authorized'') \<noteq> []
        then Inl (Err ''Light renewal registration result changed or superseded'') else Inr ())
      else if phase = ''final_authorized'' then
        (if re_Outcome (ev events ''register_result'') \<noteq> ''registered'' \<or> re_Phase (ev events ''delete_authorized'') \<noteq> [] \<or>
            \<not> timeBefore now expiry
         then Inl (Err ''Light renewal finalization unavailable'') else Inr ())
      else if phase = ''final_dispatched'' \<or> phase = ''final_result'' then
        (if phase = ''final_dispatched'' \<and> (\<not> timeBefore now expiry \<or> re_Phase (ev events ''delete_authorized'') \<noteq> [])
           then Inl (Err ''Light renewal final dispatch expired'')
         else let prior = (if phase = ''final_result'' then ''final_dispatched'' else ''final_authorized'') in
           andThen (requirePhase events prior) (\<lambda>_.
           if re_RequestDigest e \<noteq> re_RequestDigest (ev events prior)
           then Inl (Err ''Light renewal final request changed'') else Inr ()))
      else if phase = ''confirmed'' then
        andThen (requirePhase events ''final_dispatched'') (\<lambda>_.
        if re_RequestDigest e \<noteq> re_RequestDigest (ev events ''final_dispatched'')
        then Inl (Err ''Light renewal confirmation changed'') else Inr ())
      else if phase = ''delete_authorized'' then
        andThen (requirePhase events ''register_dispatched'') (\<lambda>_.
        if re_Phase (ev events ''final_authorized'') \<noteq> [] \<and>
           (timeBefore now (expiry + 15 * second) \<or> re_Phase (ev events ''final_dispatched'') \<noteq> [])
          then Inl (Err ''Light renewal has a forfeit authorization'')
        else if timeBefore now (expiry + 15 * second)
          then Inl (Err ''Bitcoin payment cancellation must wait for expiry'') else Inr ())
      else if phase = ''delete_dispatched'' \<or> phase = ''delete_result'' then
        (let prior = (if phase = ''delete_result'' then ''delete_dispatched'' else ''delete_authorized'') in
         andThen (requirePhase events prior) (\<lambda>_.
         if re_RequestDigest e \<noteq> re_RequestDigest (ev events prior)
         then Inl (Err ''Light renewal deletion changed'') else Inr ()))
      else if phase = ''released'' then
        (if re_Phase (ev events ''final_dispatched'') \<noteq> [] then validateBitcoinDispatchedRelease s e
         else if re_Outcome (ev events ''delete_result'') \<noteq> ''released''
           then Inl (Err ''Bitcoin payment intent deletion is unconfirmed'')
         else if re_Phase (ev events ''register_dispatched'') = [] \<or> re_Phase (ev events ''final_dispatched'') \<noteq> [] \<or>
             timeBefore now (expiry + 15 * second) \<or> re_RequestDigest e \<noteq> re_RequestDigest (ev events ''register_dispatched'')
           then Inl (Err ''Light renewal release not final'') else Inr ())
      else if phase = ''cancelled'' then
        (if re_Phase (ev events ''register_dispatched'') \<noteq> [] then Inl (Err ''Light renewal registration may be live'')
         else if re_RequestDigest e \<noteq> ro_PlanDigest (rs_Operation s) then Inl (Err ''Light renewal cancellation changed'')
         else Inr ())
      else Inl (Err ''unsupported Light renewal transition''))"

section \<open>Reachable journals\<close>

lemma map_of_AList_update [simp]: "map_of (AList.update k v al) = (map_of al)(k \<mapsto> v)"
  by (rule update_conv')

lemma hasEv_update [simp]: "hasEv (AList.update p e evs) q \<longleftrightarrow> q = p \<or> hasEv evs q"
  by (auto simp: hasEv_def)

lemma ev_update [simp]: "ev (AList.update p e evs) q = (if q = p then e else ev evs q)"
  by (simp add: ev_def)

lemma hasEv_Nil [simp]: "\<not> hasEv [] p"
  by (simp add: hasEv_def)

definition keyed :: "renewal_events \<Rightarrow> bool" where
  "keyed evs \<longleftrightarrow> (\<forall>p. hasEv evs p \<longrightarrow> re_Phase (ev evs p) = p \<and> p \<noteq> [])"

lemma keyed_phase: "keyed evs \<Longrightarrow> re_Phase (ev evs p) = [] \<longleftrightarrow> \<not> hasEv evs p"
  by (auto simp: keyed_def ev_def hasEv_def zeroRenewalEvent_def split: option.splits)

text \<open>The guards of the phase machine, one disjunct per phase.\<close>

lemma validateRenewalTransition_cases:
  assumes "validateRenewalTransition \<lparr> rs_Operation = op, rs_Events = evs \<rparr> e now = Inr ()" "keyed evs"
  shows "\<not> renewalTerminal \<lparr> rs_Operation = op, rs_Events = evs \<rparr> \<and>
   (re_Phase e = ''register_authorized'' \<and> evs = [] \<or>
    re_Phase e = ''register_dispatched'' \<and> hasEv evs ''register_authorized'' \<and>
      re_RequestDigest e = re_RequestDigest (ev evs ''register_authorized'') \<or>
    re_Phase e = ''register_result'' \<and> hasEv evs ''register_dispatched'' \<and> \<not> hasEv evs ''delete_authorized'' \<and>
      \<not> hasEv evs ''final_authorized'' \<and> re_RequestDigest e = re_RequestDigest (ev evs ''register_dispatched'') \<or>
    re_Phase e = ''final_authorized'' \<and> re_Outcome (ev evs ''register_result'') = ''registered'' \<and> \<not> hasEv evs ''delete_authorized'' \<or>
    re_Phase e = ''final_dispatched'' \<and> hasEv evs ''final_authorized'' \<and> \<not> hasEv evs ''delete_authorized'' \<and>
      re_RequestDigest e = re_RequestDigest (ev evs ''final_authorized'') \<or>
    re_Phase e = ''final_result'' \<and> hasEv evs ''final_dispatched'' \<and> re_RequestDigest e = re_RequestDigest (ev evs ''final_dispatched'') \<or>
    re_Phase e = ''confirmed'' \<and> hasEv evs ''final_dispatched'' \<and> re_RequestDigest e = re_RequestDigest (ev evs ''final_dispatched'') \<or>
    re_Phase e = ''delete_authorized'' \<and> hasEv evs ''register_dispatched'' \<and>
      \<not> (hasEv evs ''final_authorized'' \<and> hasEv evs ''final_dispatched'') \<or>
    re_Phase e = ''delete_dispatched'' \<and> hasEv evs ''delete_authorized'' \<or>
    re_Phase e = ''delete_result'' \<and> hasEv evs ''delete_dispatched'' \<or>
    re_Phase e = ''released'' \<and> (hasEv evs ''final_dispatched'' \<or>
      re_Outcome (ev evs ''delete_result'') = ''released'' \<and> hasEv evs ''register_dispatched'') \<or>
    re_Phase e = ''cancelled'' \<and> \<not> hasEv evs ''register_dispatched'')"
proof -
  note H = assms(1) [unfolded validateRenewalTransition_def Let_def, simplified]
  show ?thesis using H
    by (simp add: requirePhase_def keyed_phase [OF assms(2)] andThen_Inr_iff split: if_splits)
qed

text \<open>
  The journals that arise from a reservation by appending events the ledger accepts: the event is valid, its phase
  is new, and the phase machine allows it at the time of the append.
\<close>

inductive renewal_reach :: "SpendingRenewalOperation \<Rightarrow> renewal_events \<Rightarrow> bool" for op where
  start: "renewal_reach op []"
| append: "renewal_reach op evs \<Longrightarrow> validateSpendingRenewalEvent e = Inr () \<Longrightarrow> \<not> hasEv evs (re_Phase e) \<Longrightarrow>
    validateRenewalTransition \<lparr> rs_Operation = op, rs_Events = evs \<rparr> e now = Inr () \<Longrightarrow>
    renewal_reach op (AList.update (re_Phase e) e evs)"

inductive_cases renewal_reachE: "renewal_reach op evs"

definition chained :: "renewal_events \<Rightarrow> string \<Rightarrow> string \<Rightarrow> bool" where
  "chained evs later earlier \<longleftrightarrow> (hasEv evs later \<longrightarrow> hasEv evs earlier \<and>
     re_RequestDigest (ev evs later) = re_RequestDigest (ev evs earlier))"

definition renewalInv :: "renewal_events \<Rightarrow> bool" where
  "renewalInv evs \<longleftrightarrow> keyed evs \<and>
     chained evs ''register_dispatched'' ''register_authorized'' \<and> chained evs ''register_result'' ''register_dispatched'' \<and>
     chained evs ''final_dispatched'' ''final_authorized'' \<and> chained evs ''final_result'' ''final_dispatched'' \<and>
     chained evs ''confirmed'' ''final_dispatched'' \<and>
     (hasEv evs ''final_authorized'' \<longrightarrow> re_Outcome (ev evs ''register_result'') = ''registered'') \<and>
     (hasEv evs ''delete_authorized'' \<longrightarrow> hasEv evs ''register_dispatched'' \<and> \<not> hasEv evs ''final_dispatched'') \<and>
     (hasEv evs ''delete_dispatched'' \<longrightarrow> hasEv evs ''delete_authorized'') \<and>
     (hasEv evs ''delete_result'' \<longrightarrow> hasEv evs ''delete_dispatched'') \<and>
     (hasEv evs ''released'' \<longrightarrow> hasEv evs ''final_dispatched'' \<or> hasEv evs ''delete_result'') \<and>
     (hasEv evs ''cancelled'' \<longrightarrow> \<not> hasEv evs ''register_dispatched'') \<and>
     \<not> (hasEv evs ''confirmed'' \<and> hasEv evs ''released'') \<and> \<not> (hasEv evs ''confirmed'' \<and> hasEv evs ''cancelled'') \<and>
     \<not> (hasEv evs ''released'' \<and> hasEv evs ''cancelled'') \<and>
     (re_Outcome (ev evs ''register_result'') = ''rejected'' \<longrightarrow>
        \<not> hasEv evs ''confirmed'' \<and> \<not> hasEv evs ''released'' \<and> \<not> hasEv evs ''cancelled'' \<and> \<not> hasEv evs ''final_dispatched'')"

lemma outcome_hasEv: "re_Outcome (ev evs p) \<noteq> [] \<Longrightarrow> hasEv evs p"
  by (auto simp: ev_def hasEv_def zeroRenewalEvent_def split: option.splits)

lemma outcome_cancelled:
  "validateSpendingRenewalEvent e = Inr () \<Longrightarrow> re_Phase e \<noteq> []"
  by (auto simp: validateSpendingRenewalEvent_def split: if_splits)

lemma renewalInv_step:
  assumes inv: "renewalInv evs" and new: "\<not> hasEv evs (re_Phase e)" and val: "validateSpendingRenewalEvent e = Inr ()"
    and tr: "validateRenewalTransition \<lparr> rs_Operation = op, rs_Events = evs \<rparr> e now = Inr ()"
  shows "renewalInv (AList.update (re_Phase e) e evs)"
proof -
  have k: "keyed evs" using inv by (simp add: renewalInv_def)
  have ph: "re_Phase e \<noteq> []" by (rule outcome_cancelled [OF val])
  have k': "keyed (AList.update (re_Phase e) e evs)" using k ph by (auto simp: keyed_def)
  note T = validateRenewalTransition_cases [OF tr k]
  note nt = T [THEN conjunct1, unfolded renewalTerminal_def, simplified]
  note I = inv [unfolded renewalInv_def chained_def] outcome_hasEv [of evs "''delete_result''"] outcome_hasEv [of evs "''register_result''"]
  show ?thesis using T [THEN conjunct2]
  proof (elim disjE conjE, goal_cases)
    case 1 then show ?case using k' by (simp add: renewalInv_def chained_def hasEv_def ev_def zeroRenewalEvent_def)
  next
    case 2 then show ?case using I k' nt new by (auto simp: renewalInv_def chained_def)
  next
    case 3 then show ?case using I k' nt new by (auto simp: renewalInv_def chained_def)
  next
    case 4 then show ?case using I k' nt new by (auto simp: renewalInv_def chained_def)
  next
    case 5 then show ?case using I k' nt new by (auto simp: renewalInv_def chained_def)
  next
    case 6 then show ?case using I k' nt new by (auto simp: renewalInv_def chained_def)
  next
    case 7 then show ?case using I k' nt new by (auto simp: renewalInv_def chained_def)
  next
    case 8 then show ?case using I k' nt new by (auto simp: renewalInv_def chained_def)
  next
    case 9 then show ?case using I k' nt new by (auto simp: renewalInv_def chained_def)
  next
    case 10 then show ?case using I k' nt new by (auto simp: renewalInv_def chained_def)
  next
    case 11 then show ?case using I k' nt new by (auto simp: renewalInv_def chained_def)
  next
    case 12 then show ?case using I k' nt new by (auto simp: renewalInv_def chained_def)
  next
    case 13 then show ?case using I k' nt new by (auto simp: renewalInv_def chained_def)
  qed
qed

lemma renewal_reach_inv: "renewal_reach op evs \<Longrightarrow> renewalInv evs"
proof (induction rule: renewal_reach.induct)
  case start
  then show ?case by (simp add: renewalInv_def chained_def keyed_def ev_def zeroRenewalEvent_def)
next
  case (append evs e now)
  then show ?case using renewalInv_step by blast
qed

lemma canonicalRenewalHex_hexEncode [simp]: "canonicalRenewalHex (hexEncode b) n \<longleftrightarrow> length b = n"
  by (simp add: canonicalRenewalHex_def)

section \<open>Properties\<close>

text \<open>
  C16: a Bitcoin payment is never both dispatched and withdrawn. In every reachable journal a dispatched final request
  excludes an authorized deletion of the registered intent, and it is the request that was authorized after the
  Operator had registered the dispatched registration.
\<close>

theorem renewal_dispatch_excludes_delete:
  assumes "renewal_reach op evs" "hasEv evs ''final_dispatched''"
  shows "\<not> hasEv evs ''delete_authorized'' \<and> \<not> hasEv evs ''delete_result'' \<and> \<not> hasEv evs ''cancelled'' \<and>
    re_RequestDigest (ev evs ''final_dispatched'') = re_RequestDigest (ev evs ''final_authorized'') \<and>
    re_Outcome (ev evs ''register_result'') = ''registered'' \<and>
    re_RequestDigest (ev evs ''register_dispatched'') = re_RequestDigest (ev evs ''register_authorized'')"
  using renewal_reach_inv [OF assms(1)] assms(2) outcome_hasEv [of evs "''register_result''"]
  by (auto simp: renewalInv_def chained_def)

text \<open>
  C17: a journal ends in at most one way (confirmed, released, cancelled or rejected at registration), a confirmation
  binds the dispatched request, a release without a dispatch follows a confirmed deletion, and a terminal journal
  accepts no further phase.
\<close>

theorem renewal_single_outcome:
  assumes "renewal_reach op evs"
  shows "length (filter (\<lambda>b. b) [hasEv evs ''confirmed'', hasEv evs ''released'', hasEv evs ''cancelled'',
           re_Outcome (ev evs ''register_result'') = ''rejected'']) \<le> 1 \<and>
    (hasEv evs ''confirmed'' \<longrightarrow> re_RequestDigest (ev evs ''confirmed'') = re_RequestDigest (ev evs ''final_dispatched'')) \<and>
    (hasEv evs ''released'' \<and> \<not> hasEv evs ''final_dispatched'' \<longrightarrow> hasEv evs ''delete_result'') \<and>
    (renewalTerminal \<lparr> rs_Operation = op, rs_Events = evs \<rparr> \<longrightarrow>
      (\<forall>e now. validateRenewalTransition \<lparr> rs_Operation = op, rs_Events = evs \<rparr> e now \<noteq> Inr ()))"
proof -
  have "validateRenewalTransition s e now \<noteq> Inr ()" if "renewalTerminal s" for s e now
    using that unfolding validateRenewalTransition_def by simp
  then have t: "renewalTerminal \<lparr> rs_Operation = op, rs_Events = evs \<rparr> \<longrightarrow>
      (\<forall>e now. validateRenewalTransition \<lparr> rs_Operation = op, rs_Events = evs \<rparr> e now \<noteq> Inr ())" by blast
  note I = renewal_reach_inv [OF assms, unfolded renewalInv_def chained_def]
  from I have x: "\<not> (hasEv evs ''confirmed'' \<and> hasEv evs ''released'')" "\<not> (hasEv evs ''confirmed'' \<and> hasEv evs ''cancelled'')"
      "\<not> (hasEv evs ''released'' \<and> hasEv evs ''cancelled'')"
      "re_Outcome (ev evs ''register_result'') = ''rejected'' \<longrightarrow>
        \<not> hasEv evs ''confirmed'' \<and> \<not> hasEv evs ''released'' \<and> \<not> hasEv evs ''cancelled''"
    and y: "hasEv evs ''confirmed'' \<longrightarrow> re_RequestDigest (ev evs ''confirmed'') = re_RequestDigest (ev evs ''final_dispatched'')"
      "hasEv evs ''released'' \<and> \<not> hasEv evs ''final_dispatched'' \<longrightarrow> hasEv evs ''delete_result''"
    by blast+
  have "length (filter (\<lambda>b. b) [a, b, c, d]) \<le> 1"
    if "\<not> (a \<and> b)" "\<not> (a \<and> c)" "\<not> (b \<and> c)" "d \<longrightarrow> \<not> a \<and> \<not> b \<and> \<not> c" for a b c d
    using that by auto
  from this [OF x] y t show ?thesis by (intro conjI)
qed

definition sampleDigest :: "nat \<Rightarrow> string" where "sampleDigest n = hexEncode (replicate 32 (word_of_nat n))"

definition sampleRenewal :: SpendingRenewalOperation where
  "sampleRenewal = \<lparr> ro_OperationID = hexEncode (replicate 16 1), ro_VaultID = ''v'', ro_InputTxid = sampleDigest 5, ro_InputVout = 0,
     ro_FeeSats = 10, ro_PlanDigest = sampleDigest 6, ro_Plan = ''{}'', ro_ExpiresAt = formatRFC3339 (300 * second),
     ro_CreatedAt = formatRFC3339 0, ro_Kind = ''spending-bitcoin-v1'', ro_AmountSats = 1000 \<rparr>"

definition sampleRenewalEvent :: "string \<Rightarrow> nat \<Rightarrow> string \<Rightarrow> string \<Rightarrow> string \<Rightarrow> SpendingRenewalEvent" where
  "sampleRenewalEvent phase digest outcome oref evidence = \<lparr> re_OperationID = hexEncode (replicate 16 1), re_Phase = phase,
     re_RequestDigest = sampleDigest digest, re_Outcome = outcome, re_OperatorRef = oref, re_Evidence = evidence,
     re_CreatedAt = formatRFC3339 0 \<rparr>"

definition sampleJournal :: renewal_events where
  "sampleJournal = map (\<lambda>e. (re_Phase e, e))
     [ sampleRenewalEvent ''register_authorized'' 3 [] [] ''{}'', sampleRenewalEvent ''register_dispatched'' 3 [] [] [],
       sampleRenewalEvent ''register_result'' 3 ''registered'' ''ref'' [], sampleRenewalEvent ''final_authorized'' 2 [] [] ''{}'',
       sampleRenewalEvent ''final_dispatched'' 2 [] [] [] ]"

lemma sample_times: "fourDigitYear 0" "fourDigitYear (300 * second)"
  by code_simp+

lemma sample_event_valid:
  "validateSpendingRenewalEvent (sampleRenewalEvent ''register_authorized'' 3 [] [] ''{}'') = Inr ()"
  "validateSpendingRenewalEvent (sampleRenewalEvent ''register_dispatched'' 3 [] [] []) = Inr ()"
  "validateSpendingRenewalEvent (sampleRenewalEvent ''register_result'' 3 ''registered'' ''ref'' []) = Inr ()"
  "validateSpendingRenewalEvent (sampleRenewalEvent ''final_authorized'' 2 [] [] ''{}'') = Inr ()"
  "validateSpendingRenewalEvent (sampleRenewalEvent ''final_dispatched'' 2 [] [] []) = Inr ()"
proof -
  have j: "jsonValid ''{}''" by code_simp
  have t: "parseRFC3339 (formatRFC3339 0) = Some 0" using parse_formatRFC3339 [OF sample_times(1)] by (simp add: unixSec_def)
  note D = validateSpendingRenewalEvent_def sampleRenewalEvent_def sampleDigest_def j t
  show "validateSpendingRenewalEvent (sampleRenewalEvent ''register_authorized'' 3 [] [] ''{}'') = Inr ()" by (simp add: D)
  show "validateSpendingRenewalEvent (sampleRenewalEvent ''register_dispatched'' 3 [] [] []) = Inr ()" by (simp add: D)
  show "validateSpendingRenewalEvent (sampleRenewalEvent ''register_result'' 3 ''registered'' ''ref'' []) = Inr ()" by (simp add: D)
  show "validateSpendingRenewalEvent (sampleRenewalEvent ''final_authorized'' 2 [] [] ''{}'') = Inr ()" by (simp add: D)
  show "validateSpendingRenewalEvent (sampleRenewalEvent ''final_dispatched'' 2 [] [] []) = Inr ()" by (simp add: D)
qed

lemma sampleRenewalEvent_simps [simp]:
  "re_Phase (sampleRenewalEvent p d oc rf evd) = p" "re_RequestDigest (sampleRenewalEvent p d oc rf evd) = sampleDigest d"
  "re_Outcome (sampleRenewalEvent p d oc rf evd) = oc"
  by (simp_all add: sampleRenewalEvent_def)

lemma sampleJournal_eq: "sampleJournal =
  [(''register_authorized'', sampleRenewalEvent ''register_authorized'' 3 [] [] ''{}''),
   (''register_dispatched'', sampleRenewalEvent ''register_dispatched'' 3 [] [] []),
   (''register_result'', sampleRenewalEvent ''register_result'' 3 ''registered'' ''ref'' []),
   (''final_authorized'', sampleRenewalEvent ''final_authorized'' 2 [] [] ''{}''),
   (''final_dispatched'', sampleRenewalEvent ''final_dispatched'' 2 [] [] [])]"
  by (simp add: sampleJournal_def)

lemma sampleJournal_step:
  assumes "n < 5" "renewal_reach sampleRenewal (take n sampleJournal)"
    "validateSpendingRenewalEvent (snd (sampleJournal ! n)) = Inr ()"
    "validateRenewalTransition \<lparr> rs_Operation = sampleRenewal, rs_Events = take n sampleJournal \<rparr> (snd (sampleJournal ! n)) 0 = Inr ()"
  shows "renewal_reach sampleRenewal (take (n + 1) sampleJournal)"
proof -
  let ?e = "snd (sampleJournal ! n)"
  have upd: "AList.update k v evs = evs @ [(k, v)]" if "\<not> hasEv evs k" for k v and evs :: renewal_events
    using that by (induction evs) (auto simp: hasEv_def split: if_splits)
  have n: "n \<in> {0, 1, 2, 3, 4}" using assms(1) by auto
  then have new: "\<not> hasEv (take n sampleJournal) (re_Phase ?e)" and ph: "(re_Phase ?e, ?e) = sampleJournal ! n"
    by (auto simp: sampleJournal_eq hasEv_def)
  have "length sampleJournal = 5" by (simp add: sampleJournal_eq)
  with renewal_reach.append [OF assms(2,3) new assms(4)] upd [OF new] ph assms(1) show ?thesis
    by (simp add: take_Suc_conv_app_nth)
qed

lemma sampleJournal_prefix:
  "\<not> renewalTerminal \<lparr> rs_Operation = op, rs_Events = take (Suc 0) sampleJournal \<rparr>"
  "\<not> renewalTerminal \<lparr> rs_Operation = op, rs_Events = take 2 sampleJournal \<rparr>"
  "\<not> renewalTerminal \<lparr> rs_Operation = op, rs_Events = take 3 sampleJournal \<rparr>"
  "\<not> renewalTerminal \<lparr> rs_Operation = op, rs_Events = take 4 sampleJournal \<rparr>"
  "requirePhase (take (Suc 0) sampleJournal) ''register_authorized'' = Inr ()"
  "requirePhase (take 2 sampleJournal) ''register_dispatched'' = Inr ()"
  "requirePhase (take 4 sampleJournal) ''final_authorized'' = Inr ()"
  "re_RequestDigest (ev (take (Suc 0) sampleJournal) ''register_authorized'') = sampleDigest 3"
  "re_RequestDigest (ev (take 2 sampleJournal) ''register_dispatched'') = sampleDigest 3"
  "re_RequestDigest (ev (take 4 sampleJournal) ''final_authorized'') = sampleDigest 2"
  "re_Outcome (ev (take 3 sampleJournal) ''register_result'') = ''registered''"
  "re_Phase (ev (take 2 sampleJournal) ''delete_authorized'') = []" "re_Phase (ev (take 2 sampleJournal) ''final_authorized'') = []"
  "re_Phase (ev (take 3 sampleJournal) ''delete_authorized'') = []" "re_Phase (ev (take 4 sampleJournal) ''delete_authorized'') = []"
  by (simp_all add: sampleJournal_eq renewalTerminal_def ev_def hasEv_def zeroRenewalEvent_def requirePhase_def)

lemma sampleJournal_nth:
  "snd (sampleJournal ! 0) = sampleRenewalEvent ''register_authorized'' 3 [] [] ''{}''"
  "snd (sampleJournal ! Suc 0) = sampleRenewalEvent ''register_dispatched'' 3 [] [] []"
  "snd (sampleJournal ! 2) = sampleRenewalEvent ''register_result'' 3 ''registered'' ''ref'' []"
  "snd (sampleJournal ! 3) = sampleRenewalEvent ''final_authorized'' 2 [] [] ''{}''"
  "snd (sampleJournal ! 4) = sampleRenewalEvent ''final_dispatched'' 2 [] [] []"
  by (simp_all add: sampleJournal_eq)

lemma sampleJournal_transitions:
  "validateRenewalTransition \<lparr> rs_Operation = sampleRenewal, rs_Events = [] \<rparr> (sampleRenewalEvent ''register_authorized'' 3 [] [] ''{}'') 0 = Inr ()"
  "validateRenewalTransition \<lparr> rs_Operation = sampleRenewal, rs_Events = take (Suc 0) sampleJournal \<rparr> (sampleRenewalEvent ''register_dispatched'' 3 [] [] []) 0 = Inr ()"
  "validateRenewalTransition \<lparr> rs_Operation = sampleRenewal, rs_Events = take 2 sampleJournal \<rparr> (sampleRenewalEvent ''register_result'' 3 ''registered'' ''ref'' []) 0 = Inr ()"
  "validateRenewalTransition \<lparr> rs_Operation = sampleRenewal, rs_Events = take 3 sampleJournal \<rparr> (sampleRenewalEvent ''final_authorized'' 2 [] [] ''{}'') 0 = Inr ()"
  "validateRenewalTransition \<lparr> rs_Operation = sampleRenewal, rs_Events = take 4 sampleJournal \<rparr> (sampleRenewalEvent ''final_dispatched'' 2 [] [] []) 0 = Inr ()"
proof -
  have "parseOrZero (ro_ExpiresAt sampleRenewal) = 300 * second"
    using parse_formatRFC3339 [OF sample_times(2)] by (simp add: parseOrZero_def sampleRenewal_def unixSec_def second_def)
  then have x: "timeBefore 0 (parseOrZero (ro_ExpiresAt sampleRenewal))" unfolding time_defs by (simp add: second_def)
  have nt: "\<not> renewalTerminal \<lparr> rs_Operation = op, rs_Events = [] \<rparr>" for op
    by (simp add: renewalTerminal_def ev_def zeroRenewalEvent_def)
  note D = sampleJournal_prefix x nt
  show "validateRenewalTransition \<lparr> rs_Operation = sampleRenewal, rs_Events = [] \<rparr> (sampleRenewalEvent ''register_authorized'' 3 [] [] ''{}'') 0 = Inr ()"
    unfolding validateRenewalTransition_def Let_def by (simp add: D)
  show "validateRenewalTransition \<lparr> rs_Operation = sampleRenewal, rs_Events = take (Suc 0) sampleJournal \<rparr> (sampleRenewalEvent ''register_dispatched'' 3 [] [] []) 0 = Inr ()"
    unfolding validateRenewalTransition_def Let_def by (simp add: D)
  show "validateRenewalTransition \<lparr> rs_Operation = sampleRenewal, rs_Events = take 2 sampleJournal \<rparr> (sampleRenewalEvent ''register_result'' 3 ''registered'' ''ref'' []) 0 = Inr ()"
    unfolding validateRenewalTransition_def Let_def by (simp add: D)
  show "validateRenewalTransition \<lparr> rs_Operation = sampleRenewal, rs_Events = take 3 sampleJournal \<rparr> (sampleRenewalEvent ''final_authorized'' 2 [] [] ''{}'') 0 = Inr ()"
    unfolding validateRenewalTransition_def Let_def by (simp add: D)
  show "validateRenewalTransition \<lparr> rs_Operation = sampleRenewal, rs_Events = take 4 sampleJournal \<rparr> (sampleRenewalEvent ''final_dispatched'' 2 [] [] []) 0 = Inr ()"
    unfolding validateRenewalTransition_def Let_def by (simp add: D)
qed

lemma sampleJournal_reach: "renewal_reach sampleRenewal sampleJournal"
proof -
  note F = sampleJournal_transitions sample_event_valid sampleJournal_nth
  have 1: "renewal_reach sampleRenewal (take (Suc 0) sampleJournal)"
    using sampleJournal_step [of 0] by (simp add: F renewal_reach.start)
  have 2: "renewal_reach sampleRenewal (take 2 sampleJournal)"
    using sampleJournal_step [OF _ 1] by (simp add: F flip: numeral_2_eq_2)
  have 3: "renewal_reach sampleRenewal (take 3 sampleJournal)"
    using sampleJournal_step [of 2] 2 by (simp add: F)
  have 4: "renewal_reach sampleRenewal (take 4 sampleJournal)"
    using sampleJournal_step [of 3] 3 by (simp add: F)
  have 5: "renewal_reach sampleRenewal (take 5 sampleJournal)"
    using sampleJournal_step [of 4] 4 by (simp add: F)
  then show ?thesis by (simp add: sampleJournal_eq)
qed

theorem renewal_dispatch_excludes_delete_witness:
  "renewal_reach sampleRenewal sampleJournal \<and> \<not> hasEv sampleJournal ''delete_authorized'' \<and>
   re_Outcome (ev sampleJournal ''register_result'') = ''registered''"
  using renewal_dispatch_excludes_delete [OF sampleJournal_reach] sampleJournal_reach
  by (simp add: hasEv_def sampleJournal_def sampleRenewalEvent_def)

theorem renewal_single_outcome_witness:
  "renewal_reach sampleRenewal sampleJournal \<and>
   length (filter (\<lambda>b. b) [hasEv sampleJournal ''confirmed'', hasEv sampleJournal ''released'', hasEv sampleJournal ''cancelled'',
     re_Outcome (ev sampleJournal ''register_result'') = ''rejected'']) \<le> 1"
  using renewal_single_outcome [OF sampleJournal_reach] sampleJournal_reach by blast

end
