(* ===== verification/Delegation.thy ===== *)
theory Delegation
  imports Renewal
begin

text \<open>
  The renewal delegation journal (\<open>spending_delegation.go\<close>): owner-presigned plans stored in complete sets, and
  their phase events. This theory holds the data, the encodings, the authenticated load with its set check, and the
  phase guard of \<open>AdvanceSpendingDelegation\<close>; the operations on the ledger are in \<open>Journal_Ledger\<close>.
\<close>

record SpendingDelegation =
  sd_OperationID :: string
  sd_VaultID :: string
  sd_InputTxid :: string
  sd_InputVout :: u32
  sd_ValidAt :: int
  sd_ExpiresAt :: int
  sd_FeeSats :: int
  sd_PlanDigest :: string
  sd_Plan :: string
  sd_CreatedAt :: string
  sd_Program :: string
  sd_DescriptorHash :: string
  sd_SetID :: string
  sd_SetDigest :: string
  sd_SetSize :: int
  sd_SetIndex :: int

record SpendingDelegationEvent =
  de_OperationID :: string
  de_Phase :: string
  de_Evidence :: string
  de_CreatedAt :: string

type_synonym delegation_events = "(string \<times> SpendingDelegationEvent) list"

record SpendingDelegationSnapshot =
  ds_Operation :: SpendingDelegation
  ds_Events :: delegation_events

type_synonym delegation_map = "(string \<times> SpendingDelegationSnapshot) list"

definition delegationPhases :: "string list" where
  "delegationPhases = [''claimed'', ''register_authorized'', ''register_dispatched'', ''register_result'', ''batch_started'',
     ''tree_prepared'', ''nonces_committed'', ''tree_signed'', ''final_authorized'', ''final_dispatched'', ''final_result'',
     ''cleanup_pending'', ''cleanup_authorized'', ''cleanup_dispatched'', ''cleanup_result'', ''confirmed'', ''invalidated'',
     ''cancelled'', ''expired'', ''needs_authorization'', ''rejected'']"

definition terminalPhases :: "string list" where
  "terminalPhases = [''confirmed'', ''invalidated'', ''cancelled'', ''expired'', ''needs_authorization'', ''rejected'']"

definition delegationTerminal :: "SpendingDelegationSnapshot \<Rightarrow> bool" where
  "delegationTerminal s \<longleftrightarrow> list_ex (hasEv (ds_Events s)) terminalPhases"

text \<open>\<open>State()\<close>: the last phase of the list that is present.\<close>

definition delegationState :: "SpendingDelegationSnapshot \<Rightarrow> string" where
  "delegationState s = foldl (\<lambda>state p.
     if hasEv (ds_Events s) p then (if hasPrefix p ''cleanup_'' then ''cleanup_pending'' else p) else state) ''armed'' delegationPhases"

section \<open>JSON\<close>

definition marshalDelegation :: "SpendingDelegation \<Rightarrow> string" where
  "marshalDelegation o1 = jsonStruct
     (strField ''operationId'' (sd_OperationID o1) @ strField ''vaultId'' (sd_VaultID o1) @ strField ''inputTxid'' (sd_InputTxid o1) @
      intField ''inputVout'' (uint (sd_InputVout o1)) @ intField ''validAt'' (sd_ValidAt o1) @ intField ''expiresAt'' (sd_ExpiresAt o1) @
      intField ''feeSats'' (sd_FeeSats o1) @ strField ''planDigest'' (sd_PlanDigest o1) @ strField ''plan'' (sd_Plan o1) @
      strField ''createdAt'' (sd_CreatedAt o1) @ omitStr ''program'' (sd_Program o1) @ omitStr ''descriptorHash'' (sd_DescriptorHash o1) @
      omitStr ''setId'' (sd_SetID o1) @ omitStr ''setDigest'' (sd_SetDigest o1) @ omitInt ''setSize'' (sd_SetSize o1) @
      omitInt ''setIndex'' (sd_SetIndex o1))"

definition unmarshalDelegation :: "string \<Rightarrow> SpendingDelegation option" where
  "unmarshalDelegation s =
     (case jsonMembers s of
        None \<Rightarrow> None
      | Some ms \<Rightarrow>
          (case (decStr [] (fieldVals ms ''operationId''), decStr [] (fieldVals ms ''vaultId''), decStr [] (fieldVals ms ''inputTxid''),
                 decUint 32 0 (fieldVals ms ''inputVout''), decInt64 0 (fieldVals ms ''validAt''), decInt64 0 (fieldVals ms ''expiresAt''),
                 decInt64 0 (fieldVals ms ''feeSats''), decStr [] (fieldVals ms ''planDigest''), decStr [] (fieldVals ms ''plan''),
                 decStr [] (fieldVals ms ''createdAt''), decStr [] (fieldVals ms ''program''), decStr [] (fieldVals ms ''descriptorHash''),
                 decStr [] (fieldVals ms ''setId''), decStr [] (fieldVals ms ''setDigest''), decInt64 0 (fieldVals ms ''setSize''),
                 decInt64 0 (fieldVals ms ''setIndex'')) of
             (Some oid, Some vid, Some txid, Some vout, Some va, Some ex, Some fee, Some pd, Some plan, Some cr, Some prog, Some dh,
              Some sid, Some sdg, Some sz, Some ix) \<Rightarrow>
               Some \<lparr> sd_OperationID = oid, sd_VaultID = vid, sd_InputTxid = txid, sd_InputVout = word_of_nat vout, sd_ValidAt = va,
                      sd_ExpiresAt = ex, sd_FeeSats = fee, sd_PlanDigest = pd, sd_Plan = plan, sd_CreatedAt = cr, sd_Program = prog,
                      sd_DescriptorHash = dh, sd_SetID = sid, sd_SetDigest = sdg, sd_SetSize = sz, sd_SetIndex = ix \<rparr>
           | _ \<Rightarrow> None))"

definition marshalDelegationEvent :: "SpendingDelegationEvent \<Rightarrow> string" where
  "marshalDelegationEvent e = jsonStruct
     (strField ''operationId'' (de_OperationID e) @ strField ''phase'' (de_Phase e) @ strField ''evidence'' (de_Evidence e) @
      strField ''createdAt'' (de_CreatedAt e))"

definition unmarshalDelegationEvent :: "string \<Rightarrow> SpendingDelegationEvent option" where
  "unmarshalDelegationEvent s =
     (case jsonMembers s of
        None \<Rightarrow> None
      | Some ms \<Rightarrow>
          (case (decStr [] (fieldVals ms ''operationId''), decStr [] (fieldVals ms ''phase''), decStr [] (fieldVals ms ''evidence''),
                 decStr [] (fieldVals ms ''createdAt'')) of
             (Some oid, Some ph, Some evd, Some cr) \<Rightarrow>
               Some \<lparr> de_OperationID = oid, de_Phase = ph, de_Evidence = evd, de_CreatedAt = cr \<rparr>
           | _ \<Rightarrow> None))"

section \<open>Validation\<close>

definition validateDelegationSetFields :: "SpendingDelegation \<Rightarrow> unit res" where
  "validateDelegationSetFields o1 =
     (if sd_Program o1 \<noteq> delegationSetVaultProgram then Inl (Err ''invalid delegation set program'')
      else if \<not> canonicalRenewalHex (sd_DescriptorHash o1) 32 \<or> \<not> canonicalRenewalHex (sd_SetID o1) 16 \<or>
          \<not> canonicalRenewalHex (sd_SetDigest o1) 32 then Inl (Err ''invalid delegation set binding'')
      else if sd_SetSize o1 < 1 \<or> sd_SetSize o1 > 50 \<or> sd_SetIndex o1 < 0 \<or> sd_SetIndex o1 \<ge> sd_SetSize o1
        then Inl (Err ''invalid delegation set position'')
      else Inr ())"

definition validateDelegation :: "SpendingDelegation \<Rightarrow> unit res" where
  "validateDelegation o1 =
     (case parseRFC3339 (sd_CreatedAt o1) of
        None \<Rightarrow> Inl (Err ''invalid Light delegation'')
      | Some created \<Rightarrow>
          if \<not> canonicalRenewalHex (sd_OperationID o1) 16 \<or> \<not> ValidDelegationVaultID (sd_Program o1) (sd_VaultID o1) \<or>
             \<not> canonicalRenewalHex (sd_InputTxid o1) 32 \<or> \<not> canonicalRenewalHex (sd_PlanDigest o1) 32 \<or>
             sd_FeeSats o1 < 0 \<or> sd_FeeSats o1 > 20000 \<or> sd_ValidAt o1 < unixSec created \<or>
             sd_ValidAt o1 > unixSec (created + 2592000 * second) \<or> sd_ExpiresAt o1 \<le> sd_ValidAt o1 \<or>
             sd_ExpiresAt o1 > i64 (sd_ValidAt o1 + 86400) \<or> sd_Plan o1 = [] \<or> length (sd_Plan o1) > 65536 \<or> \<not> jsonValid (sd_Plan o1)
          then Inl (Err ''invalid Light delegation'')
          else validateDelegationSetFields o1)"

fun streamPrefix :: "string list \<Rightarrow> string \<Rightarrow> bool" where
  "streamPrefix [] phase = False"
| "streamPrefix (p # ps) phase =
     (if hasPrefix phase p then canonicalRenewalHex (trimPrefix phase p) 32 else streamPrefix ps phase)"

definition validDelegationStreamPhase :: "string \<Rightarrow> bool" where
  "validDelegationStreamPhase phase \<longleftrightarrow>
     phase = ''stream_signing_started'' \<or> phase = ''stream_finalization'' \<or>
     streamPrefix [''stream_tree_0_'', ''stream_tree_1_'', ''stream_nonce_'', ''stream_signature_''] phase"

definition validateDelegationEvent :: "SpendingDelegationEvent \<Rightarrow> unit res" where
  "validateDelegationEvent e =
     (if \<not> canonicalRenewalHex (de_OperationID e) 16 \<or> length (de_Evidence e) > 4000000 \<or> \<not> jsonValid (de_Evidence e)
        then Inl (Err ''invalid Light delegation event'')
      else if parseRFC3339 (de_CreatedAt e) = None then Inl (Err ''parsing time'')
      else if validDelegationStreamPhase (de_Phase e) then
        (if length (de_Evidence e) > 131072 then Inl (Err ''Light delegation stream event too large'') else Inr ())
      else if de_Phase e \<in> set delegationPhases then Inr ()
      else Inl (Err ''unknown Light delegation phase''))"

section \<open>Complete sets\<close>

text \<open>The members of one set, against the first of them.\<close>

fun checkSetMembers :: "SpendingDelegation \<Rightarrow> int list \<Rightarrow> SpendingDelegation list \<Rightarrow> int list res" where
  "checkSetMembers first seen [] = Inr seen"
| "checkSetMembers first seen (o1 # os) =
     (if sd_VaultID o1 \<noteq> sd_VaultID first \<or> sd_Program o1 \<noteq> sd_Program first \<or> sd_DescriptorHash o1 \<noteq> sd_DescriptorHash first \<or>
         sd_SetID o1 \<noteq> sd_SetID first \<or> sd_SetDigest o1 \<noteq> sd_SetDigest first \<or> sd_SetSize o1 \<noteq> sd_SetSize first
        then Inl (Err ''Light delegation set %s metadata'')
      else if sd_SetIndex o1 \<in> set seen then Inl (Err ''Light delegation set %s index'')
      else checkSetMembers first (sd_SetIndex o1 # seen) os)"

definition checkDelegationSet :: "SpendingDelegation list \<Rightarrow> unit res" where
  "checkDelegationSet members =
     (let first = hd members; n = sd_SetSize first in
      if n < 1 \<or> n > 50 \<or> int (length members) \<noteq> n then Inl (Err ''Light delegation set %s membership'')
      else andThen (checkSetMembers first [] members) (\<lambda>seen.
        if list_all (\<lambda>i. int i \<in> set seen) [0..<nat n] then Inr () else Inl (Err ''Light delegation set %s index'')))"

definition validateDelegationSets :: "delegation_map \<Rightarrow> unit res" where
  "validateDelegationSets all =
     (let ops = map (ds_Operation \<circ> snd) all in
      forEach (\<lambda>sid. checkDelegationSet (filter (\<lambda>o1. sd_SetID o1 = sid) ops)) (remdups (map sd_SetID ops)))"

section \<open>Authenticated load\<close>

definition loadDelegationOp :: "bytes \<Rightarrow> delegation_map \<Rightarrow> JournalOp \<Rightarrow> delegation_map res" where
  "loadDelegationOp key all row =
     (if length (jo_payload row) > 131072 \<or> jo_integrity_mac row \<noteq> renewalMAC key ''vaulted-light/delegation-operation/v1'' (jo_payload row)
        then Inl (Err ''Light delegation integrity'')
      else case unmarshalDelegation (jo_payload row) of
        None \<Rightarrow> Inl (Err ''Light delegation integrity'')
      | Some o1 \<Rightarrow>
          if marshalDelegation o1 \<noteq> jo_payload row \<or> sd_OperationID o1 \<noteq> jo_operation_id row \<or> sd_VaultID o1 \<noteq> jo_vault_id row \<or>
             validateDelegation o1 \<noteq> Inr ()
          then Inl (Err ''Light delegation binding'')
          else Inr (AList.update (jo_operation_id row) \<lparr> ds_Operation = o1, ds_Events = [] \<rparr> all))"

definition loadDelegationEvent :: "bytes \<Rightarrow> delegation_map \<Rightarrow> JournalEvent \<Rightarrow> delegation_map res" where
  "loadDelegationEvent key all row =
     (if length (je_payload row) > 8000000 \<or> je_integrity_mac row \<noteq> renewalMAC key ''vaulted-light/delegation-event/v1'' (je_payload row)
        then Inl (Err ''Light delegation event integrity'')
      else case unmarshalDelegationEvent (je_payload row) of
        None \<Rightarrow> Inl (Err ''Light delegation event integrity'')
      | Some e \<Rightarrow>
          (case map_of all (je_operation_id row) of
             None \<Rightarrow> Inl (Err ''Light delegation event binding'')
           | Some s \<Rightarrow>
               if marshalDelegationEvent e \<noteq> je_payload row \<or> de_OperationID e \<noteq> je_operation_id row \<or> de_Phase e \<noteq> je_phase row \<or>
                  validateDelegationEvent e \<noteq> Inr ()
               then Inl (Err ''Light delegation event binding'')
               else Inr (AList.update (je_operation_id row) (s \<lparr> ds_Events := AList.update (je_phase row) e (ds_Events s) \<rparr>) all)))"

definition loadSpendingDelegations :: "DB \<Rightarrow> bytes \<Rightarrow> delegation_map res" where
  "loadSpendingDelegations db key =
     andThen (foldRes (loadDelegationOp key) [] (db_light_delegation_operation db)) (\<lambda>all.
     andThen (validateDelegationSets all) (\<lambda>_.
     foldRes (loadDelegationEvent key) all (db_light_delegation_event db)))"

section \<open>The phase guard\<close>

definition VaultBoardRegisterCanSupersede :: "int \<Rightarrow> time \<Rightarrow> bool" where
  "VaultBoardRegisterCanSupersede expireAt now \<longleftrightarrow>
     (let nowUnix = unixSec now in expireAt > 0 \<and> nowUnix \<ge> 30 \<and> expireAt \<le> nowUnix - 30)"

definition predecessors :: "(string \<times> string) list" where
  "predecessors = [(''register_authorized'', ''claimed''), (''register_dispatched'', ''register_authorized''),
     (''register_result'', ''register_dispatched''), (''batch_started'', ''register_result''), (''tree_prepared'', ''batch_started''),
     (''nonces_committed'', ''tree_prepared''), (''tree_signed'', ''nonces_committed''), (''final_authorized'', ''tree_signed''),
     (''final_dispatched'', ''final_authorized''), (''final_result'', ''final_dispatched''), (''confirmed'', ''final_authorized''),
     (''cleanup_authorized'', ''cleanup_pending''), (''cleanup_dispatched'', ''cleanup_authorized''),
     (''cleanup_result'', ''cleanup_dispatched'')]"

definition requireDelegationPhase :: "delegation_events \<Rightarrow> string \<Rightarrow> unit res" where
  "requireDelegationPhase events phase = (if hasEv events phase then Inr () else Inl (Err ''Light delegation requires %s''))"

text \<open>The \<open>switch e.Phase\<close> of \<open>AdvanceSpendingDelegation\<close>, without the checks of \<open>claimed\<close> against the rest of
  the ledger, which \<open>claimChecks\<close> of \<open>Spend_Ledger\<close> holds.\<close>

definition delegationGuard :: "SpendingDelegationSnapshot \<Rightarrow> string \<Rightarrow> time \<Rightarrow> unit res" where
  "delegationGuard s phase now =
     (let events = ds_Events s; op = ds_Operation s in
      if phase = ''expired'' \<or> phase = ''cleanup_pending'' then
        (if hasEv events ''final_authorized'' then Inl (Err ''Light delegation final authorization cannot expire'')
         else if \<not> VaultBoardRegisterCanSupersede (sd_ExpiresAt op) now then Inl (Err ''Light delegation expiry quarantine'')
         else if phase = ''expired'' \<and> hasEv events ''register_dispatched'' \<and> \<not> hasEv events ''cleanup_result''
           then Inl (Err ''Light delegation Operator cleanup required'')
         else Inr ())
      else if phase = ''cancelled'' \<or> phase = ''invalidated'' \<or> phase = ''needs_authorization'' then
        (if events \<noteq> [] \<and> \<not> (phase = ''needs_authorization'' \<and> length events = 1 \<and> hasEv events ''claimed'')
         then Inl (Err ''Light delegation already owns inputs'') else Inr ())
      else if phase = ''claimed'' then
        (if events \<noteq> [] \<or> unixSec now < sd_ValidAt op \<or> unixSec now \<ge> sd_ExpiresAt op
         then Inl (Err ''Light delegation outside dispatch window'') else Inr ())
      else if phase = ''rejected'' then
        andThen (requireDelegationPhase events ''register_dispatched'') (\<lambda>_.
        if hasEv events ''register_result'' then Inl (Err ''registered delegation cannot be rejected'') else Inr ())
      else
        (if phase = ''final_authorized'' \<and> unixSec now \<ge> sd_ExpiresAt op
           then Inl (Err ''Light delegation final authorization expired'')
         else if validDelegationStreamPhase phase then
           (if length events \<ge> 2064 then Inl (Err ''Light delegation transcript capacity'')
            else let p = (if hasPrefix phase ''stream_signature_'' \<or> phase = ''stream_finalization'' then ''tree_signed''
                          else if hasPrefix phase ''stream_nonce_'' then ''tree_prepared'' else ''batch_started'')
                 in requireDelegationPhase events p)
         else case map_of predecessors phase of
           None \<Rightarrow> Inl (Err ''unknown delegation transition'')
         | Some p \<Rightarrow> requireDelegationPhase events p))"

definition delegationStep :: "SpendingDelegationSnapshot \<Rightarrow> SpendingDelegationEvent \<Rightarrow> bool res" where
  "delegationStep s e =
     (if delegationTerminal s \<and> de_Phase e \<noteq> delegationState s then Inl (Err ''Light delegation terminal'')
      else if hasEv (ds_Events s) ''cleanup_pending'' \<and> \<not> hasPrefix (de_Phase e) ''cleanup_'' \<and> de_Phase e \<noteq> ''expired''
        then Inl (Err ''Light delegation abandoned'')
      else case map_of (ds_Events s) (de_Phase e) of
        Some old \<Rightarrow> if e \<lparr> de_CreatedAt := de_CreatedAt old \<rparr> \<noteq> old then Inl (Err ''Light delegation phase already bound'') else Inr False
      | None \<Rightarrow> if delegationTerminal s then Inl (Err ''Light delegation terminal'') else Inr True)"

section \<open>Reachable journals\<close>

lemma streamPrefix_head: "streamPrefix ps phase \<Longrightarrow> \<exists>p\<in>set ps. hasPrefix phase p"
  by (induction ps) (auto split: if_splits)

lemma hasPrefix_take: "hasPrefix phase p \<Longrightarrow> n \<le> length p \<Longrightarrow> take n phase = take n p"
  by (metis hasPrefix_def min.absorb1 take_take)

lemma stream_phase_prefix:
  assumes "validDelegationStreamPhase phase"
  shows "take 7 phase = ''stream_''"
proof (cases "phase = ''stream_signing_started'' \<or> phase = ''stream_finalization''")
  case False
  with assms obtain p where "p \<in> set [''stream_tree_0_'', ''stream_tree_1_'', ''stream_nonce_'', ''stream_signature_'']" "hasPrefix phase p"
    unfolding validDelegationStreamPhase_def using streamPrefix_head by blast
  then show ?thesis by (auto dest!: hasPrefix_take [where n = 7])
qed auto

text \<open>Every step of the journal satisfies one of these guards; a stream phase is none of the named phases.\<close>

lemma delegationGuard_cases:
  assumes "delegationGuard \<lparr> ds_Operation = op, ds_Events = evs \<rparr> phase now = Inr ()"
  shows "(phase = ''expired'' \<and> \<not> hasEv evs ''final_authorized'' \<and> (hasEv evs ''register_dispatched'' \<longrightarrow> hasEv evs ''cleanup_result'')) \<or>
    (phase = ''cleanup_pending'' \<and> \<not> hasEv evs ''final_authorized'') \<or>
    (phase = ''cancelled'' \<and> evs = []) \<or> (phase = ''invalidated'' \<and> evs = []) \<or>
    (phase = ''needs_authorization'' \<and> (evs = [] \<or> length evs = 1 \<and> hasEv evs ''claimed'')) \<or>
    (phase = ''claimed'' \<and> evs = [] \<and> sd_ValidAt op \<le> unixSec now \<and> unixSec now < sd_ExpiresAt op) \<or>
    (phase = ''rejected'' \<and> hasEv evs ''register_dispatched'' \<and> \<not> hasEv evs ''register_result'') \<or>
    (take 7 phase = ''stream_'') \<or>
    (\<exists>p. (phase, p) \<in> set predecessors \<and> hasEv evs p)"
  using assms stream_phase_prefix [of phase]
  unfolding delegationGuard_def Let_def
  by (auto simp: andThen_Inr_iff requireDelegationPhase_def split: if_splits option.splits dest: map_of_SomeD)

inductive delegation_reach :: "SpendingDelegation \<Rightarrow> delegation_events \<Rightarrow> bool" for op where
  start: "delegation_reach op []"
| append: "delegation_reach op evs \<Longrightarrow> validateDelegationEvent e = Inr () \<Longrightarrow>
    delegationStep \<lparr> ds_Operation = op, ds_Events = evs \<rparr> e = Inr True \<Longrightarrow>
    delegationGuard \<lparr> ds_Operation = op, ds_Events = evs \<rparr> (de_Phase e) now = Inr () \<Longrightarrow>
    delegation_reach op (AList.update (de_Phase e) e evs)"

definition delegationInv :: "delegation_events \<Rightarrow> bool" where
  "delegationInv evs \<longleftrightarrow> (\<forall>(p, q)\<in>set predecessors. hasEv evs p \<longrightarrow> hasEv evs q) \<and>
     (hasEv evs ''final_authorized'' \<longrightarrow> \<not> hasEv evs ''cleanup_pending'' \<and> \<not> hasEv evs ''expired'' \<and> \<not> hasEv evs ''cancelled'' \<and>
        \<not> hasEv evs ''invalidated'' \<and> \<not> hasEv evs ''needs_authorization'' \<and> \<not> hasEv evs ''rejected'') \<and>
     (hasEv evs ''expired'' \<and> hasEv evs ''register_dispatched'' \<longrightarrow> hasEv evs ''cleanup_result'') \<and>
     length (filter (hasEv evs) terminalPhases) \<le> 1"

lemma delegationStep_TrueD:
  assumes "delegationStep \<lparr> ds_Operation = op, ds_Events = evs \<rparr> e = Inr True"
  shows "\<not> hasEv evs (de_Phase e) \<and> (\<forall>p\<in>set terminalPhases. \<not> hasEv evs p) \<and>
    (hasEv evs ''cleanup_pending'' \<longrightarrow> hasPrefix (de_Phase e) ''cleanup_'' \<or> de_Phase e = ''expired'')"
  using assms unfolding delegationStep_def
  by (auto simp: delegationTerminal_def list_ex_iff hasEv_def [symmetric] split: if_splits option.splits)
     (auto simp: hasEv_def)

lemma filter_eq_le_1: "distinct xs \<Longrightarrow> length (filter (\<lambda>q. q = a) xs) \<le> 1"
proof (induction xs)
  case (Cons x xs)
  then show ?case by (cases "x = a") (auto simp: filter_empty_conv)
qed simp

lemma predecessors_simps:
  "(\<forall>(p, q)\<in>set predecessors. P p q) \<longleftrightarrow>
     P ''register_authorized'' ''claimed'' \<and> P ''register_dispatched'' ''register_authorized'' \<and> P ''register_result'' ''register_dispatched'' \<and>
     P ''batch_started'' ''register_result'' \<and> P ''tree_prepared'' ''batch_started'' \<and> P ''nonces_committed'' ''tree_prepared'' \<and>
     P ''tree_signed'' ''nonces_committed'' \<and> P ''final_authorized'' ''tree_signed'' \<and> P ''final_dispatched'' ''final_authorized'' \<and>
     P ''final_result'' ''final_dispatched'' \<and> P ''confirmed'' ''final_authorized'' \<and> P ''cleanup_authorized'' ''cleanup_pending'' \<and>
     P ''cleanup_dispatched'' ''cleanup_authorized'' \<and> P ''cleanup_result'' ''cleanup_dispatched''"
  by (simp add: predecessors_def)

lemma predecessors_cases:
  assumes "\<exists>p. (phase, p) \<in> set predecessors \<and> hasEv evs p"
  shows "(phase, q) \<in> set predecessors \<Longrightarrow> hasEv evs q"
    and "phase \<notin> {''expired'', ''cleanup_pending'', ''cancelled'', ''invalidated'', ''needs_authorization'', ''rejected''}"
    and "phase = ''final_authorized'' \<Longrightarrow> \<not> hasPrefix phase ''cleanup_''"
proof -
  obtain p where p: "(phase, p) \<in> set predecessors" "hasEv evs p" using assms by blast
  have "distinct (map fst predecessors)" by (simp add: predecessors_def)
  then show "(phase, q) \<in> set predecessors \<Longrightarrow> hasEv evs q" using p by (metis Some_eq_map_of_iff option.inject)
  show "phase \<notin> {''expired'', ''cleanup_pending'', ''cancelled'', ''invalidated'', ''needs_authorization'', ''rejected''}"
    using p(1) by (auto simp: predecessors_def)
  show "phase = ''final_authorized'' \<Longrightarrow> \<not> hasPrefix phase ''cleanup_''" by (simp add: hasPrefix_def)
qed

text \<open>The last two phases before a step: nothing that ends or abandons the journal follows a final authorization.\<close>

lemma delegation_final_blocks:
  assumes inv: "delegationInv evs" and g: "delegationGuard \<lparr> ds_Operation = op, ds_Events = evs \<rparr> (de_Phase e) now = Inr ()"
    and that: "(de_Phase e) \<in> {''expired'', ''cleanup_pending'', ''cancelled'', ''invalidated'', ''needs_authorization'', ''rejected''}"
  shows "\<not> hasEv evs ''final_authorized''"
proof -
  note chain = inv [unfolded delegationInv_def predecessors_simps, THEN conjunct1]
  have one: "\<not> (length evs = 1 \<and> hasEv evs ''claimed'' \<and> hasEv evs ''final_authorized'')"
    by (cases evs) (auto simp: hasEv_def split: if_splits)
  have str: "take 7 (de_Phase e) \<noteq> ''stream_''" using that by auto
  have rr: "hasEv evs ''final_authorized'' \<Longrightarrow> hasEv evs ''register_result''" using chain by blast
  have np: "\<not> (\<exists>p. ((de_Phase e), p) \<in> set predecessors \<and> hasEv evs p)"
    using that predecessors_cases(2) [of "de_Phase e" evs] by blast
  have nc: "(de_Phase e) \<noteq> ''claimed''" using that by auto
  from delegationGuard_cases [OF g] str np nc
  have "\<not> hasEv evs ''final_authorized'' \<or> evs = [] \<or> length evs = 1 \<and> hasEv evs ''claimed'' \<or> \<not> hasEv evs ''register_result''"
    by blast
  with one rr show ?thesis by (metis hasEv_Nil)
qed

lemma delegation_predecessor_present:
  assumes g: "delegationGuard \<lparr> ds_Operation = op, ds_Events = evs \<rparr> (de_Phase e) now = Inr ()" and that: "((de_Phase e), q) \<in> set predecessors"
  shows "hasEv evs q"
proof -
  have "(de_Phase e) \<in> fst ` set predecessors" using that by force
  then have "take 7 (de_Phase e) \<noteq> ''stream_'' \<and> (de_Phase e) \<notin> {''expired'', ''cleanup_pending'', ''cancelled'', ''invalidated'',
      ''needs_authorization'', ''claimed'', ''rejected''}"
    by (auto simp: predecessors_def)
  with delegationGuard_cases [OF g] predecessors_cases(1) [OF _ that] show ?thesis by blast
qed

definition endsJournal :: "delegation_events \<Rightarrow> bool" where
  "endsJournal evs \<longleftrightarrow> hasEv evs ''cleanup_pending'' \<or> hasEv evs ''expired'' \<or> hasEv evs ''cancelled'' \<or> hasEv evs ''invalidated'' \<or>
     hasEv evs ''needs_authorization'' \<or> hasEv evs ''rejected''"

lemma delegationInv_step:
  assumes inv: "delegationInv evs" and st: "delegationStep \<lparr> ds_Operation = op, ds_Events = evs \<rparr> e = Inr True"
    and g: "delegationGuard \<lparr> ds_Operation = op, ds_Events = evs \<rparr> (de_Phase e) now = Inr ()"
  shows "delegationInv (AList.update (de_Phase e) e evs)"
proof -
  let ?evs = "AList.update (de_Phase e) e evs"
  note S = delegationStep_TrueD [OF st]
  have nt: "\<not> hasEv evs ''confirmed''" "\<not> hasEv evs ''invalidated''" "\<not> hasEv evs ''cancelled''" "\<not> hasEv evs ''expired''"
    "\<not> hasEv evs ''needs_authorization''" "\<not> hasEv evs ''rejected''" using S by (auto simp: terminalPhases_def)
  have cp: "hasEv evs ''cleanup_pending'' \<Longrightarrow> de_Phase e \<noteq> ''final_authorized''" using S by (auto simp: hasPrefix_def)
  have f: "filter (hasEv ?evs) terminalPhases = filter (\<lambda>q. q = de_Phase e) terminalPhases"
    using S by (intro filter_cong) auto
  have 4: "length (filter (hasEv ?evs) terminalPhases) \<le> 1"
    unfolding f by (rule filter_eq_le_1) (simp add: terminalPhases_def)
  have 1: "\<forall>(p, q)\<in>set predecessors. hasEv ?evs p \<longrightarrow> hasEv ?evs q"
    using inv delegation_predecessor_present [OF g] by (auto simp: delegationInv_def)
  have 2: "hasEv ?evs ''final_authorized'' \<longrightarrow> \<not> endsJournal ?evs"
  proof (cases "de_Phase e = ''final_authorized''")
    case True
    then show ?thesis using nt cp unfolding endsJournal_def hasEv_update True by auto
  next
    case False
    show ?thesis
    proof
      assume "hasEv ?evs ''final_authorized''"
      with False have h: "hasEv evs ''final_authorized''" unfolding hasEv_update by auto
      with delegation_final_blocks [OF inv g]
      have "de_Phase e \<notin> {''expired'', ''cleanup_pending'', ''cancelled'', ''invalidated'', ''needs_authorization'', ''rejected''}" by blast
      moreover from h inv have "\<not> hasEv evs ''cleanup_pending''" unfolding delegationInv_def by blast
      ultimately show "\<not> endsJournal ?evs" using nt unfolding endsJournal_def hasEv_update by auto
    qed
  qed
  have 3: "hasEv ?evs ''expired'' \<and> hasEv ?evs ''register_dispatched'' \<longrightarrow> hasEv ?evs ''cleanup_result''"
  proof -
    have "hasEv evs ''register_dispatched'' \<longrightarrow> hasEv evs ''cleanup_result''" if "de_Phase e = ''expired''"
      using delegationGuard_cases [OF g] that predecessors_cases(2) [of "de_Phase e" evs] by auto
    moreover have "\<not> (''expired'' = de_Phase e \<and> ''register_dispatched'' = de_Phase e)"
      by (cases "de_Phase e = ''expired''") auto
    ultimately show ?thesis using nt unfolding hasEv_update by metis
  qed
  from 1 2 3 4 show ?thesis unfolding delegationInv_def endsJournal_def by blast
qed

lemma delegation_reach_inv: "delegation_reach op evs \<Longrightarrow> delegationInv evs"
proof (induction rule: delegation_reach.induct)
  case start
  then show ?case by (simp add: delegationInv_def predecessors_simps terminalPhases_def)
next
  case (append evs e now)
  then show ?case using delegationInv_step by blast
qed

section \<open>Complete sets, checked\<close>

lemma checkSetMembers_Inr:
  assumes "checkSetMembers first seen ms = Inr seen'"
  shows "seen' = rev (map sd_SetIndex ms) @ seen \<and> (distinct seen \<longrightarrow> distinct seen') \<and>
    (\<forall>o1\<in>set ms. sd_VaultID o1 = sd_VaultID first \<and> sd_Program o1 = sd_Program first \<and> sd_DescriptorHash o1 = sd_DescriptorHash first \<and>
       sd_SetDigest o1 = sd_SetDigest first \<and> sd_SetSize o1 = sd_SetSize first)"
  using assms by (induction ms arbitrary: seen) (auto split: if_splits)

lemma checkDelegationSet_Inr:
  assumes "checkDelegationSet ms = Inr ()"
  shows "set (map sd_SetIndex ms) = {0..<sd_SetSize (hd ms)} \<and> distinct (map sd_SetIndex ms) \<and> int (length ms) = sd_SetSize (hd ms) \<and>
    sd_SetSize (hd ms) \<le> 50 \<and>
    (\<forall>o1\<in>set ms. sd_VaultID o1 = sd_VaultID (hd ms) \<and> sd_Program o1 = sd_Program (hd ms) \<and>
       sd_DescriptorHash o1 = sd_DescriptorHash (hd ms) \<and> sd_SetDigest o1 = sd_SetDigest (hd ms) \<and> sd_SetSize o1 = sd_SetSize (hd ms))"
proof -
  let ?n = "sd_SetSize (hd ms)"
  from assms obtain seen where n: "1 \<le> ?n" "?n \<le> 50" "int (length ms) = ?n" and c: "checkSetMembers (hd ms) [] ms = Inr seen"
    and cov: "list_all (\<lambda>i. int i \<in> set seen) [0..<nat ?n]"
    by (auto simp: checkDelegationSet_def Let_def andThen_Inr_iff split: if_splits)
  note D = checkSetMembers_Inr [OF c]
  then have seen: "set seen = set (map sd_SetIndex ms)" "distinct (map sd_SetIndex ms)" by auto
  have sub: "{0..<?n} \<subseteq> set (map sd_SetIndex ms)"
  proof
    fix x assume "x \<in> {0..<?n}"
    then have "nat x < nat ?n" "int (nat x) = x" by auto
    moreover from this(1) have "nat x \<in> set [0..<nat ?n]" by simp
    then have "int (nat x) \<in> set seen" using cov unfolding list_all_iff by blast
    ultimately show "x \<in> set (map sd_SetIndex ms)" using seen(1) by metis
  qed
  have "card (set (map sd_SetIndex ms)) = card {0..<?n}" using distinct_card [OF seen(2)] n by simp
  with sub have "{0..<?n} = set (map sd_SetIndex ms)" by (intro card_subset_eq) auto
  with D seen n show ?thesis by auto
qed

section \<open>Properties\<close>

text \<open>
  C15: a final authorization is final. In every reachable delegation journal that holds one, the delegation was claimed
  and went through registration, batch and tree signing in order, and it is neither abandoned to cleanup nor ended by
  expiry, cancellation, invalidation, re-authorization or rejection.
\<close>

theorem delegation_final_authorization_is_final:
  assumes "delegation_reach op evs" "hasEv evs ''final_authorized''"
  shows "list_all (hasEv evs) [''claimed'', ''register_authorized'', ''register_dispatched'', ''register_result'', ''batch_started'',
      ''tree_prepared'', ''nonces_committed'', ''tree_signed''] \<and>
    \<not> list_ex (hasEv evs) [''cleanup_pending'', ''expired'', ''cancelled'', ''invalidated'', ''needs_authorization'', ''rejected'']"
proof -
  note I = delegation_reach_inv [OF assms(1), unfolded delegationInv_def predecessors_simps]
  have "hasEv evs ''tree_signed''" "hasEv evs ''nonces_committed''" "hasEv evs ''tree_prepared''" "hasEv evs ''batch_started''"
    "hasEv evs ''register_result''" "hasEv evs ''register_dispatched''" "hasEv evs ''register_authorized''" "hasEv evs ''claimed''"
    using I [THEN conjunct1] assms(2) by blast+
  moreover have "\<not> endsJournal evs" using I [THEN conjunct2, THEN conjunct1] assms(2) unfolding endsJournal_def by blast
  ultimately show ?thesis by (simp add: endsJournal_def)
qed

text \<open>
  C18: a reachable delegation journal ends in at most one way, and a delegation whose registration reached the Operator
  expires only after the Operator's cleanup was confirmed and never after a final authorization.
\<close>

theorem delegation_expiry_after_cleanup:
  assumes "delegation_reach op evs"
  shows "length (filter (hasEv evs) terminalPhases) \<le> 1 \<and>
    (hasEv evs ''expired'' \<and> hasEv evs ''register_dispatched'' \<longrightarrow> hasEv evs ''cleanup_result'' \<and> \<not> hasEv evs ''final_authorized'')"
  using delegation_reach_inv [OF assms] unfolding delegationInv_def by blast

text \<open>
  A loaded set of delegations is complete. When the set check passes, the members that share a set id are as many
  as the size each of them names, their indices are exactly 0 to size minus one, and they agree on vault, program,
  descriptor, digest and size.
\<close>

theorem delegation_sets_complete:
  assumes "validateDelegationSets all = Inr ()" "o1 \<in> set (map (ds_Operation \<circ> snd) all)"
  shows "set (map sd_SetIndex (filter (\<lambda>o2. sd_SetID o2 = sd_SetID o1) (map (ds_Operation \<circ> snd) all))) = {0..<sd_SetSize o1} \<and>
    int (length (filter (\<lambda>o2. sd_SetID o2 = sd_SetID o1) (map (ds_Operation \<circ> snd) all))) = sd_SetSize o1 \<and>
    (\<forall>o2\<in>set (filter (\<lambda>o2. sd_SetID o2 = sd_SetID o1) (map (ds_Operation \<circ> snd) all)). sd_VaultID o2 = sd_VaultID o1 \<and>
       sd_Program o2 = sd_Program o1 \<and> sd_DescriptorHash o2 = sd_DescriptorHash o1 \<and> sd_SetDigest o2 = sd_SetDigest o1)"
proof -
  let ?ms = "filter (\<lambda>o2. sd_SetID o2 = sd_SetID o1) (map (ds_Operation \<circ> snd) all)"
  have "checkDelegationSet ?ms = Inr ()"
    using assms unfolding validateDelegationSets_def Let_def forEach_ok_iff by auto
  note D = checkDelegationSet_Inr [OF this]
  have "o1 \<in> set ?ms" using assms(2) by simp
  with D have e: "sd_SetSize (hd ?ms) = sd_SetSize o1" "sd_VaultID (hd ?ms) = sd_VaultID o1" "sd_Program (hd ?ms) = sd_Program o1"
      "sd_DescriptorHash (hd ?ms) = sd_DescriptorHash o1" "sd_SetDigest (hd ?ms) = sd_SetDigest o1" by metis+
  from D show ?thesis unfolding e by blast
qed

section \<open>A concrete journal\<close>

definition sampleDelegation :: SpendingDelegation where
  "sampleDelegation = \<lparr> sd_OperationID = hexEncode (replicate 16 1), sd_VaultID = ''v'', sd_InputTxid = sampleDigest 5, sd_InputVout = 0,
     sd_ValidAt = 0, sd_ExpiresAt = 100, sd_FeeSats = 10, sd_PlanDigest = sampleDigest 6, sd_Plan = ''{}'', sd_CreatedAt = formatRFC3339 0,
     sd_Program = ''vault-policy-v1'', sd_DescriptorHash = sampleDigest 7, sd_SetID = hexEncode (replicate 16 2),
     sd_SetDigest = sampleDigest 8, sd_SetSize = 1, sd_SetIndex = 0 \<rparr>"

definition sampleDelegationEvent :: "string \<Rightarrow> SpendingDelegationEvent" where
  "sampleDelegationEvent phase = \<lparr> de_OperationID = hexEncode (replicate 16 1), de_Phase = phase, de_Evidence = ''{}'',
     de_CreatedAt = formatRFC3339 0 \<rparr>"

definition delegationJournal :: "nat \<Rightarrow> delegation_events" where
  "delegationJournal n = map (\<lambda>p. (p, sampleDelegationEvent p)) (take n delegationPhases)"

lemma hasEv_delegationJournal: "hasEv (delegationJournal n) p \<longleftrightarrow> p \<in> set (take n delegationPhases)"
  by (auto simp: hasEv_def delegationJournal_def map_of_map_restrict restrict_map_def)

lemma named_phase_not_stream: "p \<in> set delegationPhases \<Longrightarrow> \<not> validDelegationStreamPhase p"
  using stream_phase_prefix [of p] by (auto simp: delegationPhases_def)

lemma delegationGuard_default:
  assumes "(phase, q) \<in> set predecessors" "\<not> validDelegationStreamPhase phase" "unixSec now < sd_ExpiresAt (ds_Operation s)"
  shows "delegationGuard s phase now = requireDelegationPhase (ds_Events s) q"
proof -
  have m: "map_of predecessors phase = Some q" using assms(1) by (intro map_of_is_SomeI) (simp_all add: predecessors_def)
  have "phase \<in> fst ` set predecessors" using assms(1) by force
  then have "phase \<noteq> ''expired'' \<and> phase \<noteq> ''cleanup_pending'' \<and> phase \<noteq> ''cancelled'' \<and> phase \<noteq> ''invalidated'' \<and>
      phase \<noteq> ''needs_authorization'' \<and> phase \<noteq> ''claimed'' \<and> phase \<noteq> ''rejected''"
    by (auto simp: predecessors_def)
  with m assms(2,3) show ?thesis by (simp add: delegationGuard_def Let_def)
qed

lemma delegationJournal_step:
  assumes "n < 9"
  shows "delegationStep \<lparr> ds_Operation = sampleDelegation, ds_Events = delegationJournal n \<rparr> (sampleDelegationEvent (delegationPhases ! n)) = Inr True"
    and "delegationGuard \<lparr> ds_Operation = sampleDelegation, ds_Events = delegationJournal n \<rparr> (delegationPhases ! n) 0 = Inr ()"
proof -
  have n: "n \<in> {0, 1, 2, 3, 4, 5, 6, 7, 8}" using assms by auto
  have new: "map_of (delegationJournal n) (delegationPhases ! n) = None"
    using n hasEv_delegationJournal [of n "delegationPhases ! n"] by (auto simp: hasEv_def delegationPhases_def)
  have nt: "\<not> delegationTerminal \<lparr> ds_Operation = sampleDelegation, ds_Events = delegationJournal n \<rparr>"
    "\<not> hasEv (delegationJournal n) ''cleanup_pending''"
    using n by (auto simp: delegationTerminal_def terminalPhases_def hasEv_delegationJournal delegationPhases_def)
  show "delegationStep \<lparr> ds_Operation = sampleDelegation, ds_Events = delegationJournal n \<rparr> (sampleDelegationEvent (delegationPhases ! n)) = Inr True"
    unfolding delegationStep_def using new nt by (simp add: sampleDelegationEvent_def)
  have st: "\<not> validDelegationStreamPhase (delegationPhases ! n)"
    by (rule named_phase_not_stream) (use n in \<open>auto simp: delegationPhases_def\<close>)
  show "delegationGuard \<lparr> ds_Operation = sampleDelegation, ds_Events = delegationJournal n \<rparr> (delegationPhases ! n) 0 = Inr ()"
  proof (cases n)
    case 0
    then show ?thesis
      by (simp add: delegationGuard_def Let_def delegationPhases_def delegationJournal_def sampleDelegation_def unixSec_def)
  next
    case (Suc m)
    then have m: "m \<in> {0, 1, 2, 3, 4, 5, 6, 7}" using assms by auto
    have "(delegationPhases ! Suc m, delegationPhases ! m) \<in> set predecessors"
      using m by (elim insertE emptyE) (simp_all add: delegationPhases_def predecessors_def)
    then have "(delegationPhases ! n, delegationPhases ! m) \<in> set predecessors" using Suc by simp
    from delegationGuard_default [OF this st] have "delegationGuard \<lparr> ds_Operation = sampleDelegation, ds_Events = delegationJournal n \<rparr> (delegationPhases ! n) 0
        = requireDelegationPhase (delegationJournal n) (delegationPhases ! m)"
      by (simp add: sampleDelegation_def unixSec_def)
    moreover have "delegationPhases ! m \<in> set (take n delegationPhases)"
    proof -
      have "length delegationPhases = 21" by (simp add: delegationPhases_def)
      with Suc assms have "m < length (take n delegationPhases)" "take n delegationPhases ! m = delegationPhases ! m" by simp_all
      then show ?thesis by (metis nth_mem)
    qed
    ultimately show ?thesis by (simp add: requireDelegationPhase_def hasEv_delegationJournal)
  qed
qed

lemma delegationJournal_reach: "n \<le> 9 \<Longrightarrow> delegation_reach sampleDelegation (delegationJournal n)"
proof (induction n)
  case 0
  then show ?case by (simp add: delegationJournal_def delegation_reach.start)
next
  case (Suc n)
  let ?e = "sampleDelegationEvent (delegationPhases ! n)"
  have ph: "de_Phase ?e = delegationPhases ! n" by (simp add: sampleDelegationEvent_def)
  have len: "length delegationPhases = 21" by (simp add: delegationPhases_def)
  have v: "validateDelegationEvent ?e = Inr ()"
  proof -
    have "jsonValid ''{}''" by code_simp
    moreover have "parseRFC3339 (formatRFC3339 0) \<noteq> None" using parse_formatRFC3339 [OF sample_times(1)] by simp
    moreover have "delegationPhases ! n \<in> set delegationPhases" using Suc.prems len by simp
    ultimately show ?thesis by (simp add: validateDelegationEvent_def sampleDelegationEvent_def)
  qed
  have n9: "n < 9" using Suc.prems by simp
  note st = delegationJournal_step [OF n9]
  have upd: "AList.update k v evs = evs @ [(k, v)]" if "\<not> hasEv evs k" for k v and evs :: delegation_events
    using that by (induction evs) (auto simp: hasEv_def split: if_splits)
  have new: "\<not> hasEv (delegationJournal n) (delegationPhases ! n)"
    using delegationStep_TrueD [OF st(1)] ph by simp
  have "delegation_reach sampleDelegation (AList.update (de_Phase ?e) ?e (delegationJournal n))"
    by (rule delegation_reach.append [OF _ v st(1)]) (use Suc st(2) ph in simp_all)
  moreover have "delegationJournal (Suc n) = delegationJournal n @ [(delegationPhases ! n, ?e)]"
    using n9 len by (simp add: delegationJournal_def take_Suc_conv_app_nth)
  ultimately show ?case using upd [OF new] ph by simp
qed

theorem delegation_final_authorization_is_final_witness:
  "delegation_reach sampleDelegation (delegationJournal 9) \<and> hasEv (delegationJournal 9) ''final_authorized'' \<and>
   \<not> list_ex (hasEv (delegationJournal 9)) [''cleanup_pending'', ''expired'', ''cancelled'', ''invalidated'', ''needs_authorization'', ''rejected'']"
proof -
  have h: "hasEv (delegationJournal 9) ''final_authorized''" by (simp add: hasEv_delegationJournal delegationPhases_def)
  from delegation_final_authorization_is_final [OF delegationJournal_reach [of 9] h] h delegationJournal_reach [of 9]
  show ?thesis by blast
qed

theorem delegation_expiry_after_cleanup_witness:
  "delegation_reach sampleDelegation (delegationJournal 5) \<and> length (filter (hasEv (delegationJournal 5)) terminalPhases) \<le> 1"
  using delegation_expiry_after_cleanup [OF delegationJournal_reach [of 5]] delegationJournal_reach [of 5] by simp

theorem delegation_sets_complete_witness:
  "validateDelegationSets [(''a'', \<lparr> ds_Operation = sampleDelegation, ds_Events = [] \<rparr>)] = Inr () \<and>
   set (map sd_SetIndex (filter (\<lambda>o2. sd_SetID o2 = sd_SetID sampleDelegation) [sampleDelegation])) = {0..<1}"
proof -
  let ?all = "[(''a'', \<lparr> ds_Operation = sampleDelegation, ds_Events = [] \<rparr>)]"
  have v: "validateDelegationSets ?all = Inr ()"
    by (simp add: validateDelegationSets_def checkDelegationSet_def sampleDelegation_def)
  have "sd_SetSize sampleDelegation = 1" by (simp add: sampleDelegation_def)
  with delegation_sets_complete [OF v, of sampleDelegation] v show ?thesis by simp
qed

end
