(* ===== verification/Spend_Ledger.thy ===== *)
theory Spend_Ledger
  imports Delegation
begin

text \<open>
  The operations of the authenticated spend ledger: the rolling allowance and the VTXO spend operations
  (\<open>vtxo_ledger.go\<close>, \<open>ledger.go\<close>). The operations that write the renewal and delegation journals are in \<open>Journal_Ledger\<close>.

  \<open>Env\<close> is what one call meets outside the ledger: the clock before the lock and under it, whether COMMIT
  succeeds, and how the write of the sequence file ends, for the early observation of the delegation calls
  (\<open>env_write0\<close>) and for the one before the commit (\<open>env_write\<close>).
\<close>

record Env =
  env_pre :: time
  env_now :: time
  env_commit :: bool
  env_write0 :: write_result
  env_write :: write_result

section \<open>Rows\<close>

definition opsOf :: "string \<Rightarrow> DB \<Rightarrow> VtxoOperation list" where
  "opsOf vault db = filter (\<lambda>r. op_VaultID r = vault) (db_vtxo_operation db)"

definition verifyOp :: "bytes \<Rightarrow> VtxoOperation \<Rightarrow> unit res" where
  "verifyOp key r = wrapErr ''vtxo operation integrity'' (VerifyVtxoOperation r key)"

definition verifyInput :: "bytes \<Rightarrow> VtxoOperationInput \<Rightarrow> unit res" where
  "verifyInput key i = wrapErr ''vtxo operation input integrity'' (VerifyVtxoOperationInput i key)"

text \<open>\<open>ORDER BY txid, vout, operation_id\<close>.\<close>

definition inputLess :: "VtxoOperationInput \<Rightarrow> VtxoOperationInput \<Rightarrow> bool" where
  "inputLess a b \<longleftrightarrow>
     (let ta = map unat (vi_Txid a); tb = map unat (vi_Txid b) in
      ta < tb \<or> ta = tb \<and> (vi_Vout a < vi_Vout b \<or> vi_Vout a = vi_Vout b \<and> vi_OperationID a < vi_OperationID b))"

definition loadVtxoOperation :: "string \<Rightarrow> Ledger \<Rightarrow> VtxoOperation res" where
  "loadVtxoOperation operationID l =
     andThen (integrityKeyCopy l) (\<lambda>key.
     case lookupBy (\<lambda>r. op_OperationID r = operationID) (db_vtxo_operation (lg_db l)) of
       None \<Rightarrow> Inl ErrNoRows
     | Some r \<Rightarrow> andThen (verifyOp key r) (\<lambda>_. Inr r))"

definition loadVtxoOperationInputs :: "string \<Rightarrow> Ledger \<Rightarrow> VtxoOperationInput list res" where
  "loadVtxoOperationInputs operationID l =
     andThen (integrityKeyCopy l) (\<lambda>key.
     let rows = sliceStable inputLess (filter (\<lambda>i. vi_OperationID i = operationID) (db_vtxo_operation_input (lg_db l)))
     in andThen (forEach (verifyInput key) rows) (\<lambda>_. Inr rows))"

definition GetVtxoOperation :: "string \<Rightarrow> Ledger \<Rightarrow> VtxoOperation res" where
  "GetVtxoOperation operationID l =
     (if operationID = [] then Inl (Err ''vtxo operation id required'') else loadVtxoOperation operationID l)"

definition GetVtxoOperationInputs :: "string \<Rightarrow> Ledger \<Rightarrow> VtxoOperationInput list res" where
  "GetVtxoOperationInputs operationID l =
     (if operationID = [] then Inl (Err ''vtxo operation id required'') else loadVtxoOperationInputs operationID l)"

definition ListVtxoOperations :: "string \<Rightarrow> Ledger \<Rightarrow> VtxoOperation list res" where
  "ListVtxoOperations vaultID l =
     (if vaultID = [] then Inl (Err ''vault id required'')
      else andThen (integrityKeyCopy l) (\<lambda>key.
        andThen (forEach (verifyOp key) (opsOf vaultID (lg_db l))) (\<lambda>_. Inr (opsOf vaultID (lg_db l)))))"

section \<open>The rolling allowance\<close>

definition spentStep :: "time \<Rightarrow> bytes \<Rightarrow> int \<Rightarrow> VtxoOperation \<Rightarrow> int res" where
  "spentStep now key tot r =
     andThen (verifyOp key r) (\<lambda>_.
     if \<not> vtxoStateCountsTowardAllowance (op_State r) then Inr tot
     else case parseRFC3339 (op_CreatedAt r) of
       None \<Rightarrow> Inl (Wrap ''vtxo operation created_at'' (Err ''parsing time''))
     | Some created \<Rightarrow>
         if \<not> vtxoStateAwaitingSettlement (op_State r) \<and> timeAfter now (created + allowanceWindow) then Inr tot
         else andThen (addOutflow (op_AmountSats r) (op_FeeSats r)) (\<lambda>need.
           if tot > maxInt64 - need then Inl (Err ''period spent overflow'') else Inr (i64 (tot + need))))"

definition renewalCharge :: "string \<Rightarrow> time \<Rightarrow> int \<Rightarrow> SpendingRenewalSnapshot \<Rightarrow> int res" where
  "renewalCharge vault now tot s =
     (let fee = ro_FeeSats (rs_Operation s); amount = ro_AmountSats (rs_Operation s) in
      if ro_VaultID (rs_Operation s) \<noteq> vault then Inr tot
      else if renewalTerminal s \<and>
        (case map_of (rs_Events s) ''confirmed'' of
           None \<Rightarrow> True
         | Some c \<Rightarrow> timeAfter now (parseOrZero (re_CreatedAt c) + allowanceWindow)) then Inr tot
      else if tot > i64 (i64 (maxInt64 - fee) - amount) then Inl (Err ''Light renewal allowance overflow'')
      else Inr (i64 (tot + i64 (fee + amount))))"

definition spendingRenewalAllowance :: "time \<Rightarrow> DB \<Rightarrow> string \<Rightarrow> bytes \<Rightarrow> int res" where
  "spendingRenewalAllowance now db vault key =
     andThen (loadSpendingRenewals db key) (\<lambda>all. foldRes (renewalCharge vault now) 0 (map snd all))"

definition delegationCharge :: "string \<Rightarrow> time \<Rightarrow> int \<Rightarrow> SpendingDelegationSnapshot \<Rightarrow> int res" where
  "delegationCharge vault now tot s =
     (let fee = sd_FeeSats (ds_Operation s) in
      if sd_VaultID (ds_Operation s) \<noteq> vault \<or> ds_Events s = [] then Inr tot
      else if delegationTerminal s \<and>
        (case map_of (ds_Events s) ''confirmed'' of
           None \<Rightarrow> True
         | Some c \<Rightarrow> timeAfter now (parseOrZero (de_CreatedAt c) + allowanceWindow)) then Inr tot
      else if tot > i64 (maxInt64 - fee) then Inl (Err ''delegation allowance overflow'')
      else Inr (i64 (tot + fee)))"

definition delegationAllowance :: "time \<Rightarrow> DB \<Rightarrow> string \<Rightarrow> bytes \<Rightarrow> int res" where
  "delegationAllowance now db vault key =
     andThen (loadSpendingDelegations db key) (\<lambda>all. foldRes (delegationCharge vault now) 0 (map snd all))"

definition spentInWindow :: "time \<Rightarrow> string \<Rightarrow> Ledger \<Rightarrow> int res" where
  "spentInWindow now vaultID l =
     andThen (integrityKeyCopy l) (\<lambda>key.
     andThen (foldRes (spentStep now key) 0 (opsOf vaultID (lg_db l))) (\<lambda>tot.
     andThen (spendingRenewalAllowance now (lg_db l) vaultID key) (\<lambda>renewal.
     andThen (addOutflow tot renewal) (\<lambda>tot.
     andThen (delegationAllowance now (lg_db l) vaultID key) (\<lambda>delegation.
     addOutflow tot delegation)))))"

definition SpentInPeriod :: "time \<Rightarrow> string \<Rightarrow> Ledger \<Rightarrow> int res" where
  "SpentInPeriod now vaultID l =
     (if vaultID = [] then Inl (Err ''vault id required'') else spentInWindow now vaultID l)"

section \<open>Fences\<close>

definition rejectConcurrentVtxoOperationLocked :: "string \<Rightarrow> string \<Rightarrow> Ledger \<Rightarrow> unit res" where
  "rejectConcurrentVtxoOperationLocked vaultID operationID l =
     andThen (integrityKeyCopy l) (\<lambda>key.
     andThen (forEach (verifyOp key) (opsOf vaultID (lg_db l))) (\<lambda>_.
     if list_ex (\<lambda>r. op_OperationID r \<noteq> operationID \<and> vtxoStateBlocksNewOperation (op_State r)) (opsOf vaultID (lg_db l))
     then Inl ErrVtxoOperationActive else Inr ()))"

definition rejectActiveSpendingRenewal :: "string \<Rightarrow> Ledger \<Rightarrow> unit res" where
  "rejectActiveSpendingRenewal vault l =
     andThen (integrityKeyCopy l) (\<lambda>key.
     andThen (loadSpendingRenewals (lg_db l) key) (\<lambda>all.
     if list_ex (\<lambda>s. ro_VaultID (rs_Operation s) = vault \<and> \<not> renewalTerminal s) (map snd all)
     then Inl ErrVtxoOperationActive else Inr ()))"

definition rejectDispatchedDelegation :: "string \<Rightarrow> Ledger \<Rightarrow> unit res" where
  "rejectDispatchedDelegation vault l =
     andThen (integrityKeyCopy l) (\<lambda>key.
     andThen (loadSpendingDelegations (lg_db l) key) (\<lambda>all.
     if list_ex (\<lambda>s. sd_VaultID (ds_Operation s) = vault \<and> ds_Events s \<noteq> [] \<and> \<not> delegationTerminal s) (map snd all)
     then Inl ErrVtxoOperationActive else Inr ()))"

definition rejectOverlappingVtxoInputs :: "string \<Rightarrow> VtxoOperationInput list \<Rightarrow> Ledger \<Rightarrow> unit res" where
  "rejectOverlappingVtxoInputs operationID inputs l =
     (if inputs = [] \<or> length inputs > MaxVtxoOperationInputs then Inl (Err ''vtxo overlap input count must be 1..%d'')
      else andThen (integrityKeyCopy l) (\<lambda>key.
        let outpoints = map (\<lambda>i. (vi_Txid i, vi_Vout i)) inputs;
            hits = sliceStable inputLess (filter (\<lambda>i. (vi_Txid i, vi_Vout i) \<in> set outpoints) (db_vtxo_operation_input (lg_db l)));
            joined = concat (map (\<lambda>i. map (\<lambda>r. (r, i)) (filter (\<lambda>r. op_OperationID r = vi_OperationID i) (db_vtxo_operation (lg_db l)))) hits)
        in andThen (forEach (\<lambda>(r, i).
             andThen (verifyOp key r) (\<lambda>_.
             andThen (verifyInput key i) (\<lambda>_.
             if vi_OperationID i \<noteq> op_OperationID r then Inl (Err ''vtxo operation input parent mismatch'') else Inr ()))) joined) (\<lambda>_.
           forEach (\<lambda>(r, i).
             if op_OperationID r = operationID then Inr ()
             else if vtxoStateLocksInputs (op_State r) then Inl (Err ''vtxo outpoint already reserved'') else Inr ()) joined)))"

section \<open>Writes\<close>

definition updateOps :: "(VtxoOperation \<Rightarrow> bool) \<Rightarrow> (VtxoOperation \<Rightarrow> VtxoOperation) \<Rightarrow> DB \<Rightarrow> DB" where
  "updateOps p f db = db \<lparr> db_vtxo_operation := map (\<lambda>r. if p r then f r else r) (db_vtxo_operation db) \<rparr>"

definition isExpiredCandidate :: "time \<Rightarrow> string \<Rightarrow> VtxoOperation \<Rightarrow> bool" where
  "isExpiredCandidate now vaultID r \<longleftrightarrow> op_VaultID r = vaultID \<and> op_State r = vtxoStateReserved \<and> op_ExpiresAt r \<noteq> [] \<and>
     op_ExpiresAt r \<le> formatRFC3339 now"

text \<open>The candidates are verified in turn; those past their expiry are collected.\<close>

definition collectExpired :: "time \<Rightarrow> bytes \<Rightarrow> VtxoOperation list \<Rightarrow> VtxoOperation \<Rightarrow> VtxoOperation list res" where
  "collectExpired now key acc r =
     andThen (verifyOp key r) (\<lambda>_.
     case parseRFC3339 (op_ExpiresAt r) of
       None \<Rightarrow> Inl (Err ''vtxo reservation expiry'')
     | Some exp \<Rightarrow> Inr (if timeBefore now exp then acc else acc @ [r]))"

definition abortOne :: "bytes \<Rightarrow> DB \<Rightarrow> VtxoOperation \<Rightarrow> DB res" where
  "abortOne key db r =
     andThen (SealVtxoOperation (r \<lparr> op_State := vtxoStateAborted \<rparr>) key) (\<lambda>s.
     Inr (updateOps (\<lambda>x. op_OperationID x = op_OperationID s \<and> op_State x = vtxoStateReserved)
       (\<lambda>x. x \<lparr> op_State := op_State s, op_IntegrityMAC := op_IntegrityMAC s \<rparr>) db))"

definition abortExpiredVtxoLocked :: "time \<Rightarrow> string \<Rightarrow> Ledger \<Rightarrow> DB res" where
  "abortExpiredVtxoLocked now vaultID l =
     andThen (integrityKeyCopy l) (\<lambda>key.
     andThen (foldRes (collectExpired now key) [] (filter (isExpiredCandidate now vaultID) (db_vtxo_operation (lg_db l)))) (\<lambda>expired.
     foldRes (abortOne key) (lg_db l) expired))"

text \<open>The CHECK constraints of \<open>vtxo_operation\<close> and \<open>vtxo_operation_input\<close>.\<close>

definition vtxoOperationChecks :: "VtxoOperation \<Rightarrow> bool" where
  "vtxoOperationChecks r \<longleftrightarrow> op_Purpose r = vtxoPurposeSpend \<and> length (op_BundleDigest r) = 32 \<and> requireVtxoState (op_State r) = Inr () \<and>
     op_AmountSats r \<ge> 0 \<and> op_FeeSats r \<ge> 0 \<and> length (op_FeePolicyDigest r) = 32 \<and> op_ChangeSats r \<ge> 0 \<and>
     (op_PendingProofDigest r = [] \<or> length (op_PendingProofDigest r) = 32) \<and> length (op_IntegrityMAC r) = 32 \<and>
     (op_ChangeSats r = 0 \<and> op_ChangeVout r = None \<and> op_ChangeScript r = [] \<or>
      op_ChangeSats r \<ge> 330 \<and> op_ChangeVout r = Some 1 \<and> op_ChangeScript r \<noteq> []) \<and>
     (op_PendingProofDigest r = [] \<and> op_AuthorizedPendingProof r = [] \<or>
      length (op_PendingProofDigest r) = 32 \<and> op_AuthorizedPendingProof r \<noteq> [])"

definition vtxoInputChecks :: "VtxoOperationInput \<Rightarrow> bool" where
  "vtxoInputChecks i \<longleftrightarrow> length (vi_Txid i) = 32 \<and> vi_Vout i \<ge> 0 \<and> vi_ValueSats i \<ge> 0 \<and> length (vi_IntegrityMAC i) = 32"

definition insertVtxoOperation :: "VtxoOperation \<Rightarrow> DB \<Rightarrow> DB res" where
  "insertVtxoOperation r db =
     (if op_OperationID r \<in> set (map op_OperationID (db_vtxo_operation db)) then Inl (ErrConstraint ''UNIQUE vtxo_operation.operation_id'')
      else if \<not> vaultExists (op_VaultID r) db then Inl (ErrConstraint ''FOREIGN KEY vtxo_operation.vault_id'')
      else if \<not> vtxoOperationChecks r then Inl (ErrConstraint ''CHECK vtxo_operation'')
      else Inr (db \<lparr> db_vtxo_operation := db_vtxo_operation db @ [r] \<rparr>))"

definition inputKey :: "VtxoOperationInput \<Rightarrow> string \<times> bytes \<times> int" where
  "inputKey i = (vi_OperationID i, vi_Txid i, vi_Vout i)"

definition insertVtxoInput :: "VtxoOperationInput \<Rightarrow> DB \<Rightarrow> DB res" where
  "insertVtxoInput i db =
     (if inputKey i \<in> set (map inputKey (db_vtxo_operation_input db)) then Inl (ErrConstraint ''UNIQUE vtxo_operation_input'')
      else if vi_OperationID i \<notin> set (map op_OperationID (db_vtxo_operation db)) then Inl (ErrConstraint ''FOREIGN KEY vtxo_operation_input'')
      else if \<not> vtxoInputChecks i then Inl (ErrConstraint ''CHECK vtxo_operation_input'')
      else Inr (db \<lparr> db_vtxo_operation_input := db_vtxo_operation_input db @ [i] \<rparr>))"

definition sealAndInsertInput :: "string \<Rightarrow> bytes \<Rightarrow> DB \<Rightarrow> VtxoOperationInput \<Rightarrow> DB res" where
  "sealAndInsertInput operationID key db i =
     andThen (SealVtxoOperationInput (i \<lparr> vi_OperationID := operationID \<rparr>) key) (\<lambda>s. insertVtxoInput s db)"

definition insertDelegationEvent :: "bytes \<Rightarrow> SpendingDelegationEvent \<Rightarrow> DB \<Rightarrow> DB res" where
  "insertDelegationEvent key e db =
     andThen (validateDelegationEvent e) (\<lambda>_.
     let payload = marshalDelegationEvent e in
     if (de_OperationID e, de_Phase e) \<in> set (map (\<lambda>r. (je_operation_id r, je_phase r)) (db_light_delegation_event db))
       then Inl (ErrConstraint ''UNIQUE light_delegation_event'')
     else if de_OperationID e \<notin> set (map jo_operation_id (db_light_delegation_operation db))
       then Inl (ErrConstraint ''FOREIGN KEY light_delegation_event.operation_id'')
     else if sqlLength payload = 0 \<or> sqlLength payload > 8000000 then Inl (ErrConstraint ''CHECK light_delegation_event.payload'')
     else Inr (db \<lparr> db_light_delegation_event := db_light_delegation_event db @
       [\<lparr> je_operation_id = de_OperationID e, je_phase = de_Phase e, je_payload = payload,
          je_integrity_mac = renewalMAC key ''vaulted-light/delegation-event/v1'' payload \<rparr>] \<rparr>))"

definition spendsDelegation :: "SpendingDelegation \<Rightarrow> VtxoOperationInput \<Rightarrow> bool" where
  "spendsDelegation o1 i \<longleftrightarrow> hexEncode (vi_Txid i) = sd_InputTxid o1 \<and> vi_Vout i \<ge> 0 \<and> word_of_int (vi_Vout i) = sd_InputVout o1"

definition invalidateStep :: "time \<Rightarrow> bytes \<Rightarrow> string \<Rightarrow> VtxoOperationInput list \<Rightarrow> DB \<Rightarrow> SpendingDelegationSnapshot \<Rightarrow> DB res" where
  "invalidateStep now key vault inputs db s =
     (if sd_VaultID (ds_Operation s) \<noteq> vault \<or> delegationTerminal s then Inr db
      else if ds_Events s \<noteq> [] then Inl ErrVtxoOperationActive
      else if list_ex (spendsDelegation (ds_Operation s)) inputs
        then insertDelegationEvent key
          \<lparr> de_OperationID = sd_OperationID (ds_Operation s), de_Phase = ''invalidated'',
            de_Evidence = ''{'' @ [CHR 34] @ ''reason'' @ [CHR 34] @ '':'' @ [CHR 34] @ ''payment reservation'' @ [CHR 34] @ ''}'',
            de_CreatedAt = formatRFC3339 now \<rparr> db
      else Inr db)"

definition invalidateArmedDelegations :: "time \<Rightarrow> string \<Rightarrow> VtxoOperationInput list \<Rightarrow> Ledger \<Rightarrow> DB res" where
  "invalidateArmedDelegations now vault inputs l =
     andThen (integrityKeyCopy l) (\<lambda>key.
     andThen (loadSpendingDelegations (lg_db l) key) (\<lambda>all.
     foldRes (invalidateStep now key vault inputs) (lg_db l) (map snd all)))"

section \<open>VTXO operations\<close>

text \<open>The transaction of \<open>ReserveVtxoOperation\<close> after its entry checks.\<close>

definition reserveBody :: "time \<Rightarrow> write_result \<Rightarrow> VtxoOperation \<Rightarrow> VtxoOperationInput list \<Rightarrow> int \<Rightarrow> unit act" where
  "reserveBody now w r inputs remainingCap =
     actBind (actDB (abortExpiredVtxoLocked now (op_VaultID r))) (\<lambda>_.
     actBind (actRead (rejectOverlappingVtxoInputs (op_OperationID r) inputs)) (\<lambda>_.
     actBind (actRead (rejectConcurrentVtxoOperationLocked (op_VaultID r) (op_OperationID r))) (\<lambda>_.
     actBind (actRead (rejectActiveSpendingRenewal (op_VaultID r))) (\<lambda>_.
     actBind (actDB (invalidateArmedDelegations now (op_VaultID r) inputs)) (\<lambda>_.
     actBind (actRead (spentInWindow now (op_VaultID r))) (\<lambda>usedAmt.
     actBind (actRead (\<lambda>_. addOutflow (op_AmountSats r) (op_FeeSats r))) (\<lambda>need.
     actBind (actRead (\<lambda>_. if usedAmt > remainingCap then Inl ErrPeriodAllowanceExceeded
                           else if need > remainingCap - usedAmt then Inl ErrPeriodAllowanceExceeded else Inr ())) (\<lambda>_.
     actBind (actRead integrityKeyCopy) (\<lambda>key.
     actBind (actRead (\<lambda>_. SealVtxoOperation r key)) (\<lambda>sealed.
     actBind (actDB (\<lambda>l. insertVtxoOperation sealed (lg_db l))) (\<lambda>_.
     actBind (actDB (\<lambda>l. foldRes (sealAndInsertInput (op_OperationID r) key) (lg_db l) inputs)) (\<lambda>_.
     (\<lambda>l. case observeEconomicOutflowsLocked w l of (res, l') \<Rightarrow> (wrapErr ''policy sequence'' res, l'))))))))))))))"

definition ReserveVtxoOperation :: "Env \<Rightarrow> VtxoOperation \<Rightarrow> VtxoOperationInput list \<Rightarrow> int \<Rightarrow> unit act" where
  "ReserveVtxoOperation env r inputs remainingCap l =
     (if op_OperationID r = [] \<or> op_VaultID r = [] then (Inl (Err ''vtxo operation identity required''), l)
      else if op_State r \<noteq> vtxoStateReserved then (Inl (Err ''reserve requires reserved state''), l)
      else if remainingCap < 0 then (Inl (Err ''negative allowance''), l)
      else if inputs = [] \<or> length inputs > MaxVtxoOperationInputs
        then (Inl (Err ''vtxo reservation input count must be 1..%d''), l)
      else inTx (env_commit env) (reserveBody (env_now env) (env_write env) r inputs remainingCap) l)"

definition validVtxoTransition :: "string \<Rightarrow> string \<Rightarrow> bool" where
  "validVtxoTransition from to \<longleftrightarrow>
     (if from = vtxoStateReserved then to = vtxoStateSigned \<or> to = vtxoStateAborted
      else if from = vtxoStateSigned then to = vtxoStateSubmitted
      else if from = vtxoStateSubmitted then to = vtxoStateFinalized \<or> to = vtxoStateUnresolved
      else False)"

definition updateMatches :: "string \<Rightarrow> VtxoOperation \<Rightarrow> VtxoOperation \<Rightarrow> bool" where
  "updateMatches expectedState r x \<longleftrightarrow> op_OperationID x = op_OperationID r \<and> op_VaultID x = op_VaultID r \<and> op_State x = expectedState"

text \<open>\<open>updateVtxoOperation\<close> writes every column of the matching row but its two ids, and reports the rows affected.\<close>

definition updateVtxoOperation :: "string \<Rightarrow> VtxoOperation \<Rightarrow> DB \<Rightarrow> (nat \<times> DB) res" where
  "updateVtxoOperation expectedState r db =
     (let n = length (filter (updateMatches expectedState r) (db_vtxo_operation db)) in
      if n > 0 \<and> \<not> vtxoOperationChecks r then Inl (ErrConstraint ''CHECK vtxo_operation'')
      else Inr (n, updateOps (updateMatches expectedState r) (\<lambda>_. r) db))"

definition TransitionVtxoOperation :: "string \<Rightarrow> VtxoOperation \<Rightarrow> (VtxoOperation \<times> bool) act" where
  "TransitionVtxoOperation expectedState r l =
     (if op_OperationID r = [] \<or> op_VaultID r = [] then (Inl (Err ''vtxo operation identity required''), l)
      else if \<not> validVtxoTransition expectedState (op_State r) then (Inl (Err ''invalid vtxo state transition %s -> %s''), l)
      else case andThen (integrityKeyCopy l) (\<lambda>key. SealVtxoOperation r key) of
        Inl e \<Rightarrow> (Inl e, l)
      | Inr s \<Rightarrow>
          (case updateVtxoOperation expectedState s (lg_db l) of
             Inl e \<Rightarrow> (Inl e, l)
           | Inr (n, db) \<Rightarrow>
               if n = 1 then (Inr (s, True), l \<lparr> lg_db := db \<rparr>)
               else let l' = l \<lparr> lg_db := db \<rparr> in
                 (andThen (loadVtxoOperation (op_OperationID s) l') (\<lambda>current. Inr (current, False)), l')))"

definition commitSignedBody :: "time \<Rightarrow> VtxoOperation \<Rightarrow> bytes \<Rightarrow> u32 \<Rightarrow> (VtxoOperation \<times> bool) act" where
  "commitSignedBody now s credentialID signCount l =
     (case updateVtxoOperation vtxoStateReserved s (lg_db l) of
        Inl e \<Rightarrow> (Inl e, l)
      | Inr (n, db) \<Rightarrow>
          let l' = l \<lparr> lg_db := db \<rparr> in
          if n \<noteq> 1 then
            (andThen (loadVtxoOperation (op_OperationID s) l') (\<lambda>current.
             andThen (if op_State current = vtxoStateSigned
                      then verifySignCountReplayLocked (op_VaultID s) credentialID signCount l' else Inr ()) (\<lambda>_.
             Inr (current, False))), l')
          else actBind (advanceSignCountLocked now (op_VaultID s) credentialID signCount) (\<lambda>_. actPure (s, True)) l')"

text \<open>The call returns without a COMMIT when no row was updated; the transaction has changed nothing then.\<close>

definition CommitSignedVtxoOperation :: "Env \<Rightarrow> VtxoOperation \<Rightarrow> bytes \<Rightarrow> u32 \<Rightarrow> (VtxoOperation \<times> bool) act" where
  "CommitSignedVtxoOperation env r credentialID signCount l =
     (if op_OperationID r = [] \<or> op_VaultID r = [] \<or> credentialID = [] \<or> op_State r \<noteq> vtxoStateSigned
        then (Inl (Err ''signed vtxo operation identity required''), l)
      else case andThen (integrityKeyCopy l) (\<lambda>key. SealVtxoOperation r key) of
        Inl e \<Rightarrow> (Inl e, l)
      | Inr s \<Rightarrow>
          (case commitSignedBody (env_now env) s credentialID signCount l of
             (Inl e, l') \<Rightarrow> (Inl e, l)
           | (Inr (current, swapped), l') \<Rightarrow>
               if \<not> swapped then (Inr (current, False), l)
               else if env_commit env then (Inr (current, True), l')
               else (Inl (Err ''commit''), l)))"

definition VerifySignedVtxoReplay :: "string \<Rightarrow> string \<Rightarrow> bytes \<Rightarrow> u32 \<Rightarrow> Ledger \<Rightarrow> unit res" where
  "VerifySignedVtxoReplay operationID vaultID credentialID signCount l =
     (if operationID = [] \<or> vaultID = [] \<or> credentialID = [] then Inl (Err ''signed vtxo replay identity required'')
      else if length (lg_integrityKey l) \<noteq> 32 then Inl (Err ''sign count ledger required'')
      else andThen (loadVtxoOperation operationID l) (\<lambda>r.
        if op_VaultID r \<noteq> vaultID \<or> op_State r \<noteq> vtxoStateSigned then Inl (Err ''signed vtxo replay state mismatch'')
        else verifySignCountReplayLocked vaultID credentialID signCount l))"

section \<open>What a reservation reads and writes\<close>

lemma wrapped_Inr_iff: "(case m of (res, l') \<Rightarrow> (wrapErr p res, l')) = (Inr x, l'') \<longleftrightarrow> m = (Inr x, l'')"
  by (cases m) simp

lemma reserveBody_InrD:
  assumes "reserveBody now w r inputs cap l = (Inr (), l')"
  shows "\<exists>d1 d2 used need s d3 d4.
    abortExpiredVtxoLocked now (op_VaultID r) l = Inr d1 \<and>
    rejectOverlappingVtxoInputs (op_OperationID r) inputs (l \<lparr> lg_db := d1 \<rparr>) = Inr () \<and>
    rejectConcurrentVtxoOperationLocked (op_VaultID r) (op_OperationID r) (l \<lparr> lg_db := d1 \<rparr>) = Inr () \<and>
    rejectActiveSpendingRenewal (op_VaultID r) (l \<lparr> lg_db := d1 \<rparr>) = Inr () \<and>
    invalidateArmedDelegations now (op_VaultID r) inputs (l \<lparr> lg_db := d1 \<rparr>) = Inr d2 \<and>
    spentInWindow now (op_VaultID r) (l \<lparr> lg_db := d2 \<rparr>) = Inr used \<and>
    addOutflow (op_AmountSats r) (op_FeeSats r) = Inr need \<and> used \<le> cap \<and> need \<le> cap - used \<and>
    length (lg_integrityKey l) = 32 \<and> SealVtxoOperation r (lg_integrityKey l) = Inr s \<and>
    insertVtxoOperation s d2 = Inr d3 \<and>
    foldRes (sealAndInsertInput (op_OperationID r) (lg_integrityKey l)) d3 inputs = Inr d4 \<and>
    observeEconomicOutflowsLocked w (l \<lparr> lg_db := d4 \<rparr>) = (Inr (), l')"
  using assms unfolding reserveBody_def
  by (auto simp: act_iffs wrapped_Inr_iff integrityKeyCopy_Inr_iff not_less split: if_splits)

lemma opsOf_simps [simp]:
  "opsOf v (db \<lparr> db_vtxo_operation_input := x \<rparr>) = opsOf v db"
  "opsOf v (db \<lparr> db_light_delegation_event := e \<rparr>) = opsOf v db"
  "opsOf v (db \<lparr> db_vtxo_operation := ops \<rparr>) = filter (\<lambda>r. op_VaultID r = v) ops"
  by (simp_all add: opsOf_def)

lemma foldRes_preserves:
  assumes "foldRes f s xs = Inr s'" "P s" "\<And>s x s'. x \<in> set xs \<Longrightarrow> P s \<Longrightarrow> f s x = Inr s' \<Longrightarrow> P s'"
  shows "P s'"
  using assms by (induction xs arbitrary: s) (auto simp: andThen_Inr_iff)

text \<open>What the writes leave alone.\<close>

lemma insertDelegationEvent_InrD:
  assumes "insertDelegationEvent key e db = Inr db'"
  shows "\<exists>row. je_operation_id row = de_OperationID e \<and> je_phase row = de_Phase e \<and> je_payload row = marshalDelegationEvent e \<and>
    db' = db \<lparr> db_light_delegation_event := db_light_delegation_event db @ [row] \<rparr>"
  using assms unfolding insertDelegationEvent_def Let_def andThen_Inr_iff
  by (auto split: if_splits intro!: exI)

lemma invalidateStep_InrD:
  assumes "invalidateStep now key v inputs db s = Inr db'"
  shows "\<exists>rows. (\<forall>row\<in>set rows. je_phase row = ''invalidated'') \<and>
    db' = db \<lparr> db_light_delegation_event := db_light_delegation_event db @ rows \<rparr>"
proof (cases "db' = db")
  case True
  then show ?thesis by (intro exI [of _ "[]"]) simp
next
  case False
  with assms obtain e where "insertDelegationEvent key e db = Inr db'" "de_Phase e = ''invalidated''"
    by (auto simp: invalidateStep_def split: if_splits)
  from insertDelegationEvent_InrD [OF this(1)] this(2) obtain row where
    "je_phase row = ''invalidated''" "db' = db \<lparr> db_light_delegation_event := db_light_delegation_event db @ [row] \<rparr>" by auto
  then show ?thesis by (intro exI [of _ "[row]"]) simp
qed

lemma invalidate_InrD:
  assumes "invalidateArmedDelegations now v inputs l = Inr db"
  shows "\<exists>rows. (\<forall>row\<in>set rows. je_phase row = ''invalidated'') \<and>
    db = lg_db l \<lparr> db_light_delegation_event := db_light_delegation_event (lg_db l) @ rows \<rparr>"
proof -
  from assms obtain key xs where "foldRes (invalidateStep now key v inputs) (lg_db l) xs = Inr db"
    unfolding invalidateArmedDelegations_def andThen_Inr_iff by blast
  then show ?thesis
  proof (rule foldRes_preserves [where P = "\<lambda>d. \<exists>rows. (\<forall>row\<in>set rows. je_phase row = ''invalidated'') \<and>
    d = lg_db l \<lparr> db_light_delegation_event := db_light_delegation_event (lg_db l) @ rows \<rparr>"], goal_cases)
    case 1
    show ?case by (intro exI [of _ "[]"]) simp
  next
    case (2 s x s')
    then obtain r1 r2 where "\<forall>row\<in>set r1. je_phase row = ''invalidated''" "\<forall>row\<in>set r2. je_phase row = ''invalidated''"
      "s = lg_db l \<lparr> db_light_delegation_event := db_light_delegation_event (lg_db l) @ r1 \<rparr>"
      "s' = s \<lparr> db_light_delegation_event := db_light_delegation_event s @ r2 \<rparr>"
      using invalidateStep_InrD [of now key v inputs s x s'] by blast
    then show ?case by (intro exI [of _ "r1 @ r2"]) auto
  qed
qed

lemma sealAndInsertInput_InrD:
  assumes "sealAndInsertInput oid key db i = Inr db'"
  shows "\<exists>s. SealVtxoOperationInput (i \<lparr> vi_OperationID := oid \<rparr>) key = Inr s \<and> vtxoInputChecks s \<and>
    inputKey s \<notin> set (map inputKey (db_vtxo_operation_input db)) \<and> vi_OperationID s \<in> set (map op_OperationID (db_vtxo_operation db)) \<and>
    db' = db \<lparr> db_vtxo_operation_input := db_vtxo_operation_input db @ [s] \<rparr>"
  using assms unfolding sealAndInsertInput_def insertVtxoInput_def andThen_Inr_iff by (auto split: if_splits)

lemma SealVtxoOperationInput_InrD:
  "SealVtxoOperationInput i key = Inr s \<Longrightarrow> vi_OperationID s = vi_OperationID i \<and> vi_Txid s = vi_Txid i \<and> vi_Vout s = vi_Vout i \<and>
     VerifyVtxoOperationInput s key = Inr ()"
  by (auto dest: in_row.verify_seal) (auto simp: in_row.seal_iff)

lemma SealVtxoOperation_InrD:
  assumes "SealVtxoOperation r key = Inr s"
  shows "s = r \<lparr> op_IntegrityMAC := op_IntegrityMAC s \<rparr>" "VerifyVtxoOperation s key = Inr ()"
  using assms op_row.verify_seal [OF assms] by (auto simp: op_row.seal_iff)

text \<open>The rows a reservation adds: one per input, in order, under the operation's id.\<close>

definition inputOf :: "string \<Rightarrow> bytes \<Rightarrow> VtxoOperationInput \<Rightarrow> VtxoOperationInput \<Rightarrow> bool" where
  "inputOf oid key i s \<longleftrightarrow> vi_OperationID s = oid \<and> vi_Txid s = vi_Txid i \<and> vi_Vout s = vi_Vout i \<and> VerifyVtxoOperationInput s key = Inr ()"

lemma insertInputs_InrD:
  assumes "foldRes (sealAndInsertInput oid key) db inputs = Inr db'"
  shows "\<exists>rows. list_all2 (inputOf oid key) inputs rows \<and>
    (inputs \<noteq> [] \<longrightarrow> oid \<in> set (map op_OperationID (db_vtxo_operation db))) \<and>
    db' = db \<lparr> db_vtxo_operation_input := db_vtxo_operation_input db @ rows \<rparr>"
  using assms
proof (induction inputs arbitrary: db)
  case Nil
  then show ?case by (intro exI [of _ "[]"]) simp
next
  case (Cons i rest)
  then obtain d where d: "sealAndInsertInput oid key db i = Inr d" "foldRes (sealAndInsertInput oid key) d rest = Inr db'"
    by (auto simp: andThen_Inr_iff)
  from sealAndInsertInput_InrD [OF d(1)] obtain s where s: "SealVtxoOperationInput (i \<lparr> vi_OperationID := oid \<rparr>) key = Inr s"
    "vi_OperationID s \<in> set (map op_OperationID (db_vtxo_operation db))"
    "d = db \<lparr> db_vtxo_operation_input := db_vtxo_operation_input db @ [s] \<rparr>" by blast
  from Cons.IH [OF d(2)] obtain rows where rows: "list_all2 (inputOf oid key) rest rows"
    "db' = d \<lparr> db_vtxo_operation_input := db_vtxo_operation_input d @ rows \<rparr>" by blast
  have "inputOf oid key i s" "oid \<in> set (map op_OperationID (db_vtxo_operation db))"
    using SealVtxoOperationInput_InrD [OF s(1)] s(2) by (auto simp: inputOf_def)
  with rows s(3) show ?case by (intro exI [of _ "s # rows"]) simp
qed

lemma insertVtxoOperation_InrD:
  "insertVtxoOperation r db = Inr db' \<Longrightarrow> db' = db \<lparr> db_vtxo_operation := db_vtxo_operation db @ [r] \<rparr> \<and>
     op_OperationID r \<notin> set (map op_OperationID (db_vtxo_operation db)) \<and> vaultExists (op_VaultID r) db \<and> vtxoOperationChecks r"
  by (auto simp: insertVtxoOperation_def split: if_splits)

section \<open>The allowance\<close>

lemma in_i64_0: "in_i64 0"
  by (simp add: in_i64_def)

lemma checked_add:
  assumes "0 \<le> tot" "0 \<le> need" "\<not> tot > maxInt64 - need"
  shows "i64 (tot + need) = tot + need"
  using assms by (intro i64_id) (simp add: in_i64_def maxInt64_def)

lemma spentStep_bounds:
  assumes "spentStep now key tot r = Inr tot'" "op_typed r" "0 \<le> tot"  "tot \<le> maxInt64"
  shows "tot \<le> tot' \<and> tot' \<le> maxInt64"
proof -
  have n: "0 \<le> need" if "addOutflow (op_AmountSats r) (op_FeeSats r) = Inr need" for need
    using that assms(2) by (auto simp: addOutflow_Inr_iff op_typed_def)
  have c: "tot \<le> i64 (tot + need) \<and> i64 (tot + need) \<le> maxInt64"
    if "\<not> tot > maxInt64 - need" "addOutflow (op_AmountSats r) (op_FeeSats r) = Inr need" for need
    using checked_add [OF assms(3) n [OF that(2)] that(1)] n [OF that(2)] that(1) by simp
  show ?thesis using assms(1,3,4) c
    by (auto simp: spentStep_def andThen_Inr_iff split: if_splits option.splits)
qed

lemma spent_bounds:
  assumes "foldRes (spentStep now key) tot rs = Inr tot'" "\<forall>r\<in>set rs. op_typed r" "0 \<le> tot" "tot \<le> maxInt64"
  shows "0 \<le> tot' \<and> tot' \<le> maxInt64"
  by (rule foldRes_preserves [where P = "\<lambda>t. 0 \<le> t \<and> t \<le> maxInt64", OF assms(1)])
     (use assms(2-4) in \<open>auto dest: spentStep_bounds intro: order_trans\<close>)

lemma renewalCharge_in_i64: "renewalCharge v now tot s = Inr tot' \<Longrightarrow> in_i64 tot \<Longrightarrow> in_i64 tot'"
  by (auto simp: renewalCharge_def Let_def in_i64_i64 split: if_splits)

lemma delegationCharge_in_i64: "delegationCharge v now tot s = Inr tot' \<Longrightarrow> in_i64 tot \<Longrightarrow> in_i64 tot'"
  by (auto simp: delegationCharge_def Let_def in_i64_i64 split: if_splits)

lemma renewalAllowance_in_i64: "spendingRenewalAllowance now db v key = Inr x \<Longrightarrow> in_i64 x"
  unfolding spendingRenewalAllowance_def andThen_Inr_iff
  using foldRes_preserves [where P = in_i64] renewalCharge_in_i64 by (metis in_i64_0)

lemma delegationAllowance_in_i64: "delegationAllowance now db v key = Inr x \<Longrightarrow> in_i64 x"
  unfolding delegationAllowance_def andThen_Inr_iff
  using foldRes_preserves [where P = in_i64] delegationCharge_in_i64 by (metis in_i64_0)

lemma spentInWindow_Inr_iff:
  assumes "\<forall>r\<in>set (opsOf v (lg_db l)). op_typed r"
  shows "spentInWindow now v l = Inr used \<longleftrightarrow> length (lg_integrityKey l) = 32 \<and>
    (\<exists>tot a b. foldRes (spentStep now (lg_integrityKey l)) 0 (opsOf v (lg_db l)) = Inr tot \<and>
       spendingRenewalAllowance now (lg_db l) v (lg_integrityKey l) = Inr a \<and>
       delegationAllowance now (lg_db l) v (lg_integrityKey l) = Inr b \<and>
       0 \<le> a \<and> 0 \<le> b \<and> used = tot + a + b \<and> used \<le> maxInt64)"
proof -
  have "in_i64 tot \<and> 0 \<le> tot" if "foldRes (spentStep now (lg_integrityKey l)) 0 (opsOf v (lg_db l)) = Inr tot" for tot
    using spent_bounds [OF that assms] by (auto simp: in_i64_def maxInt64_def)
  moreover have "in_i64 (tot + a)" if "0 \<le> tot" "0 \<le> a" "tot + a \<le> maxInt64" for tot a
    using that by (simp add: in_i64_def maxInt64_def)
  ultimately show ?thesis
    unfolding spentInWindow_def andThen_Inr_iff integrityKeyCopy_Inr_iff
    using renewalAllowance_in_i64 delegationAllowance_in_i64 addOutflow_Inr_iff
    by (smt (verit))
qed

end
