(* ===== verification/Spend_Facts.thy ===== *)
theory Spend_Facts
  imports Spend_Ledger
begin

text \<open>
  What the VTXO spend operations guarantee: the allowance after a reservation, transitions as compare-and-swap, and
  the signing commit that moves the operation and the authenticator counter together.
\<close>

section \<open>The allowance after a reservation\<close>

lemma abortOne_typed:
  assumes "abortOne key db r = Inr db'" "\<forall>x\<in>set (db_vtxo_operation db). op_typed x"
  shows "\<forall>x\<in>set (db_vtxo_operation db'). op_typed x"
  using assms by (auto simp: abortOne_def andThen_Inr_iff updateOps_def op_typed_def)

lemma abortExpired_typed:
  assumes "abortExpiredVtxoLocked now v l = Inr db" "\<forall>x\<in>set (db_vtxo_operation (lg_db l)). op_typed x"
  shows "\<forall>x\<in>set (db_vtxo_operation db). op_typed x"
proof -
  from assms(1) obtain key expired where "foldRes (abortOne key) (lg_db l) expired = Inr db"
    unfolding abortExpiredVtxoLocked_def andThen_Inr_iff by blast
  then show ?thesis
    by (rule foldRes_preserves [where P = "\<lambda>d. \<forall>x\<in>set (db_vtxo_operation d). op_typed x"])
       (use assms(2) abortOne_typed in auto)
qed

lemma allowance_reads:
  "spendingRenewalAllowance now (db \<lparr> db_vtxo_operation := ops \<rparr>) v key = spendingRenewalAllowance now db v key"
  "spendingRenewalAllowance now (db \<lparr> db_vtxo_operation_input := ins \<rparr>) v key = spendingRenewalAllowance now db v key"
  "delegationAllowance now (db \<lparr> db_vtxo_operation := ops \<rparr>) v key = delegationAllowance now db v key"
  "delegationAllowance now (db \<lparr> db_vtxo_operation_input := ins \<rparr>) v key = delegationAllowance now db v key"
  by (simp_all add: spendingRenewalAllowance_def delegationAllowance_def loadSpendingRenewals_def loadSpendingDelegations_def)

text \<open>What a reserved row of the vault adds to what is spent: its outflow while its creation time is in the window and nothing after it.\<close>

lemma spentInWindow_insert:
  assumes used: "spentInWindow now v l = Inr used"
    and typed: "\<forall>x\<in>set (opsOf v (lg_db l)). op_typed x" "op_typed r"
    and row: "op_VaultID r = v" "VerifyVtxoOperation r (lg_integrityKey l) = Inr ()" "op_State r = vtxoStateReserved"
    and need: "addOutflow (op_AmountSats r) (op_FeeSats r) = Inr need" "used + need \<le> maxInt64"
    and l': "lg_integrityKey l' = lg_integrityKey l"
      "lg_db l' = lg_db l \<lparr> db_vtxo_operation := db_vtxo_operation (lg_db l) @ [r], db_vtxo_operation_input := ins \<rparr>"
  shows "spentInWindow now v l' =
    (case parseRFC3339 (op_CreatedAt r) of
       None \<Rightarrow> Inl (Wrap ''vtxo operation created_at'' (Err ''parsing time''))
     | Some created \<Rightarrow> Inr (if timeAfter now (created + allowanceWindow) then used else used + need))"
proof -
  have o: "opsOf v (lg_db l') = opsOf v (lg_db l) @ [r]" using row(1) by (simp add: l' opsOf_def)
  then have typed': "\<forall>x\<in>set (opsOf v (lg_db l')). op_typed x" using typed by simp
  from used [unfolded spentInWindow_Inr_iff [OF typed(1)]] obtain tot a b where
    t: "foldRes (spentStep now (lg_integrityKey l)) 0 (opsOf v (lg_db l)) = Inr tot"
      "spendingRenewalAllowance now (lg_db l) v (lg_integrityKey l) = Inr a"
      "delegationAllowance now (lg_db l) v (lg_integrityKey l) = Inr b"
      "length (lg_integrityKey l) = 32" "0 \<le> a" "0 \<le> b" "used = tot + a + b" "used \<le> maxInt64" by blast
  have n: "0 \<le> need" using need(1) typed(2) by (auto simp: addOutflow_Inr_iff op_typed_def)
  have tot: "0 \<le> tot" using spent_bounds [OF t(1) typed(1)] by (simp add: maxInt64_def)
  have ov: "\<not> tot > maxInt64 - need" using need(2) t(5-7) by simp
  have live: "vtxoStateCountsTowardAllowance (op_State r)" "\<not> vtxoStateAwaitingSettlement (op_State r)"
    using row(3) by (simp_all add: vtxoStateCountsTowardAllowance_def vtxoStateAwaitingSettlement_def vtxo_states)
  have f: "foldRes (spentStep now (lg_integrityKey l)) 0 (opsOf v (lg_db l')) = spentStep now (lg_integrityKey l) tot r"
    using t(1) by (simp add: o foldRes_append andThen_def split: sum.split)
  show ?thesis
  proof (cases "parseRFC3339 (op_CreatedAt r)")
    case None
    then have "spentStep now (lg_integrityKey l) tot r = Inl (Wrap ''vtxo operation created_at'' (Err ''parsing time''))"
      using row(2) live(1) by (simp add: spentStep_def verifyOp_def)
    with None f t(4) show ?thesis by (simp add: spentInWindow_def integrityKeyCopy_def l'(1))
  next
    case (Some created)
    let ?n = "if timeAfter now (created + allowanceWindow) then 0 else need"
    have "spentStep now (lg_integrityKey l) tot r = Inr (tot + ?n)"
      using row(2) live Some need(1) ov checked_add [OF tot n ov] by (simp add: spentStep_def verifyOp_def)
    then have "spentInWindow now v l' = Inr (used + ?n)"
      unfolding spentInWindow_Inr_iff [OF typed'] using f t need(2) by (simp add: l' allowance_reads)
    with Some show ?thesis by simp
  qed
qed

text \<open>
  C2: a successful reservation respects the rolling allowance. What was spent before, recomputed from the authenticated rows, and
  the amount and fee of the new operation are together at most the cap the caller gave. Afterwards the recomputed total has the new
  operation in full as long as its creation time lies in the window. The creation time is the caller's and is not checked: an operation
  created before the window began is not counted at all, and one whose creation time is no time makes every later recomputation fail.
  Amounts and fees are 64-bit integers, in the stored rows as in the request.
\<close>

theorem reserve_within_allowance:
  assumes "ReserveVtxoOperation env r inputs cap l = (Inr (), l')"
    and "\<forall>x\<in>set (db_vtxo_operation (lg_db l)). op_typed x" "op_typed r" "in_i64 cap"
  shows "\<exists>used. 0 \<le> used \<and> used + (op_AmountSats r + op_FeeSats r) \<le> cap \<and>
    spentInWindow (env_now env) (op_VaultID r) l' =
      (case parseRFC3339 (op_CreatedAt r) of
         None \<Rightarrow> Inl (Wrap ''vtxo operation created_at'' (Err ''parsing time''))
       | Some created \<Rightarrow>
           Inr (if timeAfter (env_now env) (created + allowanceWindow) then used else used + (op_AmountSats r + op_FeeSats r)))"
proof -
  have res: "op_State r = vtxoStateReserved" and body: "reserveBody (env_now env) (env_write env) r inputs cap l = (Inr (), l')"
    using assms(1) by (auto simp: ReserveVtxoOperation_def inTx_Inr_iff split: if_splits)
  from reserveBody_InrD [OF body] obtain d1 d2 used need s d3 d4 where
    d1: "abortExpiredVtxoLocked (env_now env) (op_VaultID r) l = Inr d1" and
    d2: "invalidateArmedDelegations (env_now env) (op_VaultID r) inputs (l \<lparr> lg_db := d1 \<rparr>) = Inr d2" and
    u: "spentInWindow (env_now env) (op_VaultID r) (l \<lparr> lg_db := d2 \<rparr>) = Inr used"
      "addOutflow (op_AmountSats r) (op_FeeSats r) = Inr need" "used \<le> cap" "need \<le> cap - used" and
    s: "SealVtxoOperation r (lg_integrityKey l) = Inr s" and
    d3: "insertVtxoOperation s d2 = Inr d3" and
    d4: "foldRes (sealAndInsertInput (op_OperationID r) (lg_integrityKey l)) d3 inputs = Inr d4" and
    ob: "observeEconomicOutflowsLocked (env_write env) (l \<lparr> lg_db := d4 \<rparr>) = (Inr (), l')" by blast
  have typed: "\<forall>x\<in>set (db_vtxo_operation d2). op_typed x"
    using abortExpired_typed [OF d1 assms(2)] invalidate_InrD [OF d2] by auto
  have sr: "s = r \<lparr> op_IntegrityMAC := op_IntegrityMAC s \<rparr>" "VerifyVtxoOperation s (lg_integrityKey l) = Inr ()"
    using SealVtxoOperation_InrD [OF s] by blast+
  have f: "op_VaultID s = op_VaultID r" "op_State s = op_State r" "op_CreatedAt s = op_CreatedAt r"
    "op_AmountSats s = op_AmountSats r" "op_FeeSats s = op_FeeSats r" "op_typed s"
    by (subst sr(1), simp)+ (subst sr(1), use assms(3) in \<open>simp add: op_typed_def\<close>)
  obtain rows where d4': "d4 = d3 \<lparr> db_vtxo_operation_input := db_vtxo_operation_input d3 @ rows \<rparr>"
    using insertInputs_InrD [OF d4] by blast
  have l': "lg_integrityKey l' = lg_integrityKey l" "lg_db l' = d4" using observe_frame [OF ob] by simp_all
  have need: "need = op_AmountSats r + op_FeeSats r" using u(2) assms(3) by (auto simp: addOutflow_Inr_iff op_typed_def)
  have "spentInWindow (env_now env) (op_VaultID r) l' =
    (case parseRFC3339 (op_CreatedAt s) of
       None \<Rightarrow> Inl (Wrap ''vtxo operation created_at'' (Err ''parsing time''))
     | Some created \<Rightarrow> Inr (if timeAfter (env_now env) (created + allowanceWindow) then used else used + need))"
  proof (rule spentInWindow_insert [where l = "l \<lparr> lg_db := d2 \<rparr>"])
    show "used + need \<le> maxInt64" using u(4) assms(4) by (simp add: in_i64_def maxInt64_def)
    show "lg_db l' = lg_db (l \<lparr> lg_db := d2 \<rparr>) \<lparr> db_vtxo_operation := db_vtxo_operation (lg_db (l \<lparr> lg_db := d2 \<rparr>)) @ [s],
        db_vtxo_operation_input := db_vtxo_operation_input d3 @ rows \<rparr>"
      using insertVtxoOperation_InrD [OF d3] by (simp add: l' d4')
  qed (use u(1,2) typed f sr(2) res l'(1) in \<open>auto simp: opsOf_def\<close>)
  moreover have "0 \<le> used"
    using u(1) typed spent_bounds [of "env_now env" "lg_integrityKey l" 0 "opsOf (op_VaultID r) d2"]
    by (subst (asm) spentInWindow_Inr_iff) (auto simp: opsOf_def maxInt64_def)
  ultimately show ?thesis using u(4) unfolding need f(3) by (intro exI [of _ used]) simp
qed

text \<open>A ledger whose operation tables and journals are empty, as initialisation leaves it.\<close>

definition freshLedger :: "Ledger \<Rightarrow> bool" where
  "freshLedger l \<longleftrightarrow> length (lg_integrityKey l) = 32 \<and> db_vtxo_operation (lg_db l) = [] \<and> db_vtxo_operation_input (lg_db l) = [] \<and>
     db_light_renewal_operation (lg_db l) = [] \<and> db_light_renewal_event (lg_db l) = [] \<and>
     db_light_delegation_operation (lg_db l) = [] \<and> db_light_delegation_event (lg_db l) = []"

lemma fresh_reads:
  assumes "freshLedger l"
  shows "integrityKeyCopy l = Inr (lg_integrityKey l)" "opsOf v (lg_db l) = []"
    "loadSpendingRenewals (lg_db l) key = Inr []" "loadSpendingDelegations (lg_db l) key = Inr []"
  using assms by (simp_all add: freshLedger_def integrityKeyCopy_def opsOf_def loadSpendingRenewals_def loadSpendingDelegations_def
    validateDelegationSets_def Let_def)

lemma fresh_fences:
  assumes "freshLedger l" "inputs \<noteq> []" "length inputs \<le> MaxVtxoOperationInputs"
  shows "abortExpiredVtxoLocked now v l = Inr (lg_db l)" "rejectOverlappingVtxoInputs oid inputs l = Inr ()"
    "rejectConcurrentVtxoOperationLocked v oid l = Inr ()" "rejectActiveSpendingRenewal v l = Inr ()"
    "invalidateArmedDelegations now v inputs l = Inr (lg_db l)" "spentInWindow now v l = Inr 0" "rejectDispatchedDelegation v l = Inr ()"
  using assms(2,3) fresh_reads [OF assms(1)] assms(1) [unfolded freshLedger_def]
  by (simp_all add: abortExpiredVtxoLocked_def rejectOverlappingVtxoInputs_def rejectConcurrentVtxoOperationLocked_def
    rejectActiveSpendingRenewal_def invalidateArmedDelegations_def spentInWindow_def spendingRenewalAllowance_def
    delegationAllowance_def rejectDispatchedDelegation_def addOutflow_def i64_id in_i64_0 Let_def)

lemma reserve_fresh:
  assumes f: "freshLedger l" and ids: "op_OperationID r \<noteq> []" "op_VaultID r \<noteq> []" "op_State r = vtxoStateReserved"
    and v: "vaultExists (op_VaultID r) (lg_db l)" and s: "SealVtxoOperation r (lg_integrityKey l) = Inr s" "vtxoOperationChecks s"
    and i: "SealVtxoOperationInput (i \<lparr> vi_OperationID := op_OperationID r \<rparr>) (lg_integrityKey l) = Inr i'" "vtxoInputChecks i'"
    and need: "addOutflow (op_AmountSats r) (op_FeeSats r) = Inr need" "0 \<le> need" "need \<le> cap" and env: "env_commit env"
    and ob: "observeEconomicOutflowsLocked (env_write env)
      (l \<lparr> lg_db := lg_db l \<lparr> db_vtxo_operation := [s], db_vtxo_operation_input := [i'] \<rparr> \<rparr>) = (Inr (), l')"
  shows "ReserveVtxoOperation env r [i] cap l = (Inr (), l')"
proof -
  have sr: "op_OperationID s = op_OperationID r" "op_VaultID s = op_VaultID r"
    by (subst SealVtxoOperation_InrD(1) [OF s(1)], simp)+
  have ir: "vi_OperationID i' = op_OperationID r" using SealVtxoOperationInput_InrD [OF i(1)] by simp
  have l: "l \<lparr> lg_db := lg_db l \<rparr> = l" by simp
  have d3: "insertVtxoOperation s (lg_db l) = Inr (lg_db l \<lparr> db_vtxo_operation := [s] \<rparr>)"
    using f v s(2) sr by (simp add: insertVtxoOperation_def freshLedger_def)
  have d4: "sealAndInsertInput (op_OperationID r) (lg_integrityKey l) (lg_db l \<lparr> db_vtxo_operation := [s] \<rparr>) i =
      Inr (lg_db l \<lparr> db_vtxo_operation := [s], db_vtxo_operation_input := [i'] \<rparr>)"
    using f i sr ir by (simp add: sealAndInsertInput_def insertVtxoInput_def freshLedger_def)
  have one: "[i] \<noteq> []" "length [i] \<le> MaxVtxoOperationInputs" by (simp_all add: MaxVtxoOperationInputs_def)
  have "reserveBody (env_now env) (env_write env) r [i] cap l = (Inr (), l')"
    unfolding reserveBody_def using need s(1) fresh_reads(1) [OF f] d3 d4 ob
    by (simp add: actBind_def actRead_def actDB_def fresh_fences [OF f one] l)
  then show ?thesis using ids need env by (simp add: ReserveVtxoOperation_def inTx_def MaxVtxoOperationInputs_def)
qed

definition sampleEnv :: Env where
  "sampleEnv = \<lparr> env_pre = 0, env_now = 0, env_commit = True, env_write0 = WriteOk, env_write = WriteOk \<rparr>"

text \<open>A reservation created at the clock's time.\<close>

definition sampleReservation :: VtxoOperation where
  "sampleReservation = sampleOperation \<lparr> op_CreatedAt := formatRFC3339 0 \<rparr>"

lemma sampleLedger_fresh: "freshLedger sampleLedger" "vaultExists ''v'' (lg_db sampleLedger)"
  by (simp_all add: freshLedger_def sampleLedger_def sampleDB_def sampleKey_def vaultExists_def sampleVault_def)

lemma sampleReservation_simps [simp]:
  "op_OperationID sampleReservation = ''a''" "op_VaultID sampleReservation = ''v''" "op_State sampleReservation = vtxoStateReserved"
  "op_AmountSats sampleReservation = 1000" "op_FeeSats sampleReservation = 10" "op_CreatedAt sampleReservation = formatRFC3339 0"
  "op_typed sampleReservation"
  by (simp_all add: sampleReservation_def sampleOperation_def vtxo_states op_typed_def in_i64_def)

lemma sampleReservation_seal:
  "\<exists>s. SealVtxoOperation sampleReservation sampleKey = Inr s \<and> vtxoOperationChecks s"
proof -
  have "length (formatRFC3339 0) = 20" by code_simp
  then have "\<exists>p. canonicalVtxoOperation sampleReservation = Inr p"
    by (simp add: canonicalVtxoOperation_Inr_iff opShape_def opFields_def sampleReservation_def sampleOperation_def requireVtxoState_def
      vtxo_states vtxoPurposeSpend_def changeShape_def)
  then show ?thesis
    by (auto simp: op_row.seal_iff sampleKey_def vtxoOperationChecks_def sampleReservation_def sampleOperation_def requireVtxoState_def
      vtxo_states vtxoPurposeSpend_def)
qed

lemma sampleInput_seal:
  "\<exists>s. SealVtxoOperationInput (sampleInput n \<lparr> vi_OperationID := ''a'' \<rparr>) sampleKey = Inr s \<and> vtxoInputChecks s"
proof -
  have "sampleInput n \<lparr> vi_OperationID := ''a'' \<rparr> = sampleInput n" by (simp add: sampleInput_def)
  then show ?thesis using sampleInput_canon [of n]
    by (auto simp: in_row.seal_iff sampleKey_def vtxoInputChecks_def sampleInput_def)
qed

lemma sampleReserve:
  "\<exists>s i. SealVtxoOperation sampleReservation sampleKey = Inr s \<and> vi_Txid i = replicate 32 3 \<and> vi_Vout i = 0 \<and> vi_OperationID i = ''a'' \<and>
     ReserveVtxoOperation sampleEnv sampleReservation [sampleInput 3] 100000 sampleLedger =
       (Inr (), sampleLedger \<lparr> lg_db := sampleDB \<lparr> db_vtxo_operation := [s], db_vtxo_operation_input := [i] \<rparr> \<rparr>)"
proof -
  obtain s i where s: "SealVtxoOperation sampleReservation sampleKey = Inr s" "vtxoOperationChecks s"
    and i: "SealVtxoOperationInput (sampleInput 3 \<lparr> vi_OperationID := ''a'' \<rparr>) sampleKey = Inr i" "vtxoInputChecks i"
    using sampleReservation_seal sampleInput_seal by blast
  have "ReserveVtxoOperation sampleEnv sampleReservation [sampleInput 3] 100000 sampleLedger =
      (Inr (), sampleLedger \<lparr> lg_db := sampleDB \<lparr> db_vtxo_operation := [s], db_vtxo_operation_input := [i] \<rparr> \<rparr>)"
    using s i sampleLedger_fresh
    by (intro reserve_fresh [where need = 1010])
       (simp_all add: sampleLedger_def sampleEnv_def addOutflow_def i64_id in_i64_def maxInt64_def observeEconomicOutflowsLocked_def)
  then show ?thesis using s(1) SealVtxoOperationInput_InrD [OF i(1)] by (auto simp: sampleInput_def)
qed

theorem reserve_within_allowance_witness:
  "\<exists>l' used. ReserveVtxoOperation sampleEnv sampleReservation [sampleInput 3] 100000 sampleLedger = (Inr (), l') \<and>
     spentInWindow 0 ''v'' l' = Inr used \<and> 1010 \<le> used \<and> used \<le> 100000"
proof -
  obtain l' where r: "ReserveVtxoOperation sampleEnv sampleReservation [sampleInput 3] 100000 sampleLedger = (Inr (), l')"
    using sampleReserve by blast
  have t: "parseRFC3339 (op_CreatedAt sampleReservation) = Some 0"
    using parse_formatRFC3339 [OF sample_times(1)] by (simp add: unixSec_def)
  have w: "\<not> timeAfter (env_now sampleEnv) (0 + allowanceWindow)" by (simp add: timeAfter_def sampleEnv_def allowanceWindow_def second_def)
  have "\<forall>x\<in>set (db_vtxo_operation (lg_db sampleLedger)). op_typed x" "op_typed sampleReservation" "in_i64 100000"
    by (simp_all add: sampleLedger_def sampleDB_def in_i64_def)
  from reserve_within_allowance [OF r this, unfolded t option.case if_not_P [OF w]] r show ?thesis by (auto simp: sampleEnv_def)
qed

section \<open>Transitions\<close>

lemma updateVtxoOperation_InrD:
  assumes "updateVtxoOperation st r db = Inr (n, db')" "distinct (map op_OperationID (db_vtxo_operation db))"
  shows "db' = updateOps (updateMatches st r) (\<lambda>_. r) db"
    "n = (if \<exists>x\<in>set (db_vtxo_operation db). updateMatches st r x then 1 else 0)"
proof -
  have "length (filter (updateMatches st r) xs) = (if \<exists>x\<in>set xs. updateMatches st r x then 1 else 0)"
    if "distinct (map op_OperationID xs)" for xs
    using that
  proof (induction xs)
    case (Cons x xs)
    then show ?case by (auto simp: updateMatches_def rev_image_eqI)
  qed simp
  with assms show "db' = updateOps (updateMatches st r) (\<lambda>_. r) db"
    "n = (if \<exists>x\<in>set (db_vtxo_operation db). updateMatches st r x then 1 else 0)"
    by (auto simp: updateVtxoOperation_def Let_def split: if_splits)
qed

lemma updateOps_none: "\<forall>x\<in>set (db_vtxo_operation db). \<not> p x \<Longrightarrow> updateOps p f db = db"
  by (simp add: updateOps_def map_idI)

definition findOp :: "string \<Rightarrow> DB \<Rightarrow> VtxoOperation option" where
  "findOp oid db = lookupBy (\<lambda>r. op_OperationID r = oid) (db_vtxo_operation db)"

lemma findOp_updateOps:
  assumes "distinct (map op_OperationID (db_vtxo_operation db))" "x \<in> set (db_vtxo_operation db)" "updateMatches st r x"
  shows "findOp oid (updateOps (updateMatches st r) (\<lambda>_. r) db) = (if oid = op_OperationID r then Some r else findOp oid db)"
proof -
  have "lookupBy (\<lambda>x. op_OperationID x = oid) (map (\<lambda>x. if updateMatches st r x then r else x) xs) =
      (if oid = op_OperationID r \<and> (\<exists>x\<in>set xs. updateMatches st r x) then Some r else lookupBy (\<lambda>x. op_OperationID x = oid) xs)"
    if "distinct (map op_OperationID xs)" for xs
    using that
  proof (induction xs)
    case (Cons y ys)
    then show ?case by (auto simp: updateMatches_def rev_image_eqI)
  qed simp
  with assms show ?thesis by (auto simp: findOp_def updateOps_def)
qed

text \<open>
  C40: a transition is a compare-and-swap, operation ids being unique (the primary key). It swaps only along the state graph and only when the stored row has the
  caller's id, vault and expected state; then the stored row is the caller's record, freshly sealed, and no other row
  changes. Otherwise the database is unchanged and the call returns the authenticated current row.
\<close>

theorem transition_compare_and_swap:
  assumes "distinct (map op_OperationID (db_vtxo_operation (lg_db l)))"
    and "TransitionVtxoOperation expected r l = (Inr (current, swapped), l')"
  shows "validVtxoTransition expected (op_State r) \<and>
    (if swapped then
       (\<exists>old. old \<in> set (db_vtxo_operation (lg_db l)) \<and> op_OperationID old = op_OperationID r \<and> op_VaultID old = op_VaultID r \<and>
          op_State old = expected) \<and>
       current \<lparr> op_IntegrityMAC := [] \<rparr> = r \<lparr> op_IntegrityMAC := [] \<rparr> \<and> VerifyVtxoOperation current (lg_integrityKey l) = Inr () \<and>
       (\<forall>oid. findOp oid (lg_db l') = (if oid = op_OperationID r then Some current else findOp oid (lg_db l)))
     else l' = l \<and> GetVtxoOperation (op_OperationID r) l = Inr current)"
proof -
  from assms(2) obtain s n db where v: "op_OperationID r \<noteq> []" "validVtxoTransition expected (op_State r)"
    and s: "SealVtxoOperation r (lg_integrityKey l) = Inr s"
    and u: "updateVtxoOperation expected s (lg_db l) = Inr (n, db)"
    and c: "(if n = 1 then (Inr (s, True), l \<lparr> lg_db := db \<rparr>)
      else (andThen (loadVtxoOperation (op_OperationID s) (l \<lparr> lg_db := db \<rparr>)) (\<lambda>current. Inr (current, False)), l \<lparr> lg_db := db \<rparr>)) =
      (Inr (current, swapped), l')"
    unfolding TransitionVtxoOperation_def
    by (auto simp: andThen_Inr_iff integrityKeyCopy_Inr_iff Let_def split: if_splits sum.splits)
  note sr = SealVtxoOperation_InrD [OF s]
  have f: "op_OperationID s = op_OperationID r" "op_VaultID s = op_VaultID r" by (subst sr(1), simp)+
  note U = updateVtxoOperation_InrD [OF u assms(1)]
  show ?thesis
  proof (cases "\<exists>x\<in>set (db_vtxo_operation (lg_db l)). updateMatches expected s x")
    case True
    then obtain x where x: "x \<in> set (db_vtxo_operation (lg_db l))" "updateMatches expected s x" by blast
    have e: "current = s" "swapped" "lg_db l' = updateOps (updateMatches expected s) (\<lambda>_. s) (lg_db l)"
      using c U True by auto
    have 1: "current \<lparr> op_IntegrityMAC := [] \<rparr> = r \<lparr> op_IntegrityMAC := [] \<rparr>"
      unfolding e(1) by (subst sr(1)) simp
    have 2: "op_OperationID x = op_OperationID r" "op_VaultID x = op_VaultID r" "op_State x = expected"
      using x(2) f by (simp_all add: updateMatches_def)
    have 3: "findOp oid (lg_db l') = (if oid = op_OperationID r then Some current else findOp oid (lg_db l))" for oid
      unfolding e(1,3) f(1) [symmetric] by (rule findOp_updateOps [OF assms(1) x])
    show ?thesis using v(2) x(1) e(2) 1 2 3 sr(2) [folded e(1)] by (simp add: exI [of _ x])
  next
    case False
    then have "db = lg_db l" "n = 0" using U updateOps_none [of "lg_db l" "updateMatches expected s"] by auto
    then show ?thesis using c v f by (auto simp: andThen_Inr_iff GetVtxoOperation_def)
  qed
qed

lemma sampleReservation_state_seal:
  assumes "requireVtxoState st = Inr ()"
  shows "\<exists>s. SealVtxoOperation (sampleReservation \<lparr> op_State := st \<rparr>) sampleKey = Inr s \<and> vtxoOperationChecks s"
proof -
  have "length (formatRFC3339 0) = 20" by code_simp
  then have "\<exists>p. canonicalVtxoOperation (sampleReservation \<lparr> op_State := st \<rparr>) = Inr p"
    using assms
    by (auto simp: canonicalVtxoOperation_Inr_iff opShape_def opFields_def sampleReservation_def sampleOperation_def requireVtxoState_def
      vtxo_states vtxoPurposeSpend_def changeShape_def split: if_splits)
  then show ?thesis using assms
    by (auto simp: op_row.seal_iff sampleKey_def vtxoOperationChecks_def sampleReservation_def sampleOperation_def
      vtxoPurposeSpend_def)
qed

lemma sampleTransition:
  assumes "SealVtxoOperation sampleReservation sampleKey = Inr s" "requireVtxoState st = Inr ()"
  shows "\<exists>s'. SealVtxoOperation (sampleReservation \<lparr> op_State := st \<rparr>) sampleKey = Inr s' \<and>
    updateVtxoOperation vtxoStateReserved s' (sampleDB \<lparr> db_vtxo_operation := [s], db_vtxo_operation_input := ins \<rparr>) =
      Inr (1, sampleDB \<lparr> db_vtxo_operation := [s'], db_vtxo_operation_input := ins \<rparr>)"
proof -
  obtain s' where s': "SealVtxoOperation (sampleReservation \<lparr> op_State := st \<rparr>) sampleKey = Inr s'" "vtxoOperationChecks s'"
    using sampleReservation_state_seal [OF assms(2)] by blast
  have "op_OperationID s = ''a''" "op_VaultID s = ''v''" "op_State s = vtxoStateReserved"
    by (subst SealVtxoOperation_InrD(1) [OF assms(1)], simp)+
  moreover have "op_OperationID s' = ''a''" "op_VaultID s' = ''v''"
    by (subst SealVtxoOperation_InrD(1) [OF s'(1)], simp)+
  ultimately show ?thesis using s' by (simp add: updateVtxoOperation_def updateMatches_def updateOps_def)
qed

theorem transition_compare_and_swap_witness:
  "\<exists>l current l'. TransitionVtxoOperation vtxoStateReserved (sampleReservation \<lparr> op_State := vtxoStateAborted \<rparr>) l = (Inr (current, True), l') \<and>
     findOp ''a'' (lg_db l') = Some current \<and> op_State current = vtxoStateAborted"
proof -
  obtain s where s: "SealVtxoOperation sampleReservation sampleKey = Inr s" using sampleReservation_seal by blast
  obtain s' where s': "SealVtxoOperation (sampleReservation \<lparr> op_State := vtxoStateAborted \<rparr>) sampleKey = Inr s'"
    "updateVtxoOperation vtxoStateReserved s' (sampleDB \<lparr> db_vtxo_operation := [s], db_vtxo_operation_input := [] \<rparr>) =
      Inr (1, sampleDB \<lparr> db_vtxo_operation := [s'], db_vtxo_operation_input := [] \<rparr>)"
    using sampleTransition [OF s, of vtxoStateAborted "[]"] by (auto simp: requireVtxoState_def)
  let ?l = "sampleLedger \<lparr> lg_db := sampleDB \<lparr> db_vtxo_operation := [s], db_vtxo_operation_input := [] \<rparr> \<rparr>"
  let ?l' = "sampleLedger \<lparr> lg_db := sampleDB \<lparr> db_vtxo_operation := [s'], db_vtxo_operation_input := [] \<rparr> \<rparr>"
  have t: "TransitionVtxoOperation vtxoStateReserved (sampleReservation \<lparr> op_State := vtxoStateAborted \<rparr>) ?l = (Inr (s', True), ?l')"
    using s' by (simp add: TransitionVtxoOperation_def validVtxoTransition_def integrityKeyCopy_def sampleLedger_def sampleKey_def)
  have "validVtxoTransition vtxoStateReserved vtxoStateAborted \<and> findOp ''a'' (lg_db ?l') = Some s'"
    using transition_compare_and_swap [OF _ t] by simp
  moreover have "op_State s' = vtxoStateAborted" by (subst SealVtxoOperation_InrD(1) [OF s'(1)]) simp
  ultimately show ?thesis using t by blast
qed

section \<open>Signing\<close>

text \<open>
  C11: signing is atomic with the authenticator counter. When the commit swaps, the transaction committed, the stored
  operation was reserved and is now the signed one, and the stored counter is the accepted one; in every other case,
  whatever failed, the ledger is unchanged.
\<close>

theorem commit_signed_atomic:
  assumes "distinct (map op_OperationID (db_vtxo_operation (lg_db l)))"
    and "CommitSignedVtxoOperation env r credentialID n l = (res, l')"
  shows "(case res of
      Inl e \<Rightarrow> l' = l
    | Inr (current, swapped) \<Rightarrow>
        if swapped then env_commit env \<and>
          (\<exists>old. old \<in> set (db_vtxo_operation (lg_db l)) \<and> op_OperationID old = op_OperationID r \<and> op_State old = vtxoStateReserved) \<and>
          findOp (op_OperationID r) (lg_db l') = Some current \<and> op_State current = vtxoStateSigned \<and>
          (\<forall>m. verifySignCountReplayLocked (op_VaultID r) credentialID m l' = Inr () \<longleftrightarrow> m = n)
        else l' = l)"
proof (cases "\<exists>current. res = Inr (current, True)")
  case False
  with assms(2) show ?thesis unfolding CommitSignedVtxoOperation_def
    by (auto simp: Let_def split: if_splits sum.splits prod.splits)
next
  case True
  then obtain current where res: "res = Inr (current, True)" by blast
  with assms(2) obtain s where st: "op_State r = vtxoStateSigned" and c: "env_commit env"
    and s: "SealVtxoOperation r (lg_integrityKey l) = Inr s"
    and b: "commitSignedBody (env_now env) s credentialID n l = (Inr (current, True), l')"
    unfolding CommitSignedVtxoOperation_def
    by (auto simp: andThen_Inr_iff integrityKeyCopy_Inr_iff split: if_splits sum.splits prod.splits)
  obtain k db where u: "updateVtxoOperation vtxoStateReserved s (lg_db l) = Inr (k, db)" and k: "k = 1" and cs: "current = s"
    and adv: "advanceSignCountLocked (env_now env) (op_VaultID s) credentialID n (l \<lparr> lg_db := db \<rparr>) = (Inr (), l')"
    using b unfolding commitSignedBody_def
    by (auto simp: Let_def act_iffs andThen_Inr_iff split: if_splits sum.splits prod.splits)
  note sr = SealVtxoOperation_InrD [OF s]
  have f: "op_OperationID s = op_OperationID r" "op_VaultID s = op_VaultID r" "op_State s = op_State r"
    by (subst sr(1), simp)+
  note U = updateVtxoOperation_InrD [OF u assms(1)]
  obtain x where x: "x \<in> set (db_vtxo_operation (lg_db l))" "updateMatches vtxoStateReserved s x"
    using U(2) [unfolded k] by (cases "\<exists>x\<in>set (db_vtxo_operation (lg_db l)). updateMatches vtxoStateReserved s x") auto
  have "findOp (op_OperationID r) db = Some s"
    unfolding U(1) using findOp_updateOps [OF assms(1) x, of "op_OperationID r"] f(1) by simp
  moreover have "findOp oid (lg_db l') = findOp oid db" for oid
    by (subst advanceSignCount_frame [OF adv]) (simp add: findOp_def)
  moreover have "verifySignCountReplayLocked (op_VaultID r) credentialID m l' = Inr () \<longleftrightarrow> m = n" for m
    using advanceSignCount_InrD(2,3) [OF adv] f(2) by (simp add: replay_iff)
  ultimately show ?thesis using res c cs f st x by (auto simp: updateMatches_def)
qed

theorem commit_signed_atomic_witness:
  "\<exists>l current l'. CommitSignedVtxoOperation sampleEnv (sampleReservation \<lparr> op_State := vtxoStateSigned \<rparr>) [1, 2] 7 l =
       (Inr (current, True), l') \<and>
     op_State current = vtxoStateSigned \<and> verifySignCountReplayLocked ''v'' [1, 2] 7 l' = Inr () \<and>
     verifySignCountReplayLocked ''v'' [1, 2] 8 l' \<noteq> Inr ()"
proof -
  obtain s where s: "SealVtxoOperation sampleReservation sampleKey = Inr s" using sampleReservation_seal by blast
  obtain s' where s': "SealVtxoOperation (sampleReservation \<lparr> op_State := vtxoStateSigned \<rparr>) sampleKey = Inr s'"
    "updateVtxoOperation vtxoStateReserved s' (sampleDB \<lparr> db_vtxo_operation := [s], db_vtxo_operation_input := [] \<rparr>) =
      Inr (1, sampleDB \<lparr> db_vtxo_operation := [s'], db_vtxo_operation_input := [] \<rparr>)"
    using sampleTransition [OF s, of vtxoStateSigned "[]"] by (auto simp: requireVtxoState_def)
  let ?l = "sampleLedger \<lparr> lg_db := sampleDB \<lparr> db_vtxo_operation := [s], db_vtxo_operation_input := [] \<rparr> \<rparr>"
  let ?r = "sampleReservation \<lparr> op_State := vtxoStateSigned \<rparr>"
  have v: "op_VaultID s' = ''v''" by (subst SealVtxoOperation_InrD(1) [OF s'(1)]) simp
  have "\<exists>l'. CommitSignedVtxoOperation sampleEnv ?r [1, 2] 7 ?l = (Inr (s', True), l')"
    using s' v
    by (simp add: CommitSignedVtxoOperation_def integrityKeyCopy_def sampleLedger_def sampleKey_def commitSignedBody_def
      actBind_def actPure_def advanceSignCountLocked_def actDB_def selectSignCount_def upsertSignCount_def vaultExists_def sampleDB_def
      sampleVault_def sampleEnv_def)
  then obtain l' where l': "CommitSignedVtxoOperation sampleEnv ?r [1, 2] 7 ?l = (Inr (s', True), l')" by blast
  have "distinct (map op_OperationID (db_vtxo_operation (lg_db ?l)))" by simp
  from commit_signed_atomic [OF this l']
  have "op_State s' = vtxoStateSigned \<and> verifySignCountReplayLocked ''v'' [1, 2] 7 l' = Inr () \<and>
      verifySignCountReplayLocked ''v'' [1, 2] 8 l' \<noteq> Inr ()" by simp
  with l' show ?thesis by blast
qed

end
