(* ===== verification/Journal_Ledger.thy ===== *)
theory Journal_Ledger
  imports Spend_Ledger
begin

text \<open>
  The operations that write the Bitcoin batch journal (\<open>spending_renewal.go\<close>) and the delegation journal
  (\<open>spending_delegation.go\<close>). A call returns either its result or an error; the values some Go calls set beside
  an error are not part of the model.
\<close>

section \<open>Transactions and rows\<close>

definition withSpendingRenewalTx :: "Env \<Rightarrow> (bytes \<Rightarrow> 'a act) \<Rightarrow> 'a act" where
  "withSpendingRenewalTx env body l =
     (case integrityKeyCopy l of
        Inl e \<Rightarrow> (Inl e, l)
      | Inr key \<Rightarrow>
          inTx (env_commit env)
            (actBind (body key) (\<lambda>x. actBind (observeEconomicOutflowsLocked (env_write env)) (\<lambda>_. actPure x))) l)"

definition insertRenewalOperation :: "bytes \<Rightarrow> SpendingRenewalOperation \<Rightarrow> DB \<Rightarrow> DB res" where
  "insertRenewalOperation key r db =
     (let payload = marshalRenewalOperation r in
      if ro_OperationID r \<in> set (map jo_operation_id (db_light_renewal_operation db))
        then Inl (ErrConstraint ''UNIQUE light_renewal_operation.operation_id'')
      else if \<not> vaultExists (ro_VaultID r) db then Inl (ErrConstraint ''FOREIGN KEY light_renewal_operation.vault_id'')
      else if sqlLength payload = 0 \<or> sqlLength payload > 16384 then Inl (ErrConstraint ''CHECK light_renewal_operation.payload'')
      else Inr (db \<lparr> db_light_renewal_operation := db_light_renewal_operation db @
        [\<lparr> jo_operation_id = ro_OperationID r, jo_vault_id = ro_VaultID r, jo_payload = payload,
           jo_integrity_mac = renewalMAC key ''vaulted-light/renewal-operation/v1'' payload \<rparr>] \<rparr>))"

definition insertRenewalEvent :: "bytes \<Rightarrow> SpendingRenewalEvent \<Rightarrow> DB \<Rightarrow> DB res" where
  "insertRenewalEvent key e db =
     (let payload = marshalRenewalEvent e in
      if (re_OperationID e, re_Phase e) \<in> set (map (\<lambda>r. (je_operation_id r, je_phase r)) (db_light_renewal_event db))
        then Inl (ErrConstraint ''UNIQUE light_renewal_event'')
      else if re_OperationID e \<notin> set (map jo_operation_id (db_light_renewal_operation db))
        then Inl (ErrConstraint ''FOREIGN KEY light_renewal_event.operation_id'')
      else if re_Phase e \<notin> set renewalPhases then Inl (ErrConstraint ''CHECK light_renewal_event.phase'')
      else if sqlLength payload = 0 \<or> sqlLength payload > 1048576 then Inl (ErrConstraint ''CHECK light_renewal_event.payload'')
      else Inr (db \<lparr> db_light_renewal_event := db_light_renewal_event db @
        [\<lparr> je_operation_id = re_OperationID e, je_phase = re_Phase e, je_payload = payload,
           je_integrity_mac = renewalMAC key ''vaulted-light/renewal-event/v1'' payload \<rparr>] \<rparr>))"

definition insertDelegationOperation :: "bytes \<Rightarrow> DB \<Rightarrow> SpendingDelegation \<Rightarrow> DB res" where
  "insertDelegationOperation key db o1 =
     (let payload = marshalDelegation o1 in
      if sd_OperationID o1 \<in> set (map jo_operation_id (db_light_delegation_operation db))
        then Inl (ErrConstraint ''UNIQUE light_delegation_operation.operation_id'')
      else if \<not> vaultExists (sd_VaultID o1) db then Inl (ErrConstraint ''FOREIGN KEY light_delegation_operation.vault_id'')
      else if sqlLength payload = 0 \<or> sqlLength payload > 131072 then Inl (ErrConstraint ''CHECK light_delegation_operation.payload'')
      else Inr (db \<lparr> db_light_delegation_operation := db_light_delegation_operation db @
        [\<lparr> jo_operation_id = sd_OperationID o1, jo_vault_id = sd_VaultID o1, jo_payload = payload,
           jo_integrity_mac = renewalMAC key ''vaulted-light/delegation-operation/v1'' payload \<rparr>] \<rparr>))"

section \<open>The Bitcoin batch journal\<close>

definition GetSpendingRenewal :: "string \<Rightarrow> Ledger \<Rightarrow> SpendingRenewalSnapshot option res" where
  "GetSpendingRenewal oid l =
     andThen (integrityKeyCopy l) (\<lambda>key. andThen (loadSpendingRenewals (lg_db l) key) (\<lambda>all. Inr (map_of all oid)))"

text \<open>The checks a new reservation meets after the journal is loaded, and the insert.\<close>

definition reserveRenewalNew :: "time \<Rightarrow> bytes \<Rightarrow> renewal_map \<Rightarrow> SpendingRenewalOperation \<Rightarrow> int \<Rightarrow> SpendingRenewalSnapshot act" where
  "reserveRenewalNew now key all r allowance =
     actBind (actRead (\<lambda>_. validateSpendingRenewalOperation r)) (\<lambda>_.
     actBind (actRead (\<lambda>_.
       if list_ex (\<lambda>prior. ro_VaultID (rs_Operation prior) = ro_VaultID r \<and> \<not> renewalTerminal prior) (map snd all)
       then Inl ErrVtxoOperationActive else Inr ())) (\<lambda>_.
     actBind (actRead (rejectConcurrentVtxoOperationLocked (ro_VaultID r) [])) (\<lambda>_.
     actBind (actRead (rejectDispatchedDelegation (ro_VaultID r))) (\<lambda>_.
     actBind (actRead (spentInWindow now (ro_VaultID r))) (\<lambda>used.
     actBind (actRead (\<lambda>_.
       if allowance < 0 \<or> used > allowance \<or> i64 (ro_FeeSats r + ro_AmountSats r) > allowance - used
       then Inl ErrPeriodAllowanceExceeded else Inr ())) (\<lambda>_.
     actBind (actDB (\<lambda>l. insertRenewalOperation key r (lg_db l))) (\<lambda>_.
     actPure \<lparr> rs_Operation = r, rs_Events = [] \<rparr>)))))))"

definition reserveRenewalBody :: "Env \<Rightarrow> SpendingRenewalOperation \<Rightarrow> int \<Rightarrow> bytes \<Rightarrow> SpendingRenewalSnapshot act" where
  "reserveRenewalBody env r allowance key =
     actBind (actRead (\<lambda>l. loadSpendingRenewals (lg_db l) key)) (\<lambda>all.
     case map_of all (ro_OperationID r) of
       Some prior \<Rightarrow>
         actRead (\<lambda>_. if r \<lparr> ro_CreatedAt := ro_CreatedAt (rs_Operation prior) \<rparr> \<noteq> rs_Operation prior
                      then Inl (Err ''Light renewal reservation changed'') else Inr prior)
     | None \<Rightarrow> reserveRenewalNew (env_now env) key all (r \<lparr> ro_CreatedAt := formatRFC3339 (env_now env) \<rparr>) allowance)"

definition ReserveSpendingRenewal :: "Env \<Rightarrow> SpendingRenewalOperation \<Rightarrow> int \<Rightarrow> SpendingRenewalSnapshot act" where
  "ReserveSpendingRenewal env r allowance =
     withSpendingRenewalTx env (reserveRenewalBody env (r \<lparr> ro_CreatedAt := formatRFC3339 (env_pre env) \<rparr>) allowance)"

text \<open>Only the registration carries a passkey, and it moves the authenticator counter.\<close>

definition renewalCredential :: "time \<Rightarrow> string \<Rightarrow> string \<Rightarrow> bytes \<Rightarrow> u32 \<Rightarrow> unit act" where
  "renewalCredential now vault phase credentialID signCount =
     (if phase = ''register_authorized'' then
        (if credentialID = [] then actRead (\<lambda>_. Inl (Err ''Light renewal passkey required''))
         else advanceSignCountLocked now vault credentialID signCount)
      else actRead (\<lambda>_. if credentialID \<noteq> [] \<or> signCount \<noteq> 0
                         then Inl (Err ''unexpected Light renewal credential mutation'') else Inr ()))"

definition appendRenewalBody :: "Env \<Rightarrow> SpendingRenewalEvent \<Rightarrow> bytes \<Rightarrow> u32 \<Rightarrow> bytes \<Rightarrow> (SpendingRenewalEvent \<times> bool) act" where
  "appendRenewalBody env e credentialID signCount key =
     actBind (actRead (\<lambda>l. loadSpendingRenewals (lg_db l) key)) (\<lambda>all.
     case map_of all (re_OperationID e) of
       None \<Rightarrow> actRead (\<lambda>_. Inl (Err ''Light renewal reservation not found''))
     | Some s \<Rightarrow>
         (case map_of (rs_Events s) (re_Phase e) of
            Some old \<Rightarrow>
              actRead (\<lambda>l.
                if e \<lparr> re_CreatedAt := re_CreatedAt old \<rparr> \<noteq> old then Inl (Err ''Light renewal phase changed'')
                else andThen (if re_Phase e = ''register_authorized''
                              then verifySignCountReplayLocked (ro_VaultID (rs_Operation s)) credentialID signCount l
                              else Inr ()) (\<lambda>_. Inr (old, False)))
          | None \<Rightarrow>
              actBind (actRead (\<lambda>_. validateRenewalTransition s e (env_now env))) (\<lambda>_.
              actBind (renewalCredential (env_now env) (ro_VaultID (rs_Operation s)) (re_Phase e) credentialID signCount) (\<lambda>_.
              actBind (actDB (\<lambda>l. insertRenewalEvent key e (lg_db l))) (\<lambda>_.
              actPure (e, True))))))"

definition AppendSpendingRenewalEvent :: "Env \<Rightarrow> SpendingRenewalEvent \<Rightarrow> bytes \<Rightarrow> u32 \<Rightarrow> (SpendingRenewalEvent \<times> bool) act" where
  "AppendSpendingRenewalEvent env e0 credentialID signCount l =
     (let e = e0 \<lparr> re_CreatedAt := formatRFC3339 (env_pre env) \<rparr> in
      case validateSpendingRenewalEvent e of
        Inl err \<Rightarrow> (Inl err, l)
      | Inr _ \<Rightarrow> withSpendingRenewalTx env (appendRenewalBody env e credentialID signCount) l)"

section \<open>The delegation journal\<close>

definition ListSpendingDelegations :: "Env \<Rightarrow> SpendingDelegationSnapshot list act" where
  "ListSpendingDelegations env l =
     (case andThen (integrityKeyCopy l) (\<lambda>key. loadSpendingDelegations (lg_db l) key) of
        Inl e \<Rightarrow> (Inl e, l)
      | Inr all \<Rightarrow>
          actBind (observeEconomicOutflowsLocked (env_write env)) (\<lambda>_.
          actPure (sliceStable (\<lambda>a b. sd_OperationID (ds_Operation a) < sd_OperationID (ds_Operation b)) (map snd all))) l)"

text \<open>\<open>ORDER BY resident DESC LIMIT 1\<close>.\<close>

definition delegationEnrolledCredentialID :: "string \<Rightarrow> bytes \<Rightarrow> DB \<Rightarrow> bytes res" where
  "delegationEnrolledCredentialID vaultID key db =
     (case sliceStable (\<lambda>a b. vc_Resident a \<and> \<not> vc_Resident b) (filter (\<lambda>c. vc_VaultID c = vaultID) (db_vault_credential db)) of
        [] \<Rightarrow> Inl (Err ''delegation vault credential unavailable'')
      | c # _ \<Rightarrow> andThen (verifyVaultCredential c key) (\<lambda>_. Inr (vc_CredentialID c)))"

definition rejectDelegationPaymentOverlap :: "bytes \<Rightarrow> DB \<Rightarrow> SpendingDelegation \<Rightarrow> unit res" where
  "rejectDelegationPaymentOverlap key db o1 =
     andThen (forEach (\<lambda>r. VerifyVtxoOperation r key) (db_vtxo_operation db)) (\<lambda>_.
     andThen (forEach (\<lambda>i. VerifyVtxoOperationInput i key) (db_vtxo_operation_input db)) (\<lambda>_.
     let active = remdups (map op_OperationID (filter (\<lambda>r. op_VaultID r = sd_VaultID o1 \<and> vtxoStateBlocksNewOperation (op_State r))
                    (db_vtxo_operation db)));
         live = filter (\<lambda>i. vi_OperationID i \<in> set active) (db_vtxo_operation_input db);
         found = remdups (map vi_OperationID live);
         overlap = list_ex (\<lambda>i. hexEncode (vi_Txid i) = sd_InputTxid o1 \<and> uint (sd_InputVout o1) = vi_Vout i) live
     in if overlap \<or> length found \<noteq> length active then Inl ErrVtxoOperationActive else Inr ()))"

text \<open>The members of a call against each other: one set, in order, with distinct operations and outpoints.\<close>

definition setMemberBound :: "SpendingDelegation \<Rightarrow> nat \<Rightarrow> nat \<times> SpendingDelegation \<Rightarrow> unit res" where
  "setMemberBound first n m =
     (case m of (i, o1) \<Rightarrow>
        if sd_VaultID o1 \<noteq> sd_VaultID first \<or> sd_Program o1 \<noteq> sd_Program first \<or> sd_DescriptorHash o1 \<noteq> sd_DescriptorHash first \<or>
           sd_SetID o1 \<noteq> sd_SetID first \<or> sd_SetDigest o1 \<noteq> sd_SetDigest first \<or> sd_SetSize o1 \<noteq> int n \<or> sd_SetIndex o1 \<noteq> int i
        then Inl (Err ''delegation set membership changed'') else Inr ())"

definition outpointText :: "SpendingDelegation \<Rightarrow> string" where
  "outpointText o1 = sd_InputTxid o1 @ '':'' @ showInt (uint (sd_InputVout o1))"

fun setMembersDistinct :: "string list \<Rightarrow> string list \<Rightarrow> SpendingDelegation list \<Rightarrow> unit res" where
  "setMembersDistinct seenOp seenOutpoint [] = Inr ()"
| "setMembersDistinct seenOp seenOutpoint (o1 # os) =
     (if sd_OperationID o1 \<in> set seenOp then Inl (Err ''delegation set operation duplicate'')
      else if outpointText o1 \<in> set seenOutpoint then Inl (Err ''delegation set input duplicate'')
      else setMembersDistinct (sd_OperationID o1 # seenOp) (outpointText o1 # seenOutpoint) os)"

text \<open>An exact retry of a stored set gives the stored snapshots in input order.\<close>

fun retrySet :: "(string \<times> SpendingDelegationSnapshot) list \<Rightarrow> SpendingDelegation list \<Rightarrow> SpendingDelegationSnapshot list res" where
  "retrySet byOp [] = Inr []"
| "retrySet byOp (o1 # os) =
     (case map_of byOp (sd_OperationID o1) of
        None \<Rightarrow> Inl (Err ''delegation set membership changed'')
      | Some s \<Rightarrow>
          let want = o1 \<lparr> sd_CreatedAt := sd_CreatedAt (ds_Operation s) \<rparr> in
          andThen (validateDelegation want) (\<lambda>_.
          if want \<noteq> ds_Operation s then Inl (Err ''delegation set membership changed'')
          else andThen (retrySet byOp os) (\<lambda>rest. Inr (s # rest))))"

definition scheduleNew :: "Env \<Rightarrow> bytes \<Rightarrow> delegation_map \<Rightarrow> SpendingDelegation list \<Rightarrow> bytes \<Rightarrow> u32 \<Rightarrow> SpendingDelegationSnapshot list act" where
  "scheduleNew env key all members credentialID signCount =
     (let vault = sd_VaultID (hd members);
          live = filter (\<lambda>s. sd_VaultID (ds_Operation s) = vault \<and> \<not> delegationTerminal s) (map snd all)
      in
      actBind (actRead (\<lambda>_. if list_ex (\<lambda>m. map_of all (sd_OperationID m) \<noteq> None) members
                            then Inl (Err ''delegation operation already bound'') else Inr ())) (\<lambda>_.
      actBind (actRead (\<lambda>_. forEach validateDelegation members)) (\<lambda>_.
      actBind (actRead (\<lambda>l. delegationEnrolledCredentialID vault key (lg_db l))) (\<lambda>enrolled.
      actBind (actRead (\<lambda>_. if credentialID = [] \<or> credentialID \<noteq> enrolled
                            then Inl (Err ''delegation vault credential mismatch'') else Inr ())) (\<lambda>_.
      actBind (advanceSignCountLocked (env_now env) vault credentialID signCount) (\<lambda>_.
      actBind (actRead (\<lambda>_.
        if list_ex (\<lambda>s. list_ex (\<lambda>m. sd_InputTxid (ds_Operation s) = sd_InputTxid m \<and> sd_InputVout (ds_Operation s) = sd_InputVout m)
             members) live then Inl ErrVtxoOperationActive
        else if length live + length members > 256 then Inl (Err ''Light delegation capacity reached'') else Inr ())) (\<lambda>_.
      actBind (actRead (\<lambda>l. forEach (rejectDelegationPaymentOverlap key (lg_db l)) members)) (\<lambda>_.
      actBind (actRead (rejectActiveSpendingRenewal vault)) (\<lambda>_.
      actBind (actDB (\<lambda>l. foldRes (insertDelegationOperation key) (lg_db l) members)) (\<lambda>_.
      actPure (map (\<lambda>m. \<lparr> ds_Operation = m, ds_Events = [] \<rparr>) members)))))))))))"

definition scheduleBody :: "Env \<Rightarrow> SpendingDelegation list \<Rightarrow> bytes \<Rightarrow> u32 \<Rightarrow> bytes \<Rightarrow> SpendingDelegationSnapshot list act" where
  "scheduleBody env members credentialID signCount key =
     (let n = length members; first = hd members in
      actBind (actRead (\<lambda>l. loadSpendingDelegations (lg_db l) key)) (\<lambda>all.
      actBind (observeEconomicOutflowsLocked (env_write0 env)) (\<lambda>_.
      actBind (actRead (\<lambda>_. forEach (setMemberBound first n) (zip [0..<n] members))) (\<lambda>_.
      actBind (actRead (\<lambda>_. setMembersDistinct [] [] members)) (\<lambda>_.
      let grouped = filter (\<lambda>s. sd_SetID (ds_Operation s) = sd_SetID first) (map snd all) in
      if grouped \<noteq> [] then
        actRead (\<lambda>_. if length grouped \<noteq> n then Inl (Err ''delegation set membership changed'')
                     else retrySet (map (\<lambda>s. (sd_OperationID (ds_Operation s), s)) grouped) members)
      else scheduleNew env key all members credentialID signCount)))))"

definition ScheduleVtxoDelegationSet :: "Env \<Rightarrow> SpendingDelegation list \<Rightarrow> bytes \<Rightarrow> u32 \<Rightarrow> SpendingDelegationSnapshot list act" where
  "ScheduleVtxoDelegationSet env plans credentialID signCount l =
     (if length plans < 1 \<or> length plans > 50 then (Inl (Err ''delegation set size must be 1..50''), l)
      else withSpendingRenewalTx env
        (scheduleBody env (map (\<lambda>p. p \<lparr> sd_CreatedAt := formatRFC3339 (env_pre env) \<rparr>) plans) credentialID signCount) l)"

text \<open>What \<open>claimed\<close> checks against the rest of the ledger.\<close>

definition claimChecks :: "time \<Rightarrow> delegation_map \<Rightarrow> SpendingDelegationSnapshot \<Rightarrow> int \<Rightarrow> Ledger \<Rightarrow> unit res" where
  "claimChecks now all s allowance l =
     (let vault = sd_VaultID (ds_Operation s) in
      if list_ex (\<lambda>other. sd_VaultID (ds_Operation other) = vault \<and> \<not> delegationTerminal other \<and> ds_Events other \<noteq> []) (map snd all)
        then Inl ErrVtxoOperationActive
      else
        andThen (rejectConcurrentVtxoOperationLocked vault [] l) (\<lambda>_.
        andThen (rejectActiveSpendingRenewal vault l) (\<lambda>_.
        andThen (spentInWindow now vault l) (\<lambda>used.
        if allowance < 0 \<or> used > allowance \<or> sd_FeeSats (ds_Operation s) > allowance - used
        then Inl ErrPeriodAllowanceExceeded else Inr ()))))"

definition advanceBody :: "Env \<Rightarrow> SpendingDelegationEvent \<Rightarrow> int \<Rightarrow> bytes \<Rightarrow> SpendingDelegationSnapshot act" where
  "advanceBody env e allowance key =
     actBind (actRead (\<lambda>l. loadSpendingDelegations (lg_db l) key)) (\<lambda>all.
     actBind (observeEconomicOutflowsLocked (env_write0 env)) (\<lambda>_.
     case map_of all (de_OperationID e) of
       None \<Rightarrow> actRead (\<lambda>_. Inl (Err ''Light delegation unavailable''))
     | Some s \<Rightarrow>
         actBind (actRead (\<lambda>_. delegationStep s e)) (\<lambda>fresh.
         if \<not> fresh then actPure s
         else
           actBind (actRead (\<lambda>_. delegationGuard s (de_Phase e) (env_now env))) (\<lambda>_.
           actBind (actRead (\<lambda>l. if de_Phase e = ''claimed'' then claimChecks (env_now env) all s allowance l else Inr ())) (\<lambda>_.
           actBind (actDB (\<lambda>l. insertDelegationEvent key e (lg_db l))) (\<lambda>_.
           actPure (s \<lparr> ds_Events := AList.update (de_Phase e) e (ds_Events s) \<rparr>)))))))"

definition AdvanceSpendingDelegation :: "Env \<Rightarrow> SpendingDelegationEvent \<Rightarrow> int \<Rightarrow> SpendingDelegationSnapshot act" where
  "AdvanceSpendingDelegation env e allowance =
     withSpendingRenewalTx env (advanceBody env (e \<lparr> de_CreatedAt := formatRFC3339 (env_pre env) \<rparr>) allowance)"

lemma renewalCredential_frame:
  assumes "renewalCredential now v p c n l = (r, l')"
  shows "\<exists>ns. l' = l \<lparr> lg_db := lg_db l \<lparr> db_webauthn_sign_count := ns \<rparr> \<rparr>"
proof (cases "l' = l")
  case True
  then show ?thesis by (intro exI [of _ "db_webauthn_sign_count (lg_db l)"]) simp
next
  case False
  then have "advanceSignCountLocked now v c n l = (r, l')" using assms by (auto simp: renewalCredential_def actRead_def split: if_splits)
  from advanceSignCount_frame [OF this] show ?thesis by blast
qed

end
