(* ===== verification/Ledger_Calls.thy ===== *)
theory Ledger_Calls
  imports Spend_Facts Journal_Ledger
begin

text \<open>
  The ledger as one system: its writing calls as a datatype, what each call does to the stored operations
  (\<open>exec_spend\<close>), the ledgers reachable by calls in any order with any clock and any failures, and the contract of
  an invariant over them (\<open>ledger_invariant\<close>).
\<close>

section \<open>Calls\<close>

text \<open>The calls that write the ledger. \<open>exec\<close> runs one of them and forgets its result value.\<close>

datatype ledger_call =
    CReserve VtxoOperation "VtxoOperationInput list" int
  | CTransition string VtxoOperation
  | CCommitSigned VtxoOperation bytes u32
  | CAdvanceSignCount string bytes u32
  | CReserveRenewal SpendingRenewalOperation int
  | CAppendRenewal SpendingRenewalEvent bytes u32
  | CSchedule "SpendingDelegation list" bytes u32
  | CAdvanceDelegation SpendingDelegationEvent int

definition forget :: "'a res \<times> Ledger \<Rightarrow> unit res \<times> Ledger" where
  "forget x = (case x of (Inl e, l) \<Rightarrow> (Inl e, l) | (Inr _, l) \<Rightarrow> (Inr (), l))"

fun exec :: "Env \<Rightarrow> ledger_call \<Rightarrow> Ledger \<Rightarrow> unit res \<times> Ledger" where
  "exec env (CReserve r inputs cap) l = ReserveVtxoOperation env r inputs cap l"
| "exec env (CTransition expected r) l = forget (TransitionVtxoOperation expected r l)"
| "exec env (CCommitSigned r cred n) l = forget (CommitSignedVtxoOperation env r cred n l)"
| "exec env (CAdvanceSignCount v cred n) l = AdvanceSignCount (env_now env) v cred n l"
| "exec env (CReserveRenewal r allowance) l = forget (ReserveSpendingRenewal env r allowance l)"
| "exec env (CAppendRenewal e cred n) l = forget (AppendSpendingRenewalEvent env e cred n l)"
| "exec env (CSchedule plans cred n) l = forget (ScheduleVtxoDelegationSet env plans cred n l)"
| "exec env (CAdvanceDelegation e allowance) l = forget (AdvanceSpendingDelegation env e allowance l)"

lemma forget_Inr_iff: "forget x = (Inr (), l) \<longleftrightarrow> (\<exists>y. x = (Inr y, l))"
  by (cases x) (auto simp: forget_def split: sum.splits)

lemma forget_Inl_iff: "forget x = (Inl e, l) \<longleftrightarrow> x = (Inl e, l)"
  by (cases x) (auto simp: forget_def split: sum.splits)

lemma snd_forget [simp]: "snd (forget x) = snd x"
  by (cases x) (auto simp: forget_def split: sum.splits)

section \<open>The key and the network never change\<close>

named_theorems keeps \<open>actions that keep the key and the network\<close>

definition keyKept :: "Ledger \<Rightarrow> Ledger \<Rightarrow> bool" where
  "keyKept l l' \<longleftrightarrow> lg_integrityKey l' = lg_integrityKey l \<and> lg_network l' = lg_network l"

interpretation key_frame: action_frame keyKept
  by unfold_locales (auto simp: keyKept_def)

abbreviation keepsKey :: "'a act \<Rightarrow> bool" where "keepsKey \<equiv> frames keyKept"

lemma keepsKey_def: "keepsKey m \<longleftrightarrow> (\<forall>l. lg_integrityKey (snd (m l)) = lg_integrityKey l \<and> lg_network (snd (m l)) = lg_network l)"
  by (simp add: frames_def keyKept_def)

lemmas key_frame.frame_intros [keeps]

lemma keepsKey_basic [keeps]: "keepsKey (actDB h)" "keepsKey (advanceSignCountLocked now v c n)"
  by (auto simp: keepsKey_def actDB_def advanceSignCountLocked_def split: sum.splits option.splits prod.splits)

lemma keepsKey_renewalTx [keeps]: "(\<And>key. keepsKey (body key)) \<Longrightarrow> keepsKey (withSpendingRenewalTx env body)"
proof -
  assume b: "\<And>key. keepsKey (body key)"
  have "keepsKey (inTx (env_commit env)
    (actBind (body key) (\<lambda>x. actBind (observeEconomicOutflowsLocked (env_write env)) (\<lambda>_. actPure x))))" for key
    by (intro keeps b)
  then show ?thesis by (simp add: keepsKey_def withSpendingRenewalTx_def split: sum.splits)
qed

lemma keepsKey_credential [keeps]: "keepsKey (renewalCredential now v p c n)"
  unfolding keepsKey_def
proof
  fix l
  obtain r l' where e: "renewalCredential now v p c n l = (r, l')" by fastforce
  from renewalCredential_frame [OF e]
  show "lg_integrityKey (snd (renewalCredential now v p c n l)) = lg_integrityKey l \<and>
    lg_network (snd (renewalCredential now v p c n l)) = lg_network l" by (auto simp: e)
qed

lemma keepsKey_bodies:
  "keepsKey (reserveBody now w r inputs cap)" "keepsKey (reserveRenewalBody env r2 a key)"
  "keepsKey (appendRenewalBody env e c n key)" "keepsKey (scheduleBody env ms c n key)" "keepsKey (advanceBody env e2 a key)"
  unfolding reserveBody_def reserveRenewalBody_def reserveRenewalNew_def appendRenewalBody_def scheduleBody_def scheduleNew_def
    advanceBody_def Let_def
  by (intro keeps; auto intro!: keeps split: option.splits)+

lemma exec_keepsKey: "exec env c l = (res, l') \<Longrightarrow> lg_integrityKey l' = lg_integrityKey l \<and> lg_network l' = lg_network l"
proof -
  have "lg_integrityKey (snd (exec env c l)) = lg_integrityKey l \<and> lg_network (snd (exec env c l)) = lg_network l"
  proof (cases c)
    case (CTransition e r)
    then show ?thesis by (auto simp: TransitionVtxoOperation_def Let_def split: sum.splits)
  next
    case (CCommitSigned r cr n)
    have k: "keepsKey (actBind (advanceSignCountLocked t v cr n) (\<lambda>_. actPure x))" for t v and x :: "VtxoOperation \<times> bool"
      by (intro keeps)
    have "lg_integrityKey (snd (commitSignedBody t s cr n l)) = lg_integrityKey l \<and> lg_network (snd (commitSignedBody t s cr n l)) = lg_network l" for t s
      using k [unfolded keepsKey_def] by (simp add: commitSignedBody_def Let_def split: sum.splits prod.splits)
    then have "lg_integrityKey l1 = lg_integrityKey l \<and> lg_network l1 = lg_network l" if "commitSignedBody t s cr n l = (x, l1)" for t s x l1
      using that by (metis snd_conv)
    with CCommitSigned show ?thesis
      by (auto simp: CommitSignedVtxoOperation_def split: sum.splits prod.splits)
  next
    case (CAdvanceSignCount v cr n)
    then show ?thesis using keepsKey_basic(2) [unfolded keepsKey_def] by (simp add: AdvanceSignCount_def)
  next
    case (CReserve r i c)
    then show ?thesis using key_frame.frame_inTx [OF keepsKey_bodies(1), unfolded keepsKey_def] by (simp add: ReserveVtxoOperation_def)
  next
    case (CReserveRenewal r a)
    then show ?thesis using keepsKey_renewalTx [OF keepsKey_bodies(2), unfolded keepsKey_def] by (simp add: ReserveSpendingRenewal_def)
  next
    case (CAppendRenewal e cr n)
    then show ?thesis using keepsKey_renewalTx [OF keepsKey_bodies(3), unfolded keepsKey_def]
      by (simp add: AppendSpendingRenewalEvent_def Let_def split: sum.splits)
  next
    case (CSchedule ps cr n)
    then show ?thesis using keepsKey_renewalTx [OF keepsKey_bodies(4), unfolded keepsKey_def]
      by (simp add: ScheduleVtxoDelegationSet_def)
  next
    case (CAdvanceDelegation e a)
    then show ?thesis using keepsKey_renewalTx [OF keepsKey_bodies(5), unfolded keepsKey_def]
      by (simp add: AdvanceSpendingDelegation_def)
  qed
  then show "exec env c l = (res, l') \<Longrightarrow> lg_integrityKey l' = lg_integrityKey l \<and> lg_network l' = lg_network l" by simp
qed

section \<open>How stored operations evolve\<close>

definition authenticRows :: "bytes \<Rightarrow> DB \<Rightarrow> bool" where
  "authenticRows key db \<longleftrightarrow> distinct (map op_OperationID (db_vtxo_operation db)) \<and>
     (\<forall>r\<in>set (db_vtxo_operation db). VerifyVtxoOperation r key = Inr ()) \<and>
     (\<forall>i\<in>set (db_vtxo_operation_input db). VerifyVtxoOperationInput i key = Inr () \<and>
        vi_OperationID i \<in> set (map op_OperationID (db_vtxo_operation db)))"

text \<open>A stored row stays as it is or moves along the state graph under the same id and vault, sealed again.\<close>

definition evolves :: "bytes \<Rightarrow> VtxoOperation \<Rightarrow> VtxoOperation \<Rightarrow> bool" where
  "evolves key r r' \<longleftrightarrow> r' = r \<or> op_OperationID r' = op_OperationID r \<and> op_VaultID r' = op_VaultID r \<and>
     validVtxoTransition\<^sup>+\<^sup>+ (op_State r) (op_State r') \<and> VerifyVtxoOperation r' key = Inr ()"

lemma evolves_refl [simp]: "evolves key r r"
  by (simp add: evolves_def)

lemma evolves_trans: "evolves key r s \<Longrightarrow> evolves key s t \<Longrightarrow> evolves key r t"
  by (auto simp: evolves_def)

lemma evolves_ids: "evolves key r r' \<Longrightarrow> op_OperationID r' = op_OperationID r \<and> op_VaultID r' = op_VaultID r"
  by (auto simp: evolves_def)

lemma evolves_verified: "evolves key r r' \<Longrightarrow> VerifyVtxoOperation r key = Inr () \<Longrightarrow> VerifyVtxoOperation r' key = Inr ()"
  by (auto simp: evolves_def)

lemma transition_preds:
  assumes "validVtxoTransition s t"
  shows "vtxoStateLocksInputs t \<Longrightarrow> vtxoStateLocksInputs s" "vtxoStateBlocksNewOperation t \<Longrightarrow> vtxoStateBlocksNewOperation s"
    "s \<in> {vtxoStateReserved, vtxoStateSigned, vtxoStateSubmitted}"
  using assms by (auto simp: validVtxoTransition_def vtxo_state_preds vtxo_states split: if_splits)

lemma transition_closure_preds:
  assumes "validVtxoTransition\<^sup>+\<^sup>+ s t"
  shows "vtxoStateLocksInputs t \<Longrightarrow> vtxoStateLocksInputs s" "vtxoStateBlocksNewOperation t \<Longrightarrow> vtxoStateBlocksNewOperation s"
    "s \<in> {vtxoStateReserved, vtxoStateSigned, vtxoStateSubmitted}"
  using assms by (induction rule: tranclp_induct) (use transition_preds in blast)+

lemma evolves_locks: "evolves key r r' \<Longrightarrow> vtxoStateLocksInputs (op_State r') \<Longrightarrow> vtxoStateLocksInputs (op_State r)"
  using transition_closure_preds(1) by (auto simp: evolves_def)

lemma evolves_blocks: "evolves key r r' \<Longrightarrow> vtxoStateBlocksNewOperation (op_State r') \<Longrightarrow> vtxoStateBlocksNewOperation (op_State r)"
  using transition_closure_preds(2) by (auto simp: evolves_def)

lemma evolves_terminal:
  "evolves key r r' \<Longrightarrow> op_State r \<in> {vtxoStateFinalized, vtxoStateAborted, vtxoStateUnresolved} \<Longrightarrow> r' = r"
  using transition_closure_preds(3) [of "op_State r" "op_State r'"] by (auto simp: evolves_def vtxo_states)

abbreviation evolved :: "bytes \<Rightarrow> VtxoOperation list \<Rightarrow> VtxoOperation list \<Rightarrow> bool" where
  "evolved key \<equiv> list_all2 (evolves key)"

lemma evolved_refl: "evolved key rs rs"
  by (simp add: list.rel_refl)

lemma evolved_trans: "evolved key rs ss \<Longrightarrow> evolved key ss ts \<Longrightarrow> evolved key rs ts"
  by (rule list_all2_trans [of "evolves key" "evolves key" "evolves key"]) (auto intro: evolves_trans)

lemma evolved_ids: "evolved key rs ss \<Longrightarrow> map op_OperationID ss = map op_OperationID rs"
  by (induction rule: list_all2_induct) (auto dest: evolves_ids)

lemma evolved_origin: "evolved key rs ss \<Longrightarrow> s \<in> set ss \<Longrightarrow> \<exists>r\<in>set rs. evolves key r s"
  by (metis in_set_conv_nth list_all2_conv_all_nth)

lemma evolved_map:
  assumes "\<And>x. x \<in> set xs \<Longrightarrow> p x \<Longrightarrow> evolves key x (f x)"
  shows "evolved key xs (map (\<lambda>x. if p x then f x else x) xs)"
  using assms by (simp add: list_all2_map2 list.rel_refl_strong)

text \<open>An update of the matching row is an evolution when the new state follows the old one.\<close>

lemma update_evolved:
  assumes "SealVtxoOperation r key = Inr s" "validVtxoTransition st (op_State r)"
    and "updateVtxoOperation st s db = Inr (n, db')"
  shows "evolved key (db_vtxo_operation db) (db_vtxo_operation db')" "db' = db \<lparr> db_vtxo_operation := db_vtxo_operation db' \<rparr>"
proof -
  note sr = SealVtxoOperation_InrD [OF assms(1)]
  have "op_State s = op_State r" by (subst sr(1)) simp
  then have "evolves key x s" if "updateMatches st s x" for x
    using that assms(2) sr(2) by (auto simp: evolves_def updateMatches_def)
  then show "evolved key (db_vtxo_operation db) (db_vtxo_operation db')" "db' = db \<lparr> db_vtxo_operation := db_vtxo_operation db' \<rparr>"
    using assms(3) by (auto simp: updateVtxoOperation_def Let_def updateOps_def intro!: evolved_map split: if_splits)
qed

lemma abortOne_evolved:
  assumes "abortOne key db r = Inr db'" "VerifyVtxoOperation r key = Inr ()"
    and "\<And>x. x \<in> set (db_vtxo_operation db) \<Longrightarrow> op_OperationID x = op_OperationID r \<Longrightarrow> op_State x = vtxoStateReserved \<Longrightarrow> x = r"
  shows "evolved key (db_vtxo_operation db) (db_vtxo_operation db')"
proof -
  obtain s where s: "SealVtxoOperation (r \<lparr> op_State := vtxoStateAborted \<rparr>) key = Inr s"
    "db' = updateOps (\<lambda>x. op_OperationID x = op_OperationID s \<and> op_State x = vtxoStateReserved)
       (\<lambda>x. x \<lparr> op_State := op_State s, op_IntegrityMAC := op_IntegrityMAC s \<rparr>) db"
    using assms(1) by (auto simp: abortOne_def andThen_Inr_iff)
  note sr = SealVtxoOperation_InrD [OF s(1)]
  have f: "op_OperationID s = op_OperationID r" "op_State s = vtxoStateAborted" "op_VaultID s = op_VaultID r"
    by (subst sr(1), simp)+
  have "evolves key x (x \<lparr> op_State := op_State s, op_IntegrityMAC := op_IntegrityMAC s \<rparr>)"
    if "x \<in> set (db_vtxo_operation db)" "op_OperationID x = op_OperationID s \<and> op_State x = vtxoStateReserved" for x
  proof -
    have "x = r" using assms(3) that f(1) by simp
    then have "x \<lparr> op_State := op_State s, op_IntegrityMAC := op_IntegrityMAC s \<rparr> = s"
      unfolding f(2) using sr(1) by simp
    then show ?thesis using that(2) sr(2) f \<open>x = r\<close> by (auto simp: evolves_def validVtxoTransition_def)
  qed
  then show ?thesis unfolding s(2) updateOps_def by (simp add: evolved_map)
qed

lemma evolves_to_reserved: "evolves key r x \<Longrightarrow> op_State x = vtxoStateReserved \<Longrightarrow> x = r"
proof -
  have "t \<noteq> vtxoStateReserved" if "validVtxoTransition s t" for s t
    using that by (auto simp: validVtxoTransition_def vtxo_states split: if_splits)
  have "t \<noteq> vtxoStateReserved" if "validVtxoTransition\<^sup>+\<^sup>+ s t" for s t
    using that by (induction rule: tranclp_induct) (use \<open>\<And>t s. validVtxoTransition s t \<Longrightarrow> t \<noteq> vtxoStateReserved\<close> in blast)+
  then show "evolves key r x \<Longrightarrow> op_State x = vtxoStateReserved \<Longrightarrow> x = r" by (auto simp: evolves_def)
qed

lemma collectExpired_InrD:
  assumes "foldRes (collectExpired now key) [] rs = Inr out"
  shows "set out \<subseteq> set rs"
proof -
  have "set out \<subseteq> set rs \<and> True"
    by (rule foldRes_preserves [where P = "\<lambda>acc. set acc \<subseteq> set rs \<and> True", OF assms])
       (auto simp: collectExpired_def andThen_Inr_iff split: option.splits if_splits)
  then show ?thesis by simp
qed

lemma abortExpired_evolved:
  assumes "abortExpiredVtxoLocked now v l = Inr db" "authenticRows (lg_integrityKey l) (lg_db l)"
  shows "evolved (lg_integrityKey l) (db_vtxo_operation (lg_db l)) (db_vtxo_operation db)"
    "db = lg_db l \<lparr> db_vtxo_operation := db_vtxo_operation db \<rparr>"
proof -
  let ?key = "lg_integrityKey l" and ?ops = "db_vtxo_operation (lg_db l)"
  from assms(1) obtain expired where
    e: "foldRes (collectExpired now ?key) [] (filter (isExpiredCandidate now v) ?ops) = Inr expired"
      "foldRes (abortOne ?key) (lg_db l) expired = Inr db"
    unfolding abortExpiredVtxoLocked_def andThen_Inr_iff integrityKeyCopy_Inr_iff by blast
  have in_ops: "r \<in> set ?ops \<and> VerifyVtxoOperation r ?key = Inr ()" if "r \<in> set expired" for r
    using that collectExpired_InrD [OF e(1)] assms(2) by (auto simp: authenticRows_def)
  have "evolved ?key ?ops (db_vtxo_operation db) \<and> (\<exists>ops. db = lg_db l \<lparr> db_vtxo_operation := ops \<rparr>)"
  proof (rule foldRes_preserves [where P = "\<lambda>d. evolved ?key ?ops (db_vtxo_operation d) \<and>
      (\<exists>ops. d = lg_db l \<lparr> db_vtxo_operation := ops \<rparr>)", OF e(2)])
    show "evolved ?key ?ops (db_vtxo_operation (lg_db l)) \<and> (\<exists>ops. lg_db l = lg_db l \<lparr> db_vtxo_operation := ops \<rparr>)"
      by (auto simp: evolved_refl intro: exI [of _ ?ops])
  next
    fix d r d'
    assume r: "r \<in> set expired" and P: "evolved ?key ?ops (db_vtxo_operation d) \<and> (\<exists>ops. d = lg_db l \<lparr> db_vtxo_operation := ops \<rparr>)"
      and a: "abortOne ?key d r = Inr d'"
    have "x = r" if x: "x \<in> set (db_vtxo_operation d)" "op_OperationID x = op_OperationID r" "op_State x = vtxoStateReserved" for x
    proof -
      obtain r0 where r0: "r0 \<in> set ?ops" "evolves ?key r0 x" using evolved_origin P x(1) by blast
      then have "op_OperationID r0 = op_OperationID r" using evolves_ids [OF r0(2)] x(2) by simp
      then have "r0 = r" using assms(2) in_ops [OF r] r0(1) by (auto simp: authenticRows_def distinct_map inj_on_def)
      with evolves_to_reserved [OF r0(2) x(3)] show ?thesis by simp
    qed
    then have "evolved ?key (db_vtxo_operation d) (db_vtxo_operation d')" using abortOne_evolved a in_ops [OF r] by blast
    with P have "evolved ?key ?ops (db_vtxo_operation d')" using evolved_trans by blast
    moreover have "\<exists>ops. d' = lg_db l \<lparr> db_vtxo_operation := ops \<rparr>"
      using a P by (auto simp: abortOne_def andThen_Inr_iff updateOps_def)
    ultimately show "evolved ?key ?ops (db_vtxo_operation d') \<and> (\<exists>ops. d' = lg_db l \<lparr> db_vtxo_operation := ops \<rparr>)" by blast
  qed
  then show "evolved ?key ?ops (db_vtxo_operation db)" "db = lg_db l \<lparr> db_vtxo_operation := db_vtxo_operation db \<rparr>" by auto
qed

section \<open>Calls outside the reservation\<close>

text \<open>The tables of the spend operations: rows and inputs.\<close>

abbreviation opsTab :: "Ledger \<Rightarrow> VtxoOperation list" where "opsTab l \<equiv> db_vtxo_operation (lg_db l)"
abbreviation inTab :: "Ledger \<Rightarrow> VtxoOperationInput list" where "inTab l \<equiv> db_vtxo_operation_input (lg_db l)"

definition spendKept :: "Ledger \<Rightarrow> Ledger \<Rightarrow> bool" where
  "spendKept l l' \<longleftrightarrow> opsTab l' = opsTab l \<and> inTab l' = inTab l"

interpretation spend_frame: action_frame spendKept
  by unfold_locales (auto simp: spendKept_def)

abbreviation keepsSpend :: "'a act \<Rightarrow> bool" where "keepsSpend \<equiv> frames spendKept"

lemma keepsSpend_def: "keepsSpend m \<longleftrightarrow> (\<forall>l. opsTab (snd (m l)) = opsTab l \<and> inTab (snd (m l)) = inTab l)"
  by (simp add: frames_def spendKept_def)

named_theorems spends \<open>actions that leave the spend tables alone\<close>

lemmas spend_frame.frame_intros [spends]

lemma keepsSpend_advance [spends]: "keepsSpend (advanceSignCountLocked now v c n)"
  unfolding keepsSpend_def
proof
  fix l
  obtain r l' where e: "advanceSignCountLocked now v c n l = (r, l')" by fastforce
  obtain rows where "l' = l \<lparr> lg_db := lg_db l \<lparr> db_webauthn_sign_count := rows \<rparr> \<rparr>" using advanceSignCount_frame [OF e] by blast
  then show "opsTab (snd (advanceSignCountLocked now v c n l)) = opsTab l \<and> inTab (snd (advanceSignCountLocked now v c n l)) = inTab l"
    by (simp add: e)
qed

lemma keepsSpend_credential [spends]: "keepsSpend (renewalCredential now v p c n)"
  unfolding keepsSpend_def
proof
  fix l
  obtain r l' where e: "renewalCredential now v p c n l = (r, l')" by fastforce
  from renewalCredential_frame [OF e]
  show "opsTab (snd (renewalCredential now v p c n l)) = opsTab l \<and> inTab (snd (renewalCredential now v p c n l)) = inTab l"
    by (auto simp: e)
qed

lemma keepsSpend_DB [spends]:
  "(\<And>l d. h l = Inr d \<Longrightarrow> db_vtxo_operation d = opsTab l \<and> db_vtxo_operation_input d = inTab l) \<Longrightarrow> keepsSpend (actDB h)"
  by (rule spend_frame.frame_DB) (simp add: spendKept_def)

lemma keepsSpend_renewalTx [spends]: "(\<And>key. keepsSpend (body key)) \<Longrightarrow> keepsSpend (withSpendingRenewalTx env body)"
proof -
  assume b: "\<And>key. keepsSpend (body key)"
  have "keepsSpend (inTx (env_commit env)
    (actBind (body key) (\<lambda>x. actBind (observeEconomicOutflowsLocked (env_write env)) (\<lambda>_. actPure x))))" for key
    by (intro spends b)
  then show ?thesis by (simp add: keepsSpend_def withSpendingRenewalTx_def split: sum.splits)
qed

lemma insertRenewalOperation_InrD:
  "insertRenewalOperation key r db = Inr d \<Longrightarrow> \<exists>row. jo_operation_id row = ro_OperationID r \<and> jo_vault_id row = ro_VaultID r \<and>
     d = db \<lparr> db_light_renewal_operation := db_light_renewal_operation db @ [row] \<rparr>"
  by (auto simp: insertRenewalOperation_def Let_def split: if_splits intro!: exI)

lemma insertRenewalEvent_InrD:
  "insertRenewalEvent key e db = Inr d \<Longrightarrow> \<exists>row. je_operation_id row = re_OperationID e \<and> je_phase row = re_Phase e \<and>
     d = db \<lparr> db_light_renewal_event := db_light_renewal_event db @ [row] \<rparr>"
  by (auto simp: insertRenewalEvent_def Let_def split: if_splits intro!: exI)

lemma insertDelegationOperation_InrD:
  "insertDelegationOperation key db o1 = Inr d \<Longrightarrow> \<exists>row. jo_operation_id row = sd_OperationID o1 \<and> jo_vault_id row = sd_VaultID o1 \<and>
     d = db \<lparr> db_light_delegation_operation := db_light_delegation_operation db @ [row] \<rparr>"
  by (auto simp: insertDelegationOperation_def Let_def split: if_splits intro!: exI)

lemma insertDelegationOperations_InrD:
  assumes "foldRes (insertDelegationOperation key) db ms = Inr d"
  shows "\<exists>rows. d = db \<lparr> db_light_delegation_operation := db_light_delegation_operation db @ rows \<rparr>"
proof (rule foldRes_preserves [where P = "\<lambda>d. \<exists>rows. d = db \<lparr> db_light_delegation_operation := db_light_delegation_operation db @ rows \<rparr>", OF assms])
  show "\<exists>rows. db = db \<lparr> db_light_delegation_operation := db_light_delegation_operation db @ rows \<rparr>" by (rule exI [of _ "[]"]) simp
next
  fix s x s'
  assume "\<exists>rows. s = db \<lparr> db_light_delegation_operation := db_light_delegation_operation db @ rows \<rparr>"
    "insertDelegationOperation key s x = Inr s'"
  then show "\<exists>rows. s' = db \<lparr> db_light_delegation_operation := db_light_delegation_operation db @ rows \<rparr>"
    using insertDelegationOperation_InrD [of key s x s'] by auto
qed

lemma keepsSpend_inserts [spends]:
  "keepsSpend (actDB (\<lambda>l. insertRenewalOperation key r (lg_db l)))" "keepsSpend (actDB (\<lambda>l. insertRenewalEvent key e (lg_db l)))"
  "keepsSpend (actDB (\<lambda>l. insertDelegationEvent key e2 (lg_db l)))"
  "keepsSpend (actDB (\<lambda>l. foldRes (insertDelegationOperation key) (lg_db l) ms))"
  by (rule keepsSpend_DB; force dest: insertRenewalOperation_InrD insertRenewalEvent_InrD insertDelegationEvent_InrD
      insertDelegationOperations_InrD)+

lemma keepsSpend_bodies:
  "keepsSpend (reserveRenewalBody env r2 a key)" "keepsSpend (appendRenewalBody env e c n key)"
  "keepsSpend (scheduleBody env ms c n key)" "keepsSpend (advanceBody env e2 a key)"
  unfolding reserveRenewalBody_def reserveRenewalNew_def appendRenewalBody_def scheduleBody_def scheduleNew_def advanceBody_def Let_def
  by (intro spends; auto intro!: spends split: option.splits)+

section \<open>What a call does to the spend tables\<close>

text \<open>A successful reservation: the stored rows evolve (expired ones are aborted), one reserved row and its inputs are
  added, and what was live among the rows neither fenced the vault nor held one of the outpoints.\<close>

definition reservedStep :: "bytes \<Rightarrow> Ledger \<Rightarrow> Ledger \<Rightarrow> bool" where
  "reservedStep key l l' \<longleftrightarrow> (\<exists>ops s rows.
     evolved key (opsTab l) ops \<and> opsTab l' = ops @ [s] \<and> inTab l' = inTab l @ rows \<and> op_State s = vtxoStateReserved \<and>
     op_OperationID s \<notin> set (map op_OperationID ops) \<and> VerifyVtxoOperation s key = Inr () \<and>
     (\<forall>i\<in>set rows. vi_OperationID i = op_OperationID s \<and> VerifyVtxoOperationInput i key = Inr ()) \<and>
     (\<forall>x\<in>set ops. op_VaultID x = op_VaultID s \<longrightarrow> \<not> vtxoStateBlocksNewOperation (op_State x)) \<and>
     (\<forall>x\<in>set ops. \<forall>i\<in>set (inTab l). \<forall>j\<in>set rows. op_OperationID x = vi_OperationID i \<longrightarrow>
        (vi_Txid i, vi_Vout i) = (vi_Txid j, vi_Vout j) \<longrightarrow> \<not> vtxoStateLocksInputs (op_State x)))"

lemma rejectConcurrent_InrD:
  assumes "rejectConcurrentVtxoOperationLocked v oid l = Inr ()" "x \<in> set (opsTab l)" "op_VaultID x = v" "op_OperationID x \<noteq> oid"
  shows "\<not> vtxoStateBlocksNewOperation (op_State x)"
  using assms by (auto simp: rejectConcurrentVtxoOperationLocked_def andThen_Inr_iff list_ex_iff opsOf_def split: if_splits)

lemma rejectOverlapping_InrD:
  assumes "rejectOverlappingVtxoInputs oid inputs l = Inr ()" "x \<in> set (opsTab l)" "i \<in> set (inTab l)" "j \<in> set inputs"
    and "op_OperationID x = vi_OperationID i" "(vi_Txid i, vi_Vout i) = (vi_Txid j, vi_Vout j)" "op_OperationID x \<noteq> oid"
  shows "\<not> vtxoStateLocksInputs (op_State x)"
proof -
  let ?hits = "sliceStable inputLess (filter (\<lambda>i. (vi_Txid i, vi_Vout i) \<in> set (map (\<lambda>i. (vi_Txid i, vi_Vout i)) inputs)) (inTab l))"
  let ?joined = "concat (map (\<lambda>i. map (\<lambda>r. (r, i)) (filter (\<lambda>r. op_OperationID r = vi_OperationID i) (opsTab l))) ?hits)"
  have "(vi_Txid i, vi_Vout i) \<in> (\<lambda>i. (vi_Txid i, vi_Vout i)) ` set inputs" using assms(4,6) by auto
  then have "i \<in> set ?hits" using assms(3) by simp
  then have "(x, i) \<in> set ?joined" using assms(2,5) by force
  moreover have "forEach (\<lambda>(r, i). if op_OperationID r = oid then Inr ()
      else if vtxoStateLocksInputs (op_State r) then Inl (Err ''vtxo outpoint already reserved'') else Inr ()) ?joined = Inr ()"
    using assms(1) unfolding rejectOverlappingVtxoInputs_def Let_def by (auto simp: andThen_Inr_iff split: if_splits)
  ultimately show ?thesis using assms(7) unfolding forEach_ok_iff by (auto split: if_splits)
qed

lemma reserve_reservedStep:
  assumes "ReserveVtxoOperation env r inputs cap l = (Inr (), l')" "authenticRows (lg_integrityKey l) (lg_db l)"
  shows "reservedStep (lg_integrityKey l) l l'"
proof -
  let ?key = "lg_integrityKey l"
  have st: "op_State r = vtxoStateReserved" and body: "reserveBody (env_now env) (env_write env) r inputs cap l = (Inr (), l')"
    using assms(1) by (auto simp: ReserveVtxoOperation_def inTx_Inr_iff split: if_splits)
  from reserveBody_InrD [OF body] obtain d1 d2 s d3 d4 where
    d1: "abortExpiredVtxoLocked (env_now env) (op_VaultID r) l = Inr d1" and
    ov: "rejectOverlappingVtxoInputs (op_OperationID r) inputs (l \<lparr> lg_db := d1 \<rparr>) = Inr ()" and
    co: "rejectConcurrentVtxoOperationLocked (op_VaultID r) (op_OperationID r) (l \<lparr> lg_db := d1 \<rparr>) = Inr ()" and
    d2: "invalidateArmedDelegations (env_now env) (op_VaultID r) inputs (l \<lparr> lg_db := d1 \<rparr>) = Inr d2" and
    s: "SealVtxoOperation r ?key = Inr s" and d3: "insertVtxoOperation s d2 = Inr d3" and
    d4: "foldRes (sealAndInsertInput (op_OperationID r) ?key) d3 inputs = Inr d4" and
    ob: "observeEconomicOutflowsLocked (env_write env) (l \<lparr> lg_db := d4 \<rparr>) = (Inr (), l')" by blast
  note sr = SealVtxoOperation_InrD [OF s]
  have f: "op_OperationID s = op_OperationID r" "op_VaultID s = op_VaultID r" "op_State s = op_State r" by (subst sr(1), simp)+
  have e: "evolved ?key (opsTab l) (db_vtxo_operation d1)" "db_vtxo_operation_input d1 = inTab l"
    using abortExpired_evolved [OF d1 assms(2)] by (auto, metis DB.select_convs(5) DB.surjective DB.update_convs(4))
  have t2: "db_vtxo_operation d2 = db_vtxo_operation d1" "db_vtxo_operation_input d2 = db_vtxo_operation_input d1"
    using invalidate_InrD [OF d2] by auto
  have t3: "d3 = d2 \<lparr> db_vtxo_operation := db_vtxo_operation d2 @ [s] \<rparr>"
    and fresh: "op_OperationID s \<notin> set (map op_OperationID (db_vtxo_operation d1))"
    using insertVtxoOperation_InrD [OF d3] t2(1) by simp_all
  obtain rows where rows: "list_all2 (inputOf (op_OperationID r) ?key) inputs rows"
    "d4 = d3 \<lparr> db_vtxo_operation_input := db_vtxo_operation_input d3 @ rows \<rparr>" using insertInputs_InrD [OF d4] by blast
  have from_input: "\<exists>i\<in>set inputs. inputOf (op_OperationID r) ?key i j" if "j \<in> set rows" for j
    using rows(1) that by (metis in_set_conv_nth list_all2_conv_all_nth)
  have l': "lg_db l' = d4" using observe_frame [OF ob] by simp
  have other: "op_OperationID x \<noteq> op_OperationID r" if "x \<in> set (db_vtxo_operation d1)" for x
    using that fresh f(1) by (metis image_eqI set_map)
  have nb: "\<not> vtxoStateBlocksNewOperation (op_State x)" if "x \<in> set (db_vtxo_operation d1)" "op_VaultID x = op_VaultID s" for x
    using rejectConcurrent_InrD [OF co, of x] that other f(2) by simp
  have no: "\<not> vtxoStateLocksInputs (op_State x)"
    if h: "x \<in> set (db_vtxo_operation d1)" "i \<in> set (inTab l)" "j \<in> set rows" "op_OperationID x = vi_OperationID i"
      "(vi_Txid i, vi_Vout i) = (vi_Txid j, vi_Vout j)" for x i j
  proof -
    obtain j0 where "j0 \<in> set inputs" "inputOf (op_OperationID r) ?key j0 j" using from_input [OF h(3)] by blast
    then show ?thesis
      using rejectOverlapping_InrD [OF ov, of x i j0] h other [OF h(1)] e(2) by (simp add: inputOf_def)
  qed
  have fi: "\<forall>j\<in>set rows. vi_OperationID j = op_OperationID s \<and> VerifyVtxoOperationInput j ?key = Inr ()"
    using from_input f(1) unfolding inputOf_def by metis
  show ?thesis unfolding reservedStep_def
  proof (intro exI conjI)
    show "opsTab l' = db_vtxo_operation d1 @ [s]" "inTab l' = inTab l @ rows" using t2 t3 rows(2) l' e(2) by simp_all
    show "op_State s = vtxoStateReserved" using f st by simp
    show "\<forall>x\<in>set (db_vtxo_operation d1). op_VaultID x = op_VaultID s \<longrightarrow> \<not> vtxoStateBlocksNewOperation (op_State x)" using nb by blast
    show "\<forall>x\<in>set (db_vtxo_operation d1). \<forall>i\<in>set (inTab l). \<forall>j\<in>set rows. op_OperationID x = vi_OperationID i \<longrightarrow>
      (vi_Txid i, vi_Vout i) = (vi_Txid j, vi_Vout j) \<longrightarrow> \<not> vtxoStateLocksInputs (op_State x)" using no by blast
  qed (use e(1) fresh sr(2) fi in blast)+
qed

lemma exec_spend:
  assumes "exec env c l = (res, l')" "authenticRows (lg_integrityKey l) (lg_db l)"
  shows "evolved (lg_integrityKey l) (opsTab l) (opsTab l') \<and> inTab l' = inTab l \<or>
    res = Inr () \<and> reservedStep (lg_integrityKey l) l l'"
proof -
  let ?key = "lg_integrityKey l"
  have same: "?thesis" if "opsTab l' = opsTab l \<and> inTab l' = inTab l" using that evolved_refl by simp
  have snd: "l' = snd (exec env c l)" using assms(1) by simp
  show ?thesis
  proof (cases c)
    case (CReserve r inputs cap)
    show ?thesis
    proof (cases res)
      case (Inr u)
      then show ?thesis using reserve_reservedStep assms CReserve by simp
    next
      case (Inl e)
      then have "lg_db l' = lg_db l" using assms(1) CReserve
        by (auto simp: ReserveVtxoOperation_def dest!: inTx_InlD split: if_splits)
      then show ?thesis using same by simp
    qed
  next
    case (CTransition expected r)
    have "evolved ?key (opsTab l) (opsTab l') \<and> inTab l' = inTab l"
    proof (cases "l' = l")
      case False
      with assms(1) CTransition obtain s n db where "validVtxoTransition expected (op_State r)" "SealVtxoOperation r ?key = Inr s"
        "updateVtxoOperation expected s (lg_db l) = Inr (n, db)" "lg_db l' = db"
        by (auto simp: TransitionVtxoOperation_def forget_def andThen_Inr_iff integrityKeyCopy_Inr_iff Let_def
          split: if_splits sum.splits prod.splits)
      then show ?thesis using update_evolved [of r ?key s expected "lg_db l" n db] by (metis DB.select_convs(5) DB.surjective DB.update_convs(4))
    qed (simp add: evolved_refl)
    then show ?thesis by simp
  next
    case (CCommitSigned r cr n)
    have "evolved ?key (opsTab l) (opsTab l') \<and> inTab l' = inTab l"
    proof (cases "l' = l")
      case False
      with assms(1) CCommitSigned obtain s x where s: "op_State r = vtxoStateSigned" "SealVtxoOperation r ?key = Inr s"
        "commitSignedBody (env_now env) s cr n l = (Inr (x, True), l')"
        by (auto simp: CommitSignedVtxoOperation_def forget_def andThen_Inr_iff integrityKeyCopy_Inr_iff
          split: if_splits sum.splits prod.splits)
      then obtain k db where u: "updateVtxoOperation vtxoStateReserved s (lg_db l) = Inr (k, db)"
        "advanceSignCountLocked (env_now env) (op_VaultID s) cr n (l \<lparr> lg_db := db \<rparr>) = (Inr (), l')"
        by (auto simp: commitSignedBody_def Let_def act_iffs andThen_Inr_iff split: if_splits sum.splits prod.splits)
      have "opsTab l' = db_vtxo_operation db \<and> inTab l' = db_vtxo_operation_input db"
        using keepsSpend_advance [unfolded keepsSpend_def, rule_format, of "env_now env" "op_VaultID s" cr n "l \<lparr> lg_db := db \<rparr>"] u(2) by simp
      moreover have "validVtxoTransition vtxoStateReserved (op_State r)" using s(1) by (simp add: validVtxoTransition_def)
      ultimately show ?thesis using update_evolved [OF s(2) _ u(1)] by (metis DB.select_convs(5) DB.surjective DB.update_convs(4))
    qed (simp add: evolved_refl)
    then show ?thesis by simp
  next
    case (CAdvanceSignCount v cr n)
    then show ?thesis using keepsSpend_advance [unfolded keepsSpend_def] snd by (intro same) (simp add: AdvanceSignCount_def)
  next
    case (CReserveRenewal r a)
    then show ?thesis using keepsSpend_renewalTx [OF keepsSpend_bodies(1), unfolded keepsSpend_def] snd
      by (intro same) (simp add: ReserveSpendingRenewal_def)
  next
    case (CAppendRenewal e cr n)
    then show ?thesis using keepsSpend_renewalTx [OF keepsSpend_bodies(2), unfolded keepsSpend_def] snd
      by (intro same) (simp add: AppendSpendingRenewalEvent_def Let_def split: sum.splits)
  next
    case (CSchedule ps cr n)
    then show ?thesis using keepsSpend_renewalTx [OF keepsSpend_bodies(3), unfolded keepsSpend_def] snd
      by (intro same) (simp add: ScheduleVtxoDelegationSet_def)
  next
    case (CAdvanceDelegation e a)
    then show ?thesis using keepsSpend_renewalTx [OF keepsSpend_bodies(4), unfolded keepsSpend_def] snd
      by (intro same) (simp add: AdvanceSpendingDelegation_def)
  qed
qed

section \<open>Reachable ledgers\<close>

text \<open>What the calls of other components may change: vaults, credentials, counters, the boarding and Ledger Savings tables, the
  sequence base and the attached sequence file; not the tables of the spends and journals, the key or the network.\<close>

definition otherChange :: "Ledger \<Rightarrow> Ledger \<Rightarrow> bool" where
  "otherChange l l' \<longleftrightarrow> lg_integrityKey l' = lg_integrityKey l \<and> lg_network l' = lg_network l \<and> opsTab l' = opsTab l \<and> inTab l' = inTab l \<and>
     db_light_renewal_operation (lg_db l') = db_light_renewal_operation (lg_db l) \<and>
     db_light_renewal_event (lg_db l') = db_light_renewal_event (lg_db l) \<and>
     db_light_delegation_operation (lg_db l') = db_light_delegation_operation (lg_db l) \<and>
     db_light_delegation_event (lg_db l') = db_light_delegation_event (lg_db l)"

interpretation other_frame: action_frame otherChange
  by unfold_locales (auto simp: otherChange_def)

inductive ledger_reach :: "bytes \<Rightarrow> Ledger \<Rightarrow> bool" for key where
  init: "freshLedger l \<Longrightarrow> lg_integrityKey l = key \<Longrightarrow> ledger_reach key l"
| call: "ledger_reach key l \<Longrightarrow> exec env c l = (res, l') \<Longrightarrow> ledger_reach key l'"
| other: "ledger_reach key l \<Longrightarrow> otherChange l l' \<Longrightarrow> ledger_reach key l'"

lemma reach_key: "ledger_reach key l \<Longrightarrow> lg_integrityKey l = key"
  by (induction rule: ledger_reach.induct) (auto dest: exec_keepsKey simp: otherChange_def)

lemma authentic_evolved:
  assumes "authenticRows key (lg_db l)" "evolved key (opsTab l) (opsTab l')" "inTab l' = inTab l"
  shows "authenticRows key (lg_db l')"
  using assms(1,3) evolved_ids [OF assms(2)] evolved_origin [OF assms(2)] evolves_verified
  unfolding authenticRows_def by metis

lemma authentic_reserved:
  assumes "authenticRows key (lg_db l)" "reservedStep key l l'"
  shows "authenticRows key (lg_db l')"
proof -
  from assms(2) obtain ops s rows where st: "evolved key (opsTab l) ops" "opsTab l' = ops @ [s]" "inTab l' = inTab l @ rows"
    "op_OperationID s \<notin> set (map op_OperationID ops)" "VerifyVtxoOperation s key = Inr ()"
    "\<forall>i\<in>set rows. vi_OperationID i = op_OperationID s \<and> VerifyVtxoOperationInput i key = Inr ()"
    unfolding reservedStep_def by blast
  have "authenticRows key (lg_db l \<lparr> db_vtxo_operation := ops \<rparr>)"
    using authentic_evolved [OF assms(1), of "l \<lparr> lg_db := lg_db l \<lparr> db_vtxo_operation := ops \<rparr> \<rparr>"] st(1) by simp
  then show ?thesis using st(2-6) unfolding authenticRows_def by auto
qed

lemma reach_authentic: "ledger_reach key l \<Longrightarrow> authenticRows key (lg_db l)"
proof (induction rule: ledger_reach.induct)
  case (init l)
  then show ?case by (simp add: freshLedger_def authenticRows_def)
next
  case (call l env c res l')
  then show ?case using exec_spend [OF call(2)] reach_key [OF call(1)] authentic_evolved authentic_reserved by blast
next
  case (other l l')
  then show ?case by (auto simp: otherChange_def authenticRows_def)
qed

text \<open>
  The contract of an invariant of the ledger: it holds of a fresh ledger, every call keeps it on authentic rows, and it
  does not depend on what other components change.
\<close>

locale ledger_invariant =
  fixes inv :: "bytes \<Rightarrow> DB \<Rightarrow> bool"
  assumes inv_init: "freshLedger l \<Longrightarrow> inv key (lg_db l)"
    and inv_call: "authenticRows key (lg_db l) \<Longrightarrow> inv key (lg_db l) \<Longrightarrow> lg_integrityKey l = key \<Longrightarrow>
      exec env c l = (res, l') \<Longrightarrow> inv key (lg_db l')"
    and inv_other: "inv key (lg_db l) \<Longrightarrow> otherChange l l' \<Longrightarrow> inv key (lg_db l')"
begin

lemma reach_inv: "ledger_reach key l \<Longrightarrow> inv key (lg_db l)"
  by (induction rule: ledger_reach.induct)
     (auto intro: inv_init inv_call inv_other reach_authentic reach_key)

end

section \<open>Outpoints and fences\<close>

text \<open>Two live operations never hold the same outpoint.\<close>

definition exclusiveInputs :: "bytes \<Rightarrow> DB \<Rightarrow> bool" where
  "exclusiveInputs key db \<longleftrightarrow> (\<forall>i\<in>set (db_vtxo_operation_input db). \<forall>j\<in>set (db_vtxo_operation_input db).
     \<forall>r\<in>set (db_vtxo_operation db). \<forall>s\<in>set (db_vtxo_operation db).
       (vi_Txid i, vi_Vout i) = (vi_Txid j, vi_Vout j) \<longrightarrow> vi_OperationID i = op_OperationID r \<longrightarrow> vi_OperationID j = op_OperationID s \<longrightarrow>
       vtxoStateLocksInputs (op_State r) \<longrightarrow> vtxoStateLocksInputs (op_State s) \<longrightarrow> r = s)"

text \<open>A vault has at most one unresolved spend operation.\<close>

definition oneBlocking :: "bytes \<Rightarrow> DB \<Rightarrow> bool" where
  "oneBlocking key db \<longleftrightarrow> (\<forall>r\<in>set (db_vtxo_operation db). \<forall>s\<in>set (db_vtxo_operation db). op_VaultID r = op_VaultID s \<longrightarrow>
     vtxoStateBlocksNewOperation (op_State r) \<longrightarrow> vtxoStateBlocksNewOperation (op_State s) \<longrightarrow> r = s)"

text \<open>Rows that evolved from equal rows are equal: ids are unique.\<close>

lemma evolved_same_origin:
  assumes "authenticRows key (lg_db l)" "evolved key (opsTab l) ops" "s \<in> set ops" "t \<in> set ops" "op_OperationID s = op_OperationID t"
  shows "s = t"
proof -
  have "distinct (map op_OperationID ops)" using assms(1) evolved_ids [OF assms(2)] by (simp add: authenticRows_def)
  then show ?thesis using assms(3-5) by (auto simp: distinct_map inj_on_def)
qed

lemma exclusive_evolved:
  assumes a: "authenticRows key (lg_db l)" and e: "evolved key (opsTab l) ops" and x: "exclusiveInputs key (lg_db l)"
  shows "exclusiveInputs key (lg_db l \<lparr> db_vtxo_operation := ops \<rparr>)"
  unfolding exclusiveInputs_def
proof (clarsimp, goal_cases)
  case (1 i j r s)
  obtain r0 s0 where o: "r0 \<in> set (opsTab l)" "evolves key r0 r" "s0 \<in> set (opsTab l)" "evolves key s0 s"
    using evolved_origin [OF e] 1 by metis
  have "r0 = s0" using x 1 o evolves_ids [OF o(2)] evolves_ids [OF o(4)] evolves_locks [OF o(2)] evolves_locks [OF o(4)]
    unfolding exclusiveInputs_def by metis
  then show ?case using evolved_same_origin [OF a e, of r s] 1 evolves_ids [OF o(2)] evolves_ids [OF o(4)] by simp
qed

lemma oneBlocking_evolved:
  assumes a: "authenticRows key (lg_db l)" and e: "evolved key (opsTab l) ops" and x: "oneBlocking key (lg_db l)"
  shows "oneBlocking key (lg_db l \<lparr> db_vtxo_operation := ops \<rparr>)"
  unfolding oneBlocking_def
proof (clarsimp, goal_cases)
  case (1 r s)
  obtain r0 s0 where o: "r0 \<in> set (opsTab l)" "evolves key r0 r" "s0 \<in> set (opsTab l)" "evolves key s0 s"
    using evolved_origin [OF e] 1 by metis
  have "r0 = s0" using x 1 o evolves_ids [OF o(2)] evolves_ids [OF o(4)] evolves_blocks [OF o(2)] evolves_blocks [OF o(4)]
    unfolding oneBlocking_def by metis
  then show ?case using evolved_same_origin [OF a e, of r s] 1 evolves_ids [OF o(2)] evolves_ids [OF o(4)] by simp
qed

interpretation excl: ledger_invariant exclusiveInputs
proof
  show "freshLedger l \<Longrightarrow> exclusiveInputs key (lg_db l)" for l key by (simp add: freshLedger_def exclusiveInputs_def)
  show "exclusiveInputs key (lg_db l) \<Longrightarrow> otherChange l l' \<Longrightarrow> exclusiveInputs key (lg_db l')" for l l' key
    by (auto simp: otherChange_def exclusiveInputs_def)
next
  fix key l env c res l'
  assume a: "authenticRows key (lg_db l)" and x: "exclusiveInputs key (lg_db l)" and k: "lg_integrityKey l = key"
    and ex: "exec env c l = (res, l')"
  consider "evolved key (opsTab l) (opsTab l')" "inTab l' = inTab l" | "reservedStep key l l'"
    using exec_spend [OF ex] a k by blast
  then show "exclusiveInputs key (lg_db l')"
  proof cases
    case 1
    from exclusive_evolved [OF a 1(1) x] show ?thesis using 1(2) unfolding exclusiveInputs_def by simp
  next
    case 2
    then obtain ops s rows where st: "evolved key (opsTab l) ops" "opsTab l' = ops @ [s]" "inTab l' = inTab l @ rows"
      "op_OperationID s \<notin> set (map op_OperationID ops)"
      "\<forall>i\<in>set rows. vi_OperationID i = op_OperationID s \<and> VerifyVtxoOperationInput i key = Inr ()"
      "\<forall>x\<in>set ops. \<forall>i\<in>set (inTab l). \<forall>j\<in>set rows. op_OperationID x = vi_OperationID i \<longrightarrow>
        (vi_Txid i, vi_Vout i) = (vi_Txid j, vi_Vout j) \<longrightarrow> \<not> vtxoStateLocksInputs (op_State x)"
      unfolding reservedStep_def by blast
    note X = exclusive_evolved [OF a st(1) x, unfolded exclusiveInputs_def, simplified]
    have old: "vi_OperationID i \<noteq> op_OperationID s" if "i \<in> set (inTab l)" for i
      using that a st(4) evolved_ids [OF st(1)] unfolding authenticRows_def by metis
    have new: "op_OperationID r \<noteq> op_OperationID s" if "r \<in> set ops" for r using that st(4) by (metis image_eqI set_map)
    have clash: "\<not> vtxoStateLocksInputs (op_State t)"
      if "t \<in> set ops" "j \<in> set (inTab l) \<union> set rows" "i \<in> set rows" "vi_OperationID j = op_OperationID t"
        "(vi_Txid j, vi_Vout j) = (vi_Txid i, vi_Vout i)" for t i j
      using that st(5,6) new [OF that(1)] by (metis Un_iff)
    have rowsOnly: "i \<in> set rows" if "i \<in> set (inTab l) \<union> set rows" "vi_OperationID i = op_OperationID s" for i
      using that old by blast
    show ?thesis unfolding exclusiveInputs_def st(2,3)
    proof (intro ballI impI, goal_cases)
      case (1 i j r t)
      then have m: "i \<in> set (inTab l) \<union> set rows" "j \<in> set (inTab l) \<union> set rows" "r \<in> set ops \<or> r = s" "t \<in> set ops \<or> t = s" by auto
      show ?case
      proof (cases "r = s \<or> t = s")
        case True
        then show ?thesis using m 1(5-9) clash [of t j i] clash [of r i j] rowsOnly [of i] rowsOnly [of j] by metis
      next
        case False
        then have "i \<in> set (inTab l)" "j \<in> set (inTab l)" using m 1(6,7) st(5) new by (metis Un_iff)+
        then show ?thesis using X m False 1(5-9) by simp
      qed
    qed
  qed
qed

interpretation blk: ledger_invariant oneBlocking
proof
  show "freshLedger l \<Longrightarrow> oneBlocking key (lg_db l)" for l key by (simp add: freshLedger_def oneBlocking_def)
  show "oneBlocking key (lg_db l) \<Longrightarrow> otherChange l l' \<Longrightarrow> oneBlocking key (lg_db l')" for l l' key
    by (auto simp: otherChange_def oneBlocking_def)
next
  fix key l env c res l'
  assume a: "authenticRows key (lg_db l)" and x: "oneBlocking key (lg_db l)" and k: "lg_integrityKey l = key"
    and ex: "exec env c l = (res, l')"
  consider "evolved key (opsTab l) (opsTab l')" | "reservedStep key l l'"
    using exec_spend [OF ex] a k by blast
  then show "oneBlocking key (lg_db l')"
  proof cases
    case 1
    from oneBlocking_evolved [OF a 1 x] show ?thesis unfolding oneBlocking_def by simp
  next
    case 2
    then obtain ops s where st: "evolved key (opsTab l) ops" "opsTab l' = ops @ [s]"
      "\<forall>x\<in>set ops. op_VaultID x = op_VaultID s \<longrightarrow> \<not> vtxoStateBlocksNewOperation (op_State x)"
      unfolding reservedStep_def by blast
    from oneBlocking_evolved [OF a st(1) x] show ?thesis using st(3) unfolding oneBlocking_def st(2) by auto
  qed
qed

section \<open>Errors and runs\<close>

lemma renewalTx_InlD: "withSpendingRenewalTx env body l = (Inl e, l') \<Longrightarrow> lg_db l' = lg_db l"
  by (auto simp: withSpendingRenewalTx_def dest!: inTx_InlD split: sum.splits)

lemma transition_InlD:
  assumes "TransitionVtxoOperation expected r l = (Inl e, l')" "distinct (map op_OperationID (opsTab l))"
  shows "lg_db l' = lg_db l"
proof (cases "\<exists>s n db. SealVtxoOperation r (lg_integrityKey l) = Inr s \<and> updateVtxoOperation expected s (lg_db l) = Inr (n, db) \<and> n \<noteq> 1 \<and> lg_db l' = db")
  case True
  then obtain s n db where u: "updateVtxoOperation expected s (lg_db l) = Inr (n, db)" "n \<noteq> 1" "lg_db l' = db" by blast
  note U = updateVtxoOperation_InrD [OF u(1) assms(2)]
  have "\<forall>x\<in>set (opsTab l). \<not> updateMatches expected s x" using U(2) u(2) by (auto split: if_splits)
  then show ?thesis using U(1) u(3) by (simp add: updateOps_none)
next
  case False
  then have "l' = l" using assms(1)
    by (auto simp: TransitionVtxoOperation_def andThen_Inr_iff integrityKeyCopy_Inr_iff Let_def split: if_splits sum.splits prod.splits)
  then show ?thesis by simp
qed

lemma exec_error_db:
  assumes "authenticRows key (lg_db l)" "exec env c l = (Inl e, l')"
  shows "lg_db l' = lg_db l"
proof -
  have d: "distinct (map op_OperationID (opsTab l))" using assms(1) by (simp add: authenticRows_def)
  show ?thesis
  proof (cases c)
    case (CTransition st r)
    then show ?thesis using assms(2) transition_InlD [OF _ d] by (simp add: forget_Inl_iff)
  next
    case (CReserve r i cap)
    then show ?thesis using assms(2) by (auto simp: ReserveVtxoOperation_def dest!: inTx_InlD split: if_splits)
  next
    case (CCommitSigned r cr n)
    then show ?thesis using assms(2)
      by (auto simp: forget_Inl_iff CommitSignedVtxoOperation_def split: if_splits sum.splits prod.splits)
  next
    case (CAdvanceSignCount v cr n)
    then show ?thesis using assms(2)
      by (auto simp: AdvanceSignCount_def advanceSignCountLocked_def actDB_Inl_iff split: if_splits)
  qed (use assms(2) renewalTx_InlD in \<open>auto simp: forget_Inl_iff ReserveSpendingRenewal_def AppendSpendingRenewalEvent_def
      ScheduleVtxoDelegationSet_def AdvanceSpendingDelegation_def Let_def split: if_splits sum.splits\<close>)
qed

definition runCalls :: "(Env \<times> ledger_call) list \<Rightarrow> Ledger \<Rightarrow> Ledger" where
  "runCalls calls l = foldl (\<lambda>l (env, c). snd (exec env c l)) l calls"

lemma runCalls_simps [simp]: "runCalls [] l = l" "runCalls ((env, c) # calls) l = runCalls calls (snd (exec env c l))"
  by (simp_all add: runCalls_def)

lemma runCalls_reach: "ledger_reach key l \<Longrightarrow> ledger_reach key (runCalls calls l)"
proof (induction calls arbitrary: l)
  case (Cons x xs)
  obtain env c where x: "x = (env, c)" by fastforce
  have "ledger_reach key (snd (exec env c l))" using ledger_reach.call [OF Cons.prems, of env c] by (metis prod.collapse)
  from Cons.IH [OF this] show ?case by (simp add: x)
qed simp

text \<open>Every row of a reachable ledger is still there after any calls, evolved.\<close>

lemma runCalls_evolves:
  assumes "ledger_reach key l" "r \<in> set (opsTab l)"
  shows "\<exists>r'\<in>set (opsTab (runCalls calls l)). evolves key r r'"
  using assms
proof (induction calls arbitrary: l r)
  case (Cons x xs)
  obtain env c where x: "x = (env, c)" by fastforce
  obtain res l1 where e: "exec env c l = (res, l1)" by fastforce
  have a: "authenticRows (lg_integrityKey l) (lg_db l)" and k: "lg_integrityKey l = key"
    using reach_authentic reach_key Cons.prems(1) by auto
  have "\<exists>r1\<in>set (opsTab l1). evolves key r r1"
  proof -
    obtain ops new where "evolved key (opsTab l) ops" "opsTab l1 = ops @ new"
      using exec_spend [OF e a] unfolding k reservedStep_def by (metis append_Nil2)
    then show ?thesis using Cons.prems(2) by (metis in_set_conv_nth list_all2_conv_all_nth UnI1 set_append)
  qed
  then obtain r1 where r1: "r1 \<in> set (opsTab l1)" "evolves key r r1" by blast
  from Cons.IH [OF ledger_reach.call [OF Cons.prems(1) e] r1(1)] evolves_trans [OF r1(2)] show ?case by (auto simp: x e)
qed (metis evolves_refl runCalls_simps(1))

end
