(* ===== verification/Journal_Law.thy ===== *)
theory Journal_Law
  imports Journal_Ledger
begin

text \<open>
  The interface of an authenticated append-only journal, as the fences of the ledger use it: loading folds the
  operation rows into a map and then the event rows into its snapshots. The locale states what one row does; its
  lemmas say how the loaded map changes when rows are appended. The Bitcoin batch journal and the delegation journal
  are its two instances.
\<close>

locale journal =
  fixes load_op :: "(string \<times> 's) list \<Rightarrow> JournalOp \<Rightarrow> (string \<times> 's) list res"
    and load_ev :: "(string \<times> 's) list \<Rightarrow> JournalEvent \<Rightarrow> (string \<times> 's) list res"
    and vault :: "'s \<Rightarrow> string"
    and events :: "'s \<Rightarrow> (string \<times> 'e) list"
  assumes op_row: "load_op m row = Inr m' \<Longrightarrow>
      \<exists>s. m' = AList.update (jo_operation_id row) s m \<and> vault s = jo_vault_id row \<and> events s = []"
    and ev_row: "load_ev m er = Inr m' \<Longrightarrow>
      \<exists>s s' e. map_of m (je_operation_id er) = Some s \<and> m' = AList.update (je_operation_id er) s' m \<and> vault s' = vault s \<and>
        events s' = AList.update (je_phase er) e (events s)"
    and ev_local: "map_of n (je_operation_id er) = map_of m (je_operation_id er) \<Longrightarrow> load_ev m er = Inr m' \<Longrightarrow>
      \<exists>n'. load_ev n er = Inr n' \<and> map_of n' (je_operation_id er) = map_of m' (je_operation_id er)"
begin

lemma ops_fold:
  assumes "foldRes load_op m rows = Inr m'"
  shows "k \<notin> set (map jo_operation_id rows) \<Longrightarrow> map_of m' k = map_of m k"
    and "k \<in> set (map jo_operation_id rows) \<Longrightarrow>
      \<exists>s row. row \<in> set rows \<and> jo_operation_id row = k \<and> map_of m' k = Some s \<and> vault s = jo_vault_id row \<and> events s = []"
  using assms
proof (induction rows arbitrary: m)
  case (Cons row rows)
  {
    case 1
    then obtain m1 s where "foldRes load_op m1 rows = Inr m'" "m1 = AList.update (jo_operation_id row) s m"
      using op_row [of m row] by (auto simp: andThen_Inr_iff)
    then show ?case using Cons.IH(1) 1 by simp
  next
    case 2
    then obtain m1 s where m1: "foldRes load_op m1 rows = Inr m'" "m1 = AList.update (jo_operation_id row) s m"
      "vault s = jo_vault_id row" "events s = []"
      using op_row [of m row] by (auto simp: andThen_Inr_iff)
    show ?case
    proof (cases "k \<in> set (map jo_operation_id rows)")
      case True
      then show ?thesis using Cons.IH(2) [OF True m1(1)] by auto
    next
      case False
      then have "map_of m' k = Some s" using Cons.IH(1) [OF False m1(1)] 2 m1(2) by simp
      then show ?thesis using m1(3,4) False 2 by auto
    qed
  }
qed simp_all

text \<open>Event rows do not see operations they do not name.\<close>

lemma events_fold:
  assumes "foldRes load_ev m evs = Inr r" "foldRes load_ev n evs = Inr r'"
    and "\<And>k. k \<notin> N \<Longrightarrow> map_of n k = map_of m k" "\<And>k. k \<in> N \<Longrightarrow> map_of m k = None"
  shows "(\<forall>k. k \<notin> N \<longrightarrow> map_of r' k = map_of r k) \<and> (\<forall>k\<in>N. map_of r' k = map_of n k)"
  using assms
proof (induction evs arbitrary: m n)
  case (Cons er evs)
  let ?id = "je_operation_id er"
  from Cons.prems obtain m1 n1 where s: "load_ev m er = Inr m1" "foldRes load_ev m1 evs = Inr r" "load_ev n er = Inr n1"
    "foldRes load_ev n1 evs = Inr r'" by (auto simp: andThen_Inr_iff)
  obtain s1 where m1: "map_of m ?id \<noteq> None" "m1 = AList.update ?id s1 m" using ev_row [OF s(1)] by auto
  obtain t1 where n1: "n1 = AList.update ?id t1 n" using ev_row [OF s(3)] by auto
  have id: "?id \<notin> N" using m1(1) Cons.prems(4) [of "je_operation_id er"] by (cases "je_operation_id er \<in> N") simp_all
  have eq: "map_of n1 ?id = map_of m1 ?id" using ev_local [OF _ s(1), of n] Cons.prems(3) [OF id] s(3) by auto
  have 1: "map_of n1 k = map_of m1 k" if "k \<notin> N" for k
    using that eq Cons.prems(3) m1(2) n1 by (cases "k = ?id") simp_all
  have 2: "map_of m1 k = None" if "k \<in> N" for k using that id m1(2) Cons.prems(4) by auto
  from Cons.IH [OF s(2,4) 1 2] id show ?case by (auto simp: n1)
qed auto

text \<open>The last event row adds one phase to one snapshot.\<close>

lemma append_event:
  assumes "foldRes load_ev m evs = Inr r" "foldRes load_ev m (evs @ [er]) = Inr r'"
  shows "\<exists>s s' e. map_of r (je_operation_id er) = Some s \<and> map_of r' = (map_of r)(je_operation_id er \<mapsto> s') \<and> vault s' = vault s \<and>
    events s' = AList.update (je_phase er) e (events s)"
proof -
  have "load_ev r er = Inr r'" using assms by (simp add: foldRes_append andThen_Inr_iff)
  from ev_row [OF this] show ?thesis by fastforce
qed

end

lemma loadRenewalOp_InrD:
  "loadRenewalOp key m row = Inr m' \<Longrightarrow> \<exists>s. m' = AList.update (jo_operation_id row) s m \<and>
     ro_VaultID (rs_Operation s) = jo_vault_id row \<and> rs_Events s = []"
  by (auto simp: loadRenewalOp_def split: if_splits option.splits intro!: exI)

lemma loadRenewalEvent_Inr_iff:
  "loadRenewalEvent key m row = Inr m' \<longleftrightarrow> (\<exists>s e. map_of m (je_operation_id row) = Some s \<and>
     length (je_payload row) \<le> 1048576 \<and> je_integrity_mac row = renewalMAC key ''vaulted-light/renewal-event/v1'' (je_payload row) \<and>
     unmarshalRenewalEvent (je_payload row) = Some e \<and> marshalRenewalEvent e = je_payload row \<and> re_OperationID e = je_operation_id row \<and>
     re_Phase e = je_phase row \<and> validateSpendingRenewalEvent e = Inr () \<and>
     m' = AList.update (je_operation_id row) (s \<lparr> rs_Events := AList.update (je_phase row) e (rs_Events s) \<rparr>) m)"
  by (auto simp: loadRenewalEvent_def split: if_splits option.splits)

interpretation rj: journal "loadRenewalOp key" "loadRenewalEvent key" "\<lambda>s. ro_VaultID (rs_Operation s)" rs_Events for key
proof
  fix m m' :: renewal_map and row
  assume "loadRenewalOp key m row = Inr m'"
  then show "\<exists>s. m' = AList.update (jo_operation_id row) s m \<and> ro_VaultID (rs_Operation s) = jo_vault_id row \<and> rs_Events s = []"
    by (rule loadRenewalOp_InrD)
next
  fix m n m' :: renewal_map and er
  assume "loadRenewalEvent key m er = Inr m'"
  then show "\<exists>s s' e. map_of m (je_operation_id er) = Some s \<and> m' = AList.update (je_operation_id er) s' m \<and>
      ro_VaultID (rs_Operation s') = ro_VaultID (rs_Operation s) \<and> rs_Events s' = AList.update (je_phase er) e (rs_Events s)"
    unfolding loadRenewalEvent_Inr_iff by force
next
  fix m n m' :: renewal_map and er
  assume "map_of n (je_operation_id er) = map_of m (je_operation_id er)" "loadRenewalEvent key m er = Inr m'"
  then show "\<exists>n'. loadRenewalEvent key n er = Inr n' \<and> map_of n' (je_operation_id er) = map_of m' (je_operation_id er)"
    unfolding loadRenewalEvent_Inr_iff by force
qed

lemma loadDelegationOp_InrD:
  "loadDelegationOp key m row = Inr m' \<Longrightarrow> \<exists>s. m' = AList.update (jo_operation_id row) s m \<and>
     sd_VaultID (ds_Operation s) = jo_vault_id row \<and> ds_Events s = []"
  by (auto simp: loadDelegationOp_def split: if_splits option.splits intro!: exI)

lemma loadDelegationEvent_Inr_iff:
  "loadDelegationEvent key m row = Inr m' \<longleftrightarrow> (\<exists>s e. map_of m (je_operation_id row) = Some s \<and>
     length (je_payload row) \<le> 8000000 \<and> je_integrity_mac row = renewalMAC key ''vaulted-light/delegation-event/v1'' (je_payload row) \<and>
     unmarshalDelegationEvent (je_payload row) = Some e \<and> marshalDelegationEvent e = je_payload row \<and> de_OperationID e = je_operation_id row \<and>
     de_Phase e = je_phase row \<and> validateDelegationEvent e = Inr () \<and>
     m' = AList.update (je_operation_id row) (s \<lparr> ds_Events := AList.update (je_phase row) e (ds_Events s) \<rparr>) m)"
  by (auto simp: loadDelegationEvent_def split: if_splits option.splits)

interpretation dj: journal "loadDelegationOp key" "loadDelegationEvent key" "\<lambda>s. sd_VaultID (ds_Operation s)" ds_Events for key
proof
  fix m m' :: delegation_map and row
  assume "loadDelegationOp key m row = Inr m'"
  then show "\<exists>s. m' = AList.update (jo_operation_id row) s m \<and> sd_VaultID (ds_Operation s) = jo_vault_id row \<and> ds_Events s = []"
    by (rule loadDelegationOp_InrD)
next
  fix m n m' :: delegation_map and er
  assume "loadDelegationEvent key m er = Inr m'"
  then show "\<exists>s s' e. map_of m (je_operation_id er) = Some s \<and> m' = AList.update (je_operation_id er) s' m \<and>
      sd_VaultID (ds_Operation s') = sd_VaultID (ds_Operation s) \<and> ds_Events s' = AList.update (je_phase er) e (ds_Events s)"
    unfolding loadDelegationEvent_Inr_iff by force
next
  fix m n m' :: delegation_map and er
  assume "map_of n (je_operation_id er) = map_of m (je_operation_id er)" "loadDelegationEvent key m er = Inr m'"
  then show "\<exists>n'. loadDelegationEvent key n er = Inr n' \<and> map_of n' (je_operation_id er) = map_of m' (je_operation_id er)"
    unfolding loadDelegationEvent_Inr_iff by force
qed

end
