(* ===== verification/Ledger_Fence.thy ===== *)
theory Ledger_Fence
  imports Ledger_Calls Journal_Law
begin

text \<open>
  The fence of a vault: its unresolved payments, its live Bitcoin batches and its claimed delegations, as the
  authenticated tables show them, and that every call starts at most one where there was none.
\<close>

section \<open>Live lifecycles of a vault\<close>

datatype lifecycle = Payment string | Batch string | Delegate string

definition payments :: "DB \<Rightarrow> string \<Rightarrow> string set" where
  "payments db v = op_OperationID ` {r \<in> set (db_vtxo_operation db). op_VaultID r = v \<and> vtxoStateBlocksNewOperation (op_State r)}"

definition liveBatches :: "bytes \<Rightarrow> DB \<Rightarrow> string \<Rightarrow> string set" where
  "liveBatches key db v = {k. \<exists>R s. loadSpendingRenewals db key = Inr R \<and> map_of R k = Some s \<and>
     ro_VaultID (rs_Operation s) = v \<and> \<not> renewalTerminal s}"

definition claimedDelegations :: "bytes \<Rightarrow> DB \<Rightarrow> string \<Rightarrow> string set" where
  "claimedDelegations key db v = {k. \<exists>D s. loadSpendingDelegations db key = Inr D \<and> map_of D k = Some s \<and>
     sd_VaultID (ds_Operation s) = v \<and> hasEv (ds_Events s) ''claimed'' \<and> \<not> delegationTerminal s}"

definition lifecycles :: "bytes \<Rightarrow> DB \<Rightarrow> string \<Rightarrow> lifecycle set" where
  "lifecycles key db v = Payment ` payments db v \<union> Batch ` liveBatches key db v \<union> Delegate ` claimedDelegations key db v"

definition oneLifecycle :: "bytes \<Rightarrow> DB \<Rightarrow> bool" where
  "oneLifecycle key db \<longleftrightarrow> (\<forall>v. \<forall>a\<in>lifecycles key db v. \<forall>b\<in>lifecycles key db v. a = b)"

text \<open>A step either starts no lifecycle, or starts one in a vault that has no other.\<close>

definition fenced :: "bytes \<Rightarrow> DB \<Rightarrow> DB \<Rightarrow> bool" where
  "fenced key db db' \<longleftrightarrow> (\<forall>v. lifecycles key db' v \<subseteq> lifecycles key db v) \<or>
     (\<exists>v0 a. lifecycles key db' v0 \<subseteq> {a} \<and> (\<forall>v. v \<noteq> v0 \<longrightarrow> lifecycles key db' v \<subseteq> lifecycles key db v))"

lemma oneLifecycle_fenced: "oneLifecycle key db \<Longrightarrow> fenced key db db' \<Longrightarrow> oneLifecycle key db'"
  unfolding oneLifecycle_def fenced_def by (metis subsetD singletonD)

lemma fencedI_none:
  assumes "\<And>v. payments db' v \<subseteq> payments db v" "\<And>v. liveBatches key db' v \<subseteq> liveBatches key db v"
    "\<And>v. claimedDelegations key db' v \<subseteq> claimedDelegations key db v"
  shows "fenced key db db'"
proof -
  have "lifecycles key db' v \<subseteq> lifecycles key db v" for v unfolding lifecycles_def using assms by blast
  then show ?thesis by (simp add: fenced_def)
qed

lemma fencedI_one:
  assumes "\<And>v. v \<noteq> v0 \<Longrightarrow> payments db' v \<subseteq> payments db v" "\<And>v. v \<noteq> v0 \<Longrightarrow> liveBatches key db' v \<subseteq> liveBatches key db v"
    "\<And>v. v \<noteq> v0 \<Longrightarrow> claimedDelegations key db' v \<subseteq> claimedDelegations key db v"
    and "lifecycles key db' v0 \<subseteq> {a}"
  shows "fenced key db db'"
proof -
  have "lifecycles key db' v \<subseteq> lifecycles key db v" if "v \<noteq> v0" for v unfolding lifecycles_def using assms(1-3) [OF that] by blast
  with assms(4) show ?thesis by (auto simp: fenced_def)
qed

lemma payments_evolved:
  assumes "evolved key (db_vtxo_operation db) (db_vtxo_operation db')"
  shows "payments db' v \<subseteq> payments db v"
proof
  fix k assume "k \<in> payments db' v"
  then obtain r' where r': "r' \<in> set (db_vtxo_operation db')" "op_VaultID r' = v" "vtxoStateBlocksNewOperation (op_State r')" "op_OperationID r' = k"
    by (auto simp: payments_def)
  obtain r where r: "r \<in> set (db_vtxo_operation db)" "evolves key r r'" using evolved_origin [OF assms r'(1)] by blast
  then show "k \<in> payments db v" using r' evolves_ids [OF r(2)] evolves_blocks [OF r(2)] unfolding payments_def by force
qed

text \<open>The journals are functions of their tables.\<close>

lemma liveBatches_cong:
  "db_light_renewal_operation db' = db_light_renewal_operation db \<Longrightarrow> db_light_renewal_event db' = db_light_renewal_event db \<Longrightarrow>
     liveBatches key db' v = liveBatches key db v"
  by (simp add: liveBatches_def loadSpendingRenewals_def)

lemma claimedDelegations_cong:
  "db_light_delegation_operation db' = db_light_delegation_operation db \<Longrightarrow> db_light_delegation_event db' = db_light_delegation_event db \<Longrightarrow>
     claimedDelegations key db' v = claimedDelegations key db v"
  by (simp add: claimedDelegations_def loadSpendingDelegations_def)

section \<open>Appending to the Bitcoin batch journal\<close>

lemma loadRenewals_Inr_iff:
  "loadSpendingRenewals db key = Inr R \<longleftrightarrow> (\<exists>m. foldRes (loadRenewalOp key) [] (db_light_renewal_operation db) = Inr m \<and>
     foldRes (loadRenewalEvent key) m (db_light_renewal_event db) = Inr R)"
  by (simp add: loadSpendingRenewals_def andThen_Inr_iff)

lemma batches_new_op:
  assumes R: "loadSpendingRenewals db key = Inr R" and n: "jo_operation_id row \<notin> set (map jo_operation_id (db_light_renewal_operation db))"
    and db': "db_light_renewal_operation db' = db_light_renewal_operation db @ [row]" "db_light_renewal_event db' = db_light_renewal_event db"
  shows "liveBatches key db' v \<subseteq> liveBatches key db v \<union> (if v = jo_vault_id row then {jo_operation_id row} else {})"
proof (cases "\<exists>R'. loadSpendingRenewals db' key = Inr R'")
  case False
  then show ?thesis by (auto simp: liveBatches_def)
next
  case True
  let ?id = "jo_operation_id row"
  from R obtain m where m: "foldRes (loadRenewalOp key) [] (db_light_renewal_operation db) = Inr m"
    "foldRes (loadRenewalEvent key) m (db_light_renewal_event db) = Inr R" by (auto simp: loadRenewals_Inr_iff)
  from True obtain R' m1 where m1: "loadSpendingRenewals db' key = Inr R'" "foldRes (loadRenewalOp key) m [row] = Inr m1"
    "foldRes (loadRenewalEvent key) m1 (db_light_renewal_event db) = Inr R'"
    using m(1) by (auto simp: loadRenewals_Inr_iff db' foldRes_append andThen_Inr_iff)
  have none: "map_of m ?id = None" using rj.ops_fold(1) [OF m(1), of ?id] n by simp
  obtain s where s: "map_of m1 = (map_of m)(?id \<mapsto> s)" "ro_VaultID (rs_Operation s) = jo_vault_id row"
    using m1(2) loadRenewalOp_InrD [of key m row m1] by (auto simp: andThen_Inr_iff)
  have e: "(\<forall>k. k \<notin> {?id} \<longrightarrow> map_of R' k = map_of R k) \<and> (\<forall>k\<in>{?id}. map_of R' k = map_of m1 k)"
    by (rule rj.events_fold [OF m(2) m1(3)]) (use s none in auto)
  have "k \<in> liveBatches key db v \<or> k = ?id \<and> v = jo_vault_id row" if "k \<in> liveBatches key db' v" for k
    using that e R m1(1) s by (cases "k = ?id") (auto simp: liveBatches_def)
  then show ?thesis by auto
qed

lemma renewalTerminal_update:
  assumes "renewalTerminal s" "map_of (rs_Events s) p = None" "rs_Events s' = AList.update p e (rs_Events s)"
  shows "renewalTerminal s'"
proof (cases "re_Outcome (ev (rs_Events s) ''register_result'') = ''rejected''")
  case True
  then have "hasEv (rs_Events s) ''register_result''" by (intro outcome_hasEv) simp
  then have "''register_result'' \<noteq> p" using assms(2) unfolding hasEv_def by metis
  then have "ev (rs_Events s') ''register_result'' = ev (rs_Events s) ''register_result''" unfolding assms(3) ev_update by (rule if_not_P)
  with True show ?thesis unfolding renewalTerminal_def by metis
next
  case False
  then show ?thesis using assms(1) unfolding renewalTerminal_def assms(3) hasEv_update by blast
qed

lemma batches_new_event:
  assumes R: "loadSpendingRenewals db key = Inr R" "map_of R (je_operation_id row) = Some s" "map_of (rs_Events s) (je_phase row) = None"
    and db': "db_light_renewal_operation db' = db_light_renewal_operation db" "db_light_renewal_event db' = db_light_renewal_event db @ [row]"
  shows "liveBatches key db' v \<subseteq> liveBatches key db v"
proof (cases "\<exists>R'. loadSpendingRenewals db' key = Inr R'")
  case False
  then show ?thesis by (auto simp: liveBatches_def)
next
  case True
  let ?id = "je_operation_id row"
  from R(1) obtain m where m: "foldRes (loadRenewalOp key) [] (db_light_renewal_operation db) = Inr m"
    "foldRes (loadRenewalEvent key) m (db_light_renewal_event db) = Inr R" by (auto simp: loadRenewals_Inr_iff)
  from True obtain R' where R': "loadSpendingRenewals db' key = Inr R'"
    "foldRes (loadRenewalEvent key) m (db_light_renewal_event db @ [row]) = Inr R'"
    using m(1) by (auto simp: loadRenewals_Inr_iff db')
  obtain s' e where s': "map_of R' = (map_of R)(?id \<mapsto> s')" "ro_VaultID (rs_Operation s') = ro_VaultID (rs_Operation s)"
    "rs_Events s' = AList.update (je_phase row) e (rs_Events s)"
    using rj.append_event [OF m(2) R'(2)] R(2) by auto
  show ?thesis using R R'(1) s' renewalTerminal_update [OF _ R(3) s'(3)] by (auto simp: liveBatches_def split: if_splits)
qed

section \<open>Appending to the delegation journal\<close>

lemma loadDelegations_Inr_iff:
  "loadSpendingDelegations db key = Inr D \<longleftrightarrow> (\<exists>m. foldRes (loadDelegationOp key) [] (db_light_delegation_operation db) = Inr m \<and>
     validateDelegationSets m = Inr () \<and> foldRes (loadDelegationEvent key) m (db_light_delegation_event db) = Inr D)"
  by (simp add: loadSpendingDelegations_def andThen_Inr_iff)

lemma delegations_new_ops:
  assumes D: "loadSpendingDelegations db key = Inr D"
    and n: "set (map jo_operation_id rows) \<inter> set (map jo_operation_id (db_light_delegation_operation db)) = {}"
    and db': "db_light_delegation_operation db' = db_light_delegation_operation db @ rows" "db_light_delegation_event db' = db_light_delegation_event db"
  shows "claimedDelegations key db' v \<subseteq> claimedDelegations key db v"
proof (cases "\<exists>D'. loadSpendingDelegations db' key = Inr D'")
  case False
  then show ?thesis by (auto simp: claimedDelegations_def)
next
  case True
  let ?N = "set (map jo_operation_id rows)"
  from D obtain m where m: "foldRes (loadDelegationOp key) [] (db_light_delegation_operation db) = Inr m"
    "foldRes (loadDelegationEvent key) m (db_light_delegation_event db) = Inr D" by (auto simp: loadDelegations_Inr_iff)
  from True obtain D' m1 where m1: "loadSpendingDelegations db' key = Inr D'" "foldRes (loadDelegationOp key) m rows = Inr m1"
    "foldRes (loadDelegationEvent key) m1 (db_light_delegation_event db) = Inr D'"
    using m(1) by (auto simp: loadDelegations_Inr_iff db' foldRes_append andThen_Inr_iff)
  have none: "map_of m k = None" if "k \<in> ?N" for k using dj.ops_fold(1) [OF m(1), of k] n that by auto
  have e: "(\<forall>k. k \<notin> ?N \<longrightarrow> map_of D' k = map_of D k) \<and> (\<forall>k\<in>?N. map_of D' k = map_of m1 k)"
    by (rule dj.events_fold [OF m(2) m1(3)]) (use dj.ops_fold(1) [OF m1(2)] none in auto)
  have "k \<in> claimedDelegations key db v" if k: "k \<in> claimedDelegations key db' v" for k
  proof -
    from k m1(1) obtain s where s: "map_of D' k = Some s" "sd_VaultID (ds_Operation s) = v" "hasEv (ds_Events s) ''claimed''"
      "\<not> delegationTerminal s" unfolding claimedDelegations_def by auto
    have "k \<notin> ?N"
    proof
      assume kn: "k \<in> ?N"
      with e s(1) have "map_of m1 k = Some s" by metis
      with dj.ops_fold(2) [OF m1(2) kn] have "ds_Events s = []" by auto
      with s(3) show False by simp
    qed
    then show ?thesis using e s D unfolding claimedDelegations_def by auto
  qed
  then show ?thesis by blast
qed

lemma delegationTerminal_update:
  "delegationTerminal s \<Longrightarrow> ds_Events s' = AList.update p e (ds_Events s) \<Longrightarrow> delegationTerminal s'"
  by (auto simp: delegationTerminal_def list_ex_iff)

lemma delegations_new_event:
  assumes D: "loadSpendingDelegations db key = Inr D"
    and db': "db_light_delegation_operation db' = db_light_delegation_operation db" "db_light_delegation_event db' = db_light_delegation_event db @ [row]"
  shows "claimedDelegations key db' v \<subseteq> claimedDelegations key db v \<union>
    (if je_phase row = ''claimed'' \<and> (\<exists>s. map_of D (je_operation_id row) = Some s \<and> sd_VaultID (ds_Operation s) = v)
     then {je_operation_id row} else {})"
proof (cases "\<exists>D'. loadSpendingDelegations db' key = Inr D'")
  case False
  then show ?thesis by (auto simp: claimedDelegations_def)
next
  case True
  let ?id = "je_operation_id row"
  from D obtain m where m: "foldRes (loadDelegationOp key) [] (db_light_delegation_operation db) = Inr m"
    "foldRes (loadDelegationEvent key) m (db_light_delegation_event db) = Inr D" by (auto simp: loadDelegations_Inr_iff)
  from True obtain D' where D': "loadSpendingDelegations db' key = Inr D'"
    "foldRes (loadDelegationEvent key) m (db_light_delegation_event db @ [row]) = Inr D'"
    using m(1) by (auto simp: loadDelegations_Inr_iff db')
  obtain s s' e where s': "map_of D ?id = Some s" "map_of D' = (map_of D)(?id \<mapsto> s')"
    "sd_VaultID (ds_Operation s') = sd_VaultID (ds_Operation s)" "ds_Events s' = AList.update (je_phase row) e (ds_Events s)"
    using dj.append_event [OF m(2) D'(2)] by auto
  show ?thesis using D D'(1) s' delegationTerminal_update [OF _ s'(4)] by (auto simp: claimedDelegations_def split: if_splits)
qed

lemma delegations_new_events:
  assumes "\<forall>row\<in>set rows. je_phase row \<noteq> ''claimed''"
  shows "db_light_delegation_operation db' = db_light_delegation_operation db \<Longrightarrow>
    db_light_delegation_event db' = db_light_delegation_event db @ rows \<Longrightarrow>
    claimedDelegations key db' v \<subseteq> claimedDelegations key db v"
  using assms
proof (induction rows arbitrary: db' rule: rev_induct)
  case Nil
  then show ?case using claimedDelegations_cong [of db' db key v] by simp
next
  case (snoc row rows)
  let ?db1 = "db \<lparr> db_light_delegation_event := db_light_delegation_event db @ rows \<rparr>"
  show ?case
  proof (cases "\<exists>D1. loadSpendingDelegations ?db1 key = Inr D1")
    case True
    then obtain D1 where D1: "loadSpendingDelegations ?db1 key = Inr D1" by blast
    have "claimedDelegations key db' v \<subseteq> claimedDelegations key ?db1 v"
      using delegations_new_event [OF D1, of db' row v] snoc.prems by simp
    also have "\<dots> \<subseteq> claimedDelegations key db v" by (rule snoc.IH) (use snoc.prems(3) in auto)
    finally show ?thesis .
  next
    case False
    then have "\<not> (\<exists>D. loadSpendingDelegations db' key = Inr D)"
      using snoc.prems(1,2) by (auto simp: loadDelegations_Inr_iff foldRes_append andThen_Inr_iff)
    then show ?thesis by (auto simp: claimedDelegations_def)
  qed
qed

section \<open>What the fences read\<close>

lemma rejectActive_none:
  assumes "rejectActiveSpendingRenewal v l = Inr ()"
  shows "liveBatches (lg_integrityKey l) (lg_db l) v = {}"
proof -
  obtain R where "loadSpendingRenewals (lg_db l) (lg_integrityKey l) = Inr R"
    "\<not> list_ex (\<lambda>s. ro_VaultID (rs_Operation s) = v \<and> \<not> renewalTerminal s) (map snd R)"
    using assms by (auto simp: rejectActiveSpendingRenewal_def andThen_Inr_iff integrityKeyCopy_Inr_iff split: if_splits)
  then show ?thesis by (auto simp: liveBatches_def list_ex_iff dest!: map_of_SomeD)
qed

lemma dispatched_none:
  assumes "loadSpendingDelegations db key = Inr D"
    "\<forall>s\<in>set (map snd D). sd_VaultID (ds_Operation s) = v \<longrightarrow> ds_Events s \<noteq> [] \<longrightarrow> delegationTerminal s"
  shows "claimedDelegations key db v = {}"
proof -
  have "delegationTerminal s" if "map_of D k = Some s" "sd_VaultID (ds_Operation s) = v" "hasEv (ds_Events s) ''claimed''" for k s
  proof -
    have "s \<in> set (map snd D)" using map_of_SomeD [OF that(1)] by force
    moreover have "ds_Events s \<noteq> []" using that(3) by auto
    ultimately show ?thesis using assms(2) that(2) by blast
  qed
  then show ?thesis using assms(1) by (auto simp: claimedDelegations_def)
qed

lemma rejectDispatched_none:
  assumes "rejectDispatchedDelegation v l = Inr ()"
  shows "claimedDelegations (lg_integrityKey l) (lg_db l) v = {}"
proof -
  obtain D where D: "loadSpendingDelegations (lg_db l) (lg_integrityKey l) = Inr D"
    "\<not> list_ex (\<lambda>s. sd_VaultID (ds_Operation s) = v \<and> ds_Events s \<noteq> [] \<and> \<not> delegationTerminal s) (map snd D)"
    using assms by (auto simp: rejectDispatchedDelegation_def andThen_Inr_iff integrityKeyCopy_Inr_iff split: if_splits)
  show ?thesis by (rule dispatched_none [OF D(1)]) (use D(2) in \<open>auto simp: list_ex_iff\<close>)
qed

lemma invalidate_none:
  assumes "invalidateArmedDelegations now v inputs l = Inr db"
  shows "claimedDelegations (lg_integrityKey l) (lg_db l) v = {}"
proof -
  obtain D where D: "loadSpendingDelegations (lg_db l) (lg_integrityKey l) = Inr D"
    "foldRes (invalidateStep now (lg_integrityKey l) v inputs) (lg_db l) (map snd D) = Inr db"
    using assms unfolding invalidateArmedDelegations_def andThen_Inr_iff integrityKeyCopy_Inr_iff by blast
  have "\<forall>s\<in>set xs. sd_VaultID (ds_Operation s) = v \<longrightarrow> ds_Events s \<noteq> [] \<longrightarrow> delegationTerminal s"
    if "foldRes (invalidateStep now key v inputs) d xs = Inr d'" for key d d' xs
    using that by (induction xs arbitrary: d) (auto simp: andThen_Inr_iff invalidateStep_def split: if_splits)
  from dispatched_none [OF D(1) this [OF D(2)]] show ?thesis .
qed

lemma rejectConcurrent_none:
  assumes "rejectConcurrentVtxoOperationLocked v [] l = Inr ()" "authenticRows key (lg_db l)"
  shows "payments (lg_db l) v = {}"
proof -
  have "op_OperationID r \<noteq> []" if "r \<in> set (opsTab l)" for r
    using that assms(2) by (auto simp: authenticRows_def op_row.verify_iff canonicalVtxoOperation_Inr_iff opShape_def)
  then show ?thesis using rejectConcurrent_InrD [OF assms(1)] by (auto simp: payments_def)
qed

section \<open>Every call is fenced\<close>

lemma renewalTx_InrD:
  assumes "withSpendingRenewalTx env body l = (Inr x, l')"
  shows "\<exists>l1. body (lg_integrityKey l) l = (Inr x, l1) \<and> lg_db l' = lg_db l1"
  using assms observe_frame
  by (auto simp: withSpendingRenewalTx_def act_iffs integrityKeyCopy_Inr_iff split: sum.splits)

lemma fenced_journals_same:
  assumes "evolved key (db_vtxo_operation db) (db_vtxo_operation db')"
    "db_light_renewal_operation db' = db_light_renewal_operation db" "db_light_renewal_event db' = db_light_renewal_event db"
    "db_light_delegation_operation db' = db_light_delegation_operation db" "db_light_delegation_event db' = db_light_delegation_event db"
  shows "fenced key db db'"
  using payments_evolved [OF assms(1)] liveBatches_cong [OF assms(2,3)] claimedDelegations_cong [OF assms(4,5)]
  by (intro fencedI_none) simp_all

lemma reserve_fenced:
  assumes "ReserveVtxoOperation env r inputs cap l = (Inr (), l')" "authenticRows (lg_integrityKey l) (lg_db l)"
  shows "fenced (lg_integrityKey l) (lg_db l) (lg_db l')"
proof -
  let ?key = "lg_integrityKey l"
  have body: "reserveBody (env_now env) (env_write env) r inputs cap l = (Inr (), l')"
    using assms(1) by (auto simp: ReserveVtxoOperation_def inTx_Inr_iff split: if_splits)
  from reserveBody_InrD [OF body] obtain d1 d2 s d3 d4 where
    d1: "abortExpiredVtxoLocked (env_now env) (op_VaultID r) l = Inr d1" and
    co: "rejectConcurrentVtxoOperationLocked (op_VaultID r) (op_OperationID r) (l \<lparr> lg_db := d1 \<rparr>) = Inr ()" and
    ra: "rejectActiveSpendingRenewal (op_VaultID r) (l \<lparr> lg_db := d1 \<rparr>) = Inr ()" and
    d2: "invalidateArmedDelegations (env_now env) (op_VaultID r) inputs (l \<lparr> lg_db := d1 \<rparr>) = Inr d2" and
    s: "SealVtxoOperation r ?key = Inr s" and d3: "insertVtxoOperation s d2 = Inr d3" and
    d4: "foldRes (sealAndInsertInput (op_OperationID r) ?key) d3 inputs = Inr d4" and
    ob: "observeEconomicOutflowsLocked (env_write env) (l \<lparr> lg_db := d4 \<rparr>) = (Inr (), l')" by blast
  have f: "op_VaultID s = op_VaultID r" "op_OperationID s = op_OperationID r" by (subst SealVtxoOperation_InrD(1) [OF s], simp)+
  note ab = abortExpired_evolved [OF d1 assms(2)]
  define ops where "ops = db_vtxo_operation d1"
  have d1': "d1 = lg_db l \<lparr> db_vtxo_operation := ops \<rparr>" unfolding ops_def by (rule ab(2))
  obtain rows where inv: "\<forall>row\<in>set rows. je_phase row = ''invalidated''"
    "d2 = d1 \<lparr> db_light_delegation_event := db_light_delegation_event d1 @ rows \<rparr>" using invalidate_InrD [OF d2] by auto
  obtain ins where ins: "d4 = d3 \<lparr> db_vtxo_operation_input := ins \<rparr>" using insertInputs_InrD [OF d4] by blast
  have db': "lg_db l' = lg_db l \<lparr> db_vtxo_operation := ops @ [s], db_light_delegation_event := db_light_delegation_event (lg_db l) @ rows,
      db_vtxo_operation_input := ins \<rparr>"
    using observe_frame [OF ob] insertVtxoOperation_InrD [OF d3] ins inv(2) d1' by simp
  have cl: "claimedDelegations ?key (lg_db l') v \<subseteq> claimedDelegations ?key (lg_db l) v" for v
    by (rule delegations_new_events [of rows]) (use inv(1) db' in auto)
  have lb: "liveBatches ?key (lg_db l') v = liveBatches ?key (lg_db l) v" for v by (rule liveBatches_cong) (simp_all add: db')
  have "claimedDelegations ?key (lg_db l) (op_VaultID r) = {}"
    using invalidate_none [OF d2] claimedDelegations_cong [of d1 "lg_db l" ?key "op_VaultID r"] by (simp add: d1')
  moreover have "liveBatches ?key (lg_db l) (op_VaultID r) = {}"
    using rejectActive_none [OF ra] liveBatches_cong [of d1 "lg_db l" ?key "op_VaultID r"] by (simp add: d1')
  moreover have "payments (lg_db l') (op_VaultID r) \<subseteq> {op_OperationID r}"
    using rejectConcurrent_InrD [OF co] f by (auto simp: payments_def db' ops_def)
  ultimately have "lifecycles ?key (lg_db l') (op_VaultID r) \<subseteq> {Payment (op_OperationID r)}"
    using cl [of "op_VaultID r"] lb [of "op_VaultID r"] by (auto simp: lifecycles_def)
  moreover have "payments (lg_db l') v \<subseteq> payments (lg_db l) v" if "v \<noteq> op_VaultID r" for v
  proof -
    have "payments (lg_db l') v = payments d1 v" using that f by (auto simp: payments_def db' d1')
    then show ?thesis using payments_evolved [OF ab(1)] by simp
  qed
  ultimately show ?thesis by (intro fencedI_one [of "op_VaultID r"]) (use cl lb in auto)
qed

lemma reserveRenewal_fenced:
  assumes "ReserveSpendingRenewal env r allowance l = (Inr x, l')" "authenticRows (lg_integrityKey l) (lg_db l)"
  shows "fenced (lg_integrityKey l) (lg_db l) (lg_db l')"
proof -
  let ?key = "lg_integrityKey l"
  obtain l1 where l1: "reserveRenewalBody env (r \<lparr> ro_CreatedAt := formatRFC3339 (env_pre env) \<rparr>) allowance ?key l = (Inr x, l1)" "lg_db l' = lg_db l1"
    using renewalTx_InrD [OF assms(1) [unfolded ReserveSpendingRenewal_def]] by blast
  show ?thesis
  proof (cases "lg_db l1 = lg_db l")
    case True
    then show ?thesis using l1(2) by (auto simp: fenced_def)
  next
    case False
    with l1(1) obtain R q where q: "loadSpendingRenewals (lg_db l) ?key = Inr R"
      "reserveRenewalNew (env_now env) ?key R q allowance l = (Inr x, l1)"
      unfolding reserveRenewalBody_def by (auto simp: act_iffs split: option.splits if_splits)
    then obtain d where d: "\<not> list_ex (\<lambda>p. ro_VaultID (rs_Operation p) = ro_VaultID q \<and> \<not> renewalTerminal p) (map snd R)"
      "rejectConcurrentVtxoOperationLocked (ro_VaultID q) [] l = Inr ()" "rejectDispatchedDelegation (ro_VaultID q) l = Inr ()"
      "insertRenewalOperation ?key q (lg_db l) = Inr d" "lg_db l1 = d"
      unfolding reserveRenewalNew_def by (auto simp: act_iffs split: if_splits)
    obtain row where row: "jo_operation_id row = ro_OperationID q" "jo_vault_id row = ro_VaultID q"
      "d = lg_db l \<lparr> db_light_renewal_operation := db_light_renewal_operation (lg_db l) @ [row] \<rparr>"
      using insertRenewalOperation_InrD [OF d(4)] by blast
    have new: "jo_operation_id row \<notin> set (map jo_operation_id (db_light_renewal_operation (lg_db l)))"
      using d(4) row(1) by (auto simp: insertRenewalOperation_def Let_def split: if_splits)
    have lb: "liveBatches ?key d v \<subseteq> liveBatches ?key (lg_db l) v \<union> (if v = ro_VaultID q then {ro_OperationID q} else {})" for v
      using batches_new_op [OF q(1) new, of d v, unfolded row(1,2)] by (simp add: row(3))
    have cl: "claimedDelegations ?key d v = claimedDelegations ?key (lg_db l) v" for v by (rule claimedDelegations_cong) (simp_all add: row(3))
    have pay: "payments d v = payments (lg_db l) v" for v by (simp add: payments_def row(3))
    have "liveBatches ?key (lg_db l) (ro_VaultID q) = {}" using q(1) d(1) by (auto simp: liveBatches_def list_ex_iff dest!: map_of_SomeD)
    then have "lifecycles ?key d (ro_VaultID q) \<subseteq> {Batch (ro_OperationID q)}"
      using rejectDispatched_none [OF d(3)] rejectConcurrent_none [OF d(2) assms(2)] lb [of "ro_VaultID q"]
      unfolding lifecycles_def pay cl by auto
    moreover have "liveBatches ?key d v \<subseteq> liveBatches ?key (lg_db l) v" if "v \<noteq> ro_VaultID q" for v
      using lb [of v] that by simp
    ultimately have "fenced ?key (lg_db l) d" by (intro fencedI_one [of "ro_VaultID q"]) (simp_all add: pay cl)
    then show ?thesis using d(5) l1(2) by simp
  qed
qed

lemma appendRenewal_fenced:
  assumes "AppendSpendingRenewalEvent env e0 cred n l = (Inr x, l')"
  shows "fenced (lg_integrityKey l) (lg_db l) (lg_db l')"
proof -
  let ?key = "lg_integrityKey l"
  define e where "e = e0 \<lparr> re_CreatedAt := formatRFC3339 (env_pre env) \<rparr>"
  have "withSpendingRenewalTx env (appendRenewalBody env e cred n) l = (Inr x, l')"
    using assms unfolding AppendSpendingRenewalEvent_def Let_def e_def [symmetric] by (auto split: sum.splits)
  from renewalTx_InrD [OF this] obtain l1 where l1: "appendRenewalBody env e cred n ?key l = (Inr x, l1)" "lg_db l' = lg_db l1" by blast
  then obtain R s where R: "loadSpendingRenewals (lg_db l) ?key = Inr R" "map_of R (re_OperationID e) = Some s"
    unfolding appendRenewalBody_def by (auto simp: act_iffs split: option.splits)
  show ?thesis
  proof (cases "map_of (rs_Events s) (re_Phase e)")
    case (Some old)
    then have "l1 = l" using l1(1) R unfolding appendRenewalBody_def by (auto simp: act_iffs split: option.splits)
    then show ?thesis using l1(2) by (simp add: fenced_def)
  next
    case None
    then obtain l2 d u where cr: "renewalCredential (env_now env) (ro_VaultID (rs_Operation s)) (re_Phase e) cred n l = (Inr u, l2)"
      and l2: "insertRenewalEvent ?key e (lg_db l2) = Inr d" "lg_db l1 = d"
      using l1(1) R unfolding appendRenewalBody_def by (auto simp: act_iffs split: option.splits)
    from renewalCredential_frame [OF cr] obtain ns where ns: "lg_db l2 = lg_db l \<lparr> db_webauthn_sign_count := ns \<rparr>" by auto
    obtain row where row: "je_operation_id row = re_OperationID e" "je_phase row = re_Phase e"
      "d = lg_db l2 \<lparr> db_light_renewal_event := db_light_renewal_event (lg_db l2) @ [row] \<rparr>"
      using insertRenewalEvent_InrD [OF l2(1)] by blast
    have "fenced ?key (lg_db l) d"
    proof (rule fencedI_none)
      show "payments d v \<subseteq> payments (lg_db l) v" for v by (simp add: payments_def row(3) ns)
      show "claimedDelegations ?key d v \<subseteq> claimedDelegations ?key (lg_db l) v" for v
        using claimedDelegations_cong [of d "lg_db l" ?key v] by (simp add: row(3) ns)
      show "liveBatches ?key d v \<subseteq> liveBatches ?key (lg_db l) v" for v
        by (rule batches_new_event [OF R(1), where row = row and s = s]) (use R None row ns in auto)
    qed
    then show ?thesis using l1(2) l2(2) by simp
  qed
qed

lemma insertDelegationOperations_rows:
  assumes "foldRes (insertDelegationOperation key) db ms = Inr d"
  shows "\<exists>rows. d = db \<lparr> db_light_delegation_operation := db_light_delegation_operation db @ rows \<rparr> \<and>
    set (map jo_operation_id rows) \<inter> set (map jo_operation_id (db_light_delegation_operation db)) = {}"
  using assms
proof (induction ms arbitrary: db)
  case Nil
  then show ?case by (intro exI [of _ "[]"]) simp
next
  case (Cons o1 ms)
  then obtain d1 where d1: "insertDelegationOperation key db o1 = Inr d1" "foldRes (insertDelegationOperation key) d1 ms = Inr d"
    by (auto simp: andThen_Inr_iff)
  obtain row where row: "jo_operation_id row = sd_OperationID o1"
    "d1 = db \<lparr> db_light_delegation_operation := db_light_delegation_operation db @ [row] \<rparr>"
    using insertDelegationOperation_InrD [OF d1(1)] by blast
  have new: "sd_OperationID o1 \<notin> set (map jo_operation_id (db_light_delegation_operation db))"
    using d1(1) by (auto simp: insertDelegationOperation_def Let_def split: if_splits)
  obtain rows where rows: "d = d1 \<lparr> db_light_delegation_operation := db_light_delegation_operation d1 @ rows \<rparr>"
    "set (map jo_operation_id rows) \<inter> set (map jo_operation_id (db_light_delegation_operation d1)) = {}"
    using Cons.IH [OF d1(2)] by blast
  show ?case by (rule exI [of _ "row # rows"]) (use rows row new in auto)
qed

lemma schedule_fenced:
  assumes "ScheduleVtxoDelegationSet env plans cred n l = (Inr x, l')"
  shows "fenced (lg_integrityKey l) (lg_db l) (lg_db l')"
proof -
  let ?key = "lg_integrityKey l"
  obtain ms where "withSpendingRenewalTx env (scheduleBody env ms cred n) l = (Inr x, l')"
    using assms unfolding ScheduleVtxoDelegationSet_def by (auto split: if_splits)
  from renewalTx_InrD [OF this] obtain l1 where l1: "scheduleBody env ms cred n ?key l = (Inr x, l1)" "lg_db l' = lg_db l1" by blast
  then obtain D l2 where D: "loadSpendingDelegations (lg_db l) ?key = Inr D"
    and ob: "observeEconomicOutflowsLocked (env_write0 env) l = (Inr (), l2)"
    and b: "l1 = l2 \<or> scheduleNew env ?key D ms cred n l2 = (Inr x, l1)"
    unfolding scheduleBody_def Let_def by (auto simp: act_iffs split: if_splits)
  have l2: "lg_db l2 = lg_db l" using observe_frame [OF ob] by simp
  show ?thesis
  proof (cases "l1 = l2")
    case True
    then show ?thesis using l1(2) l2 by (simp add: fenced_def)
  next
    case False
    then obtain l3 u d where adv: "advanceSignCountLocked (env_now env) (sd_VaultID (hd ms)) cred n l2 = (Inr u, l3)"
      and d: "foldRes (insertDelegationOperation ?key) (lg_db l3) ms = Inr d" "lg_db l1 = d"
      using b unfolding scheduleNew_def Let_def by (auto simp: act_iffs split: if_splits)
    obtain ns where ns: "lg_db l3 = lg_db l \<lparr> db_webauthn_sign_count := ns \<rparr>"
      using advanceSignCount_frame [OF adv] l2 by (metis Ledger.select_convs(1) Ledger.surjective Ledger.update_convs(1))
    obtain rows where rows: "d = lg_db l3 \<lparr> db_light_delegation_operation := db_light_delegation_operation (lg_db l3) @ rows \<rparr>"
      "set (map jo_operation_id rows) \<inter> set (map jo_operation_id (db_light_delegation_operation (lg_db l3))) = {}"
      using insertDelegationOperations_rows [OF d(1)] by blast
    have "fenced ?key (lg_db l) d"
    proof (rule fencedI_none)
      show "payments d v \<subseteq> payments (lg_db l) v" for v by (simp add: payments_def rows(1) ns)
      show "liveBatches ?key d v \<subseteq> liveBatches ?key (lg_db l) v" for v
        using liveBatches_cong [of d "lg_db l" ?key v] by (simp add: rows(1) ns)
      show "claimedDelegations ?key d v \<subseteq> claimedDelegations ?key (lg_db l) v" for v
        by (rule delegations_new_ops [OF D, where rows = rows]) (use rows ns in simp_all)
    qed
    then show ?thesis using l1(2) d(2) by simp
  qed
qed

lemma claimChecks_none:
  assumes "claimChecks now D s allowance l = Inr ()" "loadSpendingDelegations (lg_db l) (lg_integrityKey l) = Inr D"
    and "authenticRows key (lg_db l)"
  shows "lifecycles (lg_integrityKey l) (lg_db l) (sd_VaultID (ds_Operation s)) = {}"
proof -
  let ?v = "sd_VaultID (ds_Operation s)"
  have c: "\<not> list_ex (\<lambda>other. sd_VaultID (ds_Operation other) = ?v \<and> \<not> delegationTerminal other \<and> ds_Events other \<noteq> []) (map snd D)"
    "rejectConcurrentVtxoOperationLocked ?v [] l = Inr ()" "rejectActiveSpendingRenewal ?v l = Inr ()"
    using assms(1) by (auto simp: claimChecks_def Let_def andThen_Inr_iff split: if_splits)
  have "claimedDelegations (lg_integrityKey l) (lg_db l) ?v = {}"
    by (rule dispatched_none [OF assms(2)]) (use c(1) in \<open>auto simp: list_ex_iff\<close>)
  then show ?thesis using rejectConcurrent_none [OF c(2) assms(3)] rejectActive_none [OF c(3)] by (simp add: lifecycles_def)
qed

lemma advance_fenced:
  assumes "AdvanceSpendingDelegation env e0 allowance l = (Inr x, l')" "authenticRows (lg_integrityKey l) (lg_db l)"
  shows "fenced (lg_integrityKey l) (lg_db l) (lg_db l')"
proof -
  let ?key = "lg_integrityKey l"
  obtain e where "withSpendingRenewalTx env (advanceBody env e allowance) l = (Inr x, l')"
    using assms(1) unfolding AdvanceSpendingDelegation_def by blast
  from renewalTx_InrD [OF this] obtain l1 where l1: "advanceBody env e allowance ?key l = (Inr x, l1)" "lg_db l' = lg_db l1" by blast
  then obtain D l2 s where D: "loadSpendingDelegations (lg_db l) ?key = Inr D" "map_of D (de_OperationID e) = Some s"
    and ob: "observeEconomicOutflowsLocked (env_write0 env) l = (Inr (), l2)"
    unfolding advanceBody_def by (auto simp: act_iffs split: option.splits if_splits)
  note l2 = observe_frame [OF ob]
  show ?thesis
  proof (cases "l1 = l2")
    case True
    then show ?thesis using l1(2) l2 by (simp add: fenced_def)
  next
    case False
    with l1(1) D ob obtain d where c: "de_Phase e = ''claimed'' \<Longrightarrow> claimChecks (env_now env) D s allowance l2 = Inr ()"
      and d: "insertDelegationEvent ?key e (lg_db l2) = Inr d" "lg_db l1 = d"
      unfolding advanceBody_def by (auto simp: act_iffs split: if_splits)
    obtain row where row: "je_operation_id row = de_OperationID e" "je_phase row = de_Phase e"
      "d = lg_db l \<lparr> db_light_delegation_event := db_light_delegation_event (lg_db l) @ [row] \<rparr>"
      using insertDelegationEvent_InrD [OF d(1)] l2 by auto
    have pay: "payments d v = payments (lg_db l) v" for v by (simp add: payments_def row(3))
    have lb: "liveBatches ?key d v = liveBatches ?key (lg_db l) v" for v by (rule liveBatches_cong) (simp_all add: row(3))
    have cl: "claimedDelegations ?key d v \<subseteq> claimedDelegations ?key (lg_db l) v \<union>
        (if de_Phase e = ''claimed'' \<and> sd_VaultID (ds_Operation s) = v then {de_OperationID e} else {})" for v
      using delegations_new_event [OF D(1), of d row v, unfolded row(1,2)] D(2) by (simp add: row(3))
    have "fenced ?key (lg_db l) d"
    proof (cases "de_Phase e = ''claimed''")
      case True
      have "lifecycles ?key (lg_db l) (sd_VaultID (ds_Operation s)) = {}"
        using claimChecks_none [OF c [OF True]] D(1) assms(2) l2 by simp
      then have "lifecycles ?key d (sd_VaultID (ds_Operation s)) \<subseteq> {Delegate (de_OperationID e)}"
        using cl [of "sd_VaultID (ds_Operation s)"] True by (auto simp: lifecycles_def pay lb split: if_splits)
      moreover have "claimedDelegations ?key d v \<subseteq> claimedDelegations ?key (lg_db l) v" if "v \<noteq> sd_VaultID (ds_Operation s)" for v
        using cl [of v] that by simp
      ultimately show ?thesis by (intro fencedI_one [of "sd_VaultID (ds_Operation s)"]) (simp_all add: pay lb)
    next
      case False
      then have "claimedDelegations ?key d v \<subseteq> claimedDelegations ?key (lg_db l) v" for v using cl [of v] by simp
      then show ?thesis by (intro fencedI_none) (simp_all add: pay lb)
    qed
    then show ?thesis using l1(2) d(2) by simp
  qed
qed

lemma transition_fenced:
  assumes "exec env (CTransition expected r) l = (res, l')"
  shows "fenced (lg_integrityKey l) (lg_db l) (lg_db l')"
proof (cases "l' = l")
  case False
  with assms obtain s n db where "validVtxoTransition expected (op_State r)" "SealVtxoOperation r (lg_integrityKey l) = Inr s"
    "updateVtxoOperation expected s (lg_db l) = Inr (n, db)" and db: "lg_db l' = db"
    by (auto simp: TransitionVtxoOperation_def forget_def andThen_Inr_iff integrityKeyCopy_Inr_iff Let_def
      split: if_splits sum.splits prod.splits)
  from update_evolved [OF this(2,1,3)] obtain ops where "evolved (lg_integrityKey l) (opsTab l) ops" "db = lg_db l \<lparr> db_vtxo_operation := ops \<rparr>" by blast
  then show ?thesis by (intro fenced_journals_same) (simp_all add: db)
qed (simp add: fenced_def)

lemma commit_fenced:
  assumes "exec env (CCommitSigned r cr n) l = (res, l')"
  shows "fenced (lg_integrityKey l) (lg_db l) (lg_db l')"
proof (cases "l' = l")
  case False
  with assms obtain s x where s: "op_State r = vtxoStateSigned" "SealVtxoOperation r (lg_integrityKey l) = Inr s"
    "commitSignedBody (env_now env) s cr n l = (Inr (x, True), l')"
    by (auto simp: CommitSignedVtxoOperation_def forget_def andThen_Inr_iff integrityKeyCopy_Inr_iff
      split: if_splits sum.splits prod.splits)
  then obtain k db u where u: "updateVtxoOperation vtxoStateReserved s (lg_db l) = Inr (k, db)"
    "advanceSignCountLocked (env_now env) (op_VaultID s) cr n (l \<lparr> lg_db := db \<rparr>) = (Inr u, l')"
    by (auto simp: commitSignedBody_def Let_def act_iffs andThen_Inr_iff split: if_splits sum.splits prod.splits)
  have "validVtxoTransition vtxoStateReserved (op_State r)" using s(1) by (simp add: validVtxoTransition_def)
  from update_evolved [OF s(2) this u(1)] obtain ops where ops: "evolved (lg_integrityKey l) (opsTab l) ops"
    "db = lg_db l \<lparr> db_vtxo_operation := ops \<rparr>" by blast
  obtain ns where "lg_db l' = db \<lparr> db_webauthn_sign_count := ns \<rparr>"
    using advanceSignCount_frame [OF u(2)] by (metis Ledger.select_convs(1) Ledger.surjective Ledger.update_convs(1))
  then show ?thesis using ops by (intro fenced_journals_same) simp_all
qed (simp add: fenced_def)

lemma signCount_fenced:
  assumes "AdvanceSignCount now v cr n l = (res, l')"
  shows "fenced (lg_integrityKey l) (lg_db l) (lg_db l')"
proof (cases "l' = l")
  case False
  then have "advanceSignCountLocked now v cr n l = (res, l')" using assms by (auto simp: AdvanceSignCount_def split: if_splits)
  then obtain ns where "lg_db l' = lg_db l \<lparr> db_webauthn_sign_count := ns \<rparr>"
    using advanceSignCount_frame by (metis Ledger.select_convs(1) Ledger.surjective Ledger.update_convs(1))
  then show ?thesis by (intro fenced_journals_same) (simp_all add: evolved_refl)
qed (simp add: fenced_def)

lemma exec_fenced:
  assumes "exec env c l = (res, l')" "authenticRows (lg_integrityKey l) (lg_db l)"
  shows "fenced (lg_integrityKey l) (lg_db l) (lg_db l')"
proof (cases res)
  case (Inl e)
  then have "lg_db l' = lg_db l" using exec_error_db assms by blast
  then show ?thesis by (simp add: fenced_def)
next
  case (Inr u)
  show ?thesis
  proof (cases c)
    case (CTransition st r)
    with assms(1) transition_fenced show ?thesis by blast
  next
    case (CCommitSigned r cr n)
    with assms(1) commit_fenced show ?thesis by blast
  qed (use assms Inr reserve_fenced reserveRenewal_fenced appendRenewal_fenced schedule_fenced advance_fenced signCount_fenced in
      \<open>auto simp: forget_Inr_iff\<close>)
qed

interpretation life: ledger_invariant oneLifecycle
proof
  fix l key
  assume f: "freshLedger l"
  have "lifecycles key (lg_db l) v = {}" for v
    using f fresh_reads(3,4) [OF f] by (auto simp: lifecycles_def payments_def liveBatches_def claimedDelegations_def freshLedger_def)
  then show "oneLifecycle key (lg_db l)" by (simp add: oneLifecycle_def)
next
  show "authenticRows key (lg_db l) \<Longrightarrow> oneLifecycle key (lg_db l) \<Longrightarrow> lg_integrityKey l = key \<Longrightarrow> exec env c l = (res, l') \<Longrightarrow>
      oneLifecycle key (lg_db l')" for key l env c res l'
    using exec_fenced oneLifecycle_fenced by blast
next
  fix key l l'
  assume "oneLifecycle key (lg_db l)" "otherChange l l'"
  moreover have "fenced key (lg_db l) (lg_db l')"
    using \<open>otherChange l l'\<close> by (intro fenced_journals_same) (auto simp: otherChange_def evolved_refl)
  ultimately show "oneLifecycle key (lg_db l')" using oneLifecycle_fenced by blast
qed

end
