(* ===== verification/Ledger_Props.thy ===== *)
theory Ledger_Props
  imports Ledger_Fence
begin

text \<open>The properties of the ledger as a whole, over every reachable state.\<close>

section \<open>Properties\<close>


text \<open>
  C7: an operation's history is append-only. Whatever calls follow, a stored operation stays under its id and vault,
  its state only moves along the state graph, and a finalized, aborted or unresolved operation is never changed again.
\<close>

theorem operation_history:
  assumes "ledger_reach key l" "r \<in> set (opsTab l)"
  shows "\<exists>r'\<in>set (opsTab (runCalls calls l)). op_OperationID r' = op_OperationID r \<and> op_VaultID r' = op_VaultID r \<and>
    validVtxoTransition\<^sup>*\<^sup>* (op_State r) (op_State r') \<and>
    (op_State r \<in> {vtxoStateFinalized, vtxoStateAborted, vtxoStateUnresolved} \<longrightarrow> r' = r)"
proof -
  obtain r' where r': "r' \<in> set (opsTab (runCalls calls l))" "evolves key r r'" using runCalls_evolves [OF assms] by blast
  then have "validVtxoTransition\<^sup>*\<^sup>* (op_State r) (op_State r')" by (auto simp: evolves_def dest: tranclp_into_rtranclp)
  then show ?thesis using r' evolves_ids [OF r'(2)] evolves_terminal [OF r'(2)] by blast
qed

text \<open>
  C3: in every reachable ledger all stored operations and inputs carry valid MACs, no outpoint is held by two live
  operations, and no vault has two unresolved operations.
\<close>

theorem reachable_ledger_sound:
  assumes "ledger_reach key l"
  shows "authenticRows key (lg_db l) \<and> exclusiveInputs key (lg_db l) \<and> oneBlocking key (lg_db l)"
  using reach_authentic excl.reach_inv blk.reach_inv assms by blast

text \<open>
  C1: a vault never runs two money movements at once. In every reachable ledger, of all unresolved payments, live
  Bitcoin batches and claimed delegations of one vault there is at most one.
\<close>

theorem one_lifecycle_per_vault:
  assumes "ledger_reach key l" "a \<in> lifecycles key (lg_db l) v" "b \<in> lifecycles key (lg_db l) v"
  shows "a = b"
  using life.reach_inv [OF assms(1)] assms(2,3) by (simp add: oneLifecycle_def)

text \<open>The ledger after the sample reservation is reachable.\<close>

lemma sampleReserved:
  "\<exists>l s. ledger_reach sampleKey l \<and> opsTab l = [s] \<and> op_OperationID s = ''a'' \<and> op_VaultID s = ''v'' \<and> op_State s = vtxoStateReserved \<and>
     exec sampleEnv (CReserve sampleReservation [sampleInput 3] 100000) sampleLedger = (Inr (), l)"
proof -
  obtain s i where s: "SealVtxoOperation sampleReservation sampleKey = Inr s"
    "ReserveVtxoOperation sampleEnv sampleReservation [sampleInput 3] 100000 sampleLedger =
       (Inr (), sampleLedger \<lparr> lg_db := sampleDB \<lparr> db_vtxo_operation := [s], db_vtxo_operation_input := [i] \<rparr> \<rparr>)"
    using sampleReserve by blast
  have "ledger_reach sampleKey sampleLedger"
    by (rule ledger_reach.init [OF sampleLedger_fresh(1)]) (simp add: sampleLedger_def)
  from ledger_reach.call [OF this, of sampleEnv "CReserve sampleReservation [sampleInput 3] 100000"] s(2)
  have "ledger_reach sampleKey (sampleLedger \<lparr> lg_db := sampleDB \<lparr> db_vtxo_operation := [s], db_vtxo_operation_input := [i] \<rparr> \<rparr>)" by simp
  moreover have "op_OperationID s = ''a''" "op_VaultID s = ''v''" "op_State s = vtxoStateReserved"
    by (subst SealVtxoOperation_InrD(1) [OF s(1)], simp)+
  ultimately show ?thesis using s(2) by (intro exI [of _ "sampleLedger \<lparr> lg_db := sampleDB \<lparr> db_vtxo_operation := [s], db_vtxo_operation_input := [i] \<rparr> \<rparr>"]) auto
qed

theorem one_lifecycle_per_vault_witness:
  "\<exists>l. ledger_reach sampleKey l \<and> lifecycles sampleKey (lg_db l) ''v'' = {Payment ''a''}"
proof -
  obtain l s where l: "ledger_reach sampleKey l" "opsTab l = [s]" "op_OperationID s = ''a''" "op_VaultID s = ''v''" "op_State s = vtxoStateReserved"
    using sampleReserved by blast
  have "Payment ''a'' \<in> lifecycles sampleKey (lg_db l) ''v''"
    using l by (auto simp: lifecycles_def payments_def vtxoStateBlocksNewOperation_def)
  then have "lifecycles sampleKey (lg_db l) ''v'' = {Payment ''a''}"
    using one_lifecycle_per_vault [OF l(1)] by blast
  with l(1) show ?thesis by blast
qed

theorem reachable_ledger_sound_witness:
  "\<exists>l. ledger_reach sampleKey l \<and> opsTab l \<noteq> [] \<and> authenticRows sampleKey (lg_db l) \<and> exclusiveInputs sampleKey (lg_db l) \<and>
     oneBlocking sampleKey (lg_db l)"
proof -
  obtain l s where l: "ledger_reach sampleKey l" "opsTab l = [s]" using sampleReserved by blast
  with reachable_ledger_sound [OF l(1)] show ?thesis by (intro exI [of _ l]) simp
qed

theorem operation_history_witness:
  "\<exists>l s. ledger_reach sampleKey l \<and> s \<in> set (opsTab l) \<and>
     (\<exists>r'\<in>set (opsTab (runCalls [(sampleEnv, CTransition ''reserved'' sampleReservation)] l)). op_OperationID r' = ''a'')"
proof -
  obtain l s where l: "ledger_reach sampleKey l" "opsTab l = [s]" "op_OperationID s = ''a''" using sampleReserved by blast
  then have m: "s \<in> set (opsTab l)" by simp
  from operation_history [OF l(1) m, of "[(sampleEnv, CTransition ''reserved'' sampleReservation)]"] l m show ?thesis by metis
qed


lemma sequence_grows:
  assumes "currentEconomicSequence l = Inr k" "currentEconomicSequence l' = Inr n"
    and "db_policy_sequence_base (lg_db l') = db_policy_sequence_base (lg_db l)" "lg_integrityKey l' = lg_integrityKey l" "lg_network l' = lg_network l"
    and "economicRows (lg_db l) < economicRows (lg_db l')" "economicRows (lg_db l') < 2 ^ 63"
  shows "k < n"
proof -
  have same: "readPolicySequenceBase (lg_db l') (lg_network l') (lg_integrityKey l') = readPolicySequenceBase (lg_db l) (lg_network l) (lg_integrityKey l)"
    using assms(3-5) by (simp add: readPolicySequenceBase_def)
  let ?c = "word_of_nat (economicRows (lg_db l)) :: u64" and ?c' = "word_of_nat (economicRows (lg_db l')) :: u64"
  obtain base where "\<not> ?c > 18446744073709551615 - base" "k = base + ?c" "\<not> ?c' > 18446744073709551615 - base" "n = base + ?c'"
    using assms(1,2) unfolding currentEconomicSequence_def same economicOutflowCount_def
    by (auto simp: andThen_Inr_iff split: option.splits if_splits)
  then have b: "unat ?c \<le> unat (18446744073709551615 - base)" "unat ?c' \<le> unat (18446744073709551615 - base)" "k = base + ?c" "n = base + ?c'"
    by (simp_all add: not_less word_le_nat_alt)
  have "base \<le> 18446744073709551615" using unat_u64_less [of base] by (simp add: word_le_nat_alt)
  then have "unat (18446744073709551615 - base) = 2 ^ 64 - 1 - unat base" by (subst unat_sub) simp_all
  then have "unat base + unat ?c < 2 ^ 64" "unat base + unat ?c' < 2 ^ 64" using b(1,2) unat_u64_less [of base] by simp_all
  moreover have "unat ?c < unat ?c'" using assms(6,7) by (simp add: unat_of_nat)
  ultimately show ?thesis unfolding b(3,4) word_less_nat_alt by (simp add: unat_word_ariths)
qed

text \<open>
  C10: a reservation cannot be taken back by restoring an older database. After a successful reservation with the
  sequence file attached, the file refuses the database of before the reservation, whatever is attempted in between.
\<close>

theorem reservation_survives_restore:
  assumes "lg_monotonic l = Some m" "monotonicValid m" "ReserveVtxoOperation env r inputs cap l = (Inr (), l')"
    and "authenticRows (lg_integrityKey l) (lg_db l)" "economicRows (lg_db l') < 2 ^ 63"
  shows "\<exists>m'. lg_monotonic l' = Some m' \<and>
    (\<forall>attempts w. \<exists>e old. observeEconomicOutflowsLocked w (l \<lparr> lg_monotonic := Some (observeAll Observe m' attempts) \<rparr>) = (Inl e, old))"
proof -
  let ?key = "lg_integrityKey l"
  have body: "reserveBody (env_now env) (env_write env) r inputs cap l = (Inr (), l')"
    using assms(3) by (auto simp: ReserveVtxoOperation_def inTx_Inr_iff split: if_splits)
  from reserveBody_InrD [OF body] obtain d1 d2 s d3 d4 where
    d1: "abortExpiredVtxoLocked (env_now env) (op_VaultID r) l = Inr d1" and
    d2: "invalidateArmedDelegations (env_now env) (op_VaultID r) inputs (l \<lparr> lg_db := d1 \<rparr>) = Inr d2" and
    d3: "insertVtxoOperation s d2 = Inr d3" and
    d4: "foldRes (sealAndInsertInput (op_OperationID r) ?key) d3 inputs = Inr d4" and
    ob: "observeEconomicOutflowsLocked (env_write env) (l \<lparr> lg_db := d4 \<rparr>) = (Inr (), l')" by blast
  note ab = abortExpired_evolved [OF d1 assms(4)]
  obtain ops where d1': "d1 = lg_db l \<lparr> db_vtxo_operation := ops \<rparr>" "length ops = length (opsTab l)"
    using ab list_all2_lengthD [OF ab(1)] by auto
  have rows: "economicRows (lg_db l) < economicRows d4" "db_policy_sequence_base d4 = db_policy_sequence_base (lg_db l)"
    using insertInputs_InrD [OF d4] insertVtxoOperation_InrD [OF d3] invalidate_InrD [OF d2] d1' by (auto simp: economicRows_def)
  obtain n m' where n: "currentEconomicSequence (l \<lparr> lg_db := d4 \<rparr>) = Inr n" "Observe (env_write env) m n = (Inr (), m')" "lg_monotonic l' = Some m'"
    using ob assms(1) by (auto simp: observeEconomicOutflowsLocked_def split: sum.splits prod.splits)
  have "\<exists>e old. observeEconomicOutflowsLocked w (l \<lparr> lg_monotonic := Some (observeAll Observe m' attempts) \<rparr>) = (Inl e, old)" for attempts w
  proof (cases "currentEconomicSequence (l \<lparr> lg_monotonic := Some (observeAll Observe m' attempts) \<rparr>)")
    case (Inl e)
    then show ?thesis by (simp add: observeEconomicOutflowsLocked_def)
  next
    case (Inr k)
    then have "k < n"
      by (rule sequence_grows [OF _ n(1)]) (use rows assms(5) observe_frame [OF ob] in auto)
    then obtain e m'' where "Observe w (observeAll Observe m' attempts) k = (Inl e, m'')"
      using mono_seq.accepted_then_behind [OF assms(2) n(2)] by blast
    with Inr show ?thesis by (simp add: observeEconomicOutflowsLocked_def)
  qed
  with n(3) show ?thesis by blast
qed

theorem reservation_survives_restore_witness:
  "\<exists>l l' m'. ReserveVtxoOperation sampleEnv sampleReservation [sampleInput 3] 100000 l = (Inr (), l') \<and> lg_monotonic l' = Some m' \<and>
     (\<exists>e old. observeEconomicOutflowsLocked WriteOk (l \<lparr> lg_monotonic := Some m' \<rparr>) = (Inl e, old))"
proof -
  obtain s i where s: "SealVtxoOperation sampleReservation sampleKey = Inr s" "vtxoOperationChecks s"
    and i: "SealVtxoOperationInput (sampleInput 3 \<lparr> vi_OperationID := ''a'' \<rparr>) sampleKey = Inr i" "vtxoInputChecks i"
    using sampleReservation_seal sampleInput_seal by blast
  let ?m = "snd (monotonicWrite WriteOk \<lparr> mo_key = sampleKey, mo_file = None \<rparr> 5)"
  let ?l = "sampleLedger \<lparr> lg_monotonic := Some ?m \<rparr>"
  let ?l1 = "?l \<lparr> lg_db := sampleDB \<lparr> db_vtxo_operation := [s], db_vtxo_operation_input := [i] \<rparr> \<rparr>"
  have r: "monotonicRead ?m = Inr (Some 5)" by (rule read_written)
  then have v: "monotonicValid ?m" by (simp add: monotonicValid_def)
  have q: "currentEconomicSequence ?l1 = Inr 6"
    by (simp add: currentEconomicSequence_def readPolicySequenceBase_def economicOutflowCount_def economicRows_def
      sampleLedger_def sampleDB_def sampleKey_def u64_of_def)
  define m' where "m' = snd (monotonicWrite WriteOk ?m 6)"
  have o: "observeEconomicOutflowsLocked WriteOk ?l1 = (Inr (), ?l1 \<lparr> lg_monotonic := Some m' \<rparr>)"
    using r q unfolding m'_def by (simp add: observeEconomicOutflowsLocked_def Observe_def monotonicWrite_def Let_def)
  have f: "freshLedger ?l" "vaultExists ''v'' (lg_db ?l)" "lg_integrityKey ?l = sampleKey" "lg_db ?l = sampleDB"
    using sampleLedger_fresh by (simp_all add: freshLedger_def sampleLedger_def)
  have res: "ReserveVtxoOperation sampleEnv sampleReservation [sampleInput 3] 100000 ?l = (Inr (), ?l1 \<lparr> lg_monotonic := Some m' \<rparr>)"
    using s i f o
    by (intro reserve_fresh [where need = 1010])
       (simp_all add: sampleEnv_def addOutflow_def i64_id in_i64_def maxInt64_def)
  have a: "authenticRows (lg_integrityKey ?l) (lg_db ?l)" using f(1) by (simp add: authenticRows_def freshLedger_def)
  have "economicRows (lg_db (?l1 \<lparr> lg_monotonic := Some m' \<rparr>)) < 2 ^ 63" by (simp add: economicRows_def sampleDB_def)
  from reservation_survives_restore [OF _ v res a this] obtain m2 where m2: "Some m' = Some m2"
    "\<And>attempts w. \<exists>e old. observeEconomicOutflowsLocked w (?l \<lparr> lg_monotonic := Some (observeAll Observe m2 attempts) \<rparr>) = (Inl e, old)"
    by auto
  from m2(2) [of WriteOk "[]"] m2(1) have "\<exists>e old. observeEconomicOutflowsLocked WriteOk (?l \<lparr> lg_monotonic := Some m' \<rparr>) = (Inl e, old)" by simp
  with res show ?thesis by (intro exI [of _ ?l] exI [of _ "?l1 \<lparr> lg_monotonic := Some m' \<rparr>"] exI [of _ m']) simp
qed

end
