(* ===== verification/Cbor.thy ===== *)
theory Cbor
  imports Prelude Go_Text
begin

text \<open>
  The CBOR codec of \<open>webauthn/cbor.go\<close>: the decoder behind attestation objects and COSE keys and the encoders used
  to build them. \<open>uint64\<close> lengths are natural numbers here, since \<open>decodeCBORLen\<close> never returns more than
  65535 (\<open>decodeCBORLen_bound\<close>). The decoder is a nested recursion on what is left of the input; it terminates
  because a decoded value consumes input. The main result is that the decoder accepts exactly the canonical encodings.
\<close>

unbundle bit_operations_syntax

section \<open>Values\<close>

definition maxCBORBytes :: nat where "maxCBORBytes = 4096"

datatype cborValue =
    CInt int
  | CBytes bytes
  | CText string
  | CMap "(cborValue \<times> cborValue) list"
  | CBool bool

fun sameCBORMapKey :: "cborValue \<Rightarrow> cborValue \<Rightarrow> bool" where
  "sameCBORMapKey (CInt a) (CInt b) \<longleftrightarrow> a = b"
| "sameCBORMapKey (CText a) (CText b) \<longleftrightarrow> a = b"
| "sameCBORMapKey _ _ \<longleftrightarrow> False"

fun cborKeyKind :: "cborValue \<Rightarrow> bool" where
  "cborKeyKind (CInt _) = True"
| "cborKeyKind (CText _) = True"
| "cborKeyKind _ = False"

section \<open>Decoding\<close>

definition decodeCBORLen :: "nat \<Rightarrow> bytes \<Rightarrow> (nat \<times> bytes) res" where
  "decodeCBORLen ai rest =
     (if ai < 24 then Inr (ai, rest)
      else if ai = 24 then
        (case rest of
           [] \<Rightarrow> Inl (Err ''truncated cbor length'')
         | b # r \<Rightarrow> if unat b < 24 then Inl (Err ''non-minimal cbor length'') else Inr (unat b, r))
      else if ai = 25 then
        (case rest of
           b # c # r \<Rightarrow> if 256 * unat b + unat c \<le> 255 then Inl (Err ''non-minimal cbor length'')
                       else Inr (256 * unat b + unat c, r)
         | _ \<Rightarrow> Inl (Err ''truncated cbor length''))
      else Inl (Err ''unsupported cbor additional info''))"

lemma be16_bound: "256 * unat (b :: byte) + unat (c :: byte) < 65536"
  using unat_byte_less [of b] unat_byte_less [of c] by linarith

lemma decodeCBORLen_bound: "decodeCBORLen ai rest = Inr (n, r) \<Longrightarrow> n < 65536"
  using be16_bound less_trans [OF unat_byte_less, of 65536]
  by (auto simp: decodeCBORLen_def split: if_splits list.splits)

lemma decodeCBORLen_shorter: "decodeCBORLen ai rest = Inr (n, r) \<Longrightarrow> length r \<le> length rest"
  by (auto simp: decodeCBORLen_def split: if_splits list.splits)

text \<open>\<open>decodePairs\<close> is the loop over the entries of a map.\<close>

function decodeCBOR :: "bytes \<Rightarrow> (cborValue \<times> bytes) res"
and decodePairs :: "nat \<Rightarrow> (cborValue \<times> cborValue) list \<Rightarrow> bytes \<Rightarrow> ((cborValue \<times> cborValue) list \<times> bytes) res" where
  "decodeCBOR inp =
     (if inp = [] then Inl (Err ''truncated cbor'')
      else if length inp > maxCBORBytes then Inl (Err ''cbor too large'')
      else
      let major = unat (hd inp) div 32; ai = unat (hd inp) mod 32 in
      andThen (decodeCBORLen ai (tl inp)) (\<lambda>(n, rest).
      if major = 0 then Inr (CInt (int n), rest)
      else if major = 1 then Inr (CInt (- int n - 1), rest)
      else if major = 2 then
        (if n > length rest then Inl (Err ''truncated cbor bytes'') else Inr (CBytes (take n rest), drop n rest))
      else if major = 3 then
        (if n > length rest then Inl (Err ''truncated cbor text'') else Inr (CText (string_of (take n rest)), drop n rest))
      else if major = 7 then
        (if ai = 20 then Inr (CBool False, rest)
         else if ai = 21 then Inr (CBool True, rest)
         else Inl (Err ''unsupported cbor simple value''))
      else if major = 5 then
        (if n > 16 then Inl (Err ''cbor map too large'')
         else andThen (decodePairs n [] rest) (\<lambda>(pairs, r). Inr (CMap pairs, r)))
      else Inl (Err ''unsupported cbor major type %d'')))"
| "decodePairs i pairs rest =
     (if i = 0 then Inr (pairs, rest)
      else
      andThen (decodeCBOR rest) (\<lambda>(k, next).
      if \<not> cborKeyKind k then Inl (Err ''unsupported cbor map key'')
      else if list_ex (\<lambda>p. sameCBORMapKey (fst p) k) pairs then Inl (Err ''duplicate cbor map key'')
      else andThen (decodeCBOR next) (\<lambda>(v, next').
           decodePairs (i - 1) (pairs @ [(k, v)]) next')))"
  by pat_completeness auto

lemma decode_shorter_dom:
  "decodeCBOR_decodePairs_dom (Inl inp) \<Longrightarrow> decodeCBOR inp = Inr (v, r) \<Longrightarrow> length r < length inp"
  "decodeCBOR_decodePairs_dom (Inr (i, pairs, rest)) \<Longrightarrow> decodePairs i pairs rest = Inr (ps, r) \<Longrightarrow> length r \<le> length rest"
proof (induction inp and i pairs rest arbitrary: v r and ps r rule: decodeCBOR_decodePairs.pinduct)
  case (1 inp)
  then obtain b t n rest where inp: "inp = b # t" "decodeCBORLen (unat b mod 32) t = Inr (n, rest)"
    by (cases inp) (auto simp: decodeCBOR.psimps andThen_Inr_iff Let_def split: if_splits)
  have "length rest \<le> length t" by (rule decodeCBORLen_shorter [OF inp(2)])
  moreover have "length r \<le> length rest"
    using 1 inp by (auto simp: decodeCBOR.psimps andThen_Inr_iff Let_def split: if_splits)
  ultimately show ?case using inp(1) by simp
next
  case (2 i pairs rest)
  show ?case
  proof (cases "i = 0")
    case True
    with 2 show ?thesis by (simp add: decodePairs.psimps)
  next
    case False
    with 2(1,5) obtain k next1 v next2 where
      "decodeCBOR rest = Inr (k, next1)" "decodeCBOR next1 = Inr (v, next2)" "cborKeyKind k"
      "\<not> list_ex (\<lambda>p. sameCBORMapKey (fst p) k) pairs" "decodePairs (i - 1) (pairs @ [(k, v)]) next2 = Inr (ps, r)"
      by (auto simp: decodePairs.psimps andThen_Inr_iff split: if_splits)
    with 2(2-4) False show ?thesis by fastforce
  qed
qed

lemma tail_measure: "length (b :: bytes) \<le> length inp - Suc 0 \<Longrightarrow> inp \<noteq> [] \<Longrightarrow> Suc (2 * length b) < 2 * length inp"
  by (cases inp) auto

termination decodeCBOR
  by (relation "measure (\<lambda>x. case x of Inl inp \<Rightarrow> 2 * length inp | Inr (i, pairs, rest) \<Rightarrow> 2 * length rest + 1)")
     (auto dest!: decode_shorter_dom(1) decodeCBORLen_shorter intro: tail_measure split: if_splits)

declare decodeCBOR.simps [simp del] decodePairs.simps [simp del]

section \<open>Encoding\<close>

definition encodeCBORUnsigned :: "nat \<Rightarrow> bytes" where
  "encodeCBORUnsigned n =
     (if n < 24 then [word_of_nat n]
      else if n < 256 then [24, word_of_nat n]
      else [25, word_of_nat (n div 256), word_of_nat n])"

text \<open>\<open>hdr[0] |= m << 5\<close>.\<close>

fun setMajor :: "nat \<Rightarrow> bytes \<Rightarrow> bytes" where
  "setMajor m (h # t) = (h OR push_bit 5 (word_of_nat m)) # t"
| "setMajor m [] = []"

definition encodeCBORNegative :: "int \<Rightarrow> bytes" where
  "encodeCBORNegative n = setMajor 1 (encodeCBORUnsigned (nat ((- n - 1) mod 2 ^ 64)))"

definition encodeCBORBytes :: "bytes \<Rightarrow> bytes" where
  "encodeCBORBytes b = setMajor 2 (encodeCBORUnsigned (length b)) @ b"

definition encodeCBORText :: "string \<Rightarrow> bytes" where
  "encodeCBORText s = setMajor 3 (encodeCBORUnsigned (length s)) @ bytes_of s"

definition encodeCBORMap :: "bytes list \<Rightarrow> bytes" where
  "encodeCBORMap pairs = setMajor 5 (encodeCBORUnsigned (length pairs)) @ concat pairs"

definition encodeCBORBool :: "bool \<Rightarrow> bytes" where
  "encodeCBORBool v = (if v then [245] else [244])"

section \<open>Lookup in a map\<close>

definition mapInt :: "cborValue \<Rightarrow> int \<Rightarrow> cborValue option" where
  "mapInt v key = (case v of CMap ps \<Rightarrow> map_option snd (lookupBy (\<lambda>p. fst p = CInt key) ps) | _ \<Rightarrow> None)"

definition mapText :: "cborValue \<Rightarrow> string \<Rightarrow> cborValue option" where
  "mapText v key = (case v of CMap ps \<Rightarrow> map_option snd (lookupBy (\<lambda>p. fst p = CText key) ps) | _ \<Rightarrow> None)"

section \<open>The header byte\<close>

lemma or_major:
  assumes "unat (h :: byte) < 32" "m < 8"
  shows "unat (h OR push_bit 5 (word_of_nat m)) = 32 * m + unat h"
proof -
  have m: "unat (push_bit 5 (word_of_nat m :: byte)) = 32 * m"
    using assms(2) by (simp add: push_bit_eq_mult unat_word_ariths unat_of_nat)
  have "h AND push_bit 5 (word_of_nat m) = 0"
  proof (rule bit_word_eqI)
    fix i assume "i < LENGTH(8)"
    have "\<not> bit h i" if "5 \<le> i"
    proof -
      have "unat h < 2 ^ i" using assms(1) that power_increasing [of 5 i "2 :: nat"] by simp
      then have "\<not> bit (unat h) i" by (simp add: bit_iff_odd)
      then show ?thesis using \<open>i < LENGTH(8)\<close> by (simp add: bit_unsigned_iff)
    qed
    then show "bit (h AND push_bit 5 (word_of_nat m)) i \<longleftrightarrow> bit (0 :: byte) i"
      by (auto simp: bit_simps)
  qed
  then have "h OR push_bit 5 (word_of_nat m) = h + push_bit 5 (word_of_nat m)"
    by (simp add: disjunctive_add_eq_or)
  then show ?thesis using m assms by (simp add: unat_word_ariths)
qed

lemma header_decodes:
  assumes "n < 65536" "m < 8"
  obtains b t ai where "setMajor m (encodeCBORUnsigned n) = b # t" "unat b div 32 = m" "unat b mod 32 = ai"
    "\<And>rest. decodeCBORLen ai (t @ rest) = Inr (n, rest)"
proof -
  consider "n < 24" | "24 \<le> n" "n < 256" | "256 \<le> n" by linarith
  then show thesis
  proof cases
    case 1
    then show ?thesis using or_major [of "word_of_nat n" m] assms
      by (intro that [of "word_of_nat n OR push_bit 5 (word_of_nat m)" "[]" n]) (simp_all add: encodeCBORUnsigned_def decodeCBORLen_def)
  next
    case 2
    then show ?thesis using or_major [of 24 m] assms
      by (intro that [of "24 OR push_bit 5 (word_of_nat m)" "[word_of_nat n]" 24]) (simp_all add: encodeCBORUnsigned_def decodeCBORLen_def)
  next
    case 3
    have "256 * (n div 256 mod 256) + n mod 256 = n" using assms(1) by (simp add: div_less_mono less_mult_imp_div_less)
    then show ?thesis using or_major [of 25 m] assms 3
      by (intro that [of "25 OR push_bit 5 (word_of_nat m)" "[word_of_nat (n div 256), word_of_nat n]" 25])
         (simp_all add: encodeCBORUnsigned_def decodeCBORLen_def)
  qed
qed

lemma header_unique:
  assumes "decodeCBORLen (unat b mod 32) t = Inr (n, rest)"
  shows "b # t = setMajor (unat b div 32) (encodeCBORUnsigned n) @ rest"
proof -
  let ?ai = "unat b mod 32" and ?m = "unat b div 32"
  have m: "?m < 8" using unat_byte_less [of b] by (simp add: less_mult_imp_div_less)
  have b: "b = word_of_nat ?ai OR push_bit 5 (word_of_nat ?m)"
    using or_major [of "word_of_nat ?ai" ?m] m by (simp add: word_unat_eq_iff)
  consider "?ai < 24" "n = ?ai" "rest = t"
    | c where "?ai = 24" "t = c # rest" "24 \<le> unat c" "n = unat c"
    | c d where "?ai = 25" "t = c # d # rest" "255 < 256 * unat c + unat d" "n = 256 * unat c + unat d"
    using assms by (auto simp: decodeCBORLen_def split: if_splits list.splits)
  then show ?thesis
  proof cases
    case 1
    with b show ?thesis by (simp add: encodeCBORUnsigned_def)
  next
    case 2
    with b unat_byte_less [of c] show ?thesis by (simp add: encodeCBORUnsigned_def)
  next
    case 3
    have "(256 * unat c + unat d) div 256 = unat c" "word_of_nat (256 * unat c + unat d) = d"
      using unat_byte_less [of d] by (simp_all add: word_unat_eq_iff unat_word_ariths)
    with 3 b show ?thesis by (simp add: encodeCBORUnsigned_def)
  qed
qed

section \<open>The decoder accepts exactly the canonical encodings\<close>

text \<open>The reference encoding of a value, put together from the encoders of the source, and the values it is for.\<close>

fun encodeCBOR :: "cborValue \<Rightarrow> bytes" where
  "encodeCBOR (CInt i) = (if 0 \<le> i then encodeCBORUnsigned (nat i) else encodeCBORNegative i)"
| "encodeCBOR (CBytes b) = encodeCBORBytes b"
| "encodeCBOR (CText t) = encodeCBORText t"
| "encodeCBOR (CMap ps) = encodeCBORMap (map (\<lambda>(k, v). encodeCBOR k @ encodeCBOR v) ps)"
| "encodeCBOR (CBool b) = encodeCBORBool b"

fun cborWf :: "cborValue \<Rightarrow> bool" where
  "cborWf (CInt i) \<longleftrightarrow> - 65536 \<le> i \<and> i < 65536"
| "cborWf (CBytes b) \<longleftrightarrow> length b < 65536"
| "cborWf (CText t) \<longleftrightarrow> length t < 65536"
| "cborWf (CMap ps) \<longleftrightarrow> length ps \<le> 16 \<and> distinct (map fst ps) \<and>
     (\<forall>(k, v)\<in>set ps. cborKeyKind k \<and> cborWf k \<and> cborWf v)"
| "cborWf (CBool b) \<longleftrightarrow> True"

lemma setMajor_0: "setMajor 0 b = b"
  by (cases b) auto

lemma sameKey_eq: "cborKeyKind a \<Longrightarrow> sameCBORMapKey b a \<longleftrightarrow> b = a"
  by (cases a; cases b) auto

text \<open>The step of the decoder after the header of a value that is not a simple value.\<close>

definition decodeBody :: "nat \<Rightarrow> nat \<Rightarrow> bytes \<Rightarrow> (cborValue \<times> bytes) res" where
  "decodeBody m n rest =
     (if m = 0 then Inr (CInt (int n), rest)
      else if m = 1 then Inr (CInt (- int n - 1), rest)
      else if m = 2 then
        (if n > length rest then Inl (Err ''truncated cbor bytes'') else Inr (CBytes (take n rest), drop n rest))
      else if m = 3 then
        (if n > length rest then Inl (Err ''truncated cbor text'') else Inr (CText (string_of (take n rest)), drop n rest))
      else if m = 5 then
        (if n > 16 then Inl (Err ''cbor map too large'')
         else andThen (decodePairs n [] rest) (\<lambda>(pairs, r). Inr (CMap pairs, r)))
      else Inl (Err ''unsupported cbor major type %d''))"

lemma decode_after_header:
  assumes "length (b # t) \<le> maxCBORBytes" "decodeCBORLen (unat b mod 32) t = Inr (n, rest)"
  shows "decodeCBOR (b # t) =
    (if unat b div 32 = 7 then
       (if unat b mod 32 = 20 then Inr (CBool False, rest)
        else if unat b mod 32 = 21 then Inr (CBool True, rest)
        else Inl (Err ''unsupported cbor simple value''))
     else decodeBody (unat b div 32) n rest)"
  using assms by (subst decodeCBOR.simps) (simp add: Let_def decodeBody_def)

lemma decode_header:
  assumes "n < 65536" "m < 7" "length (setMajor m (encodeCBORUnsigned n) @ rest) \<le> maxCBORBytes"
  shows "decodeCBOR (setMajor m (encodeCBORUnsigned n) @ rest) = decodeBody m n rest"
proof -
  obtain b t ai where h: "setMajor m (encodeCBORUnsigned n) = b # t" "unat b div 32 = m" "unat b mod 32 = ai"
    "\<And>rest. decodeCBORLen ai (t @ rest) = Inr (n, rest)"
    using header_decodes [OF assms(1), of m] assms(2) by auto
  have "decodeCBORLen (unat b mod 32) (t @ rest) = Inr (n, rest)" using h(3,4) by simp
  with decode_after_header [of b "t @ rest"] h(1,2) assms show ?thesis by simp
qed

lemma decode_InrD:
  assumes "decodeCBOR inp = Inr (v, r)"
  shows "length inp \<le> maxCBORBytes \<and>
    ((\<exists>b. v = CBool b \<and> inp = encodeCBORBool b @ r) \<or>
     (\<exists>m n rest. m < 7 \<and> n < 65536 \<and> inp = setMajor m (encodeCBORUnsigned n) @ rest \<and> decodeBody m n rest = Inr (v, r)))"
proof -
  have ne: "inp \<noteq> []" "length inp \<le> maxCBORBytes"
    using assms by (auto simp: decodeCBOR.simps [of inp] split: if_splits)
  then obtain b t where inp: "inp = b # t" by (cases inp) auto
  obtain n rest where len: "decodeCBORLen (unat b mod 32) t = Inr (n, rest)"
    using assms ne unfolding inp by (subst (asm) decodeCBOR.simps) (auto simp: andThen_Inr_iff Let_def)
  let ?m = "unat b div 32"
  have m: "?m < 8" using unat_byte_less [of b] by (simp add: less_mult_imp_div_less)
  have d: "decodeCBOR (b # t) = Inr (v, r)" using assms inp by simp
  note d' = d [unfolded decode_after_header [OF ne(2) [unfolded inp] len]]
  show ?thesis
  proof (cases "?m = 7")
    case True
    define ai where "ai = unat b mod 32"
    have "(if ai = 20 then Inr (CBool False, rest) else if ai = 21 then Inr (CBool True, rest)
      else Inl (Err ''unsupported cbor simple value'')) = Inr (v, r)" using d' [unfolded if_P [OF True]] unfolding ai_def .
    then have "\<exists>x. v = CBool x \<and> rest = r \<and> ai = (if x then 21 else 20)" by (auto split: if_splits)
    then obtain x where x: "v = CBool x" "rest = r" "unat b mod 32 = (if x then 21 else 20)" unfolding ai_def by blast
    have "unat b = 32 * 7 + (if x then 21 else 20)" using mult_div_mod_eq [of 32 "unat b"] unfolding True x(3) by (rule sym)
    then have "b = (if x then 245 else 244)" by (auto simp: word_unat_eq_iff)
    moreover have "t = r" using len unfolding x(2,3) by (auto simp: decodeCBORLen_def split: if_splits)
    ultimately show ?thesis using ne inp x(1) by (auto simp: encodeCBORBool_def)
  next
    case False
    note h = header_unique [OF len] decodeCBORLen_bound [OF len]
    from d' [unfolded if_not_P [OF False]] False m h ne inp show ?thesis
      by (intro conjI disjI2 exI [of _ ?m] exI [of _ n] exI [of _ rest]) auto
  qed
qed

abbreviation encodePair :: "cborValue \<times> cborValue \<Rightarrow> bytes" where
  "encodePair \<equiv> \<lambda>(k, v). encodeCBOR k @ encodeCBOR v"

abbreviation pairsWf :: "(cborValue \<times> cborValue) list \<Rightarrow> bool" where
  "pairsWf ps \<equiv> distinct (map fst ps) \<and> (\<forall>(k, v)\<in>set ps. cborKeyKind k \<and> cborWf k \<and> cborWf v)"

lemma encodeCBOR_negative: "i < 0 \<Longrightarrow> - 65536 \<le> i \<Longrightarrow> encodeCBORNegative i = setMajor 1 (encodeCBORUnsigned (nat (- i - 1)))"
  by (simp add: encodeCBORNegative_def)

lemma decodeBody_encoding:
  assumes "decodeBody m n rest = Inr (v, r)" "n < 65536"
    and "\<And>ps r'. m = 5 \<Longrightarrow> n \<le> 16 \<Longrightarrow> decodePairs n [] rest = Inr (ps, r') \<Longrightarrow>
      length ps = n \<and> rest = concat (map encodePair ps) @ r' \<and> pairsWf ps"
  shows "setMajor m (encodeCBORUnsigned n) @ rest = encodeCBOR v @ r \<and> cborWf v"
proof -
  consider "m = 0" "v = CInt (int n)" "r = rest" | "m = 1" "v = CInt (- int n - 1)" "r = rest"
    | "m = 2" "n \<le> length rest" "v = CBytes (take n rest)" "r = drop n rest"
    | "m = 3" "n \<le> length rest" "v = CText (string_of (take n rest))" "r = drop n rest"
    | ps where "m = 5" "n \<le> 16" "decodePairs n [] rest = Inr (ps, r)" "v = CMap ps"
    using assms(1) by (auto simp: decodeBody_def andThen_Inr_iff split: if_splits)
  then show ?thesis
  proof cases
    case 1 then show ?thesis using assms(2) by (simp add: setMajor_0)
  next
    case 2 then show ?thesis using assms(2) encodeCBOR_negative [of "- int n - 1"] by simp
  next
    case 3 then show ?thesis using assms(2) by (simp add: encodeCBORBytes_def)
  next
    case 4 then show ?thesis using assms(2) by (simp add: encodeCBORText_def)
  next
    case 5 then show ?thesis using assms(3) [OF 5(1,2,3)] by (simp add: encodeCBORMap_def)
  qed
qed

lemma decodePairs_step:
  assumes "decodePairs i pairs rest = Inr (ps, r)" "i \<noteq> 0"
  obtains k n1 v n2 where "decodeCBOR rest = Inr (k, n1)" "cborKeyKind k" "k \<notin> fst ` set pairs"
    "decodeCBOR n1 = Inr (v, n2)" "decodePairs (i - 1) (pairs @ [(k, v)]) n2 = Inr (ps, r)"
  using assms by (subst (asm) decodePairs.simps) (auto simp: andThen_Inr_iff list_ex_iff sameKey_eq split: if_splits)

lemma decode_is_encoding:
  "decodeCBOR inp = Inr (v, r) \<Longrightarrow> inp = encodeCBOR v @ r \<and> cborWf v"
  "decodePairs i pairs rest = Inr (ps, r) \<Longrightarrow>
     \<exists>new. ps = pairs @ new \<and> length new = i \<and> rest = concat (map encodePair new) @ r \<and> pairsWf new \<and>
       fst ` set new \<inter> fst ` set pairs = {}"
proof (induction inp and i pairs rest arbitrary: v r and ps r rule: decodeCBOR_decodePairs.induct)
  case (1 inp)
  from decode_InrD [OF 1(2)] show ?case
  proof (elim conjE disjE exE)
    fix b assume "v = CBool b" "inp = encodeCBORBool b @ r"
    then show ?case by simp
  next
    fix m n rest
    assume a: "m < 7" "n < 65536" "inp = setMajor m (encodeCBORUnsigned n) @ rest" "decodeBody m n rest = Inr (v, r)"
    show ?case unfolding a(3)
    proof (rule decodeBody_encoding [OF a(4,2)])
      fix ps r' assume h: "m = 5" "n \<le> 16" "decodePairs n [] rest = Inr (ps, r')"
      obtain b t ai where b: "setMajor m (encodeCBORUnsigned n) = b # t" "unat b div 32 = m" "unat b mod 32 = ai"
        "\<And>rest. decodeCBORLen ai (t @ rest) = Inr (n, rest)"
        using header_decodes [OF a(2), of m] a(1) by auto
      have inp: "inp = b # t @ rest" using a(3) b(1) by simp
      have "length inp \<le> maxCBORBytes" using decode_InrD [OF 1(2)] by simp
      with 1(1) [of m ai "(n, rest)" n rest ps r'] b h inp show "length ps = n \<and> rest = concat (map encodePair ps) @ r' \<and> pairsWf ps"
        by auto
    qed
  qed
next
  case (2 i pairs rest)
  show ?case
  proof (cases "i = 0")
    case True
    with 2(4) show ?thesis by (simp add: decodePairs.simps)
  next
    case False
    from decodePairs_step [OF 2(4) False] obtain k n1 v n2 where
      s: "decodeCBOR rest = Inr (k, n1)" "cborKeyKind k" "k \<notin> fst ` set pairs" "decodeCBOR n1 = Inr (v, n2)"
        "decodePairs (i - 1) (pairs @ [(k, v)]) n2 = Inr (ps, r)" by blast
    have dup: "\<not> list_ex (\<lambda>p. sameCBORMapKey (fst p) k) pairs" using s(2,3) by (auto simp: list_ex_iff sameKey_eq)
    have k: "rest = encodeCBOR k @ n1 \<and> cborWf k" using 2(1) False s(1) by blast
    have v: "n1 = encodeCBOR v @ n2 \<and> cborWf v" using 2(2) False s dup by blast
    obtain new where new: "ps = (pairs @ [(k, v)]) @ new" "length new = i - 1" "n2 = concat (map encodePair new) @ r" "pairsWf new"
        "fst ` set new \<inter> fst ` set (pairs @ [(k, v)]) = {}"
      using 2(3) False s dup by blast
    with s(2,3) k v False show ?thesis by (intro exI [of _ "(k, v) # new"]) auto
  qed
qed

text \<open>The entries of a map are read back one after the other, once every entry is.\<close>

lemma decodePairs_encoding:
  assumes "\<And>k v r. (k, v) \<in> set new \<Longrightarrow> length (encodeCBOR k @ r) \<le> maxCBORBytes \<Longrightarrow> decodeCBOR (encodeCBOR k @ r) = Inr (k, r)"
    and "\<And>k v r. (k, v) \<in> set new \<Longrightarrow> length (encodeCBOR v @ r) \<le> maxCBORBytes \<Longrightarrow> decodeCBOR (encodeCBOR v @ r) = Inr (v, r)"
    and "distinct (map fst (pairs @ new))" "\<forall>(k, v)\<in>set new. cborKeyKind k"
    and "length (concat (map encodePair new) @ rest) \<le> maxCBORBytes"
  shows "decodePairs (length new) pairs (concat (map encodePair new) @ rest) = Inr (pairs @ new, rest)"
  using assms
proof (induction new arbitrary: pairs)
  case Nil
  then show ?case by (simp add: decodePairs.simps)
next
  case (Cons p new)
  obtain k v where p: "p = (k, v)" by force
  let ?r = "concat (map encodePair new) @ rest"
  have k: "decodeCBOR (encodeCBOR k @ encodeCBOR v @ ?r) = Inr (k, encodeCBOR v @ ?r)"
    and v: "decodeCBOR (encodeCBOR v @ ?r) = Inr (v, ?r)"
    using Cons.prems(1) [of k v] Cons.prems(2) [of k v] Cons.prems(5) p by simp_all
  have dup: "\<not> list_ex (\<lambda>q. sameCBORMapKey (fst q) k) pairs"
    using Cons.prems(3,4) p by (auto simp: list_ex_iff sameKey_eq image_iff)
  have "decodePairs (length new) (pairs @ [(k, v)]) ?r = Inr ((pairs @ [(k, v)]) @ new, rest)"
  proof (rule Cons.IH)
    fix ka va r assume m: "(ka, va) \<in> set new"
    show "decodeCBOR (encodeCBOR ka @ r) = Inr (ka, r)" if "length (encodeCBOR ka @ r) \<le> maxCBORBytes"
      using m that by (intro Cons.prems(1) [of ka va]) auto
    show "decodeCBOR (encodeCBOR va @ r) = Inr (va, r)" if "length (encodeCBOR va @ r) \<le> maxCBORBytes"
      using m that by (intro Cons.prems(2) [of ka va]) auto
  qed (use Cons.prems(3-5) p in auto)
  then show ?case using k v dup Cons.prems(4) p by (subst decodePairs.simps) simp
qed

lemma encoding_decodes:
  "cborWf v \<Longrightarrow> length (encodeCBOR v @ rest) \<le> maxCBORBytes \<Longrightarrow> decodeCBOR (encodeCBOR v @ rest) = Inr (v, rest)"
proof (induction v arbitrary: rest)
  case (CInt i)
  show ?case
  proof (cases "0 \<le> i")
    case True
    with CInt decode_header [of "nat i" 0 rest] show ?thesis by (simp add: setMajor_0 decodeBody_def)
  next
    case False
    with CInt decode_header [of "nat (- i - 1)" 1 rest] encodeCBOR_negative [of i] show ?thesis by (simp add: decodeBody_def)
  qed
next
  case (CBytes b)
  with decode_header [of "length b" 2 "b @ rest"] show ?case by (simp add: encodeCBORBytes_def decodeBody_def)
next
  case (CText t)
  with decode_header [of "length t" 3 "bytes_of t @ rest"] show ?case by (simp add: encodeCBORText_def decodeBody_def)
next
  case (CBool b)
  then show ?case by (subst decodeCBOR.simps) (simp add: encodeCBORBool_def decodeCBORLen_def Let_def)
next
  case (CMap ps)
  have "decodePairs (length ps) [] (concat (map encodePair ps) @ rest) = Inr ([] @ ps, rest)"
  proof (rule decodePairs_encoding)
    fix k v r assume kv: "(k, v) \<in> set ps"
    then have wf: "cborWf k" "cborWf v" using CMap.prems(1) by auto
    show "decodeCBOR (encodeCBOR k @ r) = Inr (k, r)" if "length (encodeCBOR k @ r) \<le> maxCBORBytes"
      by (rule CMap.IH(1) [OF kv _ wf(1) that]) simp
    show "decodeCBOR (encodeCBOR v @ r) = Inr (v, r)" if "length (encodeCBOR v @ r) \<le> maxCBORBytes"
      by (rule CMap.IH(2) [OF kv _ wf(2) that]) simp
  qed (use CMap.prems in \<open>auto simp: encodeCBORMap_def\<close>)
  with decode_header [of "length ps" 5 "concat (map encodePair ps) @ rest"] CMap.prems show ?case
    by (simp add: encodeCBORMap_def decodeBody_def)
qed

text \<open>
  C33: the decoder accepts exactly the canonical encodings. It returns a value and a rest for an input of at most 4096
  bytes if and only if the input is the one shortest-form encoding of a well-formed value (integers of 16 bits, maps
  of at most 16 entries with pairwise different integer or text keys) followed by that rest; it never loops.
\<close>

theorem cbor_accepts_exactly_canonical:
  "decodeCBOR inp = Inr (v, rest) \<longleftrightarrow> inp = encodeCBOR v @ rest \<and> cborWf v \<and> length inp \<le> maxCBORBytes"
  using decode_is_encoding(1) [of inp v rest] decode_InrD [of inp v rest] encoding_decodes [of v rest] by blast

end
