(* ===== verification/P256.thy ===== *)
theory P256
  imports Prelude Go_Text Crypto
begin

text \<open>
  The P-256 arithmetic behind \<open>webauthn/p256.go\<close> and \<open>webauthn/der.go\<close>: the curve constants, point
  decompression, ECDSA verification as \<open>crypto/elliptic\<close> and \<open>crypto/ecdsa\<close> define them (affine points, \<open>None\<close>
  is the point at infinity), the strict DER reader of \<open>encoding/asn1\<close> for a pair of integers, and the functions of the
  two files over them.
\<close>

unbundle bit_operations_syntax

section \<open>Big-endian integers\<close>

text \<open>\<open>new(big.Int).SetBytes\<close> and \<open>FillBytes\<close>.\<close>

definition beInt :: "bytes \<Rightarrow> int" where
  "beInt b = int (le_value (rev b))"

definition fillBytes :: "nat \<Rightarrow> int \<Rightarrow> bytes" where
  "fillBytes n v = rev (le_bytes n (nat v))"

lemma length_fillBytes [simp]: "length (fillBytes n v) = n"
  by (simp add: fillBytes_def)

lemma le_value_less: "le_value b < 256 ^ length b"
proof (induction b)
  case (Cons x b)
  then have "le_value b + 1 \<le> 256 ^ length b" by simp
  then have "256 * (le_value b + 1) \<le> 256 * 256 ^ length b" by (rule mult_le_mono2)
  then show ?case using unat_byte_less [of x] by simp
qed simp

lemma le_value_append: "le_value (a @ b) = le_value a + 256 ^ length a * le_value b"
  by (induction a) (simp_all add: algebra_simps)

lemma le_bytes_le_value: "le_bytes (length b) (le_value b) = b"
  by (induction b) (simp_all add: word_unat_eq_iff unat_byte_less)

lemma beInt_nonneg [simp]: "0 \<le> beInt b"
  by (simp add: beInt_def)

lemma beInt_less: "beInt b < 256 ^ length b"
  using le_value_less [of "rev b"] unfolding beInt_def by (metis length_rev of_nat_less_iff of_nat_numeral of_nat_power)

lemma beInt_fillBytes: "0 \<le> v \<Longrightarrow> v < 256 ^ n \<Longrightarrow> beInt (fillBytes n v) = v"
proof -
  assume a: "0 \<le> v" "v < 256 ^ n"
  then have "nat v < 256 ^ n" by (simp add: nat_less_iff)
  with a show ?thesis by (simp add: beInt_def fillBytes_def le_value_le_bytes)
qed

lemma fillBytes_beInt [simp]: "fillBytes (length b) (beInt b) = b"
  using le_bytes_le_value [of "rev b"] by (simp add: beInt_def fillBytes_def)

section \<open>The curve\<close>

definition p256_p :: int where "p256_p = 2 ^ 256 - 2 ^ 224 + 2 ^ 192 + 2 ^ 96 - 1"

definition p256_b :: int where
  "p256_b = 0x5ac635d8aa3a93e7b3ebbd55769886bc651d06b0cc53b0f63bce3c3e27d2604b"

definition p256_n :: int where
  "p256_n = 0xffffffff00000000ffffffffffffffffbce6faada7179e84f3b9cac2fc632551"

definition p256_G :: "int \<times> int" where
  "p256_G = (0x6b17d1f2e12c4247f8bce6e563a440f277037d812deb33a0f4a13945d898c296,
             0x4fe342e2fe1a7f9b8ee7eb4a7c0f9e162bce33576b315ececbb6406837bf51f5)"

type_synonym point = "(int \<times> int) option"

definition curveRhs :: "int \<Rightarrow> int" where
  "curveRhs x = (x * x * x - 3 * x + p256_b) mod p256_p"

definition onCurve :: "int \<Rightarrow> int \<Rightarrow> bool" where
  "onCurve x y \<longleftrightarrow> 0 \<le> x \<and> x < p256_p \<and> 0 \<le> y \<and> y < p256_p \<and> y * y mod p256_p = curveRhs x"

fun powMod :: "int \<Rightarrow> nat \<Rightarrow> int \<Rightarrow> int" where
  "powMod a e m =
     (if e = 0 then 1 mod m
      else let h = powMod (a * a mod m) (e div 2) m in if e mod 2 = 1 then a * h mod m else h)"

declare powMod.simps [simp del]

definition invMod :: "int \<Rightarrow> int \<Rightarrow> int" where
  "invMod a m = powMod (a mod m) (nat (m - 2)) m"

definition pointAdd :: "point \<Rightarrow> point \<Rightarrow> point" where
  "pointAdd P Q =
     (case (P, Q) of
        (None, _) \<Rightarrow> Q
      | (_, None) \<Rightarrow> P
      | (Some (x1, y1), Some (x2, y2)) \<Rightarrow>
          if x1 = x2 \<and> (y1 + y2) mod p256_p = 0 then None
          else
            let l = (if x1 = x2 then (3 * x1 * x1 - 3) * invMod (2 * y1) p256_p
                     else (y2 - y1) * invMod (x2 - x1) p256_p) mod p256_p;
                x3 = (l * l - x1 - x2) mod p256_p
            in Some (x3, (l * (x1 - x3) - y1) mod p256_p))"

fun scalarMult :: "nat \<Rightarrow> point \<Rightarrow> point" where
  "scalarMult k P =
     (if k = 0 then None
      else let h = scalarMult (k div 2) (pointAdd P P) in if k mod 2 = 1 then pointAdd P h else h)"

declare scalarMult.simps [simp del]

text \<open>\<open>ecdsa.Verify\<close> with a 32-byte digest.\<close>

definition ecdsaVerify :: "int \<times> int \<Rightarrow> bytes \<Rightarrow> int \<Rightarrow> int \<Rightarrow> bool" where
  "ecdsaVerify pub digest r s \<longleftrightarrow>
     0 < r \<and> r < p256_n \<and> 0 < s \<and> s < p256_n \<and>
     (let w = invMod s p256_n;
          u1 = beInt (take 32 digest) * w mod p256_n;
          u2 = r * w mod p256_n
      in case pointAdd (scalarMult (nat u1) (Some p256_G)) (scalarMult (nat u2) (Some pub)) of
           None \<Rightarrow> False
         | Some (x, _) \<Rightarrow> x mod p256_n = r)"

section \<open>Public keys\<close>

text \<open>\<open>elliptic.UnmarshalCompressed\<close> and \<open>ecdsa.ParseUncompressedPublicKey\<close>.\<close>

definition unmarshalCompressed :: "bytes \<Rightarrow> (int \<times> int) option" where
  "unmarshalCompressed b =
     (let x = beInt (tl b); y = powMod (curveRhs x) (nat ((p256_p + 1) div 4)) p256_p in
      if p256_p \<le> x \<or> y * y mod p256_p \<noteq> curveRhs x then None
      else Some (x, if y mod 2 = int (unat (hd b)) mod 2 then y else (- y) mod p256_p))"

definition parseUncompressed :: "bytes \<Rightarrow> (int \<times> int) option" where
  "parseUncompressed b =
     (let x = beInt (take 32 (drop 1 b)); y = beInt (drop 33 b) in
      if length b = 65 \<and> hd b = 4 \<and> onCurve x y then Some (x, y) else None)"

definition ParseCompressedP256 :: "bytes \<Rightarrow> (int \<times> int) res" where
  "ParseCompressedP256 b =
     (if length b \<noteq> 33 then Inl (Err ''p256 must be 33-byte compressed'')
      else if hd b \<noteq> 2 \<and> hd b \<noteq> 3 then Inl (Err ''p256 compressed prefix'')
      else case unmarshalCompressed b of
        None \<Rightarrow> Inl (Err ''p256 point is off-curve'')
      | Some (x, y) \<Rightarrow>
          (case parseUncompressed (4 # fillBytes 32 x @ fillBytes 32 y) of
             None \<Rightarrow> Inl (Err ''p256 point is off-curve'')
           | Some pub \<Rightarrow> Inr pub))"

section \<open>Signatures\<close>

text \<open>\<open>Digest\<close> is SHA-256 over \<open>authenticatorData || SHA-256(clientDataJSON)\<close>.\<close>

definition SignedMessage :: "bytes \<Rightarrow> bytes \<Rightarrow> bytes" where
  "SignedMessage authenticatorData clientDataJSON = authenticatorData @ sha256 clientDataJSON"

definition Digest :: "bytes \<Rightarrow> bytes \<Rightarrow> bytes" where
  "Digest authenticatorData clientDataJSON = sha256 (SignedMessage authenticatorData clientDataJSON)"

definition VerifyES256 :: "int \<times> int \<Rightarrow> bytes \<Rightarrow> bytes \<Rightarrow> bytes \<Rightarrow> unit res" where
  "VerifyES256 pub authenticatorData clientDataJSON compact =
     (let r = beInt (take 32 compact); s = beInt (drop 32 compact) in
      if length compact \<noteq> 64 then Inl (Err ''compact signature must be 64 bytes'')
      else if r \<le> 0 \<or> s \<le> 0 \<or> r \<ge> p256_n \<or> s \<ge> p256_n then Inl (Err ''compact signature out of range'')
      else if s > p256_n div 2 then Inl (Err ''compact signature is not low-S'')
      else if \<not> ecdsaVerify pub (Digest authenticatorData clientDataJSON) r s then Inl (Err ''es256 signature invalid'')
      else Inr ())"

definition VerifyDigestLowS :: "int \<times> int \<Rightarrow> bytes \<Rightarrow> bytes \<Rightarrow> unit res" where
  "VerifyDigestLowS pub digest compact =
     (let r = beInt (take 32 compact); s = beInt (drop 32 compact) in
      if length digest \<noteq> 32 then Inl (Err ''digest must be 32 bytes'')
      else if length compact \<noteq> 64 then Inl (Err ''compact signature must be 64 bytes'')
      else if r \<le> 0 \<or> s \<le> 0 \<or> r \<ge> p256_n \<or> s \<ge> p256_n then Inl (Err ''compact signature out of range'')
      else if s > p256_n div 2 then Inl (Err ''compact signature is not low-S'')
      else if \<not> ecdsaVerify pub digest r s then Inl (Err ''direct p256 signature invalid'')
      else Inr ())"

section \<open>DER signatures\<close>

text \<open>
  \<open>asn1.Unmarshal\<close> of two integers in a sequence: definite minimal lengths, minimal integers. Bytes after the second
  integer inside the sequence are ignored, as the library documents. A tag number beyond 30 never matches.
\<close>

fun derLength :: "nat \<Rightarrow> nat \<Rightarrow> bytes \<Rightarrow> (nat \<times> bytes) res" where
  "derLength 0 len r = (if len < 128 then Inl (Err ''asn1: structure error: non-minimal length'') else Inr (len, r))"
| "derLength (Suc k) len [] = Inl (Err ''asn1: syntax error: truncated tag or length'')"
| "derLength (Suc k) len (b # r) =
     (if len \<ge> 2 ^ 23 then Inl (Err ''asn1: structure error: length too large'')
      else if 256 * len + unat b = 0 then Inl (Err ''asn1: structure error: superfluous leading zeros in length'')
      else derLength k (256 * len + unat b) r)"

definition parseTagAndLength :: "bytes \<Rightarrow> (byte \<times> nat \<times> bytes) res" where
  "parseTagAndLength d =
     (case d of
        [] \<Rightarrow> Inl (Err ''asn1: syntax error: sequence truncated'')
      | [b] \<Rightarrow> Inl (Err ''asn1: syntax error: truncated tag or length'')
      | b # l # r \<Rightarrow>
          if unat b mod 32 = 31 then Inl (Err ''asn1: structure error: tags do not match'')
          else if unat l < 128 then Inr (b, unat l, r)
          else if unat l = 128 then Inl (Err ''asn1: syntax error: indefinite length found (not DER)'')
          else andThen (derLength (unat l - 128) 0 r) (\<lambda>(len, r'). Inr (b, len, r')))"

definition derElement :: "byte \<Rightarrow> bytes \<Rightarrow> (bytes \<times> bytes) res" where
  "derElement tag d =
     andThen (parseTagAndLength d) (\<lambda>(b, len, r).
     if b \<noteq> tag then Inl (Err ''asn1: structure error: tags do not match'')
     else if len > length r then Inl (Err ''asn1: syntax error: data truncated'')
     else Inr (take len r, drop len r))"

definition parseBigInt :: "bytes \<Rightarrow> int res" where
  "parseBigInt b =
     (case b of
        [] \<Rightarrow> Inl (Err ''asn1: structure error: empty integer'')
      | h # t \<Rightarrow>
          if t \<noteq> [] \<and> ((h = 0 \<and> unat (hd t) < 128) \<or> (h = 255 \<and> unat (hd t) \<ge> 128))
          then Inl (Err ''asn1: structure error: integer not minimally-encoded'')
          else Inr (if unat h \<ge> 128 then beInt b - 256 ^ length b else beInt b))"

definition unmarshalSignature :: "bytes \<Rightarrow> ((int \<times> int) \<times> bytes) res" where
  "unmarshalSignature der =
     andThen (derElement 0x30 der) (\<lambda>(inner, rest).
     andThen (derElement 2 inner) (\<lambda>(rb, inner').
     andThen (parseBigInt rb) (\<lambda>r.
     andThen (derElement 2 inner') (\<lambda>(sb, _).
     andThen (parseBigInt sb) (\<lambda>s. Inr ((r, s), rest))))))"

definition canonicalScalar :: "int \<Rightarrow> string \<Rightarrow> unit res" where
  "canonicalScalar v name =
     (if v < 0 then Inl (Err ''der ecdsa: negative %s'')
      else if v = 0 then Inl (Err ''der ecdsa: zero %s'') else Inr ())"

definition CompactLowS :: "bytes \<Rightarrow> bytes res" where
  "CompactLowS der =
     andThen (wrapErr ''der ecdsa'' (unmarshalSignature der)) (\<lambda>((r, s), rest).
     if rest \<noteq> [] then Inl (Err ''der ecdsa: trailing bytes'')
     else
       andThen (canonicalScalar r ''r'') (\<lambda>_.
       andThen (canonicalScalar s ''s'') (\<lambda>_.
       if r \<le> 0 \<or> r \<ge> p256_n then Inl (Err ''der ecdsa: r out of range'')
       else if s \<le> 0 \<or> s \<ge> p256_n then Inl (Err ''der ecdsa: s out of range'')
       else Inr (fillBytes 32 r @ fillBytes 32 (if s > p256_n div 2 then p256_n - s else s)))))"

text \<open>\<open>asn1.Marshal\<close> of a pair of positive integers, as \<open>SynthWithSignCount\<close> builds a signature: big-endian, with a zero
  byte in front when the sign bit would be set.\<close>

fun minBytes :: "nat \<Rightarrow> bytes" where
  "minBytes n = (if n < 256 then [word_of_nat n] else minBytes (n div 256) @ [word_of_nat n])"

declare minBytes.simps [simp del]

definition derInt :: "int \<Rightarrow> bytes" where
  "derInt v = (let b = minBytes (nat v); c = (if unat (hd b) \<ge> 128 then 0 # b else b) in 2 # word_of_nat (length c) # c)"

definition marshalSignature :: "int \<Rightarrow> int \<Rightarrow> bytes" where
  "marshalSignature r s = (let b = derInt r @ derInt s in 0x30 # word_of_nat (length b) # b)"

section \<open>Lemmas\<close>

lemma n_bound: "p256_n < 256 ^ 32" by (simp add: p256_n_def)

lemma p_bound: "p256_p < 256 ^ 32" by (simp add: p256_p_def)

lemma minBytes_not_Nil [simp]: "minBytes n \<noteq> []"
  by (subst minBytes.simps) simp

lemma le_value_minBytes: "le_value (rev (minBytes n)) = n"
proof (induction n rule: minBytes.induct)
  case (1 n)
  show ?case
  proof (cases "n < 256")
    case False
    then show ?thesis using 1 by (subst minBytes.simps) (simp add: mult_div_mod_eq add.commute)
  qed (simp add: minBytes.simps [of n])
qed

lemma hd_minBytes: "n > 0 \<Longrightarrow> unat (hd (minBytes n)) > 0"
proof (induction n rule: minBytes.induct)
  case (1 n)
  show ?case
  proof (cases "n < 256")
    case True
    with 1(2) show ?thesis by (simp add: minBytes.simps [of n])
  next
    case False
    with 1(1) show ?thesis by (subst minBytes.simps) (simp add: div_greater_zero_iff)
  qed
qed

lemma length_minBytes: "n < 256 ^ Suc k \<Longrightarrow> length (minBytes n) \<le> Suc k"
proof (induction k arbitrary: n)
  case 0
  then show ?case by (simp add: minBytes.simps [of n])
next
  case (Suc k)
  then have "n div 256 < 256 ^ Suc k" by (simp add: less_mult_imp_div_less mult.commute)
  from Suc.IH [OF this] show ?case by (subst minBytes.simps) simp
qed

lemma derInt_reads:
  assumes "0 < v" "v < 256 ^ 32"
  shows "\<exists>c. derElement 2 (derInt v @ rest) = Inr (c, rest) \<and> parseBigInt c = Inr v" "length (derInt v) \<le> 35"
proof -
  let ?b = "minBytes (nat v)"
  define c where "c = (if unat (hd ?b) \<ge> 128 then 0 # ?b else ?b)"
  have len: "length ?b \<le> 32" using length_minBytes [of "nat v" 31] assms by (simp add: nat_less_iff)
  obtain h t where b: "?b = h # t" by (cases ?b) auto
  have h: "0 < unat h" using hd_minBytes [of "nat v"] assms(1) b by simp
  have val: "beInt ?b = v" using le_value_minBytes [of "nat v"] assms(1) by (simp add: beInt_def)
  have d: "derInt v = 2 # word_of_nat (length c) # c" by (simp add: derInt_def c_def Let_def)
  have lc: "length c \<le> 33" "unat (word_of_nat (length c) :: byte) = length c" using len by (auto simp: c_def)
  then have "derElement 2 (derInt v @ rest) = Inr (c, rest)"
    by (simp add: d derElement_def parseTagAndLength_def)
  moreover have "parseBigInt c = Inr v"
  proof (cases "unat h \<ge> 128")
    case True
    moreover have "beInt (0 # h # t) = v" using val b by (simp add: beInt_def le_value_append)
    ultimately show ?thesis using b by (simp add: c_def parseBigInt_def)
  next
    case False
    then have "h \<noteq> 255" "h \<noteq> 0" using h by auto
    with False show ?thesis using b val by (simp add: c_def parseBigInt_def)
  qed
  ultimately show "\<exists>c. derElement 2 (derInt v @ rest) = Inr (c, rest) \<and> parseBigInt c = Inr v" by blast
  show "length (derInt v) \<le> 35" using lc(1) by (simp add: d)
qed

lemma unmarshal_marshal:
  assumes "0 < r" "r < 256 ^ 32" "0 < s" "s < 256 ^ 32"
  shows "unmarshalSignature (marshalSignature r s) = Inr ((r, s), [])"
proof -
  let ?b = "derInt r @ derInt s"
  obtain rb where r: "derElement 2 ?b = Inr (rb, derInt s)" "parseBigInt rb = Inr r"
    using derInt_reads(1) [OF assms(1,2), of "derInt s"] by blast
  obtain sb where s: "derElement 2 (derInt s) = Inr (sb, [])" "parseBigInt sb = Inr s"
    using derInt_reads(1) [OF assms(3,4), of "[]"] by auto
  have "length ?b \<le> 70" using derInt_reads(2) [OF assms(1,2)] derInt_reads(2) [OF assms(3,4)] by simp
  moreover have "marshalSignature r s = 0x30 # word_of_nat (length ?b) # ?b" by (simp add: marshalSignature_def Let_def)
  moreover have "derElement 0x30 (0x30 # word_of_nat (length b) # b) = Inr (b, [])" if "length b \<le> 70" for b
    using that by (simp add: derElement_def parseTagAndLength_def)
  ultimately have "derElement 0x30 (marshalSignature r s) = Inr (?b, [])" by metis
  with r s show ?thesis by (simp add: unmarshalSignature_def)
qed

text \<open>
  C34: a signature has one compact form. For every r and s in range the DER encodings of (r, s) and of its malleated
  twin (r, n - s) convert to the same 64 bytes: r and the smaller of s and n - s, each on 32 bytes.
\<close>

theorem compact_signature_unique:
  assumes "0 < r" "r < p256_n" "0 < s" "s < p256_n"
  shows "\<exists>c. CompactLowS (marshalSignature r s) = Inr c \<and> CompactLowS (marshalSignature r (p256_n - s)) = Inr c \<and>
    length c = 64 \<and> beInt (take 32 c) = r \<and> beInt (drop 32 c) = min s (p256_n - s)"
proof -
  have b: "r < 256 ^ 32" "s < 256 ^ 32" "p256_n - s < 256 ^ 32" using assms n_bound by simp_all
  have odd: "p256_n mod 2 = 1" by (simp add: p256_n_def)
  have low: "(if x > p256_n div 2 then p256_n - x else x) = min x (p256_n - x)" for x
    using odd by (simp add: min_def) presburger
  have c: "CompactLowS (marshalSignature r x) = Inr (fillBytes 32 r @ fillBytes 32 (min x (p256_n - x)))"
    if "0 < x" "x < p256_n" "x < 256 ^ 32" for x
    using assms that unmarshal_marshal [OF assms(1) b(1) that(1,3)] unfolding CompactLowS_def low
    by (simp add: canonicalScalar_def)
  have "beInt (fillBytes 32 r) = r" "beInt (fillBytes 32 (min s (p256_n - s))) = min s (p256_n - s)"
    using assms b by (auto intro!: beInt_fillBytes)
  moreover have "min (p256_n - s) s = min s (p256_n - s)" by (rule min.commute)
  ultimately show ?thesis using c [of s] c [of "p256_n - s"] assms b by simp
qed

theorem compact_signature_unique_witness:
  "CompactLowS (marshalSignature 1 1) = CompactLowS (marshalSignature 1 (p256_n - 1)) \<and>
   (\<exists>c. CompactLowS (marshalSignature 1 1) = Inr c \<and> beInt (drop 32 c) = 1)"
  using compact_signature_unique [of 1 1] by (auto simp: p256_n_def)

text \<open>What the conversion returns passes the range and low-s checks of the verification.\<close>

lemma compact_in_range:
  assumes "CompactLowS der = Inr c"
  shows "length c = 64" "0 < beInt (take 32 c)" "beInt (take 32 c) < p256_n"
    "0 < beInt (drop 32 c)" "beInt (drop 32 c) \<le> p256_n div 2"
proof -
  obtain r s rest where u: "unmarshalSignature der = Inr ((r, s), rest)"
    using assms by (auto simp: CompactLowS_def andThen_Inr_iff)
  have rs: "0 < r" "r < p256_n" "0 < s" "s < p256_n"
    "c = fillBytes 32 r @ fillBytes 32 (if s > p256_n div 2 then p256_n - s else s)"
    using assms by (auto simp: CompactLowS_def u canonicalScalar_def andThen_Inr_iff split: if_splits)
  let ?s = "if s > p256_n div 2 then p256_n - s else s"
  have odd: "p256_n mod 2 = 1" by (simp add: p256_n_def)
  have s: "0 < ?s" "?s \<le> p256_n div 2" using rs odd by auto
  have "?s < 256 ^ 32" "r < 256 ^ 32" using rs n_bound by auto
  then have "beInt (fillBytes 32 r) = r" "beInt (fillBytes 32 ?s) = ?s" using rs(1) s(1) by (simp_all only: beInt_fillBytes less_imp_le)
  with rs s show "length c = 64" "0 < beInt (take 32 c)" "beInt (take 32 c) < p256_n"
    "0 < beInt (drop 32 c)" "beInt (drop 32 c) \<le> p256_n div 2" by auto
qed

section \<open>Compressed keys\<close>

lemma powMod_range: "1 < m \<Longrightarrow> 0 \<le> powMod a e m \<and> powMod a e m < m"
proof (induction a e m rule: powMod.induct)
  case (1 a e m)
  then show ?case by (subst (1 2) powMod.simps) (auto simp: Let_def)
qed

lemma powMod_one: "1 < m \<Longrightarrow> powMod 1 e m = 1"
proof (induction e rule: less_induct)
  case (less e)
  then show ?case by (subst powMod.simps) (simp add: Let_def)
qed

lemma p_odd: "p256_p mod 2 = 1" by (simp add: p256_p_def)

lemma parse_compressed_InrD:
  assumes "ParseCompressedP256 b = Inr (x, y)"
  shows "length b = 33" "hd b = 2 \<or> hd b = 3" "x = beInt (tl b)" "onCurve x y"
    "y \<noteq> 0 \<Longrightarrow> y mod 2 = int (unat (hd b)) mod 2"
proof -
  show b: "length b = 33" "hd b = 2 \<or> hd b = 3" using assms by (auto simp: ParseCompressedP256_def split: if_splits)
  obtain x' y' where u: "unmarshalCompressed b = Some (x', y')" "parseUncompressed (4 # fillBytes 32 x' @ fillBytes 32 y') = Some (x, y)"
    using assms by (auto simp: ParseCompressedP256_def split: if_splits option.splits)
  define c where "c = powMod (curveRhs (beInt (tl b))) (nat ((p256_p + 1) div 4)) p256_p"
  have p1: "1 < p256_p" by (simp add: p256_p_def)
  have c: "0 \<le> c" "c < p256_p" using powMod_range [OF p1] by (simp_all add: c_def)
  have xy: "x' = beInt (tl b)" "x' < p256_p" "y' = (if c mod 2 = int (unat (hd b)) mod 2 then c else (- c) mod p256_p)"
    using u(1) by (auto simp: unmarshalCompressed_def Let_def c_def split: if_splits)
  have y': "0 \<le> y'" "y' < p256_p" using xy(3) c p1 by (auto split: if_splits)
  have "x' < 256 ^ 32" "y' < 256 ^ 32" using xy(2) y'(2) p_bound by linarith+
  then have fb: "beInt (fillBytes 32 x') = x'" "beInt (fillBytes 32 y') = y'"
    using xy(1) y'(1) by (simp_all only: beInt_fillBytes beInt_nonneg)
  with u(2) have eq: "x' = x" "y' = y" "onCurve x' y'" by (auto simp: parseUncompressed_def Let_def split: if_splits)
  then show "x = beInt (tl b)" "onCurve x y" using xy(1) by simp_all
  assume "y \<noteq> 0"
  show "y mod 2 = int (unat (hd b)) mod 2"
  proof (cases "c mod 2 = int (unat (hd b)) mod 2")
    case False
    then have y: "y = (- c) mod p256_p" using xy(3) eq(2) by simp
    have "c \<noteq> 0" using y \<open>y \<noteq> 0\<close> by auto
    then have "y = p256_p - c" using y c by (simp add: zmod_zminus1_eq_if)
    then show ?thesis using False p_odd by presburger
  qed (use xy(3) eq(2) in auto)
qed

lemma last_fillBytes: "0 < n \<Longrightarrow> last (fillBytes n v) = word_of_nat (nat v)"
  by (cases n) (simp_all add: fillBytes_def word_unat_eq_iff)

lemma parity_fillBytes:
  assumes "0 < n" "0 \<le> v"
  shows "(last (fillBytes n v) AND 1 = 1) \<longleftrightarrow> odd v"
proof -
  have "(w AND 1 = 1) \<longleftrightarrow> bit w 0" for w :: byte by (simp add: and_one_eq bit_0 odd_iff_mod_2_eq_one)
  then show ?thesis using assms by (simp add: last_fillBytes bit_simps bit_0 even_nat_iff del: of_nat_nat)
qed

end
