(* ===== verification/Base64.thy ===== *)
theory Base64
  imports Json
begin

text \<open>
  The two base64 codecs the runtime uses: \<open>base64.RawURLEncoding\<close> (challenges) and \<open>base64.StdEncoding\<close> (byte slices in
  JSON). Both decoders drop line breaks and ignore the unused bits of the last group, as Go's do.
\<close>

section \<open>Six-bit groups\<close>

text \<open>The six-bit groups of a byte string.\<close>

fun b64Sextets :: "bytes \<Rightarrow> nat list" where
  "b64Sextets [] = []"
| "b64Sextets [a] = [unat a div 4, unat a mod 4 * 16]"
| "b64Sextets [a, b] = [unat a div 4, unat a mod 4 * 16 + unat b div 16, unat b mod 16 * 4]"
| "b64Sextets (a # b # c # r) =
     [unat a div 4, unat a mod 4 * 16 + unat b div 16, unat b mod 16 * 4 + unat c div 64, unat c mod 64] @ b64Sextets r"

fun b64Groups :: "nat list \<Rightarrow> bytes option" where
  "b64Groups [] = Some []"
| "b64Groups [_] = None"
| "b64Groups [p, q] = Some [word_of_nat (p * 4 + q div 16)]"
| "b64Groups [p, q, r] = Some [word_of_nat (p * 4 + q div 16), word_of_nat (q mod 16 * 16 + r div 4)]"
| "b64Groups (p # q # r # s # t) =
     map_option (\<lambda>d. [word_of_nat (p * 4 + q div 16), word_of_nat (q mod 16 * 16 + r div 4), word_of_nat (r mod 4 * 64 + s)] @ d)
       (b64Groups t)"

lemma sextets_less: "n \<in> set (b64Sextets b) \<Longrightarrow> n < 64"
proof (induction b rule: b64Sextets.induct)
  case (2 a)
  then show ?case using unat_byte_less [of a] by auto
next
  case (3 a b)
  then show ?case using unat_byte_less [of a] unat_byte_less [of b] by auto
next
  case (4 a b c r)
  then show ?case using unat_byte_less [of a] unat_byte_less [of b] unat_byte_less [of c] by auto
qed simp

lemma groups_sextets: "b64Groups (b64Sextets b) = Some b"
proof (induction b rule: b64Sextets.induct)
  case (2 a)
  then show ?case by simp
next
  case (3 a b)
  have "unat b div 16 < 16" using unat_byte_less [of b] by (simp add: less_mult_imp_div_less)
  then show ?case by simp
next
  case (4 a b c r)
  have "unat b div 16 < 16" "unat c div 64 < 4"
    using unat_byte_less [of b] unat_byte_less [of c] by (simp_all add: less_mult_imp_div_less)
  with 4 show ?case by simp
qed simp

section \<open>The URL alphabet without padding\<close>

definition b64Char :: "nat \<Rightarrow> char" where
  "b64Char n = char_of (if n < 26 then 65 + n else if n < 52 then 71 + n else if n < 62 then n - 4 else if n = 62 then 45 else 95)"

definition b64Val :: "char \<Rightarrow> nat option" where
  "b64Val c = (let n = of_char c :: nat in
     if 65 \<le> n \<and> n \<le> 90 then Some (n - 65)
     else if 97 \<le> n \<and> n \<le> 122 then Some (n - 71)
     else if 48 \<le> n \<and> n \<le> 57 then Some (n + 4)
     else if n = 45 then Some 62 else if n = 95 then Some 63 else None)"

fun b64Encode :: "bytes \<Rightarrow> string" where
  "b64Encode [] = []"
| "b64Encode [a] = [b64Char (unat a div 4), b64Char (unat a mod 4 * 16)]"
| "b64Encode [a, b] = [b64Char (unat a div 4), b64Char (unat a mod 4 * 16 + unat b div 16), b64Char (unat b mod 16 * 4)]"
| "b64Encode (a # b # c # r) =
     [b64Char (unat a div 4), b64Char (unat a mod 4 * 16 + unat b div 16),
      b64Char (unat b mod 16 * 4 + unat c div 64), b64Char (unat c mod 64)] @ b64Encode r"

definition b64Decode :: "string \<Rightarrow> bytes option" where
  "b64Decode s =
     (let vs = map b64Val (filter (\<lambda>c. c \<noteq> CHR 10 \<and> c \<noteq> CHR 13) s) in
      if None \<in> set vs then None else b64Groups (map the vs))"

lemma b64Val_b64Char: "n < 64 \<Longrightarrow> b64Val (b64Char n) = Some n"
  by (auto simp: b64Val_def b64Char_def Let_def)

lemma b64Char_not_break: "n < 64 \<Longrightarrow> b64Char n \<noteq> CHR 10 \<and> b64Char n \<noteq> CHR 13"
  using b64Val_b64Char [of n] by (auto simp: b64Val_def)

lemma b64Encode_sextets: "b64Encode b = map b64Char (b64Sextets b)"
  by (induction b rule: b64Sextets.induct) simp_all

lemma b64_round_trip: "b64Decode (b64Encode raw) = Some raw"
proof -
  have "filter (\<lambda>c. c \<noteq> CHR 10 \<and> c \<noteq> CHR 13) (b64Encode raw) = b64Encode raw"
    using sextets_less [of _ raw] b64Char_not_break by (auto simp: b64Encode_sextets intro!: filter_True)
  moreover have "map b64Val (b64Encode raw) = map Some (b64Sextets raw)"
    using sextets_less [of _ raw] b64Val_b64Char by (simp add: b64Encode_sextets)
  ultimately show ?thesis by (auto simp: b64Decode_def Let_def groups_sextets comp_def)
qed

section \<open>The standard alphabet with padding\<close>

definition stdChar :: "nat \<Rightarrow> char" where
  "stdChar n = (if n = 62 then CHR ''+'' else if n = 63 then CHR ''/'' else b64Char n)"

definition stdVal :: "char \<Rightarrow> nat option" where
  "stdVal c = (if c = CHR ''+'' then Some 62 else if c = CHR ''/'' then Some 63
     else if c = CHR ''-'' \<or> c = CHR ''_'' then None else b64Val c)"

definition stdEncode :: "bytes \<Rightarrow> string" where
  "stdEncode b = map stdChar (b64Sextets b) @ replicate ((3 - length b mod 3) mod 3) (CHR ''='')"

definition stdDecode :: "string \<Rightarrow> bytes option" where
  "stdDecode s =
     (let t = filter (\<lambda>c. c \<noteq> CHR 10 \<and> c \<noteq> CHR 13) s; body = takeWhile (\<lambda>c. c \<noteq> CHR ''='') t; pad = drop (length body) t;
          vs = map stdVal body in
      if length t mod 4 \<noteq> 0 \<or> length pad > 2 \<or> (\<exists>c\<in>set pad. c \<noteq> CHR ''='') \<or> None \<in> set vs then None
      else b64Groups (map the vs))"

lemma stdVal_stdChar: "n < 64 \<Longrightarrow> stdVal (stdChar n) = Some n \<and> stdChar n \<notin> {CHR 10, CHR 13, CHR ''=''}"
proof -
  assume n: "n < 64"
  have "b64Char n \<notin> {CHR ''+'', CHR ''/'', CHR 10, CHR 13, CHR ''=''}" using b64Val_b64Char [OF n] by (auto simp: b64Val_def)
  moreover have "n \<noteq> 62 \<Longrightarrow> b64Char n \<noteq> CHR ''-''" "n \<noteq> 63 \<Longrightarrow> b64Char n \<noteq> CHR ''_''"
    using b64Val_b64Char [OF n] by (auto simp: b64Val_def)
  ultimately show ?thesis using b64Val_b64Char [OF n] by (auto simp: stdVal_def stdChar_def)
qed

lemma length_sextets: "(length (b64Sextets b) + (3 - length b mod 3) mod 3) mod 4 = 0"
proof (induction b rule: b64Sextets.induct)
  case (4 a b c r)
  have "length (a # b # c # r) mod 3 = (length r + 3) mod 3" by simp
  then have "(3 - length (a # b # c # r) mod 3) mod 3 = (3 - length r mod 3) mod 3" by simp
  moreover have "length (b64Sextets (a # b # c # r)) = 4 + length (b64Sextets r)" by simp
  ultimately show ?case using 4 by (simp only: add.assoc mod_add_self1)
qed simp_all

lemma std_round_trip: "stdDecode (stdEncode raw) = Some raw"
proof -
  let ?body = "map stdChar (b64Sextets raw)" and ?pad = "replicate ((3 - length raw mod 3) mod 3) (CHR ''='')"
  have c: "stdVal (stdChar n) = Some n" "stdChar n \<noteq> CHR 10" "stdChar n \<noteq> CHR 13" "stdChar n \<noteq> CHR ''=''" if "n \<in> set (b64Sextets raw)" for n
    using stdVal_stdChar [OF sextets_less [OF that]] by auto
  have f: "filter (\<lambda>c. c \<noteq> CHR 10 \<and> c \<noteq> CHR 13) (stdEncode raw) = stdEncode raw" using c by (auto simp: stdEncode_def intro!: filter_True)
  have t: "takeWhile (\<lambda>c. c \<noteq> CHR ''='') (stdEncode raw) = ?body"
  proof -
    have "takeWhile (\<lambda>c. c \<noteq> CHR ''='') (?body @ ?pad) = ?body @ takeWhile (\<lambda>c. c \<noteq> CHR ''='') ?pad"
      using c(4) by (intro takeWhile_append2) auto
    then show ?thesis by (simp add: stdEncode_def)
  qed
  have v: "map stdVal ?body = map Some (b64Sextets raw)" using c by simp
  have l: "length (stdEncode raw) mod 4 = 0" using length_sextets [of raw] by (simp add: stdEncode_def)
  have p: "drop (length ?body) (stdEncode raw) = ?pad" by (simp add: stdEncode_def)
  have "(3 - length raw mod 3) mod 3 \<le> 2" by simp
  then show ?thesis unfolding stdDecode_def f Let_def t v l p by (auto simp: groups_sextets comp_def)
qed

text \<open>A byte slice in JSON is a string of the standard alphabet; \<open>null\<close> is the empty slice. An array of numbers, which Go also
  decodes into a byte slice, is refused: every reader here compares the document with its canonical form.\<close>

fun decBytes :: "bytes \<Rightarrow> json list \<Rightarrow> bytes option" where
  "decBytes acc [] = Some acc"
| "decBytes acc (v # vs) =
     (case v of
        JNull \<Rightarrow> decBytes [] vs
      | JStr s \<Rightarrow> (case stdDecode s of Some b \<Rightarrow> decBytes b vs | None \<Rightarrow> None)
      | _ \<Rightarrow> None)"

end
