(* ===== verification/Webauthn.thy ===== *)
theory Webauthn
  imports Cbor P256 Json Base64
begin

text \<open>
  The passkey ceremonies of \<open>webauthn/assert.go\<close> and \<open>webauthn/create.go\<close>: the checks on an assertion, the checks on a
  new credential, the reader of attestation objects and COSE keys, and the builders of the same structures. Base64 is the
  unpadded URL alphabet of \<open>encoding/base64\<close> (carriage returns and line feeds are skipped, spare bits are ignored).
\<close>

unbundle bit_operations_syntax

section \<open>Data\<close>

definition flagUP :: byte where "flagUP = 1"
definition flagUV :: byte where "flagUV = 4"
definition flagAT :: byte where "flagAT = 64"
definition flagED :: byte where "flagED = 128"
definition maxClientDataJSON :: nat where "maxClientDataJSON = 4096"
definition coseKtyEC2 :: int where "coseKtyEC2 = 2"
definition coseAlgES256 :: int where "coseAlgES256 = - 7"
definition coseCrvP256 :: int where "coseCrvP256 = 1"

record Assertion =
  as_CredentialID :: bytes
  as_ClientDataJSON :: bytes
  as_AuthenticatorData :: bytes
  as_DERSignature :: bytes

record ClientData =
  cd_Type :: string
  cd_Challenge :: string
  cd_Origin :: string
  cd_CrossOrigin :: "bool option"

record Expected =
  ex_CredentialID :: bytes
  ex_WebAuthnP256 :: bytes
  ex_Challenge :: bytes
  ex_Origin :: string
  ex_RPID :: string

record Verified =
  vf_Assertion :: Assertion
  vf_CompactSig :: bytes
  vf_ClientData :: ClientData
  vf_SignCount :: u32

record CreateResult =
  cr_CredentialID :: bytes
  cr_WebAuthnP256 :: bytes

section \<open>Client data\<close>

fun decBoolPtr :: "bool option \<Rightarrow> json list \<Rightarrow> bool option option" where
  "decBoolPtr acc [] = Some acc"
| "decBoolPtr acc (v # vs) =
     (case v of JNull \<Rightarrow> decBoolPtr None vs | JBool b \<Rightarrow> decBoolPtr (Some b) vs | _ \<Rightarrow> None)"

definition unmarshalClientData :: "bytes \<Rightarrow> ClientData option" where
  "unmarshalClientData raw =
     (case jsonMembers (string_of raw) of
        None \<Rightarrow> None
      | Some ms \<Rightarrow>
         (case (decStr [] (fieldVals ms ''type''), decStr [] (fieldVals ms ''challenge''), decStr [] (fieldVals ms ''origin''),
                decBoolPtr None (fieldVals ms ''crossOrigin'')) of
            (Some t, Some c, Some orig, Some x) \<Rightarrow> Some \<lparr> cd_Type = t, cd_Challenge = c, cd_Origin = orig, cd_CrossOrigin = x \<rparr>
          | _ \<Rightarrow> None))"

definition readClientData :: "bytes \<Rightarrow> ClientData res" where
  "readClientData raw =
     (case unmarshalClientData raw of None \<Rightarrow> Inl (Err ''clientDataJSON: %w'') | Some cd \<Rightarrow> Inr cd)"

definition decodeChallenge :: "string \<Rightarrow> bytes res" where
  "decodeChallenge s = (case b64Decode s of None \<Rightarrow> Inl (Err ''challenge encoding: %w'') | Some raw \<Rightarrow> Inr raw)"

definition EncodeChallenge :: "bytes \<Rightarrow> string" where
  "EncodeChallenge raw = b64Encode raw"

definition ChallengeFromClientDataJSON :: "bytes \<Rightarrow> bytes res" where
  "ChallengeFromClientDataJSON clientDataJSON =
     andThen (readClientData clientDataJSON) (\<lambda>cd.
     andThen (decodeChallenge (cd_Challenge cd)) (\<lambda>raw.
     if length raw \<noteq> 32 then Inl (Err ''challenge must be 32 bytes'') else Inr raw))"

definition SignCount :: "bytes \<Rightarrow> u32" where
  "SignCount authData =
     (if length authData < 37 then 0
      else push_bit 24 (ucast (authData ! 33)) OR push_bit 16 (ucast (authData ! 34)) OR
           push_bit 8 (ucast (authData ! 35)) OR ucast (authData ! 36))"

section \<open>Assertions\<close>

definition Validate :: "Assertion \<Rightarrow> Expected \<Rightarrow> Verified res" where
  "Validate a exp =
     (if as_CredentialID a \<noteq> ex_CredentialID exp then Inl (Err ''unknown credential'')
      else if length (ex_WebAuthnP256 exp) \<noteq> 33 then Inl (Err ''registered webauthn p256 key must be 33-byte compressed'')
      else if length (ex_Challenge exp) \<noteq> 32 then Inl (Err ''challenge must be 32-byte arkade sighash'')
      else if length (as_AuthenticatorData a) < 37 then Inl (Err ''authenticatorData too short'')
      else if as_ClientDataJSON a = [] \<or> length (as_ClientDataJSON a) > maxClientDataJSON then Inl (Err ''clientDataJSON too large'')
      else
        andThen (readClientData (as_ClientDataJSON a)) (\<lambda>cd.
        if cd_Type cd \<noteq> ''webauthn.get'' then Inl (Err ''clientDataJSON type %q'')
        else if cd_Origin cd \<noteq> ex_Origin exp then Inl (Err ''origin %q'')
        else if cd_CrossOrigin cd = None \<or> cd_CrossOrigin cd = Some True then Inl (Err ''crossOrigin must be false'')
        else
          andThen (decodeChallenge (cd_Challenge cd)) (\<lambda>gotChallenge.
          if gotChallenge \<noteq> ex_Challenge exp then Inl (Err ''challenge mismatch'')
          else if take 32 (as_AuthenticatorData a) \<noteq> sha256 (bytes_of (ex_RPID exp)) then Inl (Err ''rpIdHash mismatch'')
          else if as_AuthenticatorData a ! 32 AND flagUP = 0 then Inl (Err ''user presence required'')
          else if as_AuthenticatorData a ! 32 AND flagUV = 0 then Inl (Err ''user verification required'')
          else
            andThen (CompactLowS (as_DERSignature a)) (\<lambda>compact.
            andThen (ParseCompressedP256 (ex_WebAuthnP256 exp)) (\<lambda>pub.
            andThen (VerifyES256 pub (as_AuthenticatorData a) (as_ClientDataJSON a) compact) (\<lambda>_.
            Inr \<lparr> vf_Assertion = a, vf_CompactSig = compact, vf_ClientData = cd,
                  vf_SignCount = SignCount (as_AuthenticatorData a) \<rparr>))))))"

definition ContainsPRFField :: "bytes \<Rightarrow> bool" where
  "ContainsPRFField raw \<longleftrightarrow>
     (case jsonMembers (string_of raw) of
        None \<Rightarrow> False
      | Some obj \<Rightarrow>
          ''prf'' \<in> fst ` set obj \<or>
          (case lookupBy (\<lambda>m. fst m = ''clientExtensionResults'') (rev obj) of
             Some (_, JObj extObj) \<Rightarrow> ''prf'' \<in> fst ` set extObj
           | _ \<Rightarrow> False))"

section \<open>Credential creation\<close>

definition compressedP256XY :: "bytes \<Rightarrow> bytes \<Rightarrow> bytes res" where
  "compressedP256XY x y =
     (if length x \<noteq> 32 \<or> length y \<noteq> 32 then Inl (Err ''p256 coordinates'')
      else case parseUncompressed (4 # x @ y) of
        None \<Rightarrow> Inl (Err ''p256 point is off-curve'')
      | Some _ \<Rightarrow>
          let out = (if last y AND 1 = 1 then 3 else 2) # x in
          andThen (ParseCompressedP256 out) (\<lambda>_. Inr out))"

definition parseCOSEES256 :: "bytes \<Rightarrow> (bytes \<times> bytes) res" where
  "parseCOSEES256 raw =
     andThen (wrapErr ''cose key'' (decodeCBOR raw)) (\<lambda>(val, rest).
     if mapInt val 1 \<noteq> Some (CInt coseKtyEC2) then Inl (Err ''cose kty must be EC2'')
     else if mapInt val 3 \<noteq> Some (CInt coseAlgES256) then Inl (Err ''cose alg must be ES256'')
     else if mapInt val (- 1) \<noteq> Some (CInt coseCrvP256) then Inl (Err ''cose curve must be P-256'')
     else case mapInt val (- 2) of
       Some (CBytes x) \<Rightarrow>
         if length x \<noteq> 32 then Inl (Err ''cose x must be 32 bytes'')
         else (case mapInt val (- 3) of
                 Some (CBytes y) \<Rightarrow>
                   if length y \<noteq> 32 then Inl (Err ''cose y must be 32 bytes'')
                   else andThen (compressedP256XY x y) (\<lambda>compressed. Inr (compressed, rest))
               | _ \<Rightarrow> Inl (Err ''cose y must be 32 bytes''))
     | _ \<Rightarrow> Inl (Err ''cose x must be 32 bytes''))"

definition extractAttestedCredential :: "bytes \<Rightarrow> CreateResult res" where
  "extractAttestedCredential auth =
     (let header = 37 + 16 + 2; credLen = 256 * unat (auth ! 53) + unat (auth ! 54) in
      if length auth < header then Inl (Err ''attested credential data truncated'')
      else if credLen = 0 \<or> header + credLen \<ge> length auth then Inl (Err ''attested credential id truncated'')
      else
        let credID = take credLen (drop header auth) in
        andThen (parseCOSEES256 (drop (header + credLen) auth)) (\<lambda>(compressed, rest).
        let result = Inr \<lparr> cr_CredentialID = credID, cr_WebAuthnP256 = compressed \<rparr> in
        if auth ! 32 AND flagED \<noteq> 0 then
          (if rest = [] then Inl (Err ''authenticator extensions required'')
           else
             andThen (wrapErr ''authenticator extensions'' (decodeCBOR rest)) (\<lambda>(ext, rest').
             case ext of
               CMap m \<Rightarrow>
                 if m = [] then Inl (Err ''authenticator extensions must be a non-empty map'')
                 else if rest' \<noteq> [] then Inl (Err ''trailing authenticator extension data'')
                 else result
             | _ \<Rightarrow> Inl (Err ''authenticator extensions must be a non-empty map'')))
        else if rest \<noteq> [] then Inl (Err ''unexpected trailing authenticator data'')
        else result))"

definition ValidateCreate :: "bytes \<Rightarrow> bytes \<Rightarrow> bytes \<Rightarrow> string \<Rightarrow> string \<Rightarrow> CreateResult res" where
  "ValidateCreate clientDataJSON authenticatorData challenge origin rpID =
     (if length challenge \<noteq> 32 then Inl (Err ''challenge must be 32 bytes'')
      else if length authenticatorData < 37 then Inl (Err ''authenticatorData too short'')
      else if clientDataJSON = [] \<or> length clientDataJSON > maxClientDataJSON then Inl (Err ''clientDataJSON too large'')
      else
        andThen (readClientData clientDataJSON) (\<lambda>cd.
        if cd_Type cd \<noteq> ''webauthn.create'' then Inl (Err ''clientDataJSON type %q'')
        else if cd_Origin cd \<noteq> origin then Inl (Err ''origin'')
        else if cd_CrossOrigin cd = None \<or> cd_CrossOrigin cd = Some True then Inl (Err ''crossOrigin must be false'')
        else
          andThen (decodeChallenge (cd_Challenge cd)) (\<lambda>gotChallenge.
          if gotChallenge \<noteq> challenge then Inl (Err ''challenge mismatch'')
          else if take 32 authenticatorData \<noteq> sha256 (bytes_of rpID) then Inl (Err ''rpIdHash mismatch'')
          else if authenticatorData ! 32 AND flagUP = 0 then Inl (Err ''user presence required'')
          else if authenticatorData ! 32 AND flagUV = 0 then Inl (Err ''user verification required'')
          else if authenticatorData ! 32 AND flagAT = 0 then Inl (Err ''attested credential data required'')
          else extractAttestedCredential authenticatorData)))"

definition ParseAttestationObject :: "bytes \<Rightarrow> bytes res" where
  "ParseAttestationObject raw =
     andThen (wrapErr ''attestationObject'' (decodeCBOR raw)) (\<lambda>(val, rest).
     if rest \<noteq> [] then Inl (Err ''attestationObject trailing data'')
     else case mapText val ''fmt'' of
       Some (CText f) \<Rightarrow>
         if f \<noteq> ''none'' then Inl (Err ''unsupported attestation format %q'')
         else (case mapText val ''authData'' of
                 Some (CBytes b) \<Rightarrow> if length b < 37 then Inl (Err ''attestationObject authData required'') else Inr b
               | _ \<Rightarrow> Inl (Err ''attestationObject authData required''))
     | _ \<Rightarrow> Inl (Err ''attestationObject fmt required''))"

section \<open>Builders\<close>

definition EncodeCOSEES256 :: "bytes \<Rightarrow> bytes res" where
  "EncodeCOSEES256 compressed =
     andThen (ParseCompressedP256 compressed) (\<lambda>(x, y).
     Inr (encodeCBORMap
       [encodeCBORUnsigned 1 @ encodeCBORUnsigned (nat coseKtyEC2),
        encodeCBORUnsigned 3 @ encodeCBORNegative coseAlgES256,
        encodeCBORNegative (- 1) @ encodeCBORUnsigned (nat coseCrvP256),
        encodeCBORNegative (- 2) @ encodeCBORBytes (fillBytes 32 x),
        encodeCBORNegative (- 3) @ encodeCBORBytes (fillBytes 32 y)]))"

definition EncodeNoneAttestationObject :: "bytes \<Rightarrow> bytes" where
  "EncodeNoneAttestationObject authData =
     encodeCBORMap
       [encodeCBORText ''fmt'' @ encodeCBORText ''none'',
        encodeCBORText ''authData'' @ encodeCBORBytes authData,
        encodeCBORText ''attStmt'' @ encodeCBORMap []]"

definition attestedAuthenticatorData :: "string \<Rightarrow> bytes \<Rightarrow> bytes \<Rightarrow> bytes \<Rightarrow> bytes res" where
  "attestedAuthenticatorData rpID credID compressedP256 extensions =
     andThen (EncodeCOSEES256 compressedP256) (\<lambda>cose.
     if credID = [] \<or> length credID > 1024 then Inl (Err ''credential id required'')
     else
       let flags = (flagUP OR flagUV OR flagAT) OR (if extensions \<noteq> [] then flagED else 0) in
       Inr (sha256 (bytes_of rpID) @ [flags] @ [0, 0, 0, 0] @ replicate 16 0 @
            rev (le16 (length credID)) @ credID @ cose @ extensions))"

definition AttestedAuthenticatorData :: "string \<Rightarrow> bytes \<Rightarrow> bytes \<Rightarrow> bytes res" where
  "AttestedAuthenticatorData rpID credID compressedP256 = attestedAuthenticatorData rpID credID compressedP256 []"

definition prfExtensions :: bytes where
  "prfExtensions =
     encodeCBORMap
       [encodeCBORText ''hmac-secret'' @ encodeCBORBool True,
        encodeCBORText ''prf'' @ encodeCBORMap [encodeCBORText ''enabled'' @ encodeCBORBool True]]"

definition AttestedAuthenticatorDataPRF :: "string \<Rightarrow> bytes \<Rightarrow> bytes \<Rightarrow> bytes res" where
  "AttestedAuthenticatorDataPRF rpID credID compressedP256 = attestedAuthenticatorData rpID credID compressedP256 prfExtensions"

section \<open>Lemmas\<close>

lemma challenge_round_trip: "decodeChallenge (EncodeChallenge raw) = Inr raw"
  by (simp add: decodeChallenge_def EncodeChallenge_def b64_round_trip)

end
