(* ===== verification/Ceremony.thy ===== *)
theory Ceremony
  imports Webauthn
begin

text \<open>
  What the passkey ceremonies guarantee: the structures the builders produce are read back, and an assertion is bound to
  the credential, the challenge, the origin and the relying party it was made for.
\<close>

unbundle bit_operations_syntax

section \<open>The creation ceremony\<close>

text \<open>The COSE key of a point, as a CBOR value.\<close>

abbreviation coseKey :: "int \<Rightarrow> int \<Rightarrow> cborValue" where
  "coseKey x y \<equiv> CMap [(CInt 1, CInt 2), (CInt 3, CInt (- 7)), (CInt (- 1), CInt 1),
     (CInt (- 2), CBytes (fillBytes 32 x)), (CInt (- 3), CBytes (fillBytes 32 y))]"

lemma compress_point:
  assumes "ParseCompressedP256 key = Inr (x, y)" "y \<noteq> 0"
  shows "compressedP256XY (fillBytes 32 x) (fillBytes 32 y) = Inr key"
proof -
  note k = parse_compressed_InrD [OF assms(1)]
  then obtain h where key: "key = h # tl key" "h = hd key" by (cases key) auto
  have x: "fillBytes 32 x = tl key" using k(1,3) fillBytes_beInt [of "tl key"] by simp
  have y: "0 \<le> y" "y < 256 ^ 32" "x < 256 ^ 32" "0 \<le> x" using k(4) p_bound by (auto simp: onCurve_def)
  have "parseUncompressed (4 # fillBytes 32 x @ fillBytes 32 y) = Some (x, y)"
    using k(4) y by (simp add: parseUncompressed_def Let_def beInt_fillBytes)
  moreover have "(last (fillBytes 32 y) AND 1 = 1) \<longleftrightarrow> odd y"
    using y(1) by (simp add: parity_fillBytes)
  moreover have "odd y \<longleftrightarrow> h = 3" "\<not> odd y \<longleftrightarrow> h = 2"
    using k(2) k(5) [OF assms(2)] key(2) by (auto simp: odd_iff_mod_2_eq_one)
  ultimately show ?thesis using x assms(1) key k(1,2) by (auto simp: compressedP256XY_def Let_def)
qed

lemma cose_encoding:
  assumes "ParseCompressedP256 key = Inr (x, y)"
  shows "EncodeCOSEES256 key = Inr (encodeCBOR (coseKey x y))" "cborWf (coseKey x y)" "length (encodeCBOR (coseKey x y)) = 77"
  using assms
  by (simp_all add: EncodeCOSEES256_def coseKtyEC2_def coseAlgES256_def coseCrvP256_def encodeCBORMap_def encodeCBORBytes_def
      encodeCBORUnsigned_def encodeCBORNegative_def)

lemma cose_reads:
  assumes "ParseCompressedP256 key = Inr (x, y)" "y \<noteq> 0" "length rest \<le> 4000"
  shows "parseCOSEES256 (encodeCBOR (coseKey x y) @ rest) = Inr (key, rest)"
proof -
  have "decodeCBOR (encodeCBOR (coseKey x y) @ rest) = Inr (coseKey x y, rest)"
    using assms(3) cose_encoding(3) [OF assms(1)] by (intro encoding_decodes cose_encoding(2) [OF assms(1)]) (simp add: maxCBORBytes_def)
  then show ?thesis using compress_point [OF assms(1,2)]
    by (simp add: parseCOSEES256_def mapInt_def coseKtyEC2_def coseAlgES256_def coseCrvP256_def)
qed

text \<open>The layout of attested authenticator data: the relying party hash, the flags, four counter bytes, the 16 bytes of the
  AAGUID, the length of the credential id on two bytes, the id, the key and the extensions.\<close>

lemma attested_layout:
  fixes auth :: bytes
  assumes "auth = sha256 rp @ [flags] @ [0, 0, 0, 0] @ replicate 16 0 @ rev (le16 (length credID)) @ credID @ rest" "length credID < 65536"
  shows "take 32 auth = sha256 rp" "auth ! 32 = flags" "256 * unat (auth ! 53) + unat (auth ! 54) = length credID"
    "drop 55 auth = credID @ rest" "length auth = 55 + length credID + length rest"
proof -
  have two: "rev (le16 n) = [word_of_nat (n div 256), word_of_nat n]" for n by (simp add: le16_def numeral_2_eq_2 word_unat_eq_iff)
  have "256 * (length credID div 256 mod 256) + length credID mod 256 = length credID"
    using assms(2) by (simp add: div_less_mono less_mult_imp_div_less)
  then show "256 * unat (auth ! 53) + unat (auth ! 54) = length credID" by (simp add: assms(1) two nth_append)
qed (simp_all add: assms(1) nth_append)

lemma prf_encoding:
  "prfExtensions = encodeCBOR (CMap [(CText ''hmac-secret'', CBool True), (CText ''prf'', CMap [(CText ''enabled'', CBool True)])])"
  "length prfExtensions < 100"
  by (simp_all add: prfExtensions_def encodeCBORMap_def encodeCBORText_def encodeCBORBool_def encodeCBORUnsigned_def)

lemma prf_reads: "decodeCBOR prfExtensions = Inr (CMap [(CText ''hmac-secret'', CBool True), (CText ''prf'', CMap [(CText ''enabled'', CBool True)])], [])"
  using encoding_decodes [of "CMap [(CText ''hmac-secret'', CBool True), (CText ''prf'', CMap [(CText ''enabled'', CBool True)])]" "[]"]
    prf_encoding by (simp add: maxCBORBytes_def)

lemma prf_not_Nil: "prfExtensions \<noteq> []"
  by (simp add: prfExtensions_def encodeCBORMap_def encodeCBORUnsigned_def)

lemma flags_set:
  "((flagUP OR flagUV OR flagAT) OR (if b then flagED else 0)) AND flagUP \<noteq> 0"
  "((flagUP OR flagUV OR flagAT) OR (if b then flagED else 0)) AND flagUV \<noteq> 0"
  "((flagUP OR flagUV OR flagAT) OR (if b then flagED else 0)) AND flagAT \<noteq> 0"
  "((flagUP OR flagUV OR flagAT) OR (if b then flagED else 0)) AND flagED \<noteq> 0 \<longleftrightarrow> b"
  by (simp_all add: flagUP_def flagUV_def flagAT_def flagED_def)

lemma attested_reads:
  assumes "ParseCompressedP256 key = Inr (x, y)" "y \<noteq> 0" "credID \<noteq> []" "length credID \<le> 1024" "ext = [] \<or> ext = prfExtensions"
    and "attestedAuthenticatorData rpID credID key ext = Inr auth"
  shows "extractAttestedCredential auth = Inr \<lparr> cr_CredentialID = credID, cr_WebAuthnP256 = key \<rparr>"
    "take 32 auth = sha256 (bytes_of rpID)" "auth ! 32 AND flagUP \<noteq> 0" "auth ! 32 AND flagUV \<noteq> 0" "auth ! 32 AND flagAT \<noteq> 0"
    "37 \<le> length auth" "length auth < 1300"
proof -
  let ?flags = "(flagUP OR flagUV OR flagAT) OR (if ext \<noteq> [] then flagED else 0)"
  have auth: "auth = sha256 (bytes_of rpID) @ [?flags] @ [0, 0, 0, 0] @ replicate 16 0 @ rev (le16 (length credID)) @ credID @
      (encodeCBOR (coseKey x y) @ ext)"
    using assms(3,4,6) cose_encoding(1) [OF assms(1)] by (simp add: attestedAuthenticatorData_def Let_def del: encodeCBOR.simps)
  note l = attested_layout [OF auth]
  have len: "length credID < 65536" "length ext < 100" using assms(4,5) prf_encoding(2) by auto
  note l = l [OF len(1)]
  show "take 32 auth = sha256 (bytes_of rpID)" "auth ! 32 AND flagUP \<noteq> 0" "auth ! 32 AND flagUV \<noteq> 0" "auth ! 32 AND flagAT \<noteq> 0"
    using l(1,2) flags_set [of "ext \<noteq> []"] by simp_all
  have la: "length auth = 132 + length credID + length ext" using l(5) cose_encoding(3) [OF assms(1)] by (simp del: encodeCBOR.simps)
  then show "37 \<le> length auth" "length auth < 1300" using assms(4) len by simp_all
  have "drop (55 + length credID) auth = encodeCBOR (coseKey x y) @ ext" using l(4) by (simp add: drop_drop [symmetric] add.commute del: encodeCBOR.simps drop_drop)
  moreover have "parseCOSEES256 (encodeCBOR (coseKey x y) @ ext) = Inr (key, ext)" by (rule cose_reads [OF assms(1,2)]) (use len in simp)
  moreover have "auth ! 32 AND flagED \<noteq> 0 \<longleftrightarrow> ext \<noteq> []" using l(2) flags_set(4) [of "ext \<noteq> []"] by simp
  ultimately show "extractAttestedCredential auth = Inr \<lparr> cr_CredentialID = credID, cr_WebAuthnP256 = key \<rparr>"
    using l(3,4) la assms(3,5) prf_reads prf_not_Nil by (auto simp: extractAttestedCredential_def Let_def simp del: encodeCBOR.simps)
qed

lemma encoded_lengths:
  "length (encodeCBORBytes b) \<le> 3 + length b" "length (encodeCBORText t) \<le> 3 + length t"
  "length (encodeCBORMap ps) \<le> 3 + sum_list (map length ps)"
  by (simp_all add: encodeCBORBytes_def encodeCBORText_def encodeCBORMap_def encodeCBORUnsigned_def length_concat)

lemma none_attestation_reads:
  assumes "37 \<le> length auth" "length auth < 4000"
  shows "ParseAttestationObject (EncodeNoneAttestationObject auth) = Inr auth"
proof -
  let ?v = "CMap [(CText ''fmt'', CText ''none''), (CText ''authData'', CBytes auth), (CText ''attStmt'', CMap [])]"
  have e: "EncodeNoneAttestationObject auth = encodeCBOR ?v @ []" by (simp add: EncodeNoneAttestationObject_def)
  have "length (encodeCBOR ?v) \<le> 60 + length auth"
    using encoded_lengths(1) [of auth] encoded_lengths(2) [of "''fmt''"] encoded_lengths(2) [of "''none''"] encoded_lengths(2) [of "''authData''"]
      encoded_lengths(2) [of "''attStmt''"] encoded_lengths(3) [of "[]"]
      encoded_lengths(3) [of "[encodeCBORText ''fmt'' @ encodeCBORText ''none'', encodeCBORText ''authData'' @ encodeCBORBytes auth,
        encodeCBORText ''attStmt'' @ encodeCBORMap []]"] by simp
  then have "length (encodeCBOR ?v) \<le> maxCBORBytes" using assms(2) by (simp add: maxCBORBytes_def)
  then have "decodeCBOR (EncodeNoneAttestationObject auth) = Inr (?v, [])"
    unfolding e using assms by (intro encoding_decodes) simp_all
  then show ?thesis using assms(1) by (simp add: ParseAttestationObject_def mapText_def)
qed

text \<open>
  C28: the creation ceremony returns what was registered. For every valid compressed key (P-256 has no point with y = 0) and
  credential id of at most 1024 bytes, the attestation object built for them, with or without the PRF extension,
  is read back, and the ceremony over matching client data accepts it and returns exactly that id and that key.
\<close>

theorem create_ceremony_round_trip:
  assumes "ParseCompressedP256 key = Inr (x, y)" "y \<noteq> 0" "credID \<noteq> []" "length credID \<le> 1024"
    and "build \<in> {AttestedAuthenticatorData, AttestedAuthenticatorDataPRF}"
    and "readClientData cdj = Inr cd" "cdj \<noteq> []" "length cdj \<le> maxClientDataJSON"
    and "cd_Type cd = ''webauthn.create''" "cd_CrossOrigin cd = Some False" "cd_Challenge cd = EncodeChallenge challenge" "length challenge = 32"
  shows "\<exists>auth. build rpID credID key = Inr auth \<and> ParseAttestationObject (EncodeNoneAttestationObject auth) = Inr auth \<and>
    ValidateCreate cdj auth challenge (cd_Origin cd) rpID = Inr \<lparr> cr_CredentialID = credID, cr_WebAuthnP256 = key \<rparr>"
proof -
  obtain ext where ext: "ext = [] \<or> ext = prfExtensions" "build rpID credID key = attestedAuthenticatorData rpID credID key ext"
  proof -
    from assms(5) consider (plain) "build = AttestedAuthenticatorData" | (extended) "build = AttestedAuthenticatorDataPRF" by auto
    then show thesis
    proof cases
      case plain
      show ?thesis by (rule that [of "[]"]) (simp_all add: plain AttestedAuthenticatorData_def)
    next
      case extended
      show ?thesis by (rule that [of prfExtensions]) (simp_all add: extended AttestedAuthenticatorDataPRF_def)
    qed
  qed
  obtain auth where auth: "attestedAuthenticatorData rpID credID key ext = Inr auth"
    using assms(3,4) cose_encoding(1) [OF assms(1)] by (simp add: attestedAuthenticatorData_def Let_def del: encodeCBOR.simps)
  note r = attested_reads [OF assms(1-4) ext(1) auth]
  have "ParseAttestationObject (EncodeNoneAttestationObject auth) = Inr auth" by (rule none_attestation_reads) (use r in auto)
  moreover have "ValidateCreate cdj auth challenge (cd_Origin cd) rpID = Inr \<lparr> cr_CredentialID = credID, cr_WebAuthnP256 = key \<rparr>"
    using r assms(6-12) by (simp add: ValidateCreate_def challenge_round_trip)
  ultimately show ?thesis using ext auth by auto
qed

text \<open>A point whose y coordinate is 1, and client data of a creation.\<close>

definition sampleX :: int where "sampleX = 0x6916fac45e568b6b9e2e2ecd611b282e5fcc40a3067d601057f879ce5a8a73cc"

definition sampleKey33 :: bytes where "sampleKey33 = 3 # fillBytes 32 sampleX"

definition sampleClientData :: string where
  \<open>sampleClientData = ''{"type":"webauthn.create","challenge":"AAAAAAAAAAAAAAAAAAAAAAAAAAAAAAAAAAAAAAAAAAA","origin":"https://x","crossOrigin":false}''\<close>

lemma sampleKey33_parses: "ParseCompressedP256 sampleKey33 = Inr (sampleX, 1)"
proof -
  have p1: "1 < p256_p" by (simp add: p256_p_def)
  have x: "0 \<le> sampleX" "sampleX < p256_p" "curveRhs sampleX = 1"
    by (simp_all add: sampleX_def p256_p_def curveRhs_def p256_b_def)
  have fb: "beInt (fillBytes 32 sampleX) = sampleX" "beInt (fillBytes 32 1) = 1"
    by (rule beInt_fillBytes; simp add: sampleX_def)+
  have "unmarshalCompressed sampleKey33 = Some (sampleX, 1)"
    using x p1 fb powMod_one [OF p1] by (simp add: unmarshalCompressed_def sampleKey33_def Let_def)
  then show ?thesis using x p1 fb
    by (simp add: ParseCompressedP256_def sampleKey33_def parseUncompressed_def onCurve_def Let_def)
qed

lemma sampleClientData_reads:
  "readClientData (bytes_of sampleClientData) =
     Inr \<lparr> cd_Type = ''webauthn.create'', cd_Challenge = replicate 43 (CHR ''A''), cd_Origin = ''https://x'', cd_CrossOrigin = Some False \<rparr>"
proof -
  have "0 < maxNestingDepth" by (simp add: maxNestingDepth_def)
  then have "parseJson sampleClientData = Some (JObj [(''type'', JStr ''webauthn.create''), (''challenge'', JStr (replicate 43 (CHR ''A''))),
      (''origin'', JStr ''https://x''), (''crossOrigin'', JBool False)])"
    by (simp add: parseJson_def sampleClientData_def unquote_plain numeral_eq_Suc skipWs_def isWs_def hasPrefix_def)
  then show ?thesis by (simp add: readClientData_def unmarshalClientData_def jsonMembers_def fieldVals_def)
qed

theorem create_ceremony_round_trip_witness:
  "\<exists>auth. AttestedAuthenticatorDataPRF ''x'' [1, 2, 3] sampleKey33 = Inr auth \<and>
     ParseAttestationObject (EncodeNoneAttestationObject auth) = Inr auth \<and>
     ValidateCreate (bytes_of sampleClientData) auth (replicate 32 0) ''https://x'' ''x'' =
       Inr \<lparr> cr_CredentialID = [1, 2, 3], cr_WebAuthnP256 = sampleKey33 \<rparr>"
proof -
  have "length sampleClientData = 125" unfolding sampleClientData_def by simp
  then have "bytes_of sampleClientData \<noteq> []" "length (bytes_of sampleClientData) \<le> maxClientDataJSON"
    by (auto simp: maxClientDataJSON_def)
  moreover have "replicate 43 (CHR ''A'') = EncodeChallenge (replicate 32 0)" unfolding EncodeChallenge_def by code_simp
  ultimately show ?thesis
    using create_ceremony_round_trip [OF sampleKey33_parses _ _ _ _ sampleClientData_reads,
        of "[1, 2, 3]" AttestedAuthenticatorDataPRF "replicate 32 0" "''x''"] by simp
qed

section \<open>Assertions are bound to their context\<close>

lemma Validate_InrD:
  assumes "Validate a exp = Inr v"
  obtains cd where "as_CredentialID a = ex_CredentialID exp" "readClientData (as_ClientDataJSON a) = Inr cd"
    "cd_Type cd = ''webauthn.get''" "cd_Origin cd = ex_Origin exp" "cd_CrossOrigin cd = Some False"
    "decodeChallenge (cd_Challenge cd) = Inr (ex_Challenge exp)" "take 32 (as_AuthenticatorData a) = sha256 (bytes_of (ex_RPID exp))"
  using assms by (auto simp: Validate_def andThen_Inr_iff split: if_splits)

text \<open>
  C29: an assertion serves one purpose. No assertion is accepted in two contexts that differ in the credential, the
  challenge or the origin, nor in two contexts whose relying party ids have different hashes, and no client data is
  accepted both for an assertion and for a creation.
\<close>

theorem assertion_bound_to_context:
  assumes "ex_CredentialID exp \<noteq> ex_CredentialID exp' \<or> ex_Challenge exp \<noteq> ex_Challenge exp' \<or> ex_Origin exp \<noteq> ex_Origin exp' \<or>
    sha256 (bytes_of (ex_RPID exp)) \<noteq> sha256 (bytes_of (ex_RPID exp'))"
  shows "((\<exists>e. Validate a exp = Inl e) \<or> (\<exists>e. Validate a exp' = Inl e)) \<and>
    ((\<exists>e. Validate a exp = Inl e) \<or> (\<exists>e. ValidateCreate (as_ClientDataJSON a) auth challenge origin rpID = Inl e))"
proof (cases "Validate a exp")
  case (Inr v)
  then obtain cd where cd: "as_CredentialID a = ex_CredentialID exp" "readClientData (as_ClientDataJSON a) = Inr cd"
    "cd_Type cd = ''webauthn.get''" "cd_Origin cd = ex_Origin exp" "decodeChallenge (cd_Challenge cd) = Inr (ex_Challenge exp)"
    "take 32 (as_AuthenticatorData a) = sha256 (bytes_of (ex_RPID exp))"
    by (rule Validate_InrD)
  have "\<exists>e. ValidateCreate (as_ClientDataJSON a) auth challenge origin rpID = Inl e"
    using cd(2,3) by (simp add: ValidateCreate_def)
  moreover have "\<exists>e. Validate a exp' = Inl e"
  proof (cases "Validate a exp'")
    case (Inr v')
    then have "as_CredentialID a = ex_CredentialID exp'" "cd_Origin cd = ex_Origin exp'"
      "decodeChallenge (cd_Challenge cd) = Inr (ex_Challenge exp')" "take 32 (as_AuthenticatorData a) = sha256 (bytes_of (ex_RPID exp'))"
      using cd(2) by (auto elim!: Validate_InrD)
    with cd assms show ?thesis by auto
  qed auto
  ultimately show ?thesis by blast
qed auto

definition sampleExpected :: "byte \<Rightarrow> Expected" where
  "sampleExpected b = \<lparr> ex_CredentialID = [1], ex_WebAuthnP256 = sampleKey33, ex_Challenge = replicate 32 b, ex_Origin = ''https://x'', ex_RPID = ''x'' \<rparr>"

definition sampleGetData :: string where
  \<open>sampleGetData = ''{"type":"webauthn.get","challenge":"AAAAAAAAAAAAAAAAAAAAAAAAAAAAAAAAAAAAAAAAAAA","origin":"https://x","crossOrigin":false}''\<close>

lemma sampleGetData_reads:
  "readClientData (bytes_of sampleGetData) =
     Inr \<lparr> cd_Type = ''webauthn.get'', cd_Challenge = replicate 43 (CHR ''A''), cd_Origin = ''https://x'', cd_CrossOrigin = Some False \<rparr>"
proof -
  have "0 < maxNestingDepth" by (simp add: maxNestingDepth_def)
  then have "parseJson sampleGetData = Some (JObj [(''type'', JStr ''webauthn.get''), (''challenge'', JStr (replicate 43 (CHR ''A''))),
      (''origin'', JStr ''https://x''), (''crossOrigin'', JBool False)])"
    by (simp add: parseJson_def sampleGetData_def unquote_plain numeral_eq_Suc skipWs_def isWs_def hasPrefix_def)
  then show ?thesis by (simp add: readClientData_def unmarshalClientData_def jsonMembers_def fieldVals_def)
qed

definition sampleAssertion :: Assertion where
  "sampleAssertion = \<lparr> as_CredentialID = [1], as_ClientDataJSON = bytes_of sampleGetData,
     as_AuthenticatorData = sha256 (bytes_of ''x'') @ [5, 0, 0, 0, 1], as_DERSignature = marshalSignature 1 1 \<rparr>"

theorem assertion_bound_to_context_witness:
  "(\<exists>cd. readClientData (as_ClientDataJSON sampleAssertion) = Inr cd \<and> cd_Type cd = ''webauthn.get'' \<and>
       decodeChallenge (cd_Challenge cd) = Inr (ex_Challenge (sampleExpected 0))) \<and>
   ((\<exists>e. Validate sampleAssertion (sampleExpected 0) = Inl e) \<or> (\<exists>e. Validate sampleAssertion (sampleExpected 1) = Inl e))"
proof -
  have "decodeChallenge (replicate 43 (CHR ''A'')) = Inr (replicate 32 0)" unfolding decodeChallenge_def by code_simp
  then have "\<exists>cd. readClientData (as_ClientDataJSON sampleAssertion) = Inr cd \<and> cd_Type cd = ''webauthn.get'' \<and>
      decodeChallenge (cd_Challenge cd) = Inr (ex_Challenge (sampleExpected 0))"
    by (simp add: sampleAssertion_def sampleGetData_reads sampleExpected_def)
  moreover have "ex_Challenge (sampleExpected 0) \<noteq> ex_Challenge (sampleExpected 1)" by (simp add: sampleExpected_def)
  ultimately show ?thesis using assertion_bound_to_context by blast
qed

end
