(* ===== verification/Enrollment.thy ===== *)
theory Enrollment
  imports Tenant Go_Time Board_Data Json
begin

text \<open>
  Tenants: vault rows, passkey credentials and recovery envelopes (\<open>tenant.go\<close>), invites (\<open>invite.go\<close>), enrollment sessions
  (\<open>enrollment_session.go\<close>), pending enrollments (\<open>pending.go\<close>) and vault creation (\<open>vault_create.go\<close>), with the
  enrollment rows of the boarding and the Ledger Savings programs that a creation stores beside the vault.

  \<open>Tenants\<close> holds the tables these operations touch. The body of a transaction maps the tables to a result and the new
  tables or fails; \<open>tenantTx\<close> keeps the old tables when the body or the COMMIT fails. SQLite's keys and CHECK
  constraints are written out at each statement; foreign keys are enforced at once. Byte fields are taken as present
  (an explicit empty BLOB, never NULL) except \<open>recovery_key_compressed\<close>, which is NULL when empty.
\<close>

section \<open>State\<close>

record InviteRow =
  in_token_hash :: bytes
  in_expires_at :: string
  in_consumed_vault_id :: "string option"
  in_created_at :: string

record Invite =
  iv_TokenHash :: bytes
  iv_ExpiresAt :: string
  iv_ConsumedVaultID :: string
  iv_CreatedAt :: string

record PendingEnrollment =
  pe_Handle :: string
  pe_VaultID :: string
  pe_TokenHash :: bytes
  pe_Challenge :: bytes
  pe_ProtectionTier :: string
  pe_PolicyDigest :: bytes
  pe_ExpiresAt :: string
  pe_CreatedAt :: string

record Tenants =
  tn_vault :: "VaultRecord list"
  tn_credential :: "VaultCredential list"
  tn_envelope :: "(string \<times> CredentialEnvelope) list"
  tn_invite :: "InviteRow list"
  tn_pending :: "PendingEnrollment list"
  tn_board :: "VaultBoardEnrollment list"
  tn_savings :: "LedgerSavingsEnrollment list"

definition tenantTx :: "bool \<Rightarrow> (Tenants \<Rightarrow> ('a \<times> Tenants) res) \<Rightarrow> Tenants \<Rightarrow> 'a res \<times> Tenants" where
  "tenantTx commit_ok body t =
     (case body t of
        Inl e \<Rightarrow> (Inl e, t)
      | Inr (x, t') \<Rightarrow> if commit_ok then (Inr x, t') else (Inl (Err ''commit''), t))"

definition hasVault :: "string \<Rightarrow> Tenants \<Rightarrow> bool" where
  "hasVault vaultID t \<longleftrightarrow> vaultID \<in> vr_VaultID ` set (tn_vault t)"

section \<open>Vaults, credentials and envelopes\<close>

definition vaultChecks :: "VaultRecord \<Rightarrow> bool" where
  "vaultChecks v \<longleftrightarrow>
     vr_ProtectionTier v \<in> {''light'', ''standard'', ''advanced''} \<and> vr_CosignerMode v = ''hkdf-sha256-v1'' \<and> length (vr_IntegrityMAC v) = 32 \<and>
     (vr_ProtectionTier v \<in> {''light'', ''standard''} \<and> vr_RecoveryKey v = [] \<or>
      vr_ProtectionTier v = ''advanced'' \<and> length (vr_RecoveryKey v) = 33)"

definition envelopeChecks :: "CredentialEnvelope \<Rightarrow> bool" where
  "envelopeChecks e \<longleftrightarrow> ce_Version e = 2 \<and> 0 < sqlLength (ce_Binding e) \<and> sqlLength (ce_Binding e) \<le> 16384 \<and> length (ce_Nonce e) = 12 \<and>
     length (ce_Ciphertext e) = 48 \<and> length (ce_DirectSig e) = 64 \<and> length (ce_PhoneSig e) = 64 \<and> length (ce_IntegrityMAC e) = 32"

definition insertVaultRow :: "VaultRecord \<Rightarrow> Tenants \<Rightarrow> Tenants res" where
  "insertVaultRow v t =
     (if hasVault (vr_VaultID v) t then Inl (ErrConstraint ''UNIQUE vault.vault_id'')
      else if \<not> vaultChecks v then Inl (ErrConstraint ''CHECK vault'')
      else Inr (t \<lparr> tn_vault := tn_vault t @ [v] \<rparr>))"

definition insertCredentialRow :: "VaultCredential \<Rightarrow> Tenants \<Rightarrow> Tenants res" where
  "insertCredentialRow c t =
     (if vc_CredentialID c \<in> vc_CredentialID ` set (tn_credential t) then Inl (ErrConstraint ''UNIQUE vault_credential.credential_id'')
      else if \<not> hasVault (vc_VaultID c) t then Inl (ErrConstraint ''FOREIGN KEY vault_credential.vault_id'')
      else if length (vc_IntegrityMAC c) \<noteq> 32 then Inl (ErrConstraint ''CHECK vault_credential'')
      else Inr (t \<lparr> tn_credential := tn_credential t @ [c] \<rparr>))"

definition insertVaultEnvelopeTx :: "string \<Rightarrow> CredentialEnvelope \<Rightarrow> Tenants \<Rightarrow> Tenants res" where
  "insertVaultEnvelopeTx vaultID e t =
     (if vaultID \<in> fst ` set (tn_envelope t) then Inl (ErrConstraint ''UNIQUE vault_envelope.vault_id'')
      else if \<not> hasVault vaultID t then Inl (ErrConstraint ''FOREIGN KEY vault_envelope.vault_id'')
      else if \<not> envelopeChecks e then Inl (ErrConstraint ''CHECK vault_envelope'')
      else Inr (t \<lparr> tn_envelope := tn_envelope t @ [(vaultID, e)] \<rparr>))"

definition insertVaultTx :: "VaultRecord \<Rightarrow> VaultCredential \<Rightarrow> CredentialEnvelope option \<Rightarrow> Tenants \<Rightarrow> Tenants res" where
  "insertVaultTx v c envelope t =
     andThen (insertVaultRow v t) (\<lambda>t.
     andThen (insertCredentialRow c t) (\<lambda>t.
     case envelope of None \<Rightarrow> Inr t | Some e \<Rightarrow> insertVaultEnvelopeTx (vr_VaultID v) e t))"

text \<open>\<open>ORDER BY resident DESC LIMIT 1\<close>; rows of equal rank come in insertion order.\<close>

definition getVaultCredentialTx :: "string \<Rightarrow> Tenants \<Rightarrow> VaultCredential option" where
  "getVaultCredentialTx vaultID t =
     (let rows = filter (\<lambda>c. vc_VaultID c = vaultID) (tn_credential t) in
      case filter vc_Resident rows @ filter (\<lambda>c. \<not> vc_Resident c) rows of [] \<Rightarrow> None | c # _ \<Rightarrow> Some c)"

definition LoadVault :: "string \<Rightarrow> Tenants \<Rightarrow> (VaultRecord \<times> VaultCredential option) option res" where
  "LoadVault vaultID t =
     (if vaultID = [] then Inl (Err ''vault id required'')
      else Inr (case lookupBy (\<lambda>v. vr_VaultID v = vaultID) (tn_vault t) of
        None \<Rightarrow> None
      | Some v \<Rightarrow> Some (v, getVaultCredentialTx vaultID t)))"

definition LoadVerifiedVault :: "string \<Rightarrow> bytes \<Rightarrow> Tenants \<Rightarrow> (VaultRecord \<times> VaultCredential option) option res" where
  "LoadVerifiedVault vaultID key t =
     andThen (LoadVault vaultID t) (\<lambda>res.
     case res of
       None \<Rightarrow> Inr None
     | Some (v, cred) \<Rightarrow>
         andThen (verifyVaultRecord v key) (\<lambda>_.
         andThen (case cred of None \<Rightarrow> Inr () | Some c \<Rightarrow> verifyVaultCredential c key) (\<lambda>_.
         Inr (Some (v, cred)))))"

definition getVaultEnvelope :: "string \<Rightarrow> Tenants \<Rightarrow> CredentialEnvelope option res" where
  "getVaultEnvelope vaultID t =
     (case lookupBy (\<lambda>r. fst r = vaultID) (tn_envelope t) of
        None \<Rightarrow> Inr None
      | Some (_, e) \<Rightarrow> andThen (validateCredentialEnvelope e) (\<lambda>_. Inr (Some e)))"

definition GetVaultEnvelope :: "string \<Rightarrow> Tenants \<Rightarrow> CredentialEnvelope option res" where
  "GetVaultEnvelope vaultID t =
     (if vaultID = [] then Inl (Err ''vault id required'') else getVaultEnvelope vaultID t)"

definition storeEnvelopeBody :: "bytes \<Rightarrow> string \<Rightarrow> CredentialEnvelope \<Rightarrow> Tenants \<Rightarrow> (unit \<times> Tenants) res" where
  "storeEnvelopeBody key vaultID envelope t =
     (case getVaultCredentialTx vaultID t of
        None \<Rightarrow> Inl (Err ''vault credential required'')
      | Some cred \<Rightarrow>
          andThen (VerifyVaultEnvelope envelope vaultID (vc_CredentialID cred) key) (\<lambda>_.
          andThen (getVaultEnvelope vaultID t) (\<lambda>existing.
          case existing of
            Some old \<Rightarrow> if envelopesEqual old envelope then Inr ((), t) else Inl (Err ''credential envelope locked'')
          | None \<Rightarrow>
              andThen (wrapErr ''credential envelope locked or failed'' (insertVaultEnvelopeTx vaultID envelope t)) (\<lambda>t'. Inr ((), t')))))"

definition StoreVaultEnvelopeIfAbsent :: "bool \<Rightarrow> bytes \<Rightarrow> string \<Rightarrow> CredentialEnvelope \<Rightarrow> Tenants \<Rightarrow> unit res \<times> Tenants" where
  "StoreVaultEnvelopeIfAbsent commit_ok key vaultID envelope t =
     (if vaultID = [] then (Inl (Err ''vault id required''), t)
      else case validateCredentialEnvelope envelope of
        Inl e \<Rightarrow> (Inl e, t)
      | Inr _ \<Rightarrow>
          if length (ce_IntegrityMAC envelope) \<noteq> 32 then (Inl (Err ''credential envelope integrity MAC must be 32 bytes''), t)
          else tenantTx commit_ok (storeEnvelopeBody key vaultID envelope) t)"

definition updateEnvelope :: "string \<Rightarrow> CredentialEnvelope \<Rightarrow> Tenants \<Rightarrow> Tenants res" where
  "updateEnvelope vaultID e t =
     (if vaultID \<notin> fst ` set (tn_envelope t) then Inl (Err ''replace credential envelope affected %d rows'')
      else if \<not> envelopeChecks e then Inl (ErrConstraint ''CHECK vault_envelope'')
      else Inr (t \<lparr> tn_envelope := map (\<lambda>r. if fst r = vaultID then (vaultID, e) else r) (tn_envelope t) \<rparr>))"

definition replaceEnvelopeBody :: "bytes \<Rightarrow> string \<Rightarrow> CredentialEnvelope \<Rightarrow> CredentialEnvelope \<Rightarrow> Tenants \<Rightarrow> (unit \<times> Tenants) res" where
  "replaceEnvelopeBody key vaultID expected replacement t =
     (case getVaultCredentialTx vaultID t of
        None \<Rightarrow> Inl (Err ''vault credential required'')
      | Some cred \<Rightarrow>
          andThen (VerifyVaultEnvelope expected vaultID (vc_CredentialID cred) key) (\<lambda>_.
          andThen (VerifyVaultEnvelope replacement vaultID (vc_CredentialID cred) key) (\<lambda>_.
          andThen (getVaultEnvelope vaultID t) (\<lambda>current.
          case current of
            None \<Rightarrow> Inl (Err ''credential envelope changed during upgrade'')
          | Some cur \<Rightarrow>
              if \<not> envelopesEqual cur expected then Inl (Err ''credential envelope changed during upgrade'')
              else andThen (updateEnvelope vaultID replacement t) (\<lambda>t'. Inr ((), t'))))))"

definition ReplaceVaultEnvelope :: "bool \<Rightarrow> bytes \<Rightarrow> string \<Rightarrow> CredentialEnvelope \<Rightarrow> CredentialEnvelope \<Rightarrow> Tenants \<Rightarrow> unit res \<times> Tenants" where
  "ReplaceVaultEnvelope commit_ok key vaultID expected replacement t =
     (if vaultID = [] then (Inl (Err ''vault id required''), t)
      else case andThen (validateCredentialEnvelope expected) (\<lambda>_. validateCredentialEnvelope replacement) of
        Inl e \<Rightarrow> (Inl e, t)
      | Inr _ \<Rightarrow>
          if length (ce_IntegrityMAC expected) \<noteq> 32 \<or> length (ce_IntegrityMAC replacement) \<noteq> 32
          then (Inl (Err ''credential envelope integrity MAC must be 32 bytes''), t)
          else tenantTx commit_ok (replaceEnvelopeBody key vaultID expected replacement) t)"

section \<open>Invites and enrollment sessions\<close>

definition inviteOf :: "InviteRow \<Rightarrow> Invite" where
  "inviteOf r = \<lparr> iv_TokenHash = in_token_hash r, iv_ExpiresAt = in_expires_at r,
     iv_ConsumedVaultID = (case in_consumed_vault_id r of None \<Rightarrow> [] | Some v \<Rightarrow> v), iv_CreatedAt = in_created_at r \<rparr>"

definition getInvite :: "bytes \<Rightarrow> Tenants \<Rightarrow> Invite option" where
  "getInvite tokenHash t = map_option inviteOf (lookupBy (\<lambda>r. in_token_hash r = tokenHash) (tn_invite t))"

definition GetInvite :: "bytes \<Rightarrow> Tenants \<Rightarrow> Invite option res" where
  "GetInvite tokenHash t =
     (if length tokenHash \<noteq> 32 then Inl (Err ''invite token_hash must be 32 bytes'') else Inr (getInvite tokenHash t))"

definition Usable :: "Invite option \<Rightarrow> time \<Rightarrow> bool" where
  "Usable invite now =
     (case invite of
        None \<Rightarrow> False
      | Some i \<Rightarrow> iv_ConsumedVaultID i = [] \<and> iv_ExpiresAt i \<noteq> [] \<and> iv_ExpiresAt i \<ge> formatRFC3339 now)"

definition insertInvite :: "bytes \<Rightarrow> string \<Rightarrow> string \<Rightarrow> Tenants \<Rightarrow> Tenants res" where
  "insertInvite tokenHash expiresAt createdAt t =
     (if tokenHash \<in> in_token_hash ` set (tn_invite t) then Inl (ErrConstraint ''UNIQUE invite.token_hash'')
      else if length tokenHash \<noteq> 32 then Inl (ErrConstraint ''CHECK invite'')
      else Inr (t \<lparr> tn_invite := tn_invite t @
        [\<lparr> in_token_hash = tokenHash, in_expires_at = expiresAt, in_consumed_vault_id = None, in_created_at = createdAt \<rparr>] \<rparr>))"

definition PutInvite :: "bytes \<Rightarrow> string \<Rightarrow> string \<Rightarrow> Tenants \<Rightarrow> unit res \<times> Tenants" where
  "PutInvite tokenHash expiresAt createdAt t =
     (if length tokenHash \<noteq> 32 then (Inl (Err ''invite token_hash must be 32 bytes''), t)
      else if expiresAt = [] \<or> createdAt = [] then (Inl (Err ''invite timestamps required''), t)
      else case insertInvite tokenHash expiresAt createdAt t of Inl e \<Rightarrow> (Inl e, t) | Inr t' \<Rightarrow> (Inr (), t'))"

definition staleInvite :: "string \<Rightarrow> InviteRow \<Rightarrow> bool" where
  "staleInvite cutoff r \<longleftrightarrow> in_consumed_vault_id r = None \<and> in_expires_at r < cutoff"

definition pruneInvites :: "string \<Rightarrow> Tenants \<Rightarrow> Tenants" where
  "pruneInvites cutoff t =
     t \<lparr> tn_pending := filter (\<lambda>p. pe_TokenHash p \<notin> in_token_hash ` set (filter (staleInvite cutoff) (tn_invite t))) (tn_pending t),
         tn_invite := filter (\<lambda>r. \<not> staleInvite cutoff r) (tn_invite t) \<rparr>"

definition recentInvites :: "time \<Rightarrow> Tenants \<Rightarrow> nat" where
  "recentInvites now t = length (filter (\<lambda>r. in_created_at r \<ge> formatRFC3339 (now - 60 * second)) (tn_invite t))"

definition activeInvites :: "time \<Rightarrow> Tenants \<Rightarrow> nat" where
  "activeInvites now t = length (filter (\<lambda>r. in_consumed_vault_id r = None \<and> in_expires_at r \<ge> formatRFC3339 now) (tn_invite t))"

definition issueBody :: "bytes \<Rightarrow> time \<Rightarrow> Tenants \<Rightarrow> (time \<times> Tenants) res" where
  "issueBody hash now t =
     (let t1 = pruneInvites (formatRFC3339 (now - 24 * 3600 * second)) t in
      if recentInvites now t1 \<ge> 30 \<or> activeInvites now t1 \<ge> 1000 then Inl (Err ''setup is busy; try again shortly'')
      else let expires = now + 600 * second in
        andThen (insertInvite hash (formatRFC3339 expires) (formatRFC3339 now) t1) (\<lambda>t2. Inr (expires, t2)))"

definition IssueEnrollmentSession :: "bool \<Rightarrow> bytes \<Rightarrow> time \<Rightarrow> Tenants \<Rightarrow> time res \<times> Tenants" where
  "IssueEnrollmentSession commit_ok hash now t =
     (if length hash \<noteq> 32 then (Inl (Err ''enrollment token hash must be 32 bytes''), t)
      else tenantTx commit_ok (issueBody hash now) t)"

section \<open>Pending enrollments\<close>

definition validatePendingEnrollment :: "PendingEnrollment \<Rightarrow> unit res" where
  "validatePendingEnrollment p =
     (if pe_Handle p = [] \<or> pe_VaultID p = [] then Inl (Err ''pending enrollment handle and vault id required'')
      else if length (pe_TokenHash p) \<noteq> 32 then Inl (Err ''pending enrollment token_hash must be 32 bytes'')
      else if pe_Challenge p = [] then Inl (Err ''pending enrollment challenge required'')
      else andThen (wrapErr ''pending enrollment'' (ValidateProtectionTier (pe_ProtectionTier p))) (\<lambda>_.
        if length (pe_PolicyDigest p) \<noteq> 32 then Inl (Err ''pending enrollment policy_digest must be 32 bytes'')
        else if pe_ExpiresAt p = [] \<or> pe_CreatedAt p = [] then Inl (Err ''pending enrollment timestamps required'')
        else Inr ()))"

definition pendingChecks :: "PendingEnrollment \<Rightarrow> bool" where
  "pendingChecks p \<longleftrightarrow> length (pe_TokenHash p) = 32 \<and> pe_ProtectionTier p \<in> {''light'', ''standard'', ''advanced''} \<and> length (pe_PolicyDigest p) = 32"

definition insertPending :: "PendingEnrollment \<Rightarrow> Tenants \<Rightarrow> Tenants res" where
  "insertPending p t =
     (if pe_Handle p \<in> pe_Handle ` set (tn_pending t) \<or> pe_VaultID p \<in> pe_VaultID ` set (tn_pending t) \<or>
         pe_TokenHash p \<in> pe_TokenHash ` set (tn_pending t) then Inl (ErrConstraint ''UNIQUE pending_enrollment'')
      else if pe_TokenHash p \<notin> in_token_hash ` set (tn_invite t) then Inl (ErrConstraint ''FOREIGN KEY pending_enrollment.token_hash'')
      else if \<not> pendingChecks p then Inl (ErrConstraint ''CHECK pending_enrollment'')
      else Inr (t \<lparr> tn_pending := tn_pending t @ [p] \<rparr>))"

text \<open>\<open>UPDATE ... WHERE token_hash = ? AND handle = ? AND challenge = ?\<close>: token hashes are unique, so at most one row changes.\<close>

definition updatePending :: "PendingEnrollment \<Rightarrow> PendingEnrollment \<Rightarrow> Tenants \<Rightarrow> Tenants res" where
  "updatePending existing p t =
     (let matches = (\<lambda>r. pe_TokenHash r = pe_TokenHash p \<and> pe_Handle r = pe_Handle existing \<and> pe_Challenge r = pe_Challenge existing);
          others = filter (\<lambda>r. \<not> matches r) (tn_pending t) in
      if length (filter matches (tn_pending t)) \<noteq> 1 then Inl (Err ''pending enrollment changed concurrently'')
      else if pe_Handle p \<in> pe_Handle ` set others \<or> pe_VaultID p \<in> pe_VaultID ` set others
        then Inl (ErrConstraint ''UNIQUE pending_enrollment'')
      else if \<not> pendingChecks p then Inl (ErrConstraint ''CHECK pending_enrollment'')
      else Inr (t \<lparr> tn_pending := map (\<lambda>r. if matches r then p else r) (tn_pending t) \<rparr>))"

definition reservePendingEnrollmentTx :: "PendingEnrollment \<Rightarrow> Tenants \<Rightarrow> (PendingEnrollment \<times> Tenants) res" where
  "reservePendingEnrollmentTx p t =
     (case getInvite (pe_TokenHash p) t of
        None \<Rightarrow> Inl (Err ''invite not available'')
      | Some i \<Rightarrow>
          if iv_ConsumedVaultID i \<noteq> [] then Inl (Err ''invite not available'')
          else if iv_ExpiresAt i \<noteq> [] \<and> iv_ExpiresAt i < pe_CreatedAt p then Inl (Err ''invite expired'')
          else case lookupBy (\<lambda>r. pe_TokenHash r = pe_TokenHash p) (tn_pending t) of
            Some existing \<Rightarrow>
              if pe_ExpiresAt existing \<noteq> [] \<and> pe_ExpiresAt existing \<ge> pe_CreatedAt p then
                (if pe_ProtectionTier existing \<noteq> pe_ProtectionTier p then Inl (Err ''pending enrollment protection tier changed'')
                 else if pe_PolicyDigest existing \<noteq> pe_PolicyDigest p then Inl (Err ''pending enrollment policy changed'')
                 else Inr (existing, t))
              else andThen (updatePending existing p t) (\<lambda>t'. Inr (p, t'))
          | None \<Rightarrow> andThen (wrapErr ''pending enrollment'' (insertPending p t)) (\<lambda>t'. Inr (p, t')))"

definition ReservePendingEnrollment :: "bool \<Rightarrow> PendingEnrollment \<Rightarrow> Tenants \<Rightarrow> PendingEnrollment res \<times> Tenants" where
  "ReservePendingEnrollment commit_ok p t =
     (case validatePendingEnrollment p of
        Inl e \<Rightarrow> (Inl e, t)
      | Inr _ \<Rightarrow> tenantTx commit_ok (reservePendingEnrollmentTx p) t)"

definition GetPendingByHandle :: "string \<Rightarrow> Tenants \<Rightarrow> PendingEnrollment option res" where
  "GetPendingByHandle handle t =
     (if handle = [] then Inl (Err ''pending enrollment handle required'')
      else Inr (lookupBy (\<lambda>p. pe_Handle p = handle) (tn_pending t)))"

section \<open>Boarding and Ledger Savings enrollments\<close>

text \<open>The schema of \<open>vault_board_enrollment\<close> pins the exit delay of the deployment's network.\<close>

definition boardChecks :: "string \<Rightarrow> VaultBoardEnrollment \<Rightarrow> bool" where
  "boardChecks network b \<longleftrightarrow>
     be_Program b = ''vault-board-v1'' \<and> length (be_BoardingPub b) = 33 \<and> length (be_CosignerPub b) = 33 \<and> length (be_OperatorPub b) = 33 \<and>
     unat (be_ExitDelay b) = (if network = NetworkMainnet then unat MainnetVaultBoardV1ExitDelay else 604672) \<and> be_ExitDelayUnit b = ''seconds'' \<and>
     length (be_PkScript b) = 34 \<and> 0 < sqlLength (be_Address b) \<and> sqlLength (be_Address b) \<le> 128 \<and> length (be_IntegrityMAC b) = 32"

definition PutVaultBoardEnrollmentTx :: "string \<Rightarrow> VaultBoardEnrollment \<Rightarrow> Tenants \<Rightarrow> Tenants res" where
  "PutVaultBoardEnrollmentTx network b t =
     (if be_VaultID b \<in> be_VaultID ` set (tn_board t) then Inl (ErrConstraint ''UNIQUE vault_board_enrollment.vault_id'')
      else if \<not> hasVault (be_VaultID b) t then Inl (ErrConstraint ''FOREIGN KEY vault_board_enrollment.vault_id'')
      else if \<not> boardChecks network b then Inl (ErrConstraint ''CHECK vault_board_enrollment'')
      else Inr (t \<lparr> tn_board := tn_board t @ [b] \<rparr>))"

text \<open>\<open>json.Compact\<close> of a valid document: the white space outside strings is dropped.\<close>

fun compactChars :: "bool \<Rightarrow> string \<Rightarrow> string" where
  "compactChars quoted [] = []"
| "compactChars quoted (c # s) =
     (if quoted then
        (if c = CHR 92 then (case s of [] \<Rightarrow> [c] | d # r \<Rightarrow> c # d # compactChars True r)
         else c # compactChars (c \<noteq> CHR 34) s)
      else if isWs c then compactChars False s
      else c # compactChars (c = CHR 34) s)"

definition jsonCompact :: "string \<Rightarrow> string option" where
  "jsonCompact s = (if jsonValid s then Some (compactChars False s) else None)"

definition validateLedgerSavingsEnrollment :: "LedgerSavingsEnrollment \<Rightarrow> unit res" where
  "validateLedgerSavingsEnrollment rec =
     (if le_ContextJSON rec = [] \<or> length (le_ContextJSON rec) > 8192 \<or> length (le_DescriptorHash rec) \<noteq> 64
      then Inl (Err ''Ledger Savings enrollment bounds'')
      else if (case hexDecode (le_DescriptorHash rec) of None \<Rightarrow> True | Some raw \<Rightarrow> length raw \<noteq> 32 \<or> hexEncode raw \<noteq> le_DescriptorHash rec)
        then Inl (Err ''Ledger Savings descriptor hash must be canonical'')
      else case (case jsonMembers (string_of (le_ContextJSON rec)) of None \<Rightarrow> None | Some ms \<Rightarrow> decStr [] (fieldVals ms ''vaultId'')) of
        None \<Rightarrow> Inl (Err ''json'')
      | Some vaultID \<Rightarrow>
          (case jsonCompact (string_of (le_ContextJSON rec)) of
             None \<Rightarrow> Inl (Err ''json'')
           | Some compact \<Rightarrow>
               if vaultID \<noteq> le_VaultID rec \<or> bytes_of compact \<noteq> le_ContextJSON rec
               then Inl (Err ''Ledger Savings immutable context identity'') else Inr ()))"

definition putLedgerSavingsEnrollmentTx :: "LedgerSavingsEnrollment \<Rightarrow> Tenants \<Rightarrow> Tenants res" where
  "putLedgerSavingsEnrollmentTx rec t =
     andThen (validateLedgerSavingsEnrollment rec) (\<lambda>_.
     if length (le_IntegrityMAC rec) \<noteq> 32 then Inl (Err ''Ledger Savings enrollment MAC required'')
     else if le_VaultID rec \<in> le_VaultID ` set (tn_savings t) then Inl (ErrConstraint ''UNIQUE ledger_savings_enrollment.vault_id'')
     else if \<not> hasVault (le_VaultID rec) t then Inl (ErrConstraint ''FOREIGN KEY ledger_savings_enrollment.vault_id'')
     else if sqlLength (le_DescriptorHash rec) \<noteq> 64 then Inl (ErrConstraint ''CHECK ledger_savings_enrollment'')
     else Inr (t \<lparr> tn_savings := tn_savings t @ [rec] \<rparr>))"

section \<open>Vault creation\<close>

record CreateVaultInput =
  cv_Record :: VaultRecord
  cv_Credential :: VaultCredential
  cv_Envelope :: "CredentialEnvelope option"
  cv_TokenHash :: bytes
  cv_Pending :: "PendingEnrollment option"
  cv_LedgerSavings :: "LedgerSavingsEnrollment option"

definition validateCreateVaultInput :: "CreateVaultInput \<Rightarrow> unit res" where
  "validateCreateVaultInput i =
     (if vr_VaultID (cv_Record i) = [] then Inl (Err ''create vault requires a new opaque vault id'')
      else if vr_CosignerMode (cv_Record i) \<noteq> CosignerModeHKDFSHA256V1 then Inl (Err ''new vaults must use %s'')
      else andThen (wrapErr ''new vault protection tier''
          (ValidateProtectionTierRecovery (vr_ProtectionTier (cv_Record i)) (vr_RecoveryKey (cv_Record i) \<noteq> []))) (\<lambda>_.
        if vc_VaultID (cv_Credential i) \<noteq> vr_VaultID (cv_Record i) then Inl (Err ''credential vault id mismatch'')
        else if length (cv_TokenHash i) \<noteq> 32 then Inl (Err ''invite token_hash must be 32 bytes'')
        else if length (vr_IntegrityMAC (cv_Record i)) \<noteq> 32 \<or> length (vc_IntegrityMAC (cv_Credential i)) \<noteq> 32
          then Inl (Err ''vault and credential integrity MACs required'')
        else case cv_Pending i of
          None \<Rightarrow> Inr ()
        | Some p \<Rightarrow>
            if pe_Handle p = [] \<or> pe_VaultID p \<noteq> vr_VaultID (cv_Record i) then Inl (Err ''pending enrollment does not match vault'')
            else if pe_Challenge p = [] \<or> length (pe_TokenHash p) \<noteq> 32 \<or> length (pe_PolicyDigest p) \<noteq> 32
              then Inl (Err ''pending enrollment challenge required'')
            else if pe_ProtectionTier p \<noteq> vr_ProtectionTier (cv_Record i) then Inl (Err ''pending enrollment protection tier mismatch'')
            else if pe_TokenHash p \<noteq> cv_TokenHash i then Inl (Err ''pending enrollment token mismatch'')
            else Inr ()))"

definition pendingMatches :: "PendingEnrollment \<Rightarrow> PendingEnrollment \<Rightarrow> bool" where
  "pendingMatches p r \<longleftrightarrow> pe_Handle r = pe_Handle p \<and> pe_TokenHash r = pe_TokenHash p \<and> pe_VaultID r = pe_VaultID p \<and>
     pe_Challenge r = pe_Challenge p \<and> pe_ProtectionTier r = pe_ProtectionTier p \<and> pe_PolicyDigest r = pe_PolicyDigest p \<and>
     pe_ExpiresAt r = pe_ExpiresAt p"

definition consumePendingEnrollmentTx :: "PendingEnrollment option \<Rightarrow> time \<Rightarrow> Tenants \<Rightarrow> Tenants res" where
  "consumePendingEnrollmentTx pending now t =
     (case pending of
        None \<Rightarrow> Inr t
      | Some p \<Rightarrow>
          if pe_ExpiresAt p \<noteq> [] \<and> pe_ExpiresAt p < formatRFC3339 now then Inl (Err ''pending enrollment expired'')
          else if length (filter (pendingMatches p) (tn_pending t)) \<noteq> 1 then Inl (Err ''pending enrollment changed'')
          else Inr (t \<lparr> tn_pending := filter (\<lambda>r. \<not> pendingMatches p r) (tn_pending t) \<rparr>))"

definition consumeInvite :: "string \<Rightarrow> bytes \<Rightarrow> Tenants \<Rightarrow> Tenants res" where
  "consumeInvite vaultID tokenHash t =
     (let matches = (\<lambda>r. in_token_hash r = tokenHash \<and> in_consumed_vault_id r = None) in
      if length (filter matches (tn_invite t)) \<noteq> 1 then Inl (Err ''invite consume cas failed'')
      else if Some vaultID \<in> in_consumed_vault_id ` set (tn_invite t) then Inl (ErrConstraint ''UNIQUE invite.consumed_vault_id'')
      else if \<not> hasVault vaultID t then Inl (ErrConstraint ''FOREIGN KEY invite.consumed_vault_id'')
      else Inr (t \<lparr> tn_invite := map (\<lambda>r. if matches r then r \<lparr> in_consumed_vault_id := Some vaultID \<rparr> else r) (tn_invite t) \<rparr>))"

text \<open>The clock is read twice under the lock: for the invite and for the pending enrollment.\<close>

definition createVaultBody :: "string \<Rightarrow> time \<times> time \<Rightarrow> CreateVaultInput \<Rightarrow> VaultBoardEnrollment option \<Rightarrow> Tenants \<Rightarrow> (unit \<times> Tenants) res" where
  "createVaultBody network clock i board t =
     (case lookupBy (\<lambda>r. in_token_hash r = cv_TokenHash i) (tn_invite t) of
        None \<Rightarrow> Inl (Wrap ''invite'' ErrNoRows)
      | Some invite \<Rightarrow>
          if in_consumed_vault_id invite \<noteq> None then Inl (Err ''invite already consumed'')
          else if in_expires_at invite \<noteq> [] \<and> in_expires_at invite < formatRFC3339 (fst clock) then Inl (Err ''invite expired'')
          else
            andThen (consumePendingEnrollmentTx (cv_Pending i) (snd clock) t) (\<lambda>t.
            andThen (wrapErr ''create vault'' (insertVaultTx (cv_Record i) (cv_Credential i) (cv_Envelope i) t)) (\<lambda>t.
            andThen (case board of None \<Rightarrow> Inr t | Some b \<Rightarrow> wrapErr ''create vault board'' (PutVaultBoardEnrollmentTx network b t)) (\<lambda>t.
            andThen (case cv_LedgerSavings i of
                Some s \<Rightarrow>
                  if le_VaultID s \<noteq> vr_VaultID (cv_Record i) \<or> vr_TemplateVersion (cv_Record i) \<noteq> ''phone-ledger-guardian-savings-v1''
                  then Inl (Err ''Ledger Savings enrollment identity mismatch'') else putLedgerSavingsEnrollmentTx s t
              | None \<Rightarrow>
                  if vr_TemplateVersion (cv_Record i) = ''phone-ledger-guardian-savings-v1''
                  then Inl (Err ''Ledger Savings enrollment required'') else Inr t) (\<lambda>t.
            andThen (consumeInvite (vr_VaultID (cv_Record i)) (cv_TokenHash i) t) (\<lambda>t.
            Inr ((), t)))))))"

text \<open>\<open>PRAGMA foreign_key_check\<close> over the tables of this component; the rows of the other tables with foreign keys are taken to be clean, as they are
  checked at their inserts.\<close>

definition foreignKeyClean :: "Tenants \<Rightarrow> bool" where
  "foreignKeyClean t \<longleftrightarrow>
     vc_VaultID ` set (tn_credential t) \<union> fst ` set (tn_envelope t) \<union> be_VaultID ` set (tn_board t) \<union> le_VaultID ` set (tn_savings t)
       \<subseteq> vr_VaultID ` set (tn_vault t) \<and>
     (\<forall>r\<in>set (tn_invite t). case in_consumed_vault_id r of None \<Rightarrow> True | Some v \<Rightarrow> hasVault v t) \<and>
     pe_TokenHash ` set (tn_pending t) \<subseteq> in_token_hash ` set (tn_invite t)"

definition createVault :: "string \<Rightarrow> bool \<Rightarrow> time \<times> time \<Rightarrow> CreateVaultInput \<Rightarrow> VaultBoardEnrollment option \<Rightarrow> Tenants \<Rightarrow> unit res \<times> Tenants" where
  "createVault network commit_ok clock i board t =
     (case validateCreateVaultInput i of
        Inl e \<Rightarrow> (Inl e, t)
      | Inr _ \<Rightarrow>
          if (case board of None \<Rightarrow> False | Some b \<Rightarrow> be_VaultID b \<noteq> vr_VaultID (cv_Record i) \<or> length (be_IntegrityMAC b) \<noteq> 32)
          then (Inl (Err ''vault-board-v1 enrollment mismatch''), t)
          else case tenantTx commit_ok (createVaultBody network clock i board) t of
            (Inl e, t') \<Rightarrow> (Inl e, t')
          | (Inr _, t') \<Rightarrow> (if foreignKeyClean t' then Inr () else Inl (Err ''foreign key violation: table %s row %d parent %s''), t'))"

definition CreateVault :: "string \<Rightarrow> bool \<Rightarrow> time \<times> time \<Rightarrow> CreateVaultInput \<Rightarrow> Tenants \<Rightarrow> unit res \<times> Tenants" where
  "CreateVault network commit_ok clock i t = createVault network commit_ok clock i None t"

definition CreateVaultWithBoard :: "string \<Rightarrow> bool \<Rightarrow> time \<times> time \<Rightarrow> CreateVaultInput \<Rightarrow> VaultBoardEnrollment \<Rightarrow> Tenants \<Rightarrow> unit res \<times> Tenants" where
  "CreateVaultWithBoard network commit_ok clock i board t = createVault network commit_ok clock i (Some board) t"

definition ListVaultIDs :: "Tenants \<Rightarrow> string list" where
  "ListVaultIDs t = sort (map vr_VaultID (tn_vault t))"

end
