(* ===== verification/Enrollment_Props.thy ===== *)
theory Enrollment_Props
  imports Enrollment
begin

text \<open>
  The invariant of the tenant tables and what follows from it: one consumed invite and one passkey per vault, atomic
  creation, bounded issuance of sessions, and the path from a session to a vault.
\<close>

section \<open>Calls and reachable states\<close>

datatype tenant_call =
    TPutInvite bytes string string
  | TIssue bytes time
  | TReserve PendingEnrollment
  | TCreate string "time \<times> time" CreateVaultInput "VaultBoardEnrollment option"
  | TStore string CredentialEnvelope
  | TReplace string CredentialEnvelope CredentialEnvelope

text \<open>A call with the outcome of its COMMIT, under the integrity key of the ledger.\<close>

fun tenantExec :: "bytes \<Rightarrow> bool \<Rightarrow> tenant_call \<Rightarrow> Tenants \<Rightarrow> Tenants" where
  "tenantExec key ok (TPutInvite h e c) t = snd (PutInvite h e c t)"
| "tenantExec key ok (TIssue h now) t = snd (IssueEnrollmentSession ok h now t)"
| "tenantExec key ok (TReserve p) t = snd (ReservePendingEnrollment ok p t)"
| "tenantExec key ok (TCreate network clock i board) t = snd (createVault network ok clock i board t)"
| "tenantExec key ok (TStore v e) t = snd (StoreVaultEnvelopeIfAbsent ok key v e t)"
| "tenantExec key ok (TReplace v e f) t = snd (ReplaceVaultEnvelope ok key v e f t)"

definition emptyTenants :: Tenants where
  "emptyTenants = \<lparr> tn_vault = [], tn_credential = [], tn_envelope = [], tn_invite = [], tn_pending = [], tn_board = [], tn_savings = [] \<rparr>"

inductive tenant_reach :: "bytes \<Rightarrow> Tenants \<Rightarrow> bool" for key where
  start: "tenant_reach key emptyTenants"
| step: "tenant_reach key t \<Longrightarrow> tenant_reach key (tenantExec key ok c t)"

definition consumedBy :: "Tenants \<Rightarrow> string list" where
  "consumedBy t = List.map_filter in_consumed_vault_id (tn_invite t)"

definition tenantsWf :: "Tenants \<Rightarrow> bool" where
  "tenantsWf t \<longleftrightarrow>
     distinct (map vr_VaultID (tn_vault t)) \<and> map vc_VaultID (tn_credential t) = map vr_VaultID (tn_vault t) \<and>
     distinct (map vc_CredentialID (tn_credential t)) \<and> distinct (map fst (tn_envelope t)) \<and>
     distinct (map in_token_hash (tn_invite t)) \<and> distinct (consumedBy t) \<and> set (consumedBy t) = vr_VaultID ` set (tn_vault t) \<and>
     distinct (map pe_Handle (tn_pending t)) \<and> distinct (map pe_VaultID (tn_pending t)) \<and> distinct (map pe_TokenHash (tn_pending t)) \<and>
     foreignKeyClean t"

section \<open>Every transaction keeps the invariant\<close>

lemma tenantTx_keeps:
  assumes "\<And>x t'. body t = Inr (x, t') \<Longrightarrow> P t'" "P t"
  shows "P (snd (tenantTx ok body t))"
  using assms by (auto simp: tenantTx_def split: sum.splits)

lemma map_filter_append: "List.map_filter f (xs @ ys) = List.map_filter f xs @ List.map_filter f ys"
  by (simp add: List.map_filter_def)

lemma set_map_filter: "v \<in> set (List.map_filter f xs) \<longleftrightarrow> Some v \<in> f ` set xs"
  by (induction xs) (auto simp: List.map_filter_simps split: option.splits)

lemma consumedBy_set: "v \<in> set (consumedBy t) \<longleftrightarrow> Some v \<in> in_consumed_vault_id ` set (tn_invite t)"
  by (simp add: consumedBy_def set_map_filter)

lemma foreignKeyClean_iff:
  "foreignKeyClean t \<longleftrightarrow>
     vc_VaultID ` set (tn_credential t) \<subseteq> vr_VaultID ` set (tn_vault t) \<and> fst ` set (tn_envelope t) \<subseteq> vr_VaultID ` set (tn_vault t) \<and>
     be_VaultID ` set (tn_board t) \<subseteq> vr_VaultID ` set (tn_vault t) \<and> le_VaultID ` set (tn_savings t) \<subseteq> vr_VaultID ` set (tn_vault t) \<and>
     set (consumedBy t) \<subseteq> vr_VaultID ` set (tn_vault t) \<and> pe_TokenHash ` set (tn_pending t) \<subseteq> in_token_hash ` set (tn_invite t)"
proof -
  have "(\<forall>r\<in>set (tn_invite t). case in_consumed_vault_id r of None \<Rightarrow> True | Some v \<Rightarrow> hasVault v t) \<longleftrightarrow>
      set (consumedBy t) \<subseteq> vr_VaultID ` set (tn_vault t)"
    unfolding subset_iff consumedBy_set hasVault_def image_iff by (auto split: option.splits) metis+
  then show ?thesis by (simp add: foreignKeyClean_def)
qed

lemma insertInvite_InrD:
  assumes "insertInvite h e c t = Inr t'"
  shows "h \<notin> in_token_hash ` set (tn_invite t)" "length h = 32" "consumedBy t' = consumedBy t"
    "t' = t \<lparr> tn_invite := tn_invite t @ [\<lparr> in_token_hash = h, in_expires_at = e, in_consumed_vault_id = None, in_created_at = c \<rparr>] \<rparr>"
  using assms by (auto simp: insertInvite_def consumedBy_def map_filter_append List.map_filter_simps split: if_splits)

lemma insertInvite_wf:
  assumes "tenantsWf t" "insertInvite h e c t = Inr t'"
  shows "tenantsWf t'"
proof -
  note i = insertInvite_InrD [OF assms(2)]
  show ?thesis using assms(1) i(1) unfolding tenantsWf_def foreignKeyClean_iff i(3) by (auto simp: i(4))
qed

lemma distinct_map_filter_conv: "distinct (map f xs) \<Longrightarrow> distinct (map f (filter P xs))"
  by (induction xs) auto

lemma consumedBy_prune: "consumedBy (pruneInvites cutoff t) = consumedBy t"
proof -
  have "List.map_filter in_consumed_vault_id (filter (\<lambda>r. \<not> staleInvite cutoff r) rs) = List.map_filter in_consumed_vault_id rs" for rs
    by (induction rs) (auto simp: List.map_filter_def staleInvite_def)
  then show ?thesis by (simp add: consumedBy_def pruneInvites_def)
qed

text \<open>What a change of the invite and pending tables has to show.\<close>

lemma wf_invites_pending:
  assumes "tenantsWf t" "List.map_filter in_consumed_vault_id invites = consumedBy t" "distinct (map in_token_hash invites)"
    and "distinct (map pe_Handle ps)" "distinct (map pe_VaultID ps)" "distinct (map pe_TokenHash ps)"
    and "pe_TokenHash ` set ps \<subseteq> in_token_hash ` set invites"
  shows "tenantsWf (t \<lparr> tn_pending := ps, tn_invite := invites \<rparr>)"
proof -
  have "consumedBy (t \<lparr> tn_pending := ps, tn_invite := invites \<rparr>) = consumedBy t" using assms(2) by (simp add: consumedBy_def)
  with assms show ?thesis unfolding tenantsWf_def foreignKeyClean_iff by simp
qed

lemma wf_pending:
  assumes "tenantsWf t" "distinct (map pe_Handle ps)" "distinct (map pe_VaultID ps)" "distinct (map pe_TokenHash ps)"
    and "pe_TokenHash ` set ps \<subseteq> in_token_hash ` set (tn_invite t)"
  shows "tenantsWf (t \<lparr> tn_pending := ps \<rparr>)"
  using wf_invites_pending [OF assms(1), of "tn_invite t" ps] assms by (simp add: tenantsWf_def consumedBy_def)

lemma pruneInvites_wf: "tenantsWf t \<Longrightarrow> tenantsWf (pruneInvites cutoff t)"
proof -
  assume wf: "tenantsWf t"
  have "pe_TokenHash ` set (tn_pending (pruneInvites cutoff t)) \<subseteq> in_token_hash ` set (tn_invite (pruneInvites cutoff t))"
  proof
    fix x assume "x \<in> pe_TokenHash ` set (tn_pending (pruneInvites cutoff t))"
    then obtain p where p: "p \<in> set (tn_pending t)" "x = pe_TokenHash p" "x \<notin> in_token_hash ` set (filter (staleInvite cutoff) (tn_invite t))"
      by (auto simp: pruneInvites_def)
    have "pe_TokenHash ` set (tn_pending t) \<subseteq> in_token_hash ` set (tn_invite t)" using wf by (simp add: tenantsWf_def foreignKeyClean_def)
    with p(1,2) obtain r where r: "r \<in> set (tn_invite t)" "in_token_hash r = x" by (metis imageE imageI subsetD)
    have "\<not> staleInvite cutoff r"
    proof
      assume "staleInvite cutoff r"
      then have "r \<in> set (filter (staleInvite cutoff) (tn_invite t))" using r(1) by simp
      then have "in_token_hash r \<in> in_token_hash ` set (filter (staleInvite cutoff) (tn_invite t))" by (rule imageI)
      then show False using p(3) unfolding r(2) by (rule notE [rotated])
    qed
    then have "r \<in> set (tn_invite (pruneInvites cutoff t))" using r(1) by (simp add: pruneInvites_def)
    with r(2) show "x \<in> in_token_hash ` set (tn_invite (pruneInvites cutoff t))" by blast
  qed
  then show ?thesis unfolding pruneInvites_def
    by (intro wf_invites_pending wf distinct_map_filter_conv)
       (use wf consumedBy_prune [of cutoff t] in \<open>simp_all add: tenantsWf_def consumedBy_def pruneInvites_def\<close>)
qed

lemma issueBody_wf: "tenantsWf t \<Longrightarrow> issueBody h now t = Inr (x, t') \<Longrightarrow> tenantsWf t'"
  by (auto simp: issueBody_def Let_def andThen_Inr_iff split: if_splits intro: insertInvite_wf pruneInvites_wf)

lemma insertPending_wf:
  assumes "tenantsWf t" "insertPending p t = Inr t'"
  shows "tenantsWf t'"
proof -
  have p: "pe_Handle p \<notin> pe_Handle ` set (tn_pending t)" "pe_VaultID p \<notin> pe_VaultID ` set (tn_pending t)"
    "pe_TokenHash p \<notin> pe_TokenHash ` set (tn_pending t)" "pe_TokenHash p \<in> in_token_hash ` set (tn_invite t)"
    "t' = t \<lparr> tn_pending := tn_pending t @ [p] \<rparr>"
    using assms(2) by (auto simp: insertPending_def split: if_splits)
  then show ?thesis using assms(1) wf_pending [OF assms(1), of "tn_pending t @ [p]"] by (simp add: tenantsWf_def foreignKeyClean_iff)
qed

lemma replaced_distinct:
  assumes "distinct (map f xs)" "length (filter P xs) = 1" "f y \<notin> f ` set (filter (\<lambda>r. \<not> P r) xs)"
  shows "distinct (map f (map (\<lambda>r. if P r then y else r) xs))"
  using assms
proof (induction xs)
  case (Cons x xs)
  show ?case
  proof (cases "P x")
    case True
    then have "filter P xs = []" using Cons.prems(2) by simp
    then have "\<forall>r\<in>set xs. \<not> P r" by (simp add: filter_empty_conv)
    then have "map (\<lambda>r. if P r then y else r) xs = xs" "filter (\<lambda>r. \<not> P r) xs = xs" by (auto intro: map_idI)
    with Cons.prems True show ?thesis by simp
  next
    case False
    have "f x \<notin> f ` (\<lambda>r. if P r then y else r) ` set xs"
      using Cons.prems False by (auto split: if_splits)
    with Cons False show ?thesis by (auto simp: comp_def)
  qed
qed simp

lemma updatePending_wf:
  assumes "tenantsWf t" "updatePending q p t = Inr t'"
  shows "tenantsWf t'"
proof -
  let ?m = "\<lambda>r. pe_TokenHash r = pe_TokenHash p \<and> pe_Handle r = pe_Handle q \<and> pe_Challenge r = pe_Challenge q"
  let ?f = "\<lambda>r. if ?m r then p else r"
  have u: "length (filter ?m (tn_pending t)) = 1" "pe_Handle p \<notin> pe_Handle ` set (filter (\<lambda>r. \<not> ?m r) (tn_pending t))"
    "pe_VaultID p \<notin> pe_VaultID ` set (filter (\<lambda>r. \<not> ?m r) (tn_pending t))" "t' = t \<lparr> tn_pending := map ?f (tn_pending t) \<rparr>"
    using assms(2) by (auto simp: updatePending_def Let_def split: if_splits)
  have wf: "distinct (map pe_Handle (tn_pending t))" "distinct (map pe_VaultID (tn_pending t))" "distinct (map pe_TokenHash (tn_pending t))"
    using assms(1) by (simp_all add: tenantsWf_def)
  have m: "map pe_TokenHash (map ?f (tn_pending t)) = map pe_TokenHash (tn_pending t)" by simp
  have tok: "pe_TokenHash ` set (map ?f (tn_pending t)) = pe_TokenHash ` set (tn_pending t)" "distinct (map pe_TokenHash (map ?f (tn_pending t)))"
    using wf(3) m by (simp_all only: set_map [symmetric])
  have "pe_TokenHash ` set (map ?f (tn_pending t)) \<subseteq> in_token_hash ` set (tn_invite t)"
    unfolding tok(1) using assms(1) by (simp add: tenantsWf_def foreignKeyClean_iff)
  then show ?thesis unfolding u(4)
    by (intro wf_pending assms(1) replaced_distinct [OF wf(1) u(1,2)] replaced_distinct [OF wf(2) u(1,3)] tok(2))
qed

lemma reservePending_wf: "tenantsWf t \<Longrightarrow> reservePendingEnrollmentTx p t = Inr (x, t') \<Longrightarrow> tenantsWf t'"
  by (auto simp: reservePendingEnrollmentTx_def andThen_Inr_iff split: option.splits if_splits intro: insertPending_wf updatePending_wf)

lemma insertEnvelope_wf:
  assumes "tenantsWf t" "insertVaultEnvelopeTx v e t = Inr t'"
  shows "tenantsWf t'"
proof -
  have "v \<notin> fst ` set (tn_envelope t)" "v \<in> vr_VaultID ` set (tn_vault t)" "t' = t \<lparr> tn_envelope := tn_envelope t @ [(v, e)] \<rparr>"
    using assms(2) by (auto simp: insertVaultEnvelopeTx_def hasVault_def split: if_splits)
  then show ?thesis using assms(1) unfolding tenantsWf_def foreignKeyClean_iff by (simp add: consumedBy_def)
qed

lemma updateEnvelope_wf:
  assumes "tenantsWf t" "updateEnvelope v e t = Inr t'"
  shows "tenantsWf t'"
proof -
  have t': "t' = t \<lparr> tn_envelope := map (\<lambda>r. if fst r = v then (v, e) else r) (tn_envelope t) \<rparr>"
    using assms(2) by (auto simp: updateEnvelope_def split: if_splits)
  define es where "es = map (\<lambda>r. if fst r = v then (v, e) else r) (tn_envelope t)"
  have m: "map fst es = map fst (tn_envelope t)" by (simp add: es_def)
  then have "fst ` set es = fst ` set (tn_envelope t)" by (metis list.set_map)
  with m assms(1) show ?thesis unfolding t' es_def [symmetric] tenantsWf_def foreignKeyClean_iff by (simp add: consumedBy_def)
qed

section \<open>Vault creation\<close>

abbreviation optList :: "'a option \<Rightarrow> 'a list" where
  "optList x \<equiv> case x of None \<Rightarrow> [] | Some y \<Rightarrow> [y]"

lemma insertVaultTx_InrD:
  assumes "insertVaultTx v c envelope t = Inr t'"
  shows "vr_VaultID v \<notin> vr_VaultID ` set (tn_vault t)" "vc_CredentialID c \<notin> vc_CredentialID ` set (tn_credential t)"
    "t' = t \<lparr> tn_vault := tn_vault t @ [v], tn_credential := tn_credential t @ [c],
       tn_envelope := tn_envelope t @ map (Pair (vr_VaultID v)) (optList envelope) \<rparr>"
    "envelope \<noteq> None \<Longrightarrow> vr_VaultID v \<notin> fst ` set (tn_envelope t)"
  using assms
  by (auto simp: insertVaultTx_def insertVaultRow_def insertCredentialRow_def insertVaultEnvelopeTx_def hasVault_def andThen_Inr_iff
      split: if_splits option.splits)

definition afterPending :: "PendingEnrollment option \<Rightarrow> Tenants \<Rightarrow> PendingEnrollment list" where
  "afterPending pending t = (case pending of None \<Rightarrow> tn_pending t | Some p \<Rightarrow> filter (\<lambda>r. \<not> pendingMatches p r) (tn_pending t))"

definition spendInvite :: "string \<Rightarrow> bytes \<Rightarrow> InviteRow \<Rightarrow> InviteRow" where
  "spendInvite vaultID tokenHash r =
     (if in_token_hash r = tokenHash \<and> in_consumed_vault_id r = None then r \<lparr> in_consumed_vault_id := Some vaultID \<rparr> else r)"

text \<open>The tables after a creation.\<close>

definition created :: "CreateVaultInput \<Rightarrow> VaultBoardEnrollment option \<Rightarrow> Tenants \<Rightarrow> Tenants" where
  "created i board t = t \<lparr>
     tn_vault := tn_vault t @ [cv_Record i], tn_credential := tn_credential t @ [cv_Credential i],
     tn_envelope := tn_envelope t @ map (Pair (vr_VaultID (cv_Record i))) (optList (cv_Envelope i)),
     tn_invite := map (spendInvite (vr_VaultID (cv_Record i)) (cv_TokenHash i)) (tn_invite t),
     tn_pending := afterPending (cv_Pending i) t,
     tn_board := tn_board t @ optList board, tn_savings := tn_savings t @ optList (cv_LedgerSavings i) \<rparr>"

lemma consumePending_InrD: "consumePendingEnrollmentTx pending now t = Inr t' \<Longrightarrow> t' = t \<lparr> tn_pending := afterPending pending t \<rparr>"
  by (auto simp: consumePendingEnrollmentTx_def afterPending_def split: option.splits if_splits)

lemma consumeInvite_InrD:
  assumes "consumeInvite v h t = Inr t'"
  shows "t' = t \<lparr> tn_invite := map (spendInvite v h) (tn_invite t) \<rparr>" "Some v \<notin> in_consumed_vault_id ` set (tn_invite t)"
    "length (filter (\<lambda>r. in_token_hash r = h \<and> in_consumed_vault_id r = None) (tn_invite t)) = 1"
  using assms by (auto simp: consumeInvite_def spendInvite_def Let_def split: if_splits)

lemma createVaultBody_InrD:
  assumes "createVaultBody network clock i board t = Inr (x, t')" "case board of None \<Rightarrow> True | Some b \<Rightarrow> be_VaultID b = vr_VaultID (cv_Record i)"
  shows "t' = created i board t" "\<not> hasVault (vr_VaultID (cv_Record i)) t"
    "vc_CredentialID (cv_Credential i) \<notin> vc_CredentialID ` set (tn_credential t)"
    "cv_Envelope i \<noteq> None \<Longrightarrow> vr_VaultID (cv_Record i) \<notin> fst ` set (tn_envelope t)"
    "le_VaultID ` set (optList (cv_LedgerSavings i)) \<subseteq> {vr_VaultID (cv_Record i)}"
    "Some (vr_VaultID (cv_Record i)) \<notin> in_consumed_vault_id ` set (tn_invite t)"
    "length (filter (\<lambda>r. in_token_hash r = cv_TokenHash i \<and> in_consumed_vault_id r = None) (tn_invite t)) = 1"
    "\<exists>r. lookupBy (\<lambda>r. in_token_hash r = cv_TokenHash i) (tn_invite t) = Some r \<and> in_consumed_vault_id r = None \<and>
       \<not> (in_expires_at r \<noteq> [] \<and> in_expires_at r < formatRFC3339 (fst clock))"
proof -
  let ?v = "vr_VaultID (cv_Record i)"
  obtain r where r: "lookupBy (\<lambda>r. in_token_hash r = cv_TokenHash i) (tn_invite t) = Some r" "\<not> in_consumed_vault_id r \<noteq> None"
      "\<not> (in_expires_at r \<noteq> [] \<and> in_expires_at r < formatRFC3339 (fst clock))"
    using assms(1) by (cases "lookupBy (\<lambda>r. in_token_hash r = cv_TokenHash i) (tn_invite t)") (auto simp: createVaultBody_def split: if_splits)
  from assms(1) [unfolded createVaultBody_def r(1) option.case if_not_P [OF r(2)] if_not_P [OF r(3)] andThen_Inr_iff wrapErr_Inr_iff]
  obtain t1 t2 t3 t4 where
    t1: "consumePendingEnrollmentTx (cv_Pending i) (snd clock) t = Inr t1" and
    t2: "insertVaultTx (cv_Record i) (cv_Credential i) (cv_Envelope i) t1 = Inr t2" and
    t3: "(case board of None \<Rightarrow> Inr t2 | Some b \<Rightarrow> wrapErr ''create vault board'' (PutVaultBoardEnrollmentTx network b t2)) = Inr t3" and
    t4: "(case cv_LedgerSavings i of
        Some s \<Rightarrow> if le_VaultID s \<noteq> ?v \<or> vr_TemplateVersion (cv_Record i) \<noteq> ''phone-ledger-guardian-savings-v1''
          then Inl (Err ''Ledger Savings enrollment identity mismatch'') else putLedgerSavingsEnrollmentTx s t3
      | None \<Rightarrow> if vr_TemplateVersion (cv_Record i) = ''phone-ledger-guardian-savings-v1''
          then Inl (Err ''Ledger Savings enrollment required'') else Inr t3) = Inr t4" and
    t5: "consumeInvite ?v (cv_TokenHash i) t4 = Inr t'"
    by (elim exE conjE) simp
  show "\<exists>r. lookupBy (\<lambda>r. in_token_hash r = cv_TokenHash i) (tn_invite t) = Some r \<and> in_consumed_vault_id r = None \<and>
       \<not> (in_expires_at r \<noteq> [] \<and> in_expires_at r < formatRFC3339 (fst clock))" using r by simp
  note p = consumePending_InrD [OF t1] and v = insertVaultTx_InrD [OF t2] and c = consumeInvite_InrD [OF t5]
  have b: "t3 = t2 \<lparr> tn_board := tn_board t2 @ optList board \<rparr>"
    using t3 by (auto simp: PutVaultBoardEnrollmentTx_def split: option.splits if_splits)
  have s: "t4 = t3 \<lparr> tn_savings := tn_savings t3 @ optList (cv_LedgerSavings i) \<rparr>"
    using t4 by (auto simp: putLedgerSavingsEnrollmentTx_def andThen_Inr_iff split: option.splits if_splits)
  show "le_VaultID ` set (optList (cv_LedgerSavings i)) \<subseteq> {?v}" using t4 by (auto split: option.splits if_splits)
  show "t' = created i board t" by (simp add: c(1) s b v(3) p created_def)
  show "\<not> hasVault ?v t" "vc_CredentialID (cv_Credential i) \<notin> vc_CredentialID ` set (tn_credential t)"
    "cv_Envelope i \<noteq> None \<Longrightarrow> ?v \<notin> fst ` set (tn_envelope t)" using v(1,2,4) by (simp_all add: hasVault_def p)
  show "Some ?v \<notin> in_consumed_vault_id ` set (tn_invite t)"
    "length (filter (\<lambda>r. in_token_hash r = cv_TokenHash i \<and> in_consumed_vault_id r = None) (tn_invite t)) = 1"
    using c(2,3) by (simp_all add: s b v(3) p)
qed

lemma spend_one:
  assumes "length (filter (\<lambda>r. in_token_hash r = h \<and> in_consumed_vault_id r = None) rs) = 1" "v \<notin> set (List.map_filter in_consumed_vault_id rs)"
    "distinct (List.map_filter in_consumed_vault_id rs)"
  shows "distinct (List.map_filter in_consumed_vault_id (map (spendInvite v h) rs)) \<and>
    set (List.map_filter in_consumed_vault_id (map (spendInvite v h) rs)) = insert v (set (List.map_filter in_consumed_vault_id rs))"
  using assms
proof (induction rs)
  case (Cons r rs)
  show ?case
  proof (cases "in_token_hash r = h \<and> in_consumed_vault_id r = None")
    case True
    then have "filter (\<lambda>r. in_token_hash r = h \<and> in_consumed_vault_id r = None) rs = []" using Cons.prems(1) by simp
    then have "map (spendInvite v h) rs = rs" by (auto simp: filter_empty_conv spendInvite_def intro: map_idI)
    moreover have "spendInvite v h r = r \<lparr> in_consumed_vault_id := Some v \<rparr>" using True by (simp add: spendInvite_def)
    ultimately show ?thesis using Cons.prems True by (simp add: List.map_filter_simps)
  next
    case False
    then have r: "spendInvite v h r = r" by (simp add: spendInvite_def)
    from False Cons have ih: "distinct (List.map_filter in_consumed_vault_id (map (spendInvite v h) rs))"
      "set (List.map_filter in_consumed_vault_id (map (spendInvite v h) rs)) = insert v (set (List.map_filter in_consumed_vault_id rs))"
      by (auto simp: List.map_filter_simps split: option.splits if_splits)
    show ?thesis
    proof (cases "in_consumed_vault_id r")
      case None
      with ih r show ?thesis by (simp add: List.map_filter_simps)
    next
      case (Some w)
      then have "w \<notin> insert v (set (List.map_filter in_consumed_vault_id rs))" using Cons.prems(2,3) by (auto simp: List.map_filter_simps)
      with ih r Some show ?thesis by (auto simp: List.map_filter_simps)
    qed
  qed
qed simp

lemma created_wf:
  assumes "tenantsWf t" "createVaultBody network clock i board t = Inr (x, t')" "vc_VaultID (cv_Credential i) = vr_VaultID (cv_Record i)"
    "case board of None \<Rightarrow> True | Some b \<Rightarrow> be_VaultID b = vr_VaultID (cv_Record i)"
  shows "tenantsWf t'"
proof -
  note c = createVaultBody_InrD [OF assms(2,4)]
  let ?v = "vr_VaultID (cv_Record i)"
  have fresh: "?v \<notin> vr_VaultID ` set (tn_vault t)" using c(2) by (simp add: hasVault_def)
  have inv: "distinct (consumedBy t')" "set (consumedBy t') = insert ?v (set (consumedBy t))"
    using spend_one [OF c(7), of ?v] c(6) assms(1) by (simp_all add: c(1) created_def consumedBy_def tenantsWf_def set_map_filter)
  have tok: "map in_token_hash (tn_invite t') = map in_token_hash (tn_invite t)" by (simp add: c(1) created_def spendInvite_def)
  then have toks: "in_token_hash ` set (tn_invite t') = in_token_hash ` set (tn_invite t)" by (metis list.set_map)
  have pend: "set (tn_pending t') \<subseteq> set (tn_pending t)" "distinct (map pe_Handle (tn_pending t'))" "distinct (map pe_VaultID (tn_pending t'))"
      "distinct (map pe_TokenHash (tn_pending t'))"
    using assms(1) by (auto simp: c(1) created_def afterPending_def tenantsWf_def distinct_map_filter_conv split: option.splits)
  have env: "distinct (map fst (tn_envelope t'))" "fst ` set (tn_envelope t') \<subseteq> insert ?v (fst ` set (tn_envelope t))"
    using assms(1) c(4) by (auto simp: c(1) created_def tenantsWf_def split: option.splits)
  have board: "be_VaultID ` set (tn_board t') \<subseteq> insert ?v (be_VaultID ` set (tn_board t))"
    using assms(4) by (auto simp: c(1) created_def split: option.splits)
  have savings: "le_VaultID ` set (tn_savings t') \<subseteq> insert ?v (le_VaultID ` set (tn_savings t))"
    using c(5) by (auto simp: c(1) created_def)
  have tabs: "tn_vault t' = tn_vault t @ [cv_Record i]" "tn_credential t' = tn_credential t @ [cv_Credential i]" by (simp_all add: c(1) created_def)
  have fk: "foreignKeyClean t" using assms(1) by (simp add: tenantsWf_def)
  then have vaults: "vc_VaultID ` set (tn_credential t) \<subseteq> vr_VaultID ` set (tn_vault t)" "fst ` set (tn_envelope t) \<subseteq> vr_VaultID ` set (tn_vault t)"
      "be_VaultID ` set (tn_board t) \<subseteq> vr_VaultID ` set (tn_vault t)" "le_VaultID ` set (tn_savings t) \<subseteq> vr_VaultID ` set (tn_vault t)"
      "set (consumedBy t) \<subseteq> vr_VaultID ` set (tn_vault t)" "pe_TokenHash ` set (tn_pending t) \<subseteq> in_token_hash ` set (tn_invite t)"
    by (simp_all add: foreignKeyClean_iff)
  have ids: "vr_VaultID ` set (tn_vault t') = insert ?v (vr_VaultID ` set (tn_vault t))" by (simp add: tabs)
  have "vc_VaultID ` set (tn_credential t') = insert ?v (vc_VaultID ` set (tn_credential t))" by (simp add: tabs assms(3))
  moreover have "pe_TokenHash ` set (tn_pending t') \<subseteq> in_token_hash ` set (tn_invite t')"
    unfolding toks using subset_trans [OF image_mono [OF pend(1)] vaults(6)] .
  ultimately have "foreignKeyClean t'" unfolding foreignKeyClean_iff ids
    using insert_mono [OF vaults(1), of ?v] subset_trans [OF env(2) insert_mono [OF vaults(2)]] subset_trans [OF board insert_mono [OF vaults(3)]]
      subset_trans [OF savings insert_mono [OF vaults(4)]] insert_mono [OF vaults(5), of ?v] inv(2) by simp
  moreover have "set (consumedBy t') = vr_VaultID ` set (tn_vault t')" using inv(2) assms(1) unfolding ids by (simp add: tenantsWf_def)
  moreover have "distinct (map vr_VaultID (tn_vault t'))" "map vc_VaultID (tn_credential t') = map vr_VaultID (tn_vault t')"
      "distinct (map vc_CredentialID (tn_credential t'))" "distinct (map in_token_hash (tn_invite t'))"
    using assms(1) fresh c(3) unfolding tabs tok by (simp_all add: tenantsWf_def assms(3))
  ultimately show ?thesis using inv(1) pend(2-4) env(1) unfolding tenantsWf_def by blast
qed

lemma createVault_wf:
  assumes "tenantsWf t"
  shows "tenantsWf (snd (createVault network ok clock i board t))"
proof (cases "validateCreateVaultInput i")
  case (Inr u)
  then have cred: "vc_VaultID (cv_Credential i) = vr_VaultID (cv_Record i)"
    by (auto simp: validateCreateVaultInput_def andThen_Inr_iff split: if_splits)
  show ?thesis
  proof (cases "case board of None \<Rightarrow> False | Some b \<Rightarrow> be_VaultID b \<noteq> vr_VaultID (cv_Record i) \<or> length (be_IntegrityMAC b) \<noteq> 32")
    case False
    then have b: "case board of None \<Rightarrow> True | Some b \<Rightarrow> be_VaultID b = vr_VaultID (cv_Record i)" by (auto split: option.splits)
    have "tenantsWf (snd (tenantTx ok (createVaultBody network clock i board) t))"
      by (rule tenantTx_keeps [where P = tenantsWf]) (use created_wf [OF assms _ cred b] assms in auto)
    with False Inr show ?thesis by (auto simp: createVault_def split: prod.splits sum.splits)
  qed (use Inr assms in \<open>simp add: createVault_def\<close>)
qed (use assms in \<open>simp add: createVault_def\<close>)

lemma storeEnvelope_wf: "tenantsWf t \<Longrightarrow> storeEnvelopeBody key v e t = Inr (x, t') \<Longrightarrow> tenantsWf t'"
  by (auto simp: storeEnvelopeBody_def andThen_Inr_iff split: option.splits if_splits intro: insertEnvelope_wf)

lemma replaceEnvelope_wf: "tenantsWf t \<Longrightarrow> replaceEnvelopeBody key v e f t = Inr (x, t') \<Longrightarrow> tenantsWf t'"
  by (auto simp: replaceEnvelopeBody_def andThen_Inr_iff split: option.splits if_splits intro: updateEnvelope_wf)

lemma tenantExec_wf:
  assumes "tenantsWf t"
  shows "tenantsWf (tenantExec key ok c t)"
proof -
  show ?thesis
  proof (cases c)
    case (TPutInvite h e d)
    with assms show ?thesis by (auto simp: PutInvite_def split: sum.splits intro: insertInvite_wf)
  next
    case (TIssue h now)
    with assms issueBody_wf [OF assms, of h now] show ?thesis
      by (simp add: IssueEnrollmentSession_def tenantTx_keeps [where P = tenantsWf])
  next
    case (TReserve p)
    with assms reservePending_wf [OF assms, of p] show ?thesis
      by (simp add: ReservePendingEnrollment_def tenantTx_keeps [where P = tenantsWf] split: sum.splits)
  next
    case (TStore v e)
    with assms storeEnvelope_wf [OF assms, of key v e] show ?thesis
      by (simp add: StoreVaultEnvelopeIfAbsent_def tenantTx_keeps [where P = tenantsWf] split: sum.splits)
  next
    case (TReplace v e f)
    with assms replaceEnvelope_wf [OF assms, of key v e f] show ?thesis
      by (simp add: ReplaceVaultEnvelope_def tenantTx_keeps [where P = tenantsWf] split: sum.splits)
  next
    case (TCreate network clock i board)
    then show ?thesis using createVault_wf [OF assms] by simp
  qed
qed

lemma reach_wf: "tenant_reach key t \<Longrightarrow> tenantsWf t"
  by (induction rule: tenant_reach.induct)
     (simp_all add: tenantExec_wf, simp add: emptyTenants_def tenantsWf_def foreignKeyClean_def consumedBy_def List.map_filter_simps)

section \<open>Properties\<close>

lemma distinct_map_filter_ex1:
  assumes "distinct (map k xs)" "distinct (List.map_filter f xs)" "v \<in> set (List.map_filter f xs)"
  shows "\<exists>!x. x \<in> set xs \<and> f x = Some v"
  using assms
proof (induction xs)
  case (Cons x xs)
  show ?case
  proof (cases "f x = Some v")
    case True
    then have "v \<notin> set (List.map_filter f xs)" using Cons.prems(2) by (simp add: List.map_filter_simps)
    then have "\<forall>y\<in>set xs. f y \<noteq> Some v" by (force simp: set_map_filter)
    with True show ?thesis by auto
  next
    case False
    with Cons have "\<exists>!y. y \<in> set xs \<and> f y = Some v" by (auto simp: List.map_filter_simps split: option.splits)
    with False show ?thesis by (metis list.set_intros(2) set_ConsD)
  qed
qed (simp add: List.map_filter_simps)

lemma distinct_map_ex1: "distinct (map f xs) \<Longrightarrow> v \<in> f ` set xs \<Longrightarrow> \<exists>!x. x \<in> set xs \<and> f x = v"
  by (auto simp: distinct_map inj_on_def)

text \<open>
  C22: one invite and one passkey per vault. In every reachable state the vault ids are different, an invite is consumed by
  a vault exactly when the vault exists, every vault has exactly one consumed invite and exactly one credential, no
  credential id is shared between vaults, and no row refers to a vault or an invite that does not exist.
\<close>

theorem one_invite_per_vault:
  assumes "tenant_reach key t"
  shows "distinct (map vr_VaultID (tn_vault t)) \<and> distinct (map vc_CredentialID (tn_credential t)) \<and> foreignKeyClean t \<and>
    (\<forall>v. hasVault v t = (Some v \<in> in_consumed_vault_id ` set (tn_invite t))) \<and>
    (\<forall>v. hasVault v t \<longrightarrow> (\<exists>!r. r \<in> set (tn_invite t) \<and> in_consumed_vault_id r = Some v) \<and>
       (\<exists>!c. c \<in> set (tn_credential t) \<and> vc_VaultID c = v))"
proof -
  have wf: "tenantsWf t" by (rule reach_wf [OF assms])
  then have con: "set (consumedBy t) = vr_VaultID ` set (tn_vault t)" "map vc_VaultID (tn_credential t) = map vr_VaultID (tn_vault t)"
    by (simp_all add: tenantsWf_def)
  have creds: "vc_VaultID ` set (tn_credential t) = vr_VaultID ` set (tn_vault t)" using arg_cong [OF con(2), of set] by (simp only: set_map)
  have a: "hasVault v t = (Some v \<in> in_consumed_vault_id ` set (tn_invite t))" for v
    using con(1) consumedBy_set [of v t] by (simp add: hasVault_def)
  have b: "(\<exists>!r. r \<in> set (tn_invite t) \<and> in_consumed_vault_id r = Some v)" if "hasVault v t" for v
    using wf that con(1) by (intro distinct_map_filter_ex1 [where k = in_token_hash]) (simp_all add: tenantsWf_def consumedBy_def hasVault_def)
  have c: "(\<exists>!c. c \<in> set (tn_credential t) \<and> vc_VaultID c = v)" if "hasVault v t" for v
    using wf that con(2) creds by (intro distinct_map_ex1) (simp_all add: tenantsWf_def hasVault_def)
  have d: "distinct (map vr_VaultID (tn_vault t))" "distinct (map vc_CredentialID (tn_credential t))" "foreignKeyClean t"
    using wf by (simp_all add: tenantsWf_def)
  from a b c d show ?thesis by blast
qed

text \<open>The credential of a vault is read back, and the vault of a new id is the one just inserted.\<close>

lemma getVaultCredential_unique:
  assumes "\<exists>!c. c \<in> set (tn_credential t) \<and> vc_VaultID c = v" "c \<in> set (tn_credential t)" "vc_VaultID c = v"
  shows "getVaultCredentialTx v t = Some c"
proof -
  let ?rows = "filter (\<lambda>c. vc_VaultID c = v) (tn_credential t)"
  define xs where "xs = filter vc_Resident ?rows @ filter (\<lambda>c. \<not> vc_Resident c) ?rows"
  have "set xs = {d \<in> set (tn_credential t). vc_VaultID d = v}" by (auto simp: xs_def)
  then have xs: "set xs = {c}" using assms by blast
  have "(case xs of [] \<Rightarrow> None | c # _ \<Rightarrow> Some c) = Some c" using xs by (cases xs) auto
  then show ?thesis by (simp add: getVaultCredentialTx_def xs_def)
qed

lemma createVault_InrD:
  assumes "createVault network ok clock i board t = (Inr (), t')"
  shows "createVaultBody network clock i board t = Inr ((), t')" "vc_VaultID (cv_Credential i) = vr_VaultID (cv_Record i)" "vr_VaultID (cv_Record i) \<noteq> []"
    "case board of None \<Rightarrow> True | Some b \<Rightarrow> be_VaultID b = vr_VaultID (cv_Record i)"
proof -
  obtain u where v: "validateCreateVaultInput i = Inr u" using assms by (auto simp: createVault_def split: sum.splits)
  then show "vc_VaultID (cv_Credential i) = vr_VaultID (cv_Record i)" "vr_VaultID (cv_Record i) \<noteq> []"
    by (auto simp: validateCreateVaultInput_def andThen_Inr_iff split: if_splits)
  show "createVaultBody network clock i board t = Inr ((), t')" "case board of None \<Rightarrow> True | Some b \<Rightarrow> be_VaultID b = vr_VaultID (cv_Record i)"
    using assms v by (auto simp: createVault_def tenantTx_def split: if_splits sum.splits prod.splits option.splits)
qed

lemma createVault_InlD:
  assumes "tenantsWf t" "createVault network ok clock i board t = (Inl e, t')"
  shows "t' = t"
proof -
  have wf: "tenantsWf t'" using createVault_wf [OF assms(1), of network ok clock i board] assms(2) by simp
  then show ?thesis using assms(2)
    by (auto simp: createVault_def tenantTx_def tenantsWf_def split: if_splits sum.splits prod.splits option.splits)
qed

lemma createVault_loads:
  assumes "tenantsWf t" "createVault network ok clock i board t = (Inr (), t')"
  shows "LoadVault (vr_VaultID (cv_Record i)) t' = Inr (Some (cv_Record i, Some (cv_Credential i)))"
    "v \<noteq> vr_VaultID (cv_Record i) \<Longrightarrow> LoadVault v t' = LoadVault v t"
proof -
  let ?v = "vr_VaultID (cv_Record i)"
  note d = createVault_InrD [OF assms(2)] and c = createVaultBody_InrD [OF createVault_InrD(1,4) [OF assms(2)]]
  have wf: "tenantsWf t'" using createVault_wf [OF assms(1), of network ok clock i board] assms(2) by simp
  have "\<exists>!d. d \<in> set (tn_credential t') \<and> vc_VaultID d = ?v"
    using wf by (intro distinct_map_ex1) (auto simp: tenantsWf_def c(1) created_def d(2))
  then have cred: "getVaultCredentialTx ?v t' = Some (cv_Credential i)"
    by (rule getVaultCredential_unique) (simp_all add: c(1) created_def d(2))
  have "\<forall>x\<in>set (tn_vault t). vr_VaultID x \<noteq> ?v" using c(2) by (auto simp: hasVault_def image_iff)
  then have "lookupBy (\<lambda>x. vr_VaultID x = ?v) (tn_vault t) = None" by (simp add: lookupBy_None_iff)
  then show "LoadVault ?v t' = Inr (Some (cv_Record i, Some (cv_Credential i)))"
    using cred d(3) by (simp add: LoadVault_def c(1) created_def lookupBy_append)
  show "LoadVault v t' = LoadVault v t" if "v \<noteq> ?v"
    using that d(2) by (simp add: LoadVault_def c(1) created_def lookupBy_append getVaultCredentialTx_def split: option.splits)
qed

text \<open>
  C24: creating a vault is all or nothing. In a reachable state a creation that returns an error changes nothing; one that
  succeeds found an unconsumed and unexpired invite and no vault of that id, after it the vault and its passkey load as
  given, the invite is consumed by this vault, and every other vault loads as before.
\<close>

theorem create_vault_atomic:
  assumes "tenant_reach key t" "createVault network ok clock i board t = (res, t')"
  shows "(\<exists>e. res = Inl e \<and> t' = t) \<or>
    (res = Inr () \<and> \<not> hasVault (vr_VaultID (cv_Record i)) t \<and>
     (\<exists>r\<in>set (tn_invite t). in_token_hash r = cv_TokenHash i \<and> in_consumed_vault_id r = None \<and>
        (in_expires_at r = [] \<or> formatRFC3339 (fst clock) \<le> in_expires_at r) \<and>
        r \<lparr> in_consumed_vault_id := Some (vr_VaultID (cv_Record i)) \<rparr> \<in> set (tn_invite t')) \<and>
     LoadVault (vr_VaultID (cv_Record i)) t' = Inr (Some (cv_Record i, Some (cv_Credential i))) \<and>
     (\<forall>v. v \<noteq> vr_VaultID (cv_Record i) \<longrightarrow> LoadVault v t' = LoadVault v t))"
proof (cases res)
  case (Inl e)
  with assms createVault_InlD [OF reach_wf [OF assms(1)]] show ?thesis by blast
next
  case (Inr u)
  let ?v = "vr_VaultID (cv_Record i)"
  have ok: "createVault network ok clock i board t = (Inr (), t')" using assms(2) Inr by simp
  note d = createVault_InrD [OF ok] and c = createVaultBody_InrD [OF createVault_InrD(1,4) [OF ok]]
  obtain r where r: "r \<in> set (tn_invite t)" "in_token_hash r = cv_TokenHash i" "in_consumed_vault_id r = None"
      "in_expires_at r = [] \<or> formatRFC3339 (fst clock) \<le> in_expires_at r"
    using c(8) by (auto dest: lookupBy_SomeD simp: not_less)
  have "spendInvite ?v (cv_TokenHash i) r = r \<lparr> in_consumed_vault_id := Some ?v \<rparr>" using r(2,3) by (simp add: spendInvite_def)
  then have "r \<lparr> in_consumed_vault_id := Some ?v \<rparr> \<in> set (tn_invite t')"
    using imageI [OF r(1), of "spendInvite ?v (cv_TokenHash i)"] by (simp add: c(1) created_def)
  with createVault_loads [OF reach_wf [OF assms(1)] ok] Inr c(2) r show ?thesis by - (rule disjI2, intro conjI bexI [of _ r], simp_all)
qed

lemma spent_invite_kept:
  assumes "tenantsWf t" "r \<in> set (tn_invite t)" "in_consumed_vault_id r = Some v"
  shows "r \<in> set (tn_invite (tenantExec key ok c t))"
proof (cases c)
  case (TPutInvite h e d)
  with assms(2) show ?thesis by (auto simp: PutInvite_def dest: insertInvite_InrD(4) split: sum.splits)
next
  case (TIssue h now)
  have "r \<in> set (tn_invite t')" if "issueBody h now t = Inr (x, t')" for x t'
    using that assms(2,3) by (auto simp: issueBody_def Let_def andThen_Inr_iff pruneInvites_def staleInvite_def dest: insertInvite_InrD(4) split: if_splits)
  with TIssue assms(2) show ?thesis by (auto simp: IssueEnrollmentSession_def tenantTx_def split: sum.splits)
next
  case (TReserve p)
  have "tn_invite t' = tn_invite t" if "reservePendingEnrollmentTx p t = Inr (x, t')" for x t'
    using that by (auto simp: reservePendingEnrollmentTx_def andThen_Inr_iff insertPending_def updatePending_def Let_def split: option.splits if_splits)
  with TReserve assms(2) show ?thesis by (auto simp: ReservePendingEnrollment_def tenantTx_def split: sum.splits)
next
  case (TCreate network clock i board)
  obtain res t' where e: "createVault network ok clock i board t = (res, t')" by force
  show ?thesis
  proof (cases res)
    case (Inl x)
    with createVault_InlD [OF assms(1) e [unfolded Inl]] e TCreate assms(2) show ?thesis by simp
  next
    case (Inr u)
    with e have ok: "createVault network ok clock i board t = (Inr (), t')" by simp
    have "t' = created i board t" by (rule createVaultBody_InrD(1) [OF createVault_InrD(1,4) [OF ok]])
    moreover have "spendInvite w h r = r" for w h using assms(3) by (simp add: spendInvite_def)
    ultimately show ?thesis using assms(2) TCreate e imageI [of r "set (tn_invite t)" "spendInvite (vr_VaultID (cv_Record i)) (cv_TokenHash i)"]
      by (simp add: created_def)
  qed
next
  case (TStore w e)
  have "tn_invite t' = tn_invite t" if "storeEnvelopeBody key w e t = Inr (x, t')" for x t'
    using that by (auto simp: storeEnvelopeBody_def andThen_Inr_iff insertVaultEnvelopeTx_def split: option.splits if_splits)
  with TStore assms(2) show ?thesis by (auto simp: StoreVaultEnvelopeIfAbsent_def tenantTx_def split: sum.splits)
next
  case (TReplace w e f)
  have "tn_invite t' = tn_invite t" if "replaceEnvelopeBody key w e f t = Inr (x, t')" for x t'
    using that by (auto simp: replaceEnvelopeBody_def andThen_Inr_iff updateEnvelope_def split: option.splits if_splits)
  with TReplace assms(2) show ?thesis by (auto simp: ReplaceVaultEnvelope_def tenantTx_def split: sum.splits)
qed

definition runTenants :: "bytes \<Rightarrow> (bool \<times> tenant_call) list \<Rightarrow> Tenants \<Rightarrow> Tenants" where
  "runTenants key calls t = fold (\<lambda>(ok, c). tenantExec key ok c) calls t"

lemma runTenants_kept:
  assumes "tenantsWf t" "r \<in> set (tn_invite t)" "in_consumed_vault_id r = Some v"
  shows "tenantsWf (runTenants key calls t) \<and> r \<in> set (tn_invite (runTenants key calls t))"
  using assms unfolding runTenants_def
proof (induction calls arbitrary: t)
  case (Cons c calls)
  then show ?case using tenantExec_wf spent_invite_kept [OF Cons.prems] by (cases c) simp
qed simp

text \<open>
  C25: an invite is spent once. After a successful creation, whatever calls follow, every further creation with the same
  invite token is refused and changes nothing.
\<close>

theorem invite_spent_once:
  assumes "tenant_reach key t" "createVault network ok clock i board t = (Inr (), t')" "cv_TokenHash j = cv_TokenHash i"
  shows "\<exists>e. createVault network' ok' clock' j board' (runTenants key calls t') = (Inl e, runTenants key calls t')"
proof -
  note c = createVaultBody_InrD [OF createVault_InrD(1,4) [OF assms(2)]]
  let ?v = "vr_VaultID (cv_Record i)" and ?t = "runTenants key calls t'"
  obtain r where r: "r \<in> set (tn_invite t)" "in_token_hash r = cv_TokenHash i" "in_consumed_vault_id r = None"
    using c(8) by (auto dest: lookupBy_SomeD)
  define s where "s = r \<lparr> in_consumed_vault_id := Some ?v \<rparr>"
  have "spendInvite ?v (cv_TokenHash i) r = s" using r(2,3) by (simp add: spendInvite_def s_def)
  then have s: "s \<in> set (tn_invite t')"
    using imageI [OF r(1), of "spendInvite ?v (cv_TokenHash i)"] by (simp add: c(1) created_def)
  have "tenantsWf t'" using createVault_wf [OF reach_wf [OF assms(1)], of network ok clock i board] assms(2) by simp
  from runTenants_kept [OF this s, of ?v key calls] have wf: "tenantsWf ?t" and s': "s \<in> set (tn_invite ?t)" by (simp_all add: s_def)
  have "lookupBy (\<lambda>x. in_token_hash x = cv_TokenHash i) (tn_invite ?t) = Some s"
    using lookupBy_unique [of in_token_hash "tn_invite ?t" s] wf s' r(2) by (simp add: s_def tenantsWf_def)
  then have "createVaultBody network' clock' j board' ?t = Inl (Err ''invite already consumed'')"
    by (simp add: createVaultBody_def assms(3) s_def)
  then show ?thesis by (auto simp: createVault_def tenantTx_def split: sum.splits)
qed

section \<open>From a session to a vault\<close>

lemma length_filter_mono: "(\<And>x. P x \<Longrightarrow> Q x) \<Longrightarrow> length (filter P xs) \<le> length (filter Q xs)"
  by (induction xs) (auto simp: le_SucI)

lemma prune_counts:
  "recentInvites now (pruneInvites c t) \<le> recentInvites now t" "activeInvites now (pruneInvites c t) \<le> activeInvites now t"
  by (simp_all add: recentInvites_def activeInvites_def pruneInvites_def filter_filter)
     (auto intro!: length_filter_mono)

lemma filter_fresh:
  assumes "k x \<notin> k ` set xs" "\<And>y. P y \<Longrightarrow> k y = k x" "P x"
  shows "filter P (xs @ [x]) = [x]"
proof -
  have "\<not> P y" if "y \<in> set xs" for y using assms(1) assms(2) [of y] that by (metis imageI)
  then have "filter P xs = []" by (simp add: filter_empty_conv)
  with assms(3) show ?thesis by simp
qed

lemma lookupBy_fresh:
  assumes "k x \<notin> k ` set xs" "\<And>y. P y \<Longrightarrow> k y = k x" "P x"
  shows "lookupBy P (xs @ [x]) = Some x"
proof -
  have "\<not> P y" if "y \<in> set xs" for y using assms(1) assms(2) [of y] that by (metis imageI)
  then have "lookupBy P xs = None" by (simp add: lookupBy_None_iff)
  with assms(3) show ?thesis by (simp add: lookupBy_append)
qed

text \<open>The tables after a session was issued: stale invites pruned, the new one added.\<close>

definition withSession :: "bytes \<Rightarrow> time \<Rightarrow> Tenants \<Rightarrow> Tenants" where
  "withSession hash now t =
     (let p = pruneInvites (formatRFC3339 (now - 24 * 3600 * second)) t in
      p \<lparr> tn_invite := tn_invite p @ [\<lparr> in_token_hash = hash, in_expires_at = formatRFC3339 (now + 600 * second),
        in_consumed_vault_id = None, in_created_at = formatRFC3339 now \<rparr>] \<rparr>)"

lemma issue_session:
  assumes "length hash = 32" "hash \<notin> in_token_hash ` set (tn_invite t)" "recentInvites now t < 30" "activeInvites now t < 1000"
  shows "issueBody hash now t = Inr (now + 600 * second, withSession hash now t)"
proof -
  let ?p = "pruneInvites (formatRFC3339 (now - 24 * 3600 * second)) t"
  have "hash \<notin> in_token_hash ` set (tn_invite ?p)" using assms(2) by (auto simp: pruneInvites_def)
  moreover have "\<not> (recentInvites now ?p \<ge> 30 \<or> activeInvites now ?p \<ge> 1000)"
    using prune_counts [of now "formatRFC3339 (now - 24 * 3600 * second)" t] assms(3,4) by simp
  ultimately show ?thesis using assms(1) by (simp add: issueBody_def Let_def insertInvite_def withSession_def)
qed

text \<open>A session token that is not among the invites has no pending enrollment and is found with its expiry.\<close>

lemma withSession_reads:
  assumes "tenantsWf t" "hash \<notin> in_token_hash ` set (tn_invite t)"
  shows "lookupBy (\<lambda>r. in_token_hash r = hash) (tn_invite (withSession hash now t)) =
      Some \<lparr> in_token_hash = hash, in_expires_at = formatRFC3339 (now + 600 * second), in_consumed_vault_id = None, in_created_at = formatRFC3339 now \<rparr>"
    "lookupBy (\<lambda>p. pe_TokenHash p = hash) (tn_pending (withSession hash now t)) = None"
    "filter (\<lambda>r. in_token_hash r = hash \<and> in_consumed_vault_id r = None) (tn_invite (withSession hash now t)) =
      [\<lparr> in_token_hash = hash, in_expires_at = formatRFC3339 (now + 600 * second), in_consumed_vault_id = None, in_created_at = formatRFC3339 now \<rparr>]"
    "set (tn_pending (withSession hash now t)) \<subseteq> set (tn_pending t)" "tn_vault (withSession hash now t) = tn_vault t"
    "tn_credential (withSession hash now t) = tn_credential t" "tn_envelope (withSession hash now t) = tn_envelope t"
    "consumedBy (withSession hash now t) = consumedBy t" "hash \<in> in_token_hash ` set (tn_invite (withSession hash now t))"
    "tn_board (withSession hash now t) = tn_board t" "tn_savings (withSession hash now t) = tn_savings t"
proof -
  let ?p = "pruneInvites (formatRFC3339 (now - 24 * 3600 * second)) t"
  have f: "hash \<notin> in_token_hash ` set (tn_invite ?p)" using assms(2) by (auto simp: pruneInvites_def)
  show "lookupBy (\<lambda>r. in_token_hash r = hash) (tn_invite (withSession hash now t)) =
      Some \<lparr> in_token_hash = hash, in_expires_at = formatRFC3339 (now + 600 * second), in_consumed_vault_id = None, in_created_at = formatRFC3339 now \<rparr>"
    using f by (simp add: withSession_def Let_def) (rule lookupBy_fresh [where k = in_token_hash]; simp)
  show "filter (\<lambda>r. in_token_hash r = hash \<and> in_consumed_vault_id r = None) (tn_invite (withSession hash now t)) =
      [\<lparr> in_token_hash = hash, in_expires_at = formatRFC3339 (now + 600 * second), in_consumed_vault_id = None, in_created_at = formatRFC3339 now \<rparr>]"
    unfolding withSession_def Let_def by simp (rule filter_empty_conv [THEN iffD2], use f in \<open>auto simp: image_iff\<close>)
  show sub: "set (tn_pending (withSession hash now t)) \<subseteq> set (tn_pending t)" by (auto simp: withSession_def Let_def pruneInvites_def)
  have "pe_TokenHash ` set (tn_pending t) \<subseteq> in_token_hash ` set (tn_invite t)" using assms(1) by (simp add: tenantsWf_def foreignKeyClean_def)
  with sub assms(2) show "lookupBy (\<lambda>p. pe_TokenHash p = hash) (tn_pending (withSession hash now t)) = None"
    unfolding lookupBy_None_iff by (metis imageI subsetD)
  show "consumedBy (withSession hash now t) = consumedBy t"
    using consumedBy_prune [of "formatRFC3339 (now - 24 * 3600 * second)" t]
    by (simp add: withSession_def Let_def consumedBy_def map_filter_append List.map_filter_simps)
qed (simp_all add: withSession_def Let_def pruneInvites_def)

lemma reserve_on_session:
  assumes "tenantsWf t" "hash \<notin> in_token_hash ` set (tn_invite t)" "validatePendingEnrollment p = Inr ()" "pe_TokenHash p = hash"
    and "pe_Handle p \<notin> pe_Handle ` set (tn_pending t)" "pe_VaultID p \<notin> pe_VaultID ` set (tn_pending t)"
    and "pe_CreatedAt p \<le> formatRFC3339 (now + 600 * second)"
  shows "insertPending p (withSession hash now t) = Inr (withSession hash now t \<lparr> tn_pending := tn_pending (withSession hash now t) @ [p] \<rparr>)"
    "reservePendingEnrollmentTx p (withSession hash now t) =
       Inr (p, withSession hash now t \<lparr> tn_pending := tn_pending (withSession hash now t) @ [p] \<rparr>)"
proof -
  let ?t = "withSession hash now t"
  note w = withSession_reads [OF assms(1,2), of now]
  have checks: "pendingChecks p"
    using assms(3) by (auto simp: validatePendingEnrollment_def pendingChecks_def andThen_Inr_iff ValidateProtectionTier_def
        ProtectionTierLight_def ProtectionTierStandard_def ProtectionTierAdvanced_def split: if_splits)
  have "pe_TokenHash p \<notin> pe_TokenHash ` set (tn_pending ?t)" using w(2) assms(4) by (auto simp: lookupBy_None_iff)
  moreover have "pe_Handle p \<notin> pe_Handle ` set (tn_pending ?t)" "pe_VaultID p \<notin> pe_VaultID ` set (tn_pending ?t)" using w(4) assms(5,6) by blast+
  ultimately show i: "insertPending p ?t = Inr (?t \<lparr> tn_pending := tn_pending ?t @ [p] \<rparr>)"
    using w(9) checks assms(4) by (simp add: insertPending_def)
  show "reservePendingEnrollmentTx p ?t = Inr (p, ?t \<lparr> tn_pending := tn_pending ?t @ [p] \<rparr>)"
    using i w(1,2) assms(4,7) by (simp add: reservePendingEnrollmentTx_def getInvite_def inviteOf_def not_less)
qed

text \<open>The Ledger Savings enrollment of a creation: one that is valid and names the vault for the Ledger template, none for any other.\<close>

abbreviation savingsFit :: "CreateVaultInput \<Rightarrow> bool" where
  "savingsFit i \<equiv> (case cv_LedgerSavings i of
     None \<Rightarrow> vr_TemplateVersion (cv_Record i) \<noteq> ''phone-ledger-guardian-savings-v1''
   | Some s \<Rightarrow> vr_TemplateVersion (cv_Record i) = ''phone-ledger-guardian-savings-v1'' \<and> le_VaultID s = vr_VaultID (cv_Record i) \<and>
       validateLedgerSavingsEnrollment s = Inr () \<and> length (le_IntegrityMAC s) = 32)"

lemma savings_row_fits:
  assumes "validateLedgerSavingsEnrollment s = Inr ()"
  shows "sqlLength (le_DescriptorHash s) = 64"
proof -
  obtain raw where "hexDecode (le_DescriptorHash s) = Some raw" "hexEncode raw = le_DescriptorHash s" "length (le_DescriptorHash s) = 64"
    using assms by (auto simp: validateLedgerSavingsEnrollment_def split: if_splits option.splits)
  then show ?thesis using sqlLength_hexEncode [of raw] by simp
qed

text \<open>The rows of a creation go into tables that hold nothing of a new vault.\<close>

lemma insert_rows:
  assumes "vr_VaultID v \<notin> vr_VaultID ` set (tn_vault t)" "vr_VaultID v \<notin> fst ` set (tn_envelope t)" "vaultChecks v"
    and "vc_CredentialID c \<notin> vc_CredentialID ` set (tn_credential t)" "vc_VaultID c = vr_VaultID v" "length (vc_IntegrityMAC c) = 32"
    and "pred_option envelopeChecks envelope"
  shows "insertVaultTx v c envelope t = Inr (t \<lparr> tn_vault := tn_vault t @ [v], tn_credential := tn_credential t @ [c],
    tn_envelope := tn_envelope t @ map (Pair (vr_VaultID v)) (optList envelope) \<rparr>)"
  using assms by (cases envelope) (auto simp: insertVaultTx_def insertVaultRow_def insertCredentialRow_def insertVaultEnvelopeTx_def hasVault_def)

lemma create_on_session:
  assumes "tenantsWf t" "hash \<notin> in_token_hash ` set (tn_invite t)" "cv_TokenHash i = hash" "cv_Pending i = Some p"
    and "vaultChecks (cv_Record i)" "\<not> hasVault (vr_VaultID (cv_Record i)) t" "vc_VaultID (cv_Credential i) = vr_VaultID (cv_Record i)"
    and "vc_CredentialID (cv_Credential i) \<notin> vc_CredentialID ` set (tn_credential t)" "length (vc_IntegrityMAC (cv_Credential i)) = 32"
    and "pred_option envelopeChecks (cv_Envelope i)" "savingsFit i"
    and "formatRFC3339 (fst clock) \<le> formatRFC3339 (now + 600 * second)" "formatRFC3339 (snd clock) \<le> pe_ExpiresAt p"
    and "pe_Handle p \<notin> pe_Handle ` set (tn_pending t)"
    and "pred_option (\<lambda>b. be_VaultID b = vr_VaultID (cv_Record i) \<and> boardChecks network b) board"
  shows "\<exists>t3. createVaultBody network clock i board (withSession hash now t \<lparr> tn_pending := tn_pending (withSession hash now t) @ [p] \<rparr>) = Inr ((), t3)"
proof -
  let ?v = "vr_VaultID (cv_Record i)" and ?s = "withSession hash now t"
  let ?t = "?s \<lparr> tn_pending := tn_pending ?s @ [p] \<rparr>"
  note w = withSession_reads [OF assms(1,2), of now]
  have h: "pe_Handle p \<notin> pe_Handle ` set (tn_pending ?s)" using w(4) assms(14) by blast
  have "filter (pendingMatches p) (tn_pending ?s @ [p]) = [p]"
    by (rule filter_fresh [where k = pe_Handle, OF h]) (simp_all add: pendingMatches_def)
  then have p: "consumePendingEnrollmentTx (cv_Pending i) (snd clock) ?t =
      Inr (?t \<lparr> tn_pending := filter (\<lambda>r. \<not> pendingMatches p r) (tn_pending ?s @ [p]) \<rparr>)" (is "_ = Inr ?t1")
    using assms(4,13) by (simp add: consumePendingEnrollmentTx_def not_less)
  have fresh: "?v \<notin> vr_VaultID ` set (tn_vault t)" using assms(6) by (simp add: hasVault_def)
  have fk: "?v \<notin> fst ` set (tn_envelope t)" "?v \<notin> be_VaultID ` set (tn_board t)" "?v \<notin> le_VaultID ` set (tn_savings t)"
    using assms(1) fresh by (auto simp: tenantsWf_def foreignKeyClean_def)
  let ?t2 = "?t1 \<lparr> tn_vault := tn_vault ?s @ [cv_Record i], tn_credential := tn_credential ?s @ [cv_Credential i],
    tn_envelope := tn_envelope ?s @ map (Pair ?v) (optList (cv_Envelope i)) \<rparr>"
  have v: "insertVaultTx (cv_Record i) (cv_Credential i) (cv_Envelope i) ?t1 = Inr ?t2"
    using insert_rows [of "cv_Record i" ?t1 "cv_Credential i" "cv_Envelope i"] fresh fk(1) assms(5,7-10) by (simp add: w(5-7))
  let ?t3 = "?t2 \<lparr> tn_board := tn_board ?s @ optList board \<rparr>"
  have b: "(case board of None \<Rightarrow> Inr ?t2 | Some b \<Rightarrow> wrapErr ''create vault board'' (PutVaultBoardEnrollmentTx network b ?t2)) = Inr ?t3"
    using assms(15) fk(2) by (cases board) (auto simp: PutVaultBoardEnrollmentTx_def hasVault_def w(10))
  let ?t4 = "?t3 \<lparr> tn_savings := tn_savings ?s @ optList (cv_LedgerSavings i) \<rparr>"
  have s: "(case cv_LedgerSavings i of
        Some s \<Rightarrow> if le_VaultID s \<noteq> ?v \<or> vr_TemplateVersion (cv_Record i) \<noteq> ''phone-ledger-guardian-savings-v1''
          then Inl (Err ''Ledger Savings enrollment identity mismatch'') else putLedgerSavingsEnrollmentTx s ?t3
      | None \<Rightarrow> if vr_TemplateVersion (cv_Record i) = ''phone-ledger-guardian-savings-v1''
          then Inl (Err ''Ledger Savings enrollment required'') else Inr ?t3) = Inr ?t4"
    using assms(11) fk(3) by (cases "cv_LedgerSavings i") (auto simp: putLedgerSavingsEnrollmentTx_def hasVault_def savings_row_fits w(11))
  have "?v \<notin> set (consumedBy t)" using assms(1) fresh by (simp add: tenantsWf_def)
  then have "Some ?v \<notin> in_consumed_vault_id ` set (tn_invite ?s)" using w(8) consumedBy_set [of ?v ?s] by simp
  then have c: "consumeInvite ?v hash ?t4 = Inr (?t4 \<lparr> tn_invite := map (spendInvite ?v hash) (tn_invite ?s) \<rparr>)" (is "_ = Inr ?t5")
    using w(3) by (simp add: consumeInvite_def Let_def hasVault_def) (simp add: spendInvite_def)
  let ?r = "\<lparr> in_token_hash = hash, in_expires_at = formatRFC3339 (now + 600 * second), in_consumed_vault_id = None, in_created_at = formatRFC3339 now \<rparr>"
  have found: "lookupBy (\<lambda>r. in_token_hash r = hash) (tn_invite ?t) = Some ?r" using w(1) by simp
  have open_invite: "\<not> in_consumed_vault_id ?r \<noteq> None" "\<not> (in_expires_at ?r \<noteq> [] \<and> in_expires_at ?r < formatRFC3339 (fst clock))"
    using assms(12) by (simp_all add: not_less)
  have "createVaultBody network clock i board ?t = Inr ((), ?t5)"
    unfolding createVaultBody_def assms(3) found option.case if_not_P [OF open_invite(1)] if_not_P [OF open_invite(2)] p andThen_simps
      v wrapErr_simps b s c by (rule refl)
  then show ?thesis by blast
qed

lemma lookupBy_new:
  assumes "v \<notin> k ` set xs" "case new of None \<Rightarrow> True | Some x \<Rightarrow> k x = v"
  shows "lookupBy (\<lambda>y. k y = v) (xs @ optList new) = new"
proof -
  have "lookupBy (\<lambda>y. k y = v) xs = None" unfolding lookupBy_None_iff using assms(1) by (metis imageI)
  then show ?thesis using assms(2) by (cases new) (simp_all add: lookupBy_append)
qed

lemma session_path:
  assumes "tenant_reach key t" "length hash = 32" "hash \<notin> in_token_hash ` set (tn_invite t)" "recentInvites now t < 30" "activeInvites now t < 1000"
    and "validatePendingEnrollment p = Inr ()" "pe_TokenHash p = hash"
    and "pe_Handle p \<notin> pe_Handle ` set (tn_pending t)" "pe_VaultID p \<notin> pe_VaultID ` set (tn_pending t)"
    and "pe_CreatedAt p \<le> formatRFC3339 (now + 600 * second)"
    and "validateCreateVaultInput i = Inr ()" "cv_TokenHash i = hash" "cv_Pending i = Some p" "vaultChecks (cv_Record i)"
    and "\<not> hasVault (vr_VaultID (cv_Record i)) t" "vc_CredentialID (cv_Credential i) \<notin> vc_CredentialID ` set (tn_credential t)"
    and "pred_option envelopeChecks (cv_Envelope i)" "savingsFit i"
    and "formatRFC3339 (fst clock) \<le> formatRFC3339 (now + 600 * second)" "formatRFC3339 (snd clock) \<le> pe_ExpiresAt p"
    and "pred_option (\<lambda>b. be_VaultID b = vr_VaultID (cv_Record i) \<and> boardChecks network b) board"
  shows "\<exists>t1 t2 t3. IssueEnrollmentSession True hash now t = (Inr (now + 600 * second), t1) \<and>
    ReservePendingEnrollment True p t1 = (Inr p, t2) \<and> createVault network True clock i board t2 = (Inr (), t3) \<and>
    LoadVault (vr_VaultID (cv_Record i)) t3 = Inr (Some (cv_Record i, Some (cv_Credential i))) \<and>
    lookupBy (\<lambda>r. be_VaultID r = vr_VaultID (cv_Record i)) (tn_board t3) = board \<and>
    lookupBy (\<lambda>r. le_VaultID r = vr_VaultID (cv_Record i)) (tn_savings t3) = cv_LedgerSavings i"
proof -
  have wf: "tenantsWf t" by (rule reach_wf [OF assms(1)])
  let ?v = "vr_VaultID (cv_Record i)" and ?s = "withSession hash now t"
  let ?t = "?s \<lparr> tn_pending := tn_pending ?s @ [p] \<rparr>"
  note issue = issue_session [OF assms(2-5)]
  note r = reserve_on_session [OF wf assms(3,6-10)] and w = withSession_reads [OF wf assms(3), of now]
  have cred: "vc_VaultID (cv_Credential i) = ?v" "length (vc_IntegrityMAC (cv_Credential i)) = 32"
    using assms(11) by (auto simp: validateCreateVaultInput_def andThen_Inr_iff split: if_splits)
  have board: "case board of None \<Rightarrow> True | Some b \<Rightarrow> be_VaultID b = ?v" using assms(21) by (cases board) simp_all
  obtain t3 where t3: "createVaultBody network clock i board ?t = Inr ((), t3)"
    using create_on_session [OF wf assms(3,12-15) cred(1) assms(16) cred(2) assms(17-20,8,21)] by blast
  have t: "tenantsWf ?t" by (rule insertPending_wf [OF issueBody_wf [OF wf issue] r(1)])
  then have "tenantsWf t3" by (rule created_wf [OF _ t3 cred(1) board])
  then have c: "createVault network True clock i board ?t = (Inr (), t3)"
    using t3 assms(11,21) by (cases board) (simp_all add: createVault_def tenantTx_def tenantsWf_def boardChecks_def)
  have "LoadVault ?v t3 = Inr (Some (cv_Record i, Some (cv_Credential i)))" by (rule createVault_loads(1) [OF t c])
  moreover have new: "?v \<notin> be_VaultID ` set (tn_board t)" "?v \<notin> le_VaultID ` set (tn_savings t)"
    using wf assms(15) by (auto simp: tenantsWf_def foreignKeyClean_def hasVault_def)
  have e: "t3 = created i board ?t" by (rule createVaultBody_InrD(1) [OF t3 board])
  have "lookupBy (\<lambda>r. be_VaultID r = ?v) (tn_board t3) = board"
    using lookupBy_new [OF new(1) board] by (simp add: e created_def w(10))
  moreover have "lookupBy (\<lambda>r. le_VaultID r = ?v) (tn_savings t3) = cv_LedgerSavings i"
    using lookupBy_new [OF new(2), of "cv_LedgerSavings i"] assms(18) by (simp add: e created_def w(11) split: option.splits)
  ultimately show ?thesis using issue r(2) c assms(2,6)
    by (intro exI [of _ ?s] exI [of _ ?t] exI [of _ t3])
       (simp add: IssueEnrollmentSession_def ReservePendingEnrollment_def tenantTx_def)
qed

text \<open>
  C23: an enrollment session leads to a boarding vault. In every reachable state whose issuance limits are not reached, a fresh token
  gets a session of ten minutes; a valid pending enrollment with a new handle and a new vault id is accepted on it; and a creation with a
  board that is valid, names this token and this pending enrollment, comes before the session and the pending enrollment expire and
  brings new ids and rows that meet the constraints of their tables (vault, passkey, board of the network, an envelope if there is one,
  a valid Ledger Savings enrollment exactly for the Ledger template) succeeds. After it the vault and its passkey load, and the board and
  the Ledger Savings enrollment of the vault are the ones that were given.
\<close>

theorem session_leads_to_vault:
  assumes "tenant_reach key t" "length hash = 32" "hash \<notin> in_token_hash ` set (tn_invite t)" "recentInvites now t < 30" "activeInvites now t < 1000"
    and "validatePendingEnrollment p = Inr ()" "pe_TokenHash p = hash"
    and "pe_Handle p \<notin> pe_Handle ` set (tn_pending t)" "pe_VaultID p \<notin> pe_VaultID ` set (tn_pending t)"
    and "pe_CreatedAt p \<le> formatRFC3339 (now + 600 * second)"
    and "validateCreateVaultInput i = Inr ()" "cv_TokenHash i = hash" "cv_Pending i = Some p" "vaultChecks (cv_Record i)"
    and "\<not> hasVault (vr_VaultID (cv_Record i)) t" "vc_CredentialID (cv_Credential i) \<notin> vc_CredentialID ` set (tn_credential t)"
    and "pred_option envelopeChecks (cv_Envelope i)"
    and "case cv_LedgerSavings i of
        None \<Rightarrow> vr_TemplateVersion (cv_Record i) \<noteq> ''phone-ledger-guardian-savings-v1''
      | Some s \<Rightarrow> vr_TemplateVersion (cv_Record i) = ''phone-ledger-guardian-savings-v1'' \<and> le_VaultID s = vr_VaultID (cv_Record i) \<and>
          validateLedgerSavingsEnrollment s = Inr () \<and> length (le_IntegrityMAC s) = 32"
    and "formatRFC3339 (fst clock) \<le> formatRFC3339 (now + 600 * second)" "formatRFC3339 (snd clock) \<le> pe_ExpiresAt p"
    and "be_VaultID board = vr_VaultID (cv_Record i)" "boardChecks network board"
  shows "\<exists>t1 t2 t3. IssueEnrollmentSession True hash now t = (Inr (now + 600 * second), t1) \<and>
    ReservePendingEnrollment True p t1 = (Inr p, t2) \<and> CreateVaultWithBoard network True clock i board t2 = (Inr (), t3) \<and>
    LoadVault (vr_VaultID (cv_Record i)) t3 = Inr (Some (cv_Record i, Some (cv_Credential i))) \<and>
    lookupBy (\<lambda>r. be_VaultID r = vr_VaultID (cv_Record i)) (tn_board t3) = Some board \<and>
    lookupBy (\<lambda>r. le_VaultID r = vr_VaultID (cv_Record i)) (tn_savings t3) = cv_LedgerSavings i"
  using session_path [OF assms(1-20), where board = "Some board" and network = network] assms(21,22) by (simp add: CreateVaultWithBoard_def)

section \<open>A concrete enrollment\<close>

definition sampleHash :: bytes where "sampleHash = replicate 32 7"

definition samplePending :: PendingEnrollment where
  "samplePending = \<lparr> pe_Handle = ''h'', pe_VaultID = ''v'', pe_TokenHash = sampleHash, pe_Challenge = [1], pe_ProtectionTier = ''light'',
     pe_PolicyDigest = replicate 32 2, pe_ExpiresAt = ''1970-01-01T00:05:00Z'', pe_CreatedAt = ''1970-01-01T00:00:00Z'' \<rparr>"

definition sampleCreate :: CreateVaultInput where
  "sampleCreate = \<lparr> cv_Record = sampleVault \<lparr> vr_IntegrityMAC := replicate 32 0 \<rparr>, cv_Credential = sampleCredential \<lparr> vc_IntegrityMAC := replicate 32 0 \<rparr>,
     cv_Envelope = None, cv_TokenHash = sampleHash, cv_Pending = Some samplePending, cv_LedgerSavings = None \<rparr>"

lemma sample_enrollment_times:
  "formatRFC3339 0 = ''1970-01-01T00:00:00Z''" "formatRFC3339 (600 * second) = ''1970-01-01T00:10:00Z''"
  by code_simp+

lemma sample_order: "''1970-01-01T00:00:00Z'' \<le> ''1970-01-01T00:10:00Z''" "''1970-01-01T00:00:00Z'' \<le> ''1970-01-01T00:05:00Z''"
  by code_simp+

lemma sample_valid:
  "validatePendingEnrollment samplePending = Inr ()" "validateCreateVaultInput sampleCreate = Inr ()" "vaultChecks (cv_Record sampleCreate)"
  by (simp_all add: validatePendingEnrollment_def samplePending_def sampleHash_def validateCreateVaultInput_def sampleCreate_def sampleVault_def
      sampleCredential_def ValidateProtectionTier_def ValidateProtectionTierRecovery_def ProtectionTierLight_def ProtectionTierStandard_def
      ProtectionTierAdvanced_def CosignerModeHKDFSHA256V1_def vaultChecks_def)

lemma sample_fields:
  "length sampleHash = 32" "pe_TokenHash samplePending = sampleHash" "pe_CreatedAt samplePending = ''1970-01-01T00:00:00Z''"
  "pe_ExpiresAt samplePending = ''1970-01-01T00:05:00Z''" "cv_TokenHash sampleCreate = sampleHash" "cv_Pending sampleCreate = Some samplePending"
  "cv_Envelope sampleCreate = None" "cv_LedgerSavings sampleCreate = None" "vr_TemplateVersion (cv_Record sampleCreate) = ''t''"
  "vr_VaultID (cv_Record sampleCreate) = ''v''"
  by (simp_all add: samplePending_def sampleHash_def sampleCreate_def sampleVault_def)

lemma empty_tables: "tn_invite emptyTenants = []" "tn_pending emptyTenants = []" "tn_credential emptyTenants = []" "\<not> hasVault v emptyTenants"
  "recentInvites n emptyTenants = 0" "activeInvites n emptyTenants = 0"
  by (simp_all add: emptyTenants_def hasVault_def recentInvites_def activeInvites_def)

text \<open>A board of the main network.\<close>

definition sampleBoard :: VaultBoardEnrollment where
  "sampleBoard = \<lparr> be_VaultID = ''v'', be_Program = ''vault-board-v1'', be_BoardingPub = replicate 33 2, be_CosignerPub = replicate 33 2,
     be_OperatorPub = replicate 33 2, be_ExitDelay = MainnetVaultBoardV1ExitDelay, be_ExitDelayUnit = ''seconds'', be_PkScript = replicate 34 1,
     be_Address = ''bc1p'', be_IntegrityMAC = replicate 32 0 \<rparr>"

lemma sampleBoard_checks: "be_VaultID sampleBoard = ''v''" "boardChecks ''mainnet'' sampleBoard"
proof -
  have "sqlLength ''bc1p'' = 4" by code_simp
  then show "be_VaultID sampleBoard = ''v''" "boardChecks ''mainnet'' sampleBoard"
    by (simp_all add: sampleBoard_def boardChecks_def NetworkMainnet_def)
qed

theorem session_leads_to_vault_witness:
  "\<exists>t1 t2 t3. IssueEnrollmentSession True sampleHash 0 emptyTenants = (Inr (600 * second), t1) \<and>
     ReservePendingEnrollment True samplePending t1 = (Inr samplePending, t2) \<and>
     CreateVaultWithBoard ''mainnet'' True (0, 0) sampleCreate sampleBoard t2 = (Inr (), t3) \<and>
     LoadVault ''v'' t3 = Inr (Some (cv_Record sampleCreate, Some (cv_Credential sampleCreate))) \<and>
     lookupBy (\<lambda>r. be_VaultID r = ''v'') (tn_board t3) = Some sampleBoard \<and> lookupBy (\<lambda>r. le_VaultID r = ''v'') (tn_savings t3) = None"
  using session_leads_to_vault [OF tenant_reach.start, of sampleHash 0 samplePending sampleCreate "(0, 0)" sampleBoard "''mainnet''"] sample_valid
  by (simp add: sample_fields empty_tables sample_enrollment_times sample_order sampleBoard_checks)

lemma sample_created:
  "\<exists>t t'. tenant_reach [] t \<and> createVault ''mainnet'' True (0, 0) sampleCreate None t = (Inr (), t') \<and> tenant_reach [] t' \<and> hasVault ''v'' t'"
proof -
  obtain t1 t2 t3 where t: "IssueEnrollmentSession True sampleHash 0 emptyTenants = (Inr (600 * second), t1)"
    "ReservePendingEnrollment True samplePending t1 = (Inr samplePending, t2)" "createVault ''mainnet'' True (0, 0) sampleCreate None t2 = (Inr (), t3)"
    "LoadVault ''v'' t3 = Inr (Some (cv_Record sampleCreate, Some (cv_Credential sampleCreate)))"
    using session_path [OF tenant_reach.start, of sampleHash 0 samplePending sampleCreate "(0, 0)" "''mainnet''" None] sample_valid
    by (auto simp: sample_fields empty_tables sample_enrollment_times sample_order)
  have "tenant_reach [] t1" using tenant_reach.step [OF tenant_reach.start, of "[]" True "TIssue sampleHash 0"] t(1) by simp
  from tenant_reach.step [OF this, of True "TReserve samplePending"] t(2) have r2: "tenant_reach [] t2" by simp
  from tenant_reach.step [OF this, of True "TCreate ''mainnet'' (0, 0) sampleCreate None"] t(3) have r3: "tenant_reach [] t3" by simp
  have "lookupBy (\<lambda>r. vr_VaultID r = ''v'') (tn_vault t3) = Some (cv_Record sampleCreate)"
    using t(4) by (simp add: LoadVault_def split: option.splits)
  from lookupBy_SomeD [OF this] have "hasVault ''v'' t3" unfolding hasVault_def by (metis imageI)
  with t(3) r2 r3 show ?thesis by blast
qed

theorem one_invite_per_vault_witness:
  "\<exists>t. tenant_reach [] t \<and> hasVault ''v'' t \<and> (\<exists>!r. r \<in> set (tn_invite t) \<and> in_consumed_vault_id r = Some ''v'')"
proof -
  obtain t where t: "tenant_reach [] t" "hasVault ''v'' t" using sample_created by blast
  note one_invite_per_vault [OF t(1), THEN conjunct2, THEN conjunct2, THEN conjunct2, THEN conjunct2, rule_format, OF t(2)]
  with t show ?thesis by (intro exI [of _ t] conjI) simp_all
qed

theorem create_vault_atomic_witness:
  "\<exists>t t'. createVault ''mainnet'' True (0, 0) sampleCreate None t = (Inr (), t') \<and>
     LoadVault ''v'' t' = Inr (Some (cv_Record sampleCreate, Some (cv_Credential sampleCreate)))"
proof -
  obtain t t' where t: "tenant_reach [] t" "createVault ''mainnet'' True (0, 0) sampleCreate None t = (Inr (), t')" using sample_created by blast
  with create_vault_atomic [OF t] show ?thesis by (intro exI [of _ t] exI [of _ t']) (simp add: sample_fields)
qed

theorem invite_spent_once_witness:
  "\<exists>t t' e. createVault ''mainnet'' True (0, 0) sampleCreate None t = (Inr (), t') \<and> createVault ''mainnet'' True (0, 0) sampleCreate None t' = (Inl e, t')"
proof -
  obtain t t' where t: "tenant_reach [] t" "createVault ''mainnet'' True (0, 0) sampleCreate None t = (Inr (), t')" using sample_created by blast
  from invite_spent_once [OF t refl, of "''mainnet''" True "(0, 0)" None "[]"] t(2) show ?thesis by (auto simp: runTenants_def)
qed

end
