(* ===== verification/Recovery_Backup.thy ===== *)
theory Recovery_Backup
  imports Enrollment Crypto
begin

text \<open>
  The encrypted recovery archives (\<open>recovery_backup.go\<close>): one row per vault, authenticated and fenced by a revision. The
  abstract contract is a versioned register per vault, the history of accepted payloads; \<open>PutRecoveryBackup\<close> is shown to
  implement it by a forward simulation, and the absence of lost updates is proved once for every such store.
\<close>

section \<open>Versioned registers\<close>

text \<open>
  The history of a register holds every accepted payload, oldest first. A write names the number of writes it has seen; it
  is appended when that number is current, accepted again when it is a retry of the last write, and refused otherwise.
\<close>

definition specPut :: "nat \<Rightarrow> 'v \<Rightarrow> 'v list \<Rightarrow> 'v list option" where
  "specPut n v h =
     (if h \<noteq> [] \<and> length h = n + 1 \<and> last h = v then Some h
      else if length h = n then Some (h @ [v]) else None)"

lemma specPut_SomeD:
  assumes "specPut n v h = Some h'"
  shows "\<exists>more. h' = h @ more" "length h' = n + 1" "last h' = v" "h' \<noteq> []"
proof -
  have "h' = h \<and> h \<noteq> [] \<and> length h = n + 1 \<and> last h = v \<or> h' = h @ [v] \<and> length h = n"
    using assms by (auto simp: specPut_def split: if_splits)
  then show "\<exists>more. h' = h @ more" "length h' = n + 1" "last h' = v" "h' \<noteq> []" by auto
qed

definition runPuts :: "('k \<Rightarrow> nat \<Rightarrow> 'v \<Rightarrow> 's \<Rightarrow> bool \<times> 's) \<Rightarrow> ('k \<times> nat \<times> 'v) list \<Rightarrow> 's \<Rightarrow> 's" where
  "runPuts put calls s = fold (\<lambda>(k, n, v) s. snd (put k n v s)) calls s"

locale versioned_store =
  fixes sim :: "('k \<Rightarrow> 'v list) \<Rightarrow> 's \<Rightarrow> bool" and put :: "'k \<Rightarrow> nat \<Rightarrow> 'v \<Rightarrow> 's \<Rightarrow> bool \<times> 's"
  assumes put_sim: "\<And>H s k n v ok s'. sim H s \<Longrightarrow> put k n v s = (ok, s') \<Longrightarrow>
    \<exists>H'. sim H' s' \<and> (if ok then specPut n v (H k) = Some (H' k) else H' k = H k) \<and> (\<forall>j. j \<noteq> k \<longrightarrow> H' j = H j)"
begin

lemma step_prefix:
  assumes "sim H s" "put k n v s = (ok, s')"
  shows "\<exists>H'. sim H' s' \<and> (\<forall>j. \<exists>more. H' j = H j @ more)"
proof -
  obtain H' where H': "sim H' s'" "if ok then specPut n v (H k) = Some (H' k) else H' k = H k" "\<And>j. j \<noteq> k \<Longrightarrow> H' j = H j"
    using put_sim [OF assms] by blast
  have "\<exists>more. H' k = H k @ more" using H'(2) specPut_SomeD(1) by (cases ok) auto
  then have "\<forall>j. \<exists>more. H' j = H j @ more" using H'(3) by (metis append_Nil2)
  with H'(1) show ?thesis by blast
qed

lemma run_prefix: "sim H s \<Longrightarrow> \<exists>H'. sim H' (runPuts put calls s) \<and> (\<forall>j. \<exists>more. H' j = H j @ more)"
proof (induction calls arbitrary: H s)
  case Nil
  then show ?case by (auto simp: runPuts_def)
next
  case (Cons c calls)
  obtain k n v where c: "c = (k, n, v)" by (metis prod_cases3)
  obtain ok s' where p: "put k n v s = (ok, s')" by force
  obtain H1 where H1: "sim H1 s'" "\<forall>j. \<exists>more. H1 j = H j @ more" using step_prefix [OF Cons.prems p] by blast
  obtain H2 where H2: "sim H2 (runPuts put calls s')" "\<forall>j. \<exists>more. H2 j = H1 j @ more" using Cons.IH [OF H1(1)] by blast
  have "runPuts put (c # calls) s = runPuts put calls s'" by (simp add: runPuts_def c p)
  moreover have "\<forall>j. \<exists>more. H2 j = H j @ more" using H1(2) H2(2) by (metis append.assoc)
  ultimately show ?case using H2(1) by auto
qed

text \<open>Once a write was accepted, no other write that has seen the same number of writes is, whatever happens in between.\<close>

lemma no_lost_update:
  assumes "sim H s" "put k n v s = (True, s1)" "put k n w (runPuts put calls s1) = (ok, s2)" "w \<noteq> v"
  shows "\<not> ok"
proof
  assume ok
  obtain H1 where H1: "sim H1 s1" "specPut n v (H k) = Some (H1 k)" using put_sim [OF assms(1,2)] by auto
  obtain H2 where H2: "sim H2 (runPuts put calls s1)" "\<forall>j. \<exists>more. H2 j = H1 j @ more" using run_prefix [OF H1(1)] by blast
  obtain H3 where H3: "specPut n w (H2 k) = Some (H3 k)" using put_sim [OF H2(1) assms(3)] \<open>ok\<close> by auto
  note h1 = specPut_SomeD [OF H1(2)]
  obtain more where more: "H2 k = H1 k @ more" using H2(2) by blast
  have "length (H2 k) = n + 1" "last (H2 k) = w" using H3 more h1(2) by (auto simp: specPut_def split: if_splits)
  with more h1 assms(4) show False by simp
qed

end

section \<open>The store\<close>

definition MaxRecoveryBackupBytes :: nat where "MaxRecoveryBackupBytes = 3000000"

record RecoveryBackup =
  rb_Revision :: nat
  rb_Payload :: string

record BackupRow =
  bk_vault_id :: string
  bk_backup :: RecoveryBackup
  bk_integrity_mac :: bytes

definition recoveryBackupMAC :: "string \<Rightarrow> RecoveryBackup \<Rightarrow> bytes \<Rightarrow> bytes" where
  "recoveryBackupMAC vaultID b key =
     hmac_sha256 key (bytes_of (jsonStruct (strField ''Domain'' ''vaulted/recovery-backup-store/v1'' @ strField ''VaultID'' vaultID @
       [(''Backup'', jsonStruct (intField ''revision'' (int (rb_Revision b)) @ strField ''payload'' (rb_Payload b)))])))"

definition readRecoveryBackup :: "string \<Rightarrow> bytes \<Rightarrow> BackupRow list \<Rightarrow> RecoveryBackup option res" where
  "readRecoveryBackup vaultID key rows =
     (case lookupBy (\<lambda>r. bk_vault_id r = vaultID) rows of
        None \<Rightarrow> Inr None
      | Some r \<Rightarrow>
          if bk_integrity_mac r \<noteq> recoveryBackupMAC vaultID (bk_backup r) key then Inl (Err ''Recovery backup MAC mismatch'')
          else Inr (Some (bk_backup r)))"

definition GetRecoveryBackup :: "bytes \<Rightarrow> string \<Rightarrow> BackupRow list \<Rightarrow> RecoveryBackup option res" where
  "GetRecoveryBackup key vaultID rows =
     (if length key \<noteq> 32 then Inl (Err ''backup ledger required'') else readRecoveryBackup vaultID key rows)"

text \<open>\<open>INSERT ... ON CONFLICT(vault_id) DO UPDATE\<close>; \<open>vaults\<close> are the ids of the vault table.\<close>

definition upsertBackup :: "string list \<Rightarrow> BackupRow \<Rightarrow> BackupRow list \<Rightarrow> BackupRow list res" where
  "upsertBackup vaults row rows =
     (if bk_vault_id row \<notin> set vaults then Inl (ErrConstraint ''FOREIGN KEY recovery_backup.vault_id'')
      else if rb_Revision (bk_backup row) = 0 \<or> sqlLength (rb_Payload (bk_backup row)) = 0 \<or> sqlLength (rb_Payload (bk_backup row)) > 3000000 \<or>
          length (bk_integrity_mac row) \<noteq> 32 then Inl (ErrConstraint ''CHECK recovery_backup'')
      else Inr (if bk_vault_id row \<in> bk_vault_id ` set rows
                then map (\<lambda>r. if bk_vault_id r = bk_vault_id row then row else r) rows else rows @ [row]))"

definition PutRecoveryBackup :: "string list \<Rightarrow> bytes \<Rightarrow> bool \<Rightarrow> string \<Rightarrow> nat \<Rightarrow> string \<Rightarrow> BackupRow list \<Rightarrow> RecoveryBackup res \<times> BackupRow list" where
  "PutRecoveryBackup vaults key commit_ok vaultID expected payload rows =
     (if length key \<noteq> 32 \<or> vaultID = [] \<or> length vaultID > 128 \<or> payload = [] \<or> length payload > MaxRecoveryBackupBytes \<or>
         expected \<ge> 2 ^ 53 - 1 then (Inl (Err ''invalid Recovery backup''), rows)
      else case readRecoveryBackup vaultID key rows of
        Inl e \<Rightarrow> (Inl e, rows)
      | Inr old \<Rightarrow>
          let current = (case old of None \<Rightarrow> 0 | Some b \<Rightarrow> rb_Revision b);
              b' = \<lparr> rb_Revision = expected + 1, rb_Payload = payload \<rparr> in
          if (case old of None \<Rightarrow> False | Some b \<Rightarrow> rb_Revision b = expected + 1 \<and> rb_Payload b = payload) then (Inr (the old), rows)
          else if current \<noteq> expected
            then (Inl (Err ''Recovery backup changed on another device; reopen with your passkey''), rows)
          else case upsertBackup vaults \<lparr> bk_vault_id = vaultID, bk_backup = b', bk_integrity_mac = recoveryBackupMAC vaultID b' key \<rparr> rows of
            Inl e \<Rightarrow> (Inl e, rows)
          | Inr rows' \<Rightarrow> if commit_ok then (Inr b', rows') else (Inl (Err ''commit''), rows))"

section \<open>The store implements versioned registers\<close>

definition backupSim :: "bytes \<Rightarrow> (string \<Rightarrow> string list) \<Rightarrow> BackupRow list \<Rightarrow> bool" where
  "backupSim key H rows \<longleftrightarrow>
     (\<forall>v. case lookupBy (\<lambda>r. bk_vault_id r = v) rows of
        None \<Rightarrow> H v = []
      | Some r \<Rightarrow> H v \<noteq> [] \<and> rb_Revision (bk_backup r) = length (H v) \<and> rb_Payload (bk_backup r) = last (H v) \<and>
          bk_integrity_mac r = recoveryBackupMAC v (bk_backup r) key)"

lemma upsertBackup_lookup:
  assumes "upsertBackup vaults row rows = Inr rows'"
  shows "lookupBy (\<lambda>r. bk_vault_id r = v) rows' = (if v = bk_vault_id row then Some row else lookupBy (\<lambda>r. bk_vault_id r = v) rows)"
proof -
  let ?f = "\<lambda>r. if bk_vault_id r = bk_vault_id row then row else r"
  have "lookupBy (\<lambda>r. bk_vault_id r = v) (map ?f rs) =
      (if v = bk_vault_id row \<and> bk_vault_id row \<in> bk_vault_id ` set rs then Some row else lookupBy (\<lambda>r. bk_vault_id r = v) rs)" for rs
    by (induction rs) auto
  moreover have "lookupBy (\<lambda>r. bk_vault_id r = bk_vault_id row) rows = None" if "bk_vault_id row \<notin> bk_vault_id ` set rows"
    using that unfolding lookupBy_None_iff by (metis imageI)
  moreover have "rows' = (if bk_vault_id row \<in> bk_vault_id ` set rows then map ?f rows else rows @ [row])"
    using assms by (auto simp: upsertBackup_def split: if_splits)
  ultimately show ?thesis
    by (cases "v = bk_vault_id row"; cases "lookupBy (\<lambda>r. bk_vault_id r = v) rows") (auto simp: lookupBy_append)
qed

lemma sim_read:
  assumes "backupSim key H rows"
  shows "readRecoveryBackup v key rows = Inr (if H v = [] then None else Some \<lparr> rb_Revision = length (H v), rb_Payload = last (H v) \<rparr>)"
proof -
  have "case lookupBy (\<lambda>r. bk_vault_id r = v) rows of
        None \<Rightarrow> H v = []
      | Some r \<Rightarrow> H v \<noteq> [] \<and> rb_Revision (bk_backup r) = length (H v) \<and> rb_Payload (bk_backup r) = last (H v) \<and>
          bk_integrity_mac r = recoveryBackupMAC v (bk_backup r) key" using assms by (simp add: backupSim_def)
  then show ?thesis by (cases "lookupBy (\<lambda>r. bk_vault_id r = v) rows") (auto simp: readRecoveryBackup_def)
qed

lemma sim_upsert:
  assumes "backupSim key H rows" "upsertBackup vaults \<lparr> bk_vault_id = v, bk_backup = b, bk_integrity_mac = recoveryBackupMAC v b key \<rparr> rows = Inr rows'"
    and "h \<noteq> []" "rb_Revision b = length h" "rb_Payload b = last h"
  shows "backupSim key (H (v := h)) rows'"
  unfolding backupSim_def
proof
  fix w
  have "case lookupBy (\<lambda>r. bk_vault_id r = w) rows of
        None \<Rightarrow> H w = []
      | Some r \<Rightarrow> H w \<noteq> [] \<and> rb_Revision (bk_backup r) = length (H w) \<and> rb_Payload (bk_backup r) = last (H w) \<and>
          bk_integrity_mac r = recoveryBackupMAC w (bk_backup r) key" using assms(1) by (simp add: backupSim_def)
  then show "case lookupBy (\<lambda>r. bk_vault_id r = w) rows' of
        None \<Rightarrow> (H (v := h)) w = []
      | Some r \<Rightarrow> (H (v := h)) w \<noteq> [] \<and> rb_Revision (bk_backup r) = length ((H (v := h)) w) \<and>
          rb_Payload (bk_backup r) = last ((H (v := h)) w) \<and> bk_integrity_mac r = recoveryBackupMAC w (bk_backup r) key"
    unfolding upsertBackup_lookup [OF assms(2)] using assms(3-5) by (cases "w = v"; cases "lookupBy (\<lambda>r. bk_vault_id r = w) rows") simp_all
qed

lemma put_backup_sim:
  assumes "backupSim key H rows" "PutRecoveryBackup vaults key commit_ok v n p rows = (res, rows')"
  shows "(\<exists>e. res = Inl e \<and> rows' = rows) \<or>
    (\<exists>h. res = Inr \<lparr> rb_Revision = n + 1, rb_Payload = p \<rparr> \<and> specPut n p (H v) = Some h \<and> backupSim key (H (v := h)) rows')"
proof (cases "res")
  case (Inl e)
  then show ?thesis using assms(2) by (auto simp: PutRecoveryBackup_def Let_def split: if_splits sum.splits)
next
  case (Inr b)
  let ?b = "\<lparr> rb_Revision = n + 1, rb_Payload = p \<rparr>"
  note r = sim_read [OF assms(1), of v]
  show ?thesis
  proof (cases "H v \<noteq> [] \<and> length (H v) = n + 1 \<and> last (H v) = p")
    case True
    then have "res = Inr ?b" "rows' = rows" using assms(2) Inr r by (auto simp: PutRecoveryBackup_def Let_def split: if_splits)
    moreover have "specPut n p (H v) = Some (H v)" using True by (simp add: specPut_def)
    ultimately show ?thesis using assms(1) by (intro disjI2 exI [of _ "H v"]) simp
  next
    case False
    then have u: "length (H v) = n" "upsertBackup vaults \<lparr> bk_vault_id = v, bk_backup = ?b, bk_integrity_mac = recoveryBackupMAC v ?b key \<rparr> rows = Inr rows'"
        "res = Inr ?b"
      using assms(2) Inr r by (auto simp: PutRecoveryBackup_def Let_def split: if_splits sum.splits)
    have "specPut n p (H v) = Some (H v @ [p])" using u(1) by (simp add: specPut_def)
    moreover have "backupSim key (H (v := H v @ [p])) rows'" by (rule sim_upsert [OF assms(1) u(2)]) (simp_all add: u(1))
    ultimately show ?thesis using u(3) by blast
  qed
qed

text \<open>A write as the contract sees it: whether it was accepted, and the rows after it.\<close>

definition backupPut :: "string list \<Rightarrow> bytes \<Rightarrow> string \<Rightarrow> nat \<Rightarrow> string \<Rightarrow> bool \<times> BackupRow list \<Rightarrow> bool \<times> (bool \<times> BackupRow list)" where
  "backupPut vaults key v n p st =
     (case PutRecoveryBackup vaults key (fst st) v n p (snd st) of (res, rows') \<Rightarrow> (\<not> isl res, (fst st, rows')))"

interpretation backup: versioned_store "\<lambda>H st. backupSim key H (snd st)" "backupPut vaults key" for vaults key
proof
  fix H :: "string \<Rightarrow> string list" and st :: "bool \<times> BackupRow list" and k n v ok st'
  assume s: "backupSim key H (snd st)" and p: "backupPut vaults key k n v st = (ok, st')"
  obtain res rows' where r: "PutRecoveryBackup vaults key (fst st) k n v (snd st) = (res, rows')" by force
  with p have ok: "ok = (\<not> isl res)" "st' = (fst st, rows')" by (auto simp: backupPut_def)
  from put_backup_sim [OF s r]
  show "\<exists>H'. backupSim key H' (snd st') \<and> (if ok then specPut n v (H k) = Some (H' k) else H' k = H k) \<and> (\<forall>j. j \<noteq> k \<longrightarrow> H' j = H j)"
  proof (elim disjE exE conjE)
    fix e assume "res = Inl e" "rows' = snd st"
    with s ok show ?thesis by (intro exI [of _ H]) simp
  next
    fix h assume "res = Inr \<lparr> rb_Revision = n + 1, rb_Payload = v \<rparr>" "specPut n v (H k) = Some h" "backupSim key (H (k := h)) rows'"
    with ok show ?thesis by (intro exI [of _ "H (k := h)"]) simp
  qed
qed

lemma backup_write_accepted:
  assumes "backupSim key H rows" "specPut n p (H v) \<noteq> None"
    and "length key = 32" "v \<noteq> []" "length v \<le> 128" "p \<noteq> []" "length p \<le> MaxRecoveryBackupBytes" "n < 2 ^ 53 - 1"
    and "v \<in> set vaults" "0 < sqlLength p" "sqlLength p \<le> 3000000"
  shows "\<exists>rows'. PutRecoveryBackup vaults key True v n p rows = (Inr \<lparr> rb_Revision = n + 1, rb_Payload = p \<rparr>, rows')"
proof -
  have "length (recoveryBackupMAC v b key) = 32" for b by (simp add: recoveryBackupMAC_def)
  moreover have "length (H v) = n \<or> length (H v) = n + 1 \<and> H v \<noteq> [] \<and> last (H v) = p"
    using assms(2) by (auto simp: specPut_def split: if_splits)
  ultimately show ?thesis using assms(3-11)
    by (auto simp: PutRecoveryBackup_def sim_read [OF assms(1)] upsertBackup_def Let_def)
qed

section \<open>Properties\<close>

text \<open>
  C35: \<open>PutRecoveryBackup\<close> implements the versioned register of its vault. From rows that store the history \<open>H\<close>, a write
  either fails and leaves the rows as they are, or answers with the next revision, is accepted by the register of the vault,
  and leaves rows that store the longer history. A write the register accepts is stored whenever its arguments are
  within the limits, the vault exists and the commit succeeds.
\<close>

theorem backup_refines_register:
  assumes "backupSim key H rows" "PutRecoveryBackup vaults key commit_ok v n p rows = (res, rows')"
  shows "((\<exists>e. res = Inl e \<and> rows' = rows) \<or>
      (\<exists>h. res = Inr \<lparr> rb_Revision = n + 1, rb_Payload = p \<rparr> \<and> specPut n p (H v) = Some h \<and> backupSim key (H (v := h)) rows' \<and>
         (length key = 32 \<longrightarrow> GetRecoveryBackup key v rows' = Inr (Some \<lparr> rb_Revision = n + 1, rb_Payload = p \<rparr>)))) \<and>
    (specPut n p (H v) \<noteq> None \<and> commit_ok \<and> length key = 32 \<and> v \<noteq> [] \<and> length v \<le> 128 \<and> p \<noteq> [] \<and>
      length p \<le> MaxRecoveryBackupBytes \<and> n < 2 ^ 53 - 1 \<and> v \<in> set vaults \<and> 0 < sqlLength p \<and> sqlLength p \<le> 3000000 \<longrightarrow>
      \<not> isl res)"
proof (intro conjI impI; (elim conjE)?)
  show "(\<exists>e. res = Inl e \<and> rows' = rows) \<or>
      (\<exists>h. res = Inr \<lparr> rb_Revision = n + 1, rb_Payload = p \<rparr> \<and> specPut n p (H v) = Some h \<and> backupSim key (H (v := h)) rows' \<and>
         (length key = 32 \<longrightarrow> GetRecoveryBackup key v rows' = Inr (Some \<lparr> rb_Revision = n + 1, rb_Payload = p \<rparr>)))"
    using put_backup_sim [OF assms]
  proof (elim disjE exE conjE)
    fix h assume h: "res = Inr \<lparr> rb_Revision = n + 1, rb_Payload = p \<rparr>" "specPut n p (H v) = Some h" "backupSim key (H (v := h)) rows'"
    have "length key = 32 \<longrightarrow> GetRecoveryBackup key v rows' = Inr (Some \<lparr> rb_Revision = n + 1, rb_Payload = p \<rparr>)"
      using sim_read [OF h(3), of v] specPut_SomeD [OF h(2)] by (simp add: GetRecoveryBackup_def)
    with h show ?thesis by blast
  qed simp
next
  assume a: "specPut n p (H v) \<noteq> None" "commit_ok" "length key = 32" "v \<noteq> []" "length v \<le> 128" "p \<noteq> []"
    "length p \<le> MaxRecoveryBackupBytes" "n < 2 ^ 53 - 1" "v \<in> set vaults" "0 < sqlLength p" "sqlLength p \<le> 3000000"
  show "\<not> isl res" using backup_write_accepted [OF assms(1) a(1,3-11)] assms(2) a(2) by auto
qed

theorem backup_refines_register_witness:
  "\<exists>rows'. PutRecoveryBackup [''v''] (replicate 32 0) True ''v'' 0 ''x'' [] = (Inr \<lparr> rb_Revision = 1, rb_Payload = ''x'' \<rparr>, rows')"
proof -
  have s: "backupSim (replicate 32 0) (\<lambda>_. []) []" by (simp add: backupSim_def)
  obtain res rows' where p: "PutRecoveryBackup [''v''] (replicate 32 0) True ''v'' 0 ''x'' [] = (res, rows')" by force
  note r = backup_refines_register [OF s p]
  have "\<not> isl res" by (rule mp [OF conjunct2 [OF r]]) (simp add: specPut_def MaxRecoveryBackupBytes_def)
  then show ?thesis using conjunct1 [OF r] p by auto
qed

text \<open>
  Once a write of a vault's archive was accepted, no later write of another payload that names the same expected revision
  is accepted, whatever writes to this and other vaults came in between: the second device must read the archive first.
\<close>

theorem backup_no_lost_update:
  assumes "backupSim key H rows" "backupPut vaults key v n p (True, rows) = (True, st1)" "q \<noteq> p"
  shows "\<not> fst (backupPut vaults key v n q (runPuts (backupPut vaults key) writes st1))"
  using backup.no_lost_update [of key H "(True, rows)" vaults v n p st1 q writes] assms by (metis prod.collapse snd_conv)

theorem backup_no_lost_update_witness:
  "let k = replicate 32 0; put = backupPut [''v''] k in
     fst (put ''v'' 0 ''x'' (True, [])) \<and>
     \<not> fst (put ''v'' 0 ''z'' (runPuts put [(''v'', 1, ''y''), (''v'', 1, ''w'')] (snd (put ''v'' 0 ''x'' (True, [])))))"
proof -
  let ?k = "replicate 32 (0 :: byte)"
  have s: "backupSim ?k (\<lambda>_. []) []" by (simp add: backupSim_def)
  obtain rows' where "PutRecoveryBackup [''v''] ?k True ''v'' 0 ''x'' [] = (Inr \<lparr> rb_Revision = 0 + 1, rb_Payload = ''x'' \<rparr>, rows')"
    using backup_write_accepted [OF s, of 0 "''x''" "''v''" "[''v'']"] by (auto simp: specPut_def MaxRecoveryBackupBytes_def)
  then have p: "backupPut [''v''] ?k ''v'' 0 ''x'' (True, []) = (True, (True, rows'))" by (simp add: backupPut_def)
  from backup_no_lost_update [OF s p, of "''z''"] show ?thesis unfolding Let_def p by simp
qed

end
