(* ===== verification/Board_Ledger.thy ===== *)
theory Board_Ledger
  imports Spend_Ledger Base64
begin

text \<open>
  The boarding journal (\<open>vault_board.go\<close>, \<open>vault_board_conflict.go\<close>): attempts to board one onchain outpoint through the
  Operator. Each attempt has a register phase and then a delete or a finalize phase; a phase is authorized, dispatched and
  answered by append-only rows. A final authorization is only given up on a confirmed conflict of its commitment.

  Bitcoin transactions are decoded by a third-party package: \<open>wire\<close> is \<open>wire.MsgTx.Deserialize\<close>, a parameter of the
  definitions that gives the decoded transaction and the number of bytes left unread.
\<close>

section \<open>Conflict evidence\<close>

record WireTx =
  wt_TxHash :: string
  wt_TxIn :: "(string \<times> u32) list"
  wt_HasWitness :: bool

type_synonym wire = "bytes \<Rightarrow> (WireTx \<times> nat) option"

record VaultBoardConflict =
  cf_OperationID :: string
  cf_Attempt :: u32
  cf_RequestDigest :: bytes
  cf_CommitmentRaw :: string
  cf_Evidence :: BitcoinConflictEvidence
  cf_CreatedAt :: string
  cf_IntegrityMAC :: bytes

text \<open>The JSON of a conflict. An empty digest (\<open>null\<close> or an empty string) never reaches a stored row: \<open>canonicalVaultBoardConflict\<close>
  requires 32 bytes. An array of numbers, which Go also decodes into a byte slice, is refused here; the code refuses it one
  step later, when it compares the row with its canonical form.\<close>

definition marshalConflict :: "VaultBoardConflict \<Rightarrow> string" where
  "marshalConflict r = jsonStruct
     (strField ''operationId'' (cf_OperationID r) @ intField ''attempt'' (uint (cf_Attempt r)) @
      [(''requestDigest'', if cf_RequestDigest r = [] then ''null'' else jsonString (stdEncode (cf_RequestDigest r)))] @
      strField ''commitmentRaw'' (cf_CommitmentRaw r) @ [(''evidence'', marshalBitcoinConflict (cf_Evidence r))] @
      strField ''createdAt'' (cf_CreatedAt r))"

fun decConflict :: "BitcoinConflictEvidence \<Rightarrow> json list \<Rightarrow> BitcoinConflictEvidence option" where
  "decConflict acc [] = Some acc"
| "decConflict acc (v # vs) =
     (case v of
        JNull \<Rightarrow> decConflict acc vs
      | JObj ms \<Rightarrow> (case mergeBitcoinConflict acc ms of Some p \<Rightarrow> decConflict p vs | None \<Rightarrow> None)
      | _ \<Rightarrow> None)"

definition unmarshalConflict :: "string \<Rightarrow> VaultBoardConflict option" where
  "unmarshalConflict s =
     (case jsonMembers s of
        None \<Rightarrow> None
      | Some ms \<Rightarrow>
          (case (decStr [] (fieldVals ms ''operationId''), decUint 32 0 (fieldVals ms ''attempt''), decBytes [] (fieldVals ms ''requestDigest''),
                 decStr [] (fieldVals ms ''commitmentRaw''), decConflict zeroBitcoinConflict (fieldVals ms ''evidence''),
                 decStr [] (fieldVals ms ''createdAt'')) of
             (Some oid, Some n, Some d, Some raw, Some e, Some c) \<Rightarrow>
               Some \<lparr> cf_OperationID = oid, cf_Attempt = word_of_nat n, cf_RequestDigest = d, cf_CommitmentRaw = raw, cf_Evidence = e,
                      cf_CreatedAt = c, cf_IntegrityMAC = [] \<rparr>
           | _ \<Rightarrow> None))"

definition parseConflictTx :: "wire \<Rightarrow> string \<Rightarrow> string \<Rightarrow> WireTx res" where
  "parseConflictTx wire raw want =
     (if raw = [] \<or> length raw > 512 * 1024 then Inl (Err ''vault-board-v1 conflict transaction size'')
      else case hexDecode raw of
        None \<Rightarrow> Inl (Err ''vault-board-v1 conflict transaction encoding'')
      | Some b \<Rightarrow>
          if hexEncode b \<noteq> raw then Inl (Err ''vault-board-v1 conflict transaction encoding'')
          else (case wire b of
              None \<Rightarrow> Inl (Err ''vault-board-v1 conflict transaction hash'')
            | Some (tx, unread) \<Rightarrow>
                if unread \<noteq> 0 \<or> wt_TxHash tx \<noteq> want then Inl (Err ''vault-board-v1 conflict transaction hash'') else Inr tx))"

definition ParseVaultBoardConflictCommitment :: "wire \<Rightarrow> VaultBoardConflict \<Rightarrow> WireTx res" where
  "ParseVaultBoardConflictCommitment wire r =
     (let e = cf_Evidence r in
      andThen (parseConflictTx wire (cf_CommitmentRaw r) (bc_CommitmentTxid e)) (\<lambda>original.
      if wt_TxIn original = [] \<or> length (wt_TxIn original) > 128 \<or> wt_HasWitness original
      then Inl (Err ''vault-board-v1 unsigned commitment required'')
      else andThen (parseConflictTx wire (bc_RawTransaction e) (bc_ConflictingTxid e)) (\<lambda>conflict.
        if unat (bc_ConflictingVin e) \<ge> length (wt_TxIn conflict) then Inl (Err ''vault-board-v1 conflict input'')
        else
          let prev = wt_TxIn conflict ! unat (bc_ConflictingVin e) in
          if prev \<noteq> (bc_FundingTxid e, bc_FundingVout e) then Inl (Err ''vault-board-v1 conflict outpoint'')
          else if prev \<in> set (wt_TxIn original) then Inr original
          else Inl (Err ''vault-board-v1 conflict does not spend a commitment input''))))"

definition canonicalVaultBoardConflict :: "wire \<Rightarrow> VaultBoardConflict \<Rightarrow> bytes res" where
  "canonicalVaultBoardConflict wire r =
     (if \<not> canonicalRenewalHex (cf_OperationID r) 32 \<or> length (cf_RequestDigest r) \<noteq> 32 \<or> cf_CreatedAt r = []
      then Inl (Err ''vault-board-v1 conflict identity'')
      else andThen (validateBitcoinConflictEvidence (cf_Evidence r)) (\<lambda>_.
        andThen (ParseVaultBoardConflictCommitment wire r) (\<lambda>_.
        boardCanonical ''arkade-vault/vault-board-v1-conflict/v1'' [bytes_of (marshalConflict r)])))"

definition verifyVaultBoardConflict :: "wire \<Rightarrow> VaultBoardConflict \<Rightarrow> bytes \<Rightarrow> unit res" where
  "verifyVaultBoardConflict wire r key = verifyVaultBoardMAC (canonicalVaultBoardConflict wire) r (cf_IntegrityMAC r) key"

section \<open>Queries\<close>

text \<open>A query by key gives the row or none; \<open>rowRequired\<close> is the error \<open>sql.ErrNoRows\<close> of a missing one.\<close>

definition rowRequired :: "'a option \<Rightarrow> 'a res" where
  "rowRequired r = (case r of None \<Rightarrow> Inl ErrNoRows | Some x \<Rightarrow> Inr x)"

definition loadVaultBoardOperation :: "string \<Rightarrow> DB \<Rightarrow> VaultBoardOperation option" where
  "loadVaultBoardOperation oid db = lookupBy (\<lambda>r. bo_OperationID r = oid) (db_vault_board_operation db)"

definition loadVaultBoardAuthorization :: "string \<Rightarrow> u32 \<Rightarrow> string \<Rightarrow> DB \<Rightarrow> VaultBoardAuthorization option" where
  "loadVaultBoardAuthorization oid attempt phase db =
     lookupBy (\<lambda>r. ba_OperationID r = oid \<and> ba_Attempt r = attempt \<and> ba_Phase r = phase) (db_vault_board_authorization db)"

definition loadVaultBoardSubmission :: "string \<Rightarrow> u32 \<Rightarrow> string \<Rightarrow> DB \<Rightarrow> VaultBoardSubmission option" where
  "loadVaultBoardSubmission oid attempt phase db =
     lookupBy (\<lambda>r. bs_OperationID r = oid \<and> bs_Attempt r = attempt \<and> bs_Phase r = phase) (db_vault_board_submission db)"

definition loadVaultBoardDispatch :: "string \<Rightarrow> u32 \<Rightarrow> string \<Rightarrow> DB \<Rightarrow> VaultBoardDispatch option" where
  "loadVaultBoardDispatch oid attempt phase db =
     lookupBy (\<lambda>r. bd_OperationID r = oid \<and> bd_Attempt r = attempt \<and> bd_Phase r = phase) (db_vault_board_dispatch db)"

definition loadOptionalVerifiedVaultBoardAuthorization :: "bytes \<Rightarrow> string \<Rightarrow> u32 \<Rightarrow> string \<Rightarrow> DB \<Rightarrow> VaultBoardAuthorization option res" where
  "loadOptionalVerifiedVaultBoardAuthorization key oid attempt phase db =
     (case loadVaultBoardAuthorization oid attempt phase db of
        None \<Rightarrow> Inr None
      | Some r \<Rightarrow> andThen (VerifyVaultBoardAuthorization r key) (\<lambda>_. Inr (Some r)))"

definition loadOptionalVerifiedVaultBoardSubmission :: "bytes \<Rightarrow> string \<Rightarrow> u32 \<Rightarrow> string \<Rightarrow> DB \<Rightarrow> VaultBoardSubmission option res" where
  "loadOptionalVerifiedVaultBoardSubmission key oid attempt phase db =
     (case loadVaultBoardSubmission oid attempt phase db of
        None \<Rightarrow> Inr None
      | Some r \<Rightarrow> andThen (VerifyVaultBoardSubmission r key) (\<lambda>_. Inr (Some r)))"

definition loadOptionalVerifiedVaultBoardDispatch :: "bytes \<Rightarrow> string \<Rightarrow> u32 \<Rightarrow> string \<Rightarrow> DB \<Rightarrow> VaultBoardDispatch option res" where
  "loadOptionalVerifiedVaultBoardDispatch key oid attempt phase db =
     (case loadVaultBoardDispatch oid attempt phase db of
        None \<Rightarrow> Inr None
      | Some r \<Rightarrow> andThen (VerifyVaultBoardDispatch r key) (\<lambda>_. Inr (Some r)))"

text \<open>The register rows of an operation, \<open>ORDER BY attempt\<close>, and the last of them.\<close>

definition boardRegisters :: "string \<Rightarrow> DB \<Rightarrow> VaultBoardAuthorization list" where
  "boardRegisters oid db = sort_key (\<lambda>r. unat (ba_Attempt r))
     (filter (\<lambda>r. ba_OperationID r = oid \<and> ba_Phase r = ''register'') (db_vault_board_authorization db))"

definition loadVerifiedVaultBoardRegisters :: "bytes \<Rightarrow> string \<Rightarrow> DB \<Rightarrow> VaultBoardAuthorization list res" where
  "loadVerifiedVaultBoardRegisters key oid db =
     andThen (forEach (\<lambda>r. VerifyVaultBoardAuthorization r key) (boardRegisters oid db)) (\<lambda>_. Inr (boardRegisters oid db))"

definition loadLatestVaultBoardRegister :: "string \<Rightarrow> DB \<Rightarrow> VaultBoardAuthorization option" where
  "loadLatestVaultBoardRegister oid db = (if boardRegisters oid db = [] then None else Some (last (boardRegisters oid db)))"

text \<open>The latest register, verified, as every writing call reads it.\<close>

definition latestVerifiedRegister :: "bytes \<Rightarrow> string \<Rightarrow> DB \<Rightarrow> VaultBoardAuthorization res" where
  "latestVerifiedRegister key oid db =
     andThen (rowRequired (loadLatestVaultBoardRegister oid db)) (\<lambda>r. andThen (VerifyVaultBoardAuthorization r key) (\<lambda>_. Inr r))"

section \<open>The conflict table\<close>

definition decodeConflictRow :: "wire \<Rightarrow> bytes \<Rightarrow> string \<Rightarrow> BoardConflictRow \<Rightarrow> VaultBoardConflict res" where
  "decodeConflictRow wire key oid row =
     (case unmarshalConflict (cr_payload row) of
        None \<Rightarrow> Inl (Err ''json'')
      | Some r \<Rightarrow>
          if marshalConflict r \<noteq> cr_payload row \<or> cf_OperationID r \<noteq> oid \<or> cf_Attempt r \<noteq> cr_attempt row
          then Inl (Err ''vault-board-v1 conflict record changed'')
          else let r' = r \<lparr> cf_IntegrityMAC := cr_integrity_mac row \<rparr> in
            andThen (verifyVaultBoardConflict wire r' key) (\<lambda>_. Inr r'))"

definition decodeConflictRows :: "wire \<Rightarrow> bytes \<Rightarrow> string \<Rightarrow> BoardConflictRow list \<Rightarrow> VaultBoardConflict list res" where
  "decodeConflictRows wire key oid rows =
     foldRes (\<lambda>acc row. andThen (decodeConflictRow wire key oid row) (\<lambda>r. Inr (acc @ [r]))) [] rows"

text \<open>Every final authorization but the latest needs a conflict, and every conflict belongs to a final authorization. The loop
  over the registers counts the conflicts it has matched.\<close>

definition conflictBinds :: "VaultBoardAuthorization \<Rightarrow> VaultBoardConflict \<Rightarrow> bool" where
  "conflictBinds final c \<longleftrightarrow> cf_RequestDigest c = ba_RequestDigest final \<and> bc_CommitmentTxid (cf_Evidence c) = ba_CommitmentTxid final"

fun matchConflicts :: "bytes \<Rightarrow> string \<Rightarrow> DB \<Rightarrow> VaultBoardConflict list \<Rightarrow> nat \<Rightarrow> VaultBoardAuthorization list \<Rightarrow> nat res" where
  "matchConflicts key oid db cs matched [] = Inr matched"
| "matchConflicts key oid db cs matched (register # rest) =
     (case loadVaultBoardAuthorization oid (ba_Attempt register) VaultBoardPhaseFinalize db of
        None \<Rightarrow>
          if \<exists>c\<in>set cs. cf_Attempt c = ba_Attempt register then Inl (Err ''vault-board-v1 conflict lacks final authority'')
          else matchConflicts key oid db cs matched rest
      | Some final \<Rightarrow>
          andThen (VerifyVaultBoardAuthorization final key) (\<lambda>_.
          let mine = filter (\<lambda>c. cf_Attempt c = ba_Attempt final) cs in
          if \<exists>c\<in>set mine. \<not> conflictBinds final c then Inl (Err ''vault-board-v1 conflict changed final authority'')
          else if rest \<noteq> [] \<and> mine = [] then Inl (Err ''vault-board-v1 historical final authority lacks conflict evidence'')
          else matchConflicts key oid db cs (matched + length mine) rest))"

definition loadVaultBoardConflicts :: "wire \<Rightarrow> bytes \<Rightarrow> string \<Rightarrow> DB \<Rightarrow> VaultBoardConflict list res" where
  "loadVaultBoardConflicts wire key oid db =
     andThen (decodeConflictRows wire key oid
       (sort_key (\<lambda>r. unat (cr_attempt r)) (filter (\<lambda>r. cr_operation_id r = oid) (db_vault_board_conflict db)))) (\<lambda>cs.
     andThen (loadVerifiedVaultBoardRegisters key oid db) (\<lambda>registers.
     andThen (matchConflicts key oid db cs 0 registers) (\<lambda>matched.
     if matched \<noteq> length cs then Inl (Err ''vault-board-v1 conflict lacks registered final authority'') else Inr cs)))"

section \<open>Checks shared by the writing calls\<close>

record VaultBoardChainState =
  ch_TipMTP :: int
  ch_ConflictChecks :: "bytes list"

definition requireVaultBoardCooperativeWindow :: "string \<Rightarrow> VaultBoardOperation \<Rightarrow> VaultBoardChainState \<Rightarrow> unit res" where
  "requireVaultBoardCooperativeWindow network operation chain =
     andThen (PinsFor network) (\<lambda>pins.
     let delay = uint (np_BoardExitDelay pins) in
     if bo_SequenceAnchorMTP operation \<le> 0 \<or> ch_TipMTP chain \<le> 0 then Inl (Err ''authoritative vault-board-v1 chain MTP required'')
     else if bo_SequenceAnchorMTP operation > maxInt64 - delay \<or> ch_TipMTP chain \<ge> bo_SequenceAnchorMTP operation + delay
       then Inl (Err ''vault-board-v1 cooperative path has matured'')
     else Inr ())"

definition requireVaultBoardConflictChecks :: "wire \<Rightarrow> write_result \<Rightarrow> bytes \<Rightarrow> string \<Rightarrow> VaultBoardChainState \<Rightarrow> unit act" where
  "requireVaultBoardConflictChecks wire w key oid chain =
     actBind (observeEconomicOutflowsLocked w) (\<lambda>_.
     actRead (\<lambda>l. andThen (loadVaultBoardConflicts wire key oid (lg_db l)) (\<lambda>cs.
       if \<exists>c\<in>set cs. cf_IntegrityMAC c \<notin> set (ch_ConflictChecks chain)
       then Inl (Err ''vault-board-v1 prior commitment conflict requires fresh chain evidence'') else Inr ())))"

definition sameVaultBoardOperationFacts :: "VaultBoardOperation \<Rightarrow> VaultBoardOperation \<Rightarrow> bool" where
  "sameVaultBoardOperationFacts stored proposed \<longleftrightarrow>
     bo_OperationID stored = bo_OperationID proposed \<and> bo_VaultID stored = bo_VaultID proposed \<and> bo_Txid stored = bo_Txid proposed \<and>
     bo_Vout stored = bo_Vout proposed \<and> bo_ValueSats stored = bo_ValueSats proposed \<and>
     bo_BoardingScript stored = bo_BoardingScript proposed \<and> bo_ReceiverScript stored = bo_ReceiverScript proposed \<and>
     bo_SequenceAnchorMTP stored = bo_SequenceAnchorMTP proposed"

definition sameVaultBoardAuthorizationRequest :: "VaultBoardAuthorization \<Rightarrow> VaultBoardAuthorization \<Rightarrow> bool" where
  "sameVaultBoardAuthorizationRequest stored proposed \<longleftrightarrow>
     ba_OperationID stored = ba_OperationID proposed \<and> ba_Attempt stored = ba_Attempt proposed \<and> ba_Phase stored = ba_Phase proposed \<and>
     ba_RequestDigest stored = ba_RequestDigest proposed \<and> ba_TreeSessionPub stored = ba_TreeSessionPub proposed \<and>
     ba_ReceiverSats stored = ba_ReceiverSats proposed \<and> ba_FeeSats stored = ba_FeeSats proposed \<and>
     ba_ExpireAt stored = ba_ExpireAt proposed \<and> ba_CommitmentTxid stored = ba_CommitmentTxid proposed \<and>
     ba_ReceiverTxid stored = ba_ReceiverTxid proposed \<and> ba_ReceiverVout stored = ba_ReceiverVout proposed"

text \<open>Whether the latest attempt may be replaced: its final authorization conflicted, its register never left the process, was
  rejected or has expired, or the Operator released it.\<close>

definition requireVaultBoardAttemptCanRotate :: "wire \<Rightarrow> bytes \<Rightarrow> string \<Rightarrow> u32 \<Rightarrow> time \<Rightarrow> DB \<Rightarrow> unit res" where
  "requireVaultBoardAttemptCanRotate wire key oid attempt now db =
     andThen (loadOptionalVerifiedVaultBoardAuthorization key oid attempt VaultBoardPhaseFinalize db) (\<lambda>finalAuth.
     case finalAuth of
       Some final \<Rightarrow>
         andThen (loadVaultBoardConflicts wire key oid db) (\<lambda>cs.
         if \<exists>c\<in>set cs. cf_Attempt c = attempt \<and> conflictBinds final c then Inr ()
         else Inl (Err ''finalized vault-board-v1 attempt cannot rotate''))
     | None \<Rightarrow>
         andThen (rowRequired (loadVaultBoardAuthorization oid attempt VaultBoardPhaseRegister db)) (\<lambda>register.
         andThen (VerifyVaultBoardAuthorization register key) (\<lambda>_.
         andThen (loadOptionalVerifiedVaultBoardDispatch key oid attempt VaultBoardPhaseRegister db) (\<lambda>registerDispatch.
         case registerDispatch of
           None \<Rightarrow> Inr ()
         | Some _ \<Rightarrow>
             andThen (loadOptionalVerifiedVaultBoardSubmission key oid attempt VaultBoardPhaseRegister db) (\<lambda>registerResult.
             case registerResult of
               None \<Rightarrow> Inl (Err ''previous vault-board-v1 register is still active'')
             | Some result \<Rightarrow>
                 if bs_Outcome result = VaultBoardAuthRejected then Inr ()
                 else
                   let superseded = (if bs_Outcome result = VaultBoardAuthSubmitted \<and> VaultBoardRegisterCanSupersede (ba_ExpireAt register) now
                                     then Inr () else Inl (Err ''previous vault-board-v1 register is still active'')) in
                   andThen (loadOptionalVerifiedVaultBoardAuthorization key oid attempt VaultBoardPhaseDelete db) (\<lambda>deleteAuth.
                   case deleteAuth of
                     None \<Rightarrow> superseded
                   | Some del \<Rightarrow>
                       andThen (loadOptionalVerifiedVaultBoardDispatch key oid attempt VaultBoardPhaseDelete db) (\<lambda>deleteDispatch.
                       case deleteDispatch of
                         None \<Rightarrow> superseded
                       | Some _ \<Rightarrow>
                           andThen (loadOptionalVerifiedVaultBoardSubmission key oid attempt VaultBoardPhaseDelete db) (\<lambda>deleteResult.
                           case deleteResult of
                             Some d \<Rightarrow>
                               if bs_Outcome d = VaultBoardAuthReleased \<and> bs_RequestDigest d = ba_RequestDigest del then Inr ()
                               else Inl (Err ''previous vault-board-v1 register is still active'')
                           | None \<Rightarrow> Inl (Err ''previous vault-board-v1 register is still active'')))))))))"

definition requireVaultBoardAttemptCurrent :: "bytes \<Rightarrow> string \<Rightarrow> u32 \<Rightarrow> DB \<Rightarrow> unit res" where
  "requireVaultBoardAttemptCurrent key oid attempt db =
     andThen (loadOptionalVerifiedVaultBoardSubmission key oid attempt VaultBoardPhaseRegister db) (\<lambda>registerResult.
     if (case registerResult of None \<Rightarrow> False | Some r \<Rightarrow> bs_Outcome r = VaultBoardAuthRejected)
     then Inl (Err ''vault-board-v1 register request was definitely rejected'')
     else andThen (loadOptionalVerifiedVaultBoardAuthorization key oid attempt VaultBoardPhaseFinalize db) (\<lambda>finalAuth.
     if finalAuth \<noteq> None then Inl (Err ''vault-board-v1 attempt has final authorization'')
     else andThen (loadOptionalVerifiedVaultBoardAuthorization key oid attempt VaultBoardPhaseDelete db) (\<lambda>deleteAuth.
     if deleteAuth \<noteq> None then Inl (Err ''vault-board-v1 attempt has delete authorization'')
     else andThen (loadOptionalVerifiedVaultBoardSubmission key oid attempt VaultBoardPhaseDelete db) (\<lambda>deleteResult.
     if deleteResult \<noteq> None then Inl (Err ''vault-board-v1 attempt was authoritatively released'') else Inr ()))))"

definition validateVaultBoardPhaseOrder :: "bytes \<Rightarrow> VaultBoardAuthorization \<Rightarrow> DB \<Rightarrow> unit res" where
  "validateVaultBoardPhaseOrder key auth db =
     (let oid = ba_OperationID auth; attempt = ba_Attempt auth; phase = ba_Phase auth in
      andThen (latestVerifiedRegister key oid db) (\<lambda>latest.
      if ba_Attempt latest \<noteq> attempt then Inl (Err ''vault-board-v1 attempt is no longer current'')
      else andThen (loadOptionalVerifiedVaultBoardAuthorization key oid attempt VaultBoardPhaseRegister db) (\<lambda>register.
      if phase = VaultBoardPhaseDelete \<or> phase = VaultBoardPhaseFinalize then
        (if register = None then Inl (Err ''vault-board-v1 register authorization required'')
         else case loadVaultBoardSubmission oid attempt VaultBoardPhaseRegister db of
           None \<Rightarrow> Inl (Err ''vault-board-v1 register submission required'')
         | Some submission \<Rightarrow>
             andThen (VerifyVaultBoardSubmission submission key) (\<lambda>_.
             if bs_Outcome submission \<noteq> VaultBoardAuthSubmitted then Inl (Err ''vault-board-v1 register was not accepted'')
             else
               let opposite = (if phase = VaultBoardPhaseFinalize then VaultBoardPhaseDelete else VaultBoardPhaseFinalize) in
               andThen (loadOptionalVerifiedVaultBoardAuthorization key oid attempt opposite db) (\<lambda>other.
               if other \<noteq> None then Inl (Err ''vault-board-v1 delete and finalize are mutually exclusive'') else Inr ())))
      else Inl (Err ''invalid vault-board-v1 phase''))))"

section \<open>Inserts\<close>

definition insertBoardOperation :: "VaultBoardOperation \<Rightarrow> DB \<Rightarrow> DB res" where
  "insertBoardOperation r db =
     (if bo_OperationID r \<in> bo_OperationID ` set (db_vault_board_operation db) \<or>
         (bo_VaultID r, bo_Txid r, bo_Vout r) \<in> (\<lambda>x. (bo_VaultID x, bo_Txid x, bo_Vout x)) ` set (db_vault_board_operation db)
        then Inl (ErrConstraint ''UNIQUE vault_board_operation'')
      else if bo_VaultID r \<notin> be_VaultID ` set (db_vault_board_enrollment db) then Inl (ErrConstraint ''FOREIGN KEY vault_board_operation.vault_id'')
      else if length (bo_Txid r) \<noteq> 32 \<or> bo_ValueSats r \<le> 0 \<or> length (bo_BoardingScript r) \<noteq> 34 \<or> bo_ReceiverScript r = [] \<or>
          length (bo_ReceiverScript r) > 10000 \<or> bo_SequenceAnchorMTP r \<le> 0 \<or> length (bo_IntegrityMAC r) \<noteq> 32
        then Inl (ErrConstraint ''CHECK vault_board_operation'')
      else Inr (db \<lparr> db_vault_board_operation := db_vault_board_operation db @ [r] \<rparr>))"

definition baKey :: "VaultBoardAuthorization \<Rightarrow> string \<times> u32 \<times> string" where
  "baKey r = (ba_OperationID r, ba_Attempt r, ba_Phase r)"

definition bdKey :: "VaultBoardDispatch \<Rightarrow> string \<times> u32 \<times> string" where
  "bdKey r = (bd_OperationID r, bd_Attempt r, bd_Phase r)"

definition bsKey :: "VaultBoardSubmission \<Rightarrow> string \<times> u32 \<times> string" where
  "bsKey r = (bs_OperationID r, bs_Attempt r, bs_Phase r)"

definition boardAuthorizationChecks :: "VaultBoardAuthorization \<Rightarrow> bool" where
  "boardAuthorizationChecks r \<longleftrightarrow>
     length (ba_RequestDigest r) = 32 \<and> (ba_TreeSessionPub r = [] \<or> length (ba_TreeSessionPub r) = 33) \<and>
     ba_ReceiverSats r \<ge> 0 \<and> ba_FeeSats r \<ge> 0 \<and> ba_ExpireAt r \<ge> 0 \<and> length (ba_IntegrityMAC r) = 32 \<and>
     (ba_Phase r = ''register'' \<and> ba_ExpireAt r > 0 \<and> length (ba_TreeSessionPub r) = 33 \<and> ba_ReceiverSats r > 0 \<and>
        sqlLength (ba_CommitmentTxid r) = 0 \<and> sqlLength (ba_ReceiverTxid r) = 0 \<and> ba_ReceiverVout r = 0 \<or>
      ba_Phase r = ''delete'' \<and> ba_ExpireAt r > 0 \<and> ba_TreeSessionPub r = [] \<and> ba_ReceiverSats r = 0 \<and> ba_FeeSats r = 0 \<and>
        sqlLength (ba_CommitmentTxid r) = 0 \<and> sqlLength (ba_ReceiverTxid r) = 0 \<and> ba_ReceiverVout r = 0 \<or>
      ba_Phase r = ''finalize'' \<and> ba_ExpireAt r = 0 \<and> ba_TreeSessionPub r = [] \<and> ba_ReceiverSats r = 0 \<and> ba_FeeSats r = 0 \<and>
        sqlLength (ba_CommitmentTxid r) = 64 \<and> sqlLength (ba_ReceiverTxid r) = 64)"

definition insertBoardAuthorization :: "VaultBoardAuthorization \<Rightarrow> DB \<Rightarrow> DB res" where
  "insertBoardAuthorization r db =
     (if baKey r \<in> baKey ` set (db_vault_board_authorization db) then Inl (ErrConstraint ''UNIQUE vault_board_authorization'')
      else if ba_OperationID r \<notin> bo_OperationID ` set (db_vault_board_operation db)
        then Inl (ErrConstraint ''FOREIGN KEY vault_board_authorization.operation_id'')
      else if \<not> boardAuthorizationChecks r then Inl (ErrConstraint ''CHECK vault_board_authorization'')
      else Inr (db \<lparr> db_vault_board_authorization := db_vault_board_authorization db @ [r] \<rparr>))"

definition insertBoardDispatch :: "VaultBoardDispatch \<Rightarrow> DB \<Rightarrow> DB res" where
  "insertBoardDispatch r db =
     (if bdKey r \<in> bdKey ` set (db_vault_board_dispatch db) then Inl (ErrConstraint ''UNIQUE vault_board_dispatch'')
      else if bdKey r \<notin> baKey ` set (db_vault_board_authorization db) then Inl (ErrConstraint ''FOREIGN KEY vault_board_dispatch'')
      else if length (bd_RequestDigest r) \<noteq> 32 \<or> length (bd_IntegrityMAC r) \<noteq> 32 then Inl (ErrConstraint ''CHECK vault_board_dispatch'')
      else Inr (db \<lparr> db_vault_board_dispatch := db_vault_board_dispatch db @ [r] \<rparr>))"

definition boardSubmissionChecks :: "VaultBoardSubmission \<Rightarrow> bool" where
  "boardSubmissionChecks r \<longleftrightarrow>
     length (bs_RequestDigest r) = 32 \<and> sqlLength (bs_OperatorRef r) \<le> 256 \<and> length (bs_IntegrityMAC r) = 32 \<and>
     (bs_Phase r = ''register'' \<and>
        (bs_Outcome r = ''submitted'' \<and> sqlLength (bs_OperatorRef r) > 0 \<or> bs_Outcome r = ''rejected'' \<and> sqlLength (bs_OperatorRef r) = 0) \<and>
        sqlLength (bs_CommitmentTxid r) = 0 \<and> sqlLength (bs_ReceiverTxid r) = 0 \<and> bs_ReceiverVout r = 0 \<or>
      bs_Phase r = ''delete'' \<and> bs_Outcome r = ''released'' \<and> sqlLength (bs_OperatorRef r) = 0 \<and>
        sqlLength (bs_CommitmentTxid r) = 0 \<and> sqlLength (bs_ReceiverTxid r) = 0 \<and> bs_ReceiverVout r = 0 \<or>
      bs_Phase r = ''finalize'' \<and> bs_Outcome r = ''submitted'' \<and> sqlLength (bs_OperatorRef r) = 0 \<and>
        sqlLength (bs_CommitmentTxid r) = 64 \<and> sqlLength (bs_ReceiverTxid r) = 64)"

definition insertBoardSubmission :: "VaultBoardSubmission \<Rightarrow> DB \<Rightarrow> DB res" where
  "insertBoardSubmission r db =
     (if bsKey r \<in> bsKey ` set (db_vault_board_submission db) then Inl (ErrConstraint ''UNIQUE vault_board_submission'')
      else if bsKey r \<notin> baKey ` set (db_vault_board_authorization db) \<or> bsKey r \<notin> bdKey ` set (db_vault_board_dispatch db)
        then Inl (ErrConstraint ''FOREIGN KEY vault_board_submission'')
      else if \<not> boardSubmissionChecks r then Inl (ErrConstraint ''CHECK vault_board_submission'')
      else Inr (db \<lparr> db_vault_board_submission := db_vault_board_submission db @ [r] \<rparr>))"

definition insertBoardConflict :: "BoardConflictRow \<Rightarrow> DB \<Rightarrow> DB res" where
  "insertBoardConflict r db =
     (if (cr_operation_id r, cr_attempt r) \<in> (\<lambda>x. (cr_operation_id x, cr_attempt x)) ` set (db_vault_board_conflict db)
        then Inl (ErrConstraint ''UNIQUE vault_board_conflict'')
      else if (cr_operation_id r, cr_attempt r, ''finalize'') \<notin> baKey ` set (db_vault_board_authorization db)
        then Inl (ErrConstraint ''FOREIGN KEY vault_board_conflict'')
      else if sqlLength (cr_payload r) = 0 \<or> sqlLength (cr_payload r) > 1048576 \<or> length (cr_integrity_mac r) \<noteq> 32
        then Inl (ErrConstraint ''CHECK vault_board_conflict'')
      else Inr (db \<lparr> db_vault_board_conflict := db_vault_board_conflict db @ [r] \<rparr>))"

section \<open>Writing calls\<close>

record VaultBoardRegisterRequest =
  rr_RequestDigest :: bytes
  rr_TreeSessionPub :: bytes
  rr_ReceiverSats :: int
  rr_FeeSats :: int
  rr_ExpireAt :: int

definition observeSequence :: "write_result \<Rightarrow> unit act" where
  "observeSequence w = (\<lambda>l. case observeEconomicOutflowsLocked w l of (res, l') \<Rightarrow> (wrapErr ''policy sequence'' res, l'))"

text \<open>The stored operation of the outpoint, which must state the same facts, or a new row.\<close>

definition bindBoardOperation :: "time \<Rightarrow> bytes \<Rightarrow> VaultBoardOperation \<Rightarrow> VaultBoardOperation act" where
  "bindBoardOperation now key operation l =
     (case loadVaultBoardOperation (bo_OperationID operation) (lg_db l) of
        Some stored \<Rightarrow>
          (case VerifyVaultBoardOperation stored key of
             Inl e \<Rightarrow> (Inl e, l)
           | Inr _ \<Rightarrow>
               if \<not> sameVaultBoardOperationFacts stored operation
               then (Inl (Err ''vault-board-v1 outpoint is bound to different economic facts''), l) else (Inr stored, l))
      | None \<Rightarrow>
          (case SealVaultBoardOperation (operation \<lparr> bo_CreatedAt := formatRFC3339Nano now \<rparr>) key of
             Inl e \<Rightarrow> (Inl e, l)
           | Inr sealed \<Rightarrow> actBind (actDB (\<lambda>l. insertBoardOperation sealed (lg_db l))) (\<lambda>_. actPure sealed) l))"

text \<open>The loop over the prior registers: the first one that shares the digest or the session key, and whether it is the latest.\<close>

fun firstReuse :: "VaultBoardRegisterRequest \<Rightarrow> VaultBoardAuthorization list \<Rightarrow> (VaultBoardAuthorization \<times> bool) option" where
  "firstReuse request [] = None"
| "firstReuse request (prior # rest) =
     (if ba_RequestDigest prior = rr_RequestDigest request \<or> ba_TreeSessionPub prior = rr_TreeSessionPub request then Some (prior, rest = [])
      else firstReuse request rest)"

definition sameRegisterRequest :: "VaultBoardAuthorization \<Rightarrow> VaultBoardRegisterRequest \<Rightarrow> bool" where
  "sameRegisterRequest prior request \<longleftrightarrow>
     ba_RequestDigest prior = rr_RequestDigest request \<and> ba_TreeSessionPub prior = rr_TreeSessionPub request \<and>
     ba_ReceiverSats prior = rr_ReceiverSats request \<and> ba_FeeSats prior = rr_FeeSats request \<and> ba_ExpireAt prior = rr_ExpireAt request"

definition nextAttempt :: "wire \<Rightarrow> bytes \<Rightarrow> string \<Rightarrow> time \<Rightarrow> VaultBoardAuthorization list \<Rightarrow> DB \<Rightarrow> u32 res" where
  "nextAttempt wire key oid now registers db =
     (if registers = [] then Inr 0
      else if ba_Attempt (last registers) = 4294967295 then Inl (Err ''vault-board-v1 attempt overflow'')
      else andThen (requireVaultBoardAttemptCanRotate wire key oid (ba_Attempt (last registers)) now db) (\<lambda>_.
        Inr (ba_Attempt (last registers) + 1)))"

definition registerAttempt :: "wire \<Rightarrow> Env \<Rightarrow> bytes \<Rightarrow> string \<Rightarrow> VaultBoardRegisterRequest \<Rightarrow> VaultBoardAuthorization list \<Rightarrow> VaultBoardAuthorization act" where
  "registerAttempt wire env key oid request registers =
     actBind (actRead (\<lambda>l. nextAttempt wire key oid (env_now env) registers (lg_db l))) (\<lambda>attempt.
     actBind (actRead (\<lambda>_. SealVaultBoardAuthorization
       \<lparr> ba_OperationID = oid, ba_Attempt = attempt, ba_Phase = VaultBoardPhaseRegister, ba_RequestDigest = rr_RequestDigest request,
         ba_TreeSessionPub = rr_TreeSessionPub request, ba_ReceiverSats = rr_ReceiverSats request, ba_FeeSats = rr_FeeSats request,
         ba_ExpireAt = rr_ExpireAt request, ba_CommitmentTxid = [], ba_ReceiverTxid = [], ba_ReceiverVout = 0,
         ba_CreatedAt = formatRFC3339Nano (env_now env), ba_IntegrityMAC = [] \<rparr> key)) (\<lambda>auth.
     actBind (actDB (\<lambda>l. insertBoardAuthorization auth (lg_db l))) (\<lambda>_.
     actBind (observeSequence (env_write env)) (\<lambda>_. actPure auth))))"

definition beginBody :: "wire \<Rightarrow> Env \<Rightarrow> VaultBoardOperation \<Rightarrow> VaultBoardRegisterRequest \<Rightarrow> VaultBoardChainState \<Rightarrow>
    (VaultBoardOperation \<times> VaultBoardAuthorization \<times> bool) act" where
  "beginBody wire env operation request chain =
     (let oid = bo_OperationID operation in
      actBind (actRead integrityKeyCopy) (\<lambda>key.
      actBind (bindBoardOperation (env_now env) key operation) (\<lambda>stored.
      actBind (actRead (\<lambda>l. requireVaultBoardCooperativeWindow (lg_network l) stored chain)) (\<lambda>_.
      actBind (requireVaultBoardConflictChecks wire (env_write0 env) key oid chain) (\<lambda>_.
      actBind (actRead (\<lambda>l. loadVerifiedVaultBoardRegisters key oid (lg_db l))) (\<lambda>registers.
      case firstReuse request registers of
        Some (prior, isLatest) \<Rightarrow>
          if isLatest \<and> sameRegisterRequest prior request
          then actBind (actRead (\<lambda>l. requireVaultBoardAttemptCurrent key oid (ba_Attempt prior) (lg_db l))) (\<lambda>_. actPure (stored, prior, False))
          else actRead (\<lambda>_. Inl (Err ''vault-board-v1 attempt must rotate register digest and tree session key''))
      | None \<Rightarrow>
          actBind (registerAttempt wire env key oid request registers) (\<lambda>auth. actPure (stored, auth, True))))))))"

definition BeginVaultBoardAttempt :: "wire \<Rightarrow> Env \<Rightarrow> VaultBoardOperation \<Rightarrow> VaultBoardRegisterRequest \<Rightarrow> VaultBoardChainState \<Rightarrow>
    (VaultBoardOperation \<times> VaultBoardAuthorization \<times> bool) act" where
  "BeginVaultBoardAttempt wire env operation request chain l =
     (case ComputeVaultBoardOperationID (bo_VaultID operation) (bo_Txid operation) (bo_Vout operation) of
        Inl e \<Rightarrow> (Inl e, l)
      | Inr oid \<Rightarrow>
          if bo_OperationID operation \<noteq> [] \<and> bo_OperationID operation \<noteq> oid then (Inl (Err ''vault-board-v1 operation id is server-derived''), l)
          else if length (rr_RequestDigest request) \<noteq> 32 \<or> length (rr_TreeSessionPub request) \<noteq> 33 \<or> rr_ReceiverSats request \<le> 0 \<or>
              rr_FeeSats request < 0 \<or> rr_ReceiverSats request > maxInt64 - rr_FeeSats request \<or>
              rr_ReceiverSats request + rr_FeeSats request \<noteq> bo_ValueSats operation \<or> rr_ExpireAt request \<le> unixSec (env_pre env)
            then (Inl (Err ''vault-board-v1 finite register request required''), l)
          else inTx (env_commit env) (beginBody wire env (operation \<lparr> bo_OperationID := oid \<rparr>) request chain) l)"

text \<open>The operation of a call after the checks every later phase starts with.\<close>

definition boardPhaseChecks :: "wire \<Rightarrow> Env \<Rightarrow> bytes \<Rightarrow> string \<Rightarrow> VaultBoardChainState \<Rightarrow> VaultBoardOperation act" where
  "boardPhaseChecks wire env key oid chain =
     actBind (actRead (\<lambda>l. rowRequired (loadVaultBoardOperation oid (lg_db l)))) (\<lambda>operation.
     actBind (actRead (\<lambda>_. VerifyVaultBoardOperation operation key)) (\<lambda>_.
     actBind (actRead (\<lambda>l. requireVaultBoardCooperativeWindow (lg_network l) operation chain)) (\<lambda>_.
     actBind (requireVaultBoardConflictChecks wire (env_write0 env) key oid chain) (\<lambda>_. actPure operation))))"

definition currentAttempt :: "bytes \<Rightarrow> string \<Rightarrow> u32 \<Rightarrow> DB \<Rightarrow> unit res" where
  "currentAttempt key oid attempt db =
     andThen (latestVerifiedRegister key oid db) (\<lambda>latest.
     if ba_Attempt latest \<noteq> attempt then Inl (Err ''vault-board-v1 attempt is no longer current'') else Inr ())"

text \<open>The stored authorization of the phase, which must be the same request, or a new row.\<close>

definition authorizeBoardPhase :: "time \<Rightarrow> bytes \<Rightarrow> VaultBoardAuthorization \<Rightarrow> VaultBoardAuthorization act" where
  "authorizeBoardPhase now key auth l =
     (case loadVaultBoardAuthorization (ba_OperationID auth) (ba_Attempt auth) (ba_Phase auth) (lg_db l) of
        Some stored \<Rightarrow>
          (case VerifyVaultBoardAuthorization stored key of
             Inl e \<Rightarrow> (Inl e, l)
           | Inr _ \<Rightarrow>
               if \<not> sameVaultBoardAuthorizationRequest stored auth
               then (Inl (Err ''vault-board-v1 phase is bound to a different exact request''), l) else (Inr stored, l))
      | None \<Rightarrow>
          actBind (actRead (\<lambda>l. validateVaultBoardPhaseOrder key auth (lg_db l))) (\<lambda>_.
          actBind (actRead (\<lambda>_. SealVaultBoardAuthorization (auth \<lparr> ba_CreatedAt := formatRFC3339Nano now \<rparr>) key)) (\<lambda>sealed.
          actBind (actDB (\<lambda>l. insertBoardAuthorization sealed (lg_db l))) (\<lambda>_. actPure sealed))) l)"

text \<open>A new dispatch row, unless the phase has a result.\<close>

definition writeBoardDispatch :: "Env \<Rightarrow> bytes \<Rightarrow> VaultBoardDispatch \<Rightarrow> VaultBoardDispatch act" where
  "writeBoardDispatch env key d =
     actBind (actRead (\<lambda>l. case loadVaultBoardSubmission (bd_OperationID d) (bd_Attempt d) (bd_Phase d) (lg_db l) of
         Some _ \<Rightarrow> Inl (Err ''vault-board-v1 result already recorded'') | None \<Rightarrow> Inr ())) (\<lambda>_.
     actBind (actRead (\<lambda>_. SealVaultBoardDispatch (d \<lparr> bd_CreatedAt := formatRFC3339Nano (env_now env) \<rparr>) key)) (\<lambda>sealed.
     actBind (actDB (\<lambda>l. insertBoardDispatch sealed (lg_db l))) (\<lambda>_.
     actBind (observeSequence (env_write env)) (\<lambda>_. actPure sealed))))"

definition existingDispatch :: "bytes \<Rightarrow> VaultBoardDispatch \<Rightarrow> DB \<Rightarrow> VaultBoardDispatch option res" where
  "existingDispatch key d db =
     andThen (loadOptionalVerifiedVaultBoardDispatch key (bd_OperationID d) (bd_Attempt d) (bd_Phase d) db) (\<lambda>found.
     case found of
       None \<Rightarrow> Inr None
     | Some x \<Rightarrow> if bd_RequestDigest x \<noteq> bd_RequestDigest d then Inl (Err ''vault-board-v1 dispatch request changed'') else Inr (Some x))"

definition authorizeBody :: "wire \<Rightarrow> Env \<Rightarrow> VaultBoardAuthorization \<Rightarrow> VaultBoardChainState \<Rightarrow>
    (VaultBoardAuthorization \<times> VaultBoardDispatch \<times> bool) act" where
  "authorizeBody wire env auth chain =
     actBind (actRead integrityKeyCopy) (\<lambda>key.
     actBind (boardPhaseChecks wire env key (ba_OperationID auth) chain) (\<lambda>_.
     actBind (actRead (\<lambda>l. currentAttempt key (ba_OperationID auth) (ba_Attempt auth) (lg_db l))) (\<lambda>_.
     actBind (authorizeBoardPhase (env_now env) key auth) (\<lambda>auth.
     let d = \<lparr> bd_OperationID = ba_OperationID auth, bd_Attempt = ba_Attempt auth, bd_Phase = ba_Phase auth,
               bd_RequestDigest = ba_RequestDigest auth, bd_CreatedAt = [], bd_IntegrityMAC = [] \<rparr> in
     actBind (actRead (\<lambda>l. existingDispatch key d (lg_db l))) (\<lambda>found.
     case found of
       Some x \<Rightarrow> actPure (auth, x, False)
     | None \<Rightarrow> actBind (writeBoardDispatch env key d) (\<lambda>x. actPure (auth, x, True)))))))"

definition AppendVaultBoardAuthorizationAndDispatch :: "wire \<Rightarrow> Env \<Rightarrow> VaultBoardAuthorization \<Rightarrow> VaultBoardChainState \<Rightarrow>
    (VaultBoardAuthorization \<times> VaultBoardDispatch \<times> bool) act" where
  "AppendVaultBoardAuthorizationAndDispatch wire env auth chain l =
     (if ba_Phase auth \<noteq> VaultBoardPhaseDelete \<and> ba_Phase auth \<noteq> VaultBoardPhaseFinalize
        then (Inl (Err ''vault-board-v1 atomic dispatch is delete/final only''), l)
      else if ba_OperationID auth = [] then (Inl (Err ''vault-board-v1 operation required''), l)
      else inTx (env_commit env) (authorizeBody wire env auth chain) l)"

definition dispatchBody :: "wire \<Rightarrow> Env \<Rightarrow> VaultBoardDispatch \<Rightarrow> VaultBoardChainState \<Rightarrow> (VaultBoardDispatch \<times> bool) act" where
  "dispatchBody wire env d chain =
     actBind (actRead integrityKeyCopy) (\<lambda>key.
     actBind (boardPhaseChecks wire env key (bd_OperationID d) chain) (\<lambda>_.
     actBind (actRead (\<lambda>l. existingDispatch key d (lg_db l))) (\<lambda>found.
     case found of
       Some x \<Rightarrow> actPure (x, False)
     | None \<Rightarrow>
         actBind (actRead (\<lambda>l. rowRequired (loadVaultBoardAuthorization (bd_OperationID d) (bd_Attempt d) (bd_Phase d) (lg_db l)))) (\<lambda>auth.
         actBind (actRead (\<lambda>_. VerifyVaultBoardAuthorization auth key)) (\<lambda>_.
         actBind (actRead (\<lambda>_. if ba_RequestDigest auth \<noteq> bd_RequestDigest d then Inl (Err ''vault-board-v1 dispatch request changed'')
           else Inr ())) (\<lambda>_.
         actBind (actRead (\<lambda>l. currentAttempt key (bd_OperationID d) (bd_Attempt d) (lg_db l))) (\<lambda>_.
         actBind (writeBoardDispatch env key d) (\<lambda>x. actPure (x, True)))))))))"

definition AppendVaultBoardDispatch :: "wire \<Rightarrow> Env \<Rightarrow> VaultBoardDispatch \<Rightarrow> VaultBoardChainState \<Rightarrow> (VaultBoardDispatch \<times> bool) act" where
  "AppendVaultBoardDispatch wire env d chain = inTx (env_commit env) (dispatchBody wire env d chain)"

text \<open>The checks of a new Operator result: its authorization, no conflict of a final commitment, and its dispatch.\<close>

definition submissionChecks :: "wire \<Rightarrow> bytes \<Rightarrow> VaultBoardSubmission \<Rightarrow> DB \<Rightarrow> unit res" where
  "submissionChecks wire key r db =
     (let oid = bs_OperationID r; attempt = bs_Attempt r; phase = bs_Phase r in
      andThen (rowRequired (loadVaultBoardAuthorization oid attempt phase db)) (\<lambda>auth.
      andThen (VerifyVaultBoardAuthorization auth key) (\<lambda>_.
      if ba_RequestDigest auth \<noteq> bs_RequestDigest r then Inl (Err ''vault-board-v1 request changed'')
      else andThen (if phase = VaultBoardPhaseFinalize
          then andThen (loadVaultBoardConflicts wire key oid db) (\<lambda>cs.
            if \<exists>c\<in>set cs. cf_Attempt c = attempt then Inl (Err ''vault-board-v1 commitment was invalidated by a confirmed conflict'') else Inr ())
          else Inr ()) (\<lambda>_.
      case loadVaultBoardDispatch oid attempt phase db of
        None \<Rightarrow> Inl (Err ''vault-board-v1 dispatch required'')
      | Some d \<Rightarrow>
          andThen (VerifyVaultBoardDispatch d key) (\<lambda>_.
          if bd_RequestDigest d \<noteq> bs_RequestDigest r then Inl (Err ''vault-board-v1 dispatch request changed'') else Inr ())))))"

definition sameSubmission :: "VaultBoardSubmission \<Rightarrow> VaultBoardSubmission \<Rightarrow> bool" where
  "sameSubmission x r \<longleftrightarrow> bs_RequestDigest x = bs_RequestDigest r \<and> bs_Outcome x = bs_Outcome r \<and> bs_OperatorRef x = bs_OperatorRef r \<and>
     bs_CommitmentTxid x = bs_CommitmentTxid r \<and> bs_ReceiverTxid x = bs_ReceiverTxid r \<and> bs_ReceiverVout x = bs_ReceiverVout r"

definition submissionBody :: "wire \<Rightarrow> Env \<Rightarrow> VaultBoardSubmission \<Rightarrow> (VaultBoardSubmission \<times> bool) act" where
  "submissionBody wire env r =
     actBind (actRead integrityKeyCopy) (\<lambda>key.
     actBind (observeEconomicOutflowsLocked (env_write0 env)) (\<lambda>_.
     actBind (actRead (\<lambda>l. loadOptionalVerifiedVaultBoardSubmission key (bs_OperationID r) (bs_Attempt r) (bs_Phase r) (lg_db l))) (\<lambda>found.
     case found of
       Some x \<Rightarrow> if \<not> sameSubmission x r then actRead (\<lambda>_. Inl (Err ''vault-board-v1 Operator result changed'')) else actPure (x, False)
     | None \<Rightarrow>
         actBind (actRead (\<lambda>l. submissionChecks wire key r (lg_db l))) (\<lambda>_.
         actBind (actRead (\<lambda>_. SealVaultBoardSubmission (r \<lparr> bs_CreatedAt := formatRFC3339Nano (env_now env) \<rparr>) key)) (\<lambda>sealed.
         actBind (actDB (\<lambda>l. insertBoardSubmission sealed (lg_db l))) (\<lambda>_.
         actBind (observeSequence (env_write env)) (\<lambda>_. actPure (sealed, True))))))))"

definition AppendVaultBoardSubmission :: "wire \<Rightarrow> Env \<Rightarrow> VaultBoardSubmission \<Rightarrow> (VaultBoardSubmission \<times> bool) act" where
  "AppendVaultBoardSubmission wire env r = inTx (env_commit env) (submissionBody wire env r)"

definition conflictChecks :: "wire \<Rightarrow> bytes \<Rightarrow> VaultBoardOperation \<Rightarrow> VaultBoardConflict \<Rightarrow> DB \<Rightarrow> unit res" where
  "conflictChecks wire key operation r db =
     (let oid = cf_OperationID r; attempt = cf_Attempt r in
      andThen (rowRequired (loadVaultBoardAuthorization oid attempt VaultBoardPhaseFinalize db)) (\<lambda>auth.
      andThen (VerifyVaultBoardAuthorization auth key) (\<lambda>_.
      if \<not> conflictBinds auth r then Inl (Err ''vault-board-v1 conflict changed final authorization'')
      else andThen (latestVerifiedRegister key oid db) (\<lambda>latest.
      if ba_Attempt latest \<noteq> attempt then Inl (Err ''vault-board-v1 conflict attempt is no longer current'')
      else case loadVaultBoardSubmission oid attempt VaultBoardPhaseFinalize db of
        Some _ \<Rightarrow> Inl (Err ''vault-board-v1 submitted commitment cannot be invalidated'')
      | None \<Rightarrow>
          if bc_FundingTxid (cf_Evidence r) = hexEncode (bo_Txid operation) \<and> bc_FundingVout (cf_Evidence r) = bo_Vout operation
          then Inl (Err ''vault-board-v1 conflict must preserve the boarding outpoint'') else Inr ()))))"

definition conflictBody :: "wire \<Rightarrow> Env \<Rightarrow> VaultBoardConflict \<Rightarrow> VaultBoardChainState \<Rightarrow> unit act" where
  "conflictBody wire env r chain =
     actBind (actRead integrityKeyCopy) (\<lambda>key.
     actBind (boardPhaseChecks wire env key (cf_OperationID r) chain) (\<lambda>operation.
     actBind (actRead (\<lambda>l. conflictChecks wire key operation r (lg_db l))) (\<lambda>_.
     let r = r \<lparr> cf_CreatedAt := formatRFC3339Nano (env_now env) \<rparr> in
     actBind (actRead (\<lambda>_. vaultBoardMAC (canonicalVaultBoardConflict wire) r key)) (\<lambda>mac.
     actBind (actRead (\<lambda>_. ParseVaultBoardConflictCommitment wire r)) (\<lambda>original.
     if (hexEncode (bo_Txid operation), bo_Vout operation) \<notin> set (wt_TxIn original)
     then actRead (\<lambda>_. Inl (Err ''vault-board-v1 conflict commitment lacks boarding input''))
     else actBind (actDB (\<lambda>l. insertBoardConflict
         \<lparr> cr_operation_id = cf_OperationID r, cr_attempt = cf_Attempt r, cr_payload = marshalConflict r, cr_integrity_mac = mac \<rparr> (lg_db l))) (\<lambda>_.
       observeEconomicOutflowsLocked (env_write env)))))))"

definition AppendVaultBoardConflict :: "wire \<Rightarrow> Env \<Rightarrow> VaultBoardConflict \<Rightarrow> VaultBoardChainState \<Rightarrow> unit act" where
  "AppendVaultBoardConflict wire env r chain = inTx (env_commit env) (conflictBody wire env r chain)"

section \<open>Reading calls\<close>

definition GetVaultBoardEnrollment :: "string \<Rightarrow> Ledger \<Rightarrow> VaultBoardEnrollment option res" where
  "GetVaultBoardEnrollment vaultID l =
     (if vaultID = [] then Inl (Err ''vault id required'')
      else andThen (integrityKeyCopy l) (\<lambda>key.
        case lookupBy (\<lambda>r. be_VaultID r = vaultID) (db_vault_board_enrollment (lg_db l)) of
          None \<Rightarrow> Inr None
        | Some r \<Rightarrow> andThen (VerifyVaultBoardEnrollment r key) (\<lambda>_. Inr (Some r))))"

record VaultBoardAttemptSnapshot =
  sn_Operation :: VaultBoardOperation
  sn_Register :: VaultBoardAuthorization
  sn_RegisterDispatch :: "VaultBoardDispatch option"
  sn_RegisterSubmission :: "VaultBoardSubmission option"
  sn_DeleteAuthorization :: "VaultBoardAuthorization option"
  sn_DeleteDispatch :: "VaultBoardDispatch option"
  sn_DeleteSubmission :: "VaultBoardSubmission option"
  sn_FinalAuthorization :: "VaultBoardAuthorization option"
  sn_FinalDispatch :: "VaultBoardDispatch option"
  sn_FinalSubmission :: "VaultBoardSubmission option"
  sn_Conflicts :: "VaultBoardConflict list"

definition resultBound :: "VaultBoardSubmission option \<Rightarrow> VaultBoardAuthorization option \<Rightarrow> bool" where
  "resultBound result auth = (case result of None \<Rightarrow> True | Some r \<Rightarrow>
     (case auth of None \<Rightarrow> False | Some a \<Rightarrow> bs_RequestDigest r = ba_RequestDigest a))"

definition dispatchBound :: "VaultBoardDispatch option \<Rightarrow> VaultBoardAuthorization option \<Rightarrow> bool" where
  "dispatchBound d auth = (case d of None \<Rightarrow> True | Some r \<Rightarrow>
     (case auth of None \<Rightarrow> False | Some a \<Rightarrow> bd_RequestDigest r = ba_RequestDigest a))"

definition GetCurrentVaultBoardAttempt :: "wire \<Rightarrow> string \<Rightarrow> Ledger \<Rightarrow> VaultBoardAttemptSnapshot option res" where
  "GetCurrentVaultBoardAttempt wire oid l =
     (if oid = [] then Inl (Err ''vault-board-v1 operation id required'')
      else andThen (integrityKeyCopy l) (\<lambda>key.
      let db = lg_db l in
      case loadVaultBoardOperation oid db of
        None \<Rightarrow> Inr None
      | Some operation \<Rightarrow>
          andThen (VerifyVaultBoardOperation operation key) (\<lambda>_.
          case loadLatestVaultBoardRegister oid db of
            None \<Rightarrow> Inl (Err ''vault-board-v1 operation has no register attempt'')
          | Some register \<Rightarrow>
              let n = ba_Attempt register in
              andThen (VerifyVaultBoardAuthorization register key) (\<lambda>_.
              andThen (loadOptionalVerifiedVaultBoardDispatch key oid n VaultBoardPhaseRegister db) (\<lambda>rd.
              andThen (loadOptionalVerifiedVaultBoardSubmission key oid n VaultBoardPhaseRegister db) (\<lambda>rs.
              andThen (loadOptionalVerifiedVaultBoardAuthorization key oid n VaultBoardPhaseDelete db) (\<lambda>da.
              andThen (loadOptionalVerifiedVaultBoardDispatch key oid n VaultBoardPhaseDelete db) (\<lambda>dd.
              andThen (loadOptionalVerifiedVaultBoardSubmission key oid n VaultBoardPhaseDelete db) (\<lambda>ds.
              andThen (loadOptionalVerifiedVaultBoardAuthorization key oid n VaultBoardPhaseFinalize db) (\<lambda>fa.
              andThen (loadOptionalVerifiedVaultBoardDispatch key oid n VaultBoardPhaseFinalize db) (\<lambda>fd.
              andThen (loadOptionalVerifiedVaultBoardSubmission key oid n VaultBoardPhaseFinalize db) (\<lambda>fs.
              if \<not> resultBound rs (Some register) then Inl (Err ''vault-board-v1 register result digest mismatch'')
              else if \<not> resultBound ds da then Inl (Err ''vault-board-v1 delete result digest mismatch'')
              else if \<not> resultBound fs fa then Inl (Err ''vault-board-v1 final result digest mismatch'')
              else if \<not> dispatchBound rd (Some register) \<or> \<not> dispatchBound dd da \<or> \<not> dispatchBound fd fa
                then Inl (Err ''vault-board-v1 %s dispatch digest mismatch'')
              else andThen (loadVaultBoardConflicts wire key oid db) (\<lambda>cs.
                Inr (Some \<lparr> sn_Operation = operation, sn_Register = register, sn_RegisterDispatch = rd, sn_RegisterSubmission = rs,
                  sn_DeleteAuthorization = da, sn_DeleteDispatch = dd, sn_DeleteSubmission = ds, sn_FinalAuthorization = fa,
                  sn_FinalDispatch = fd, sn_FinalSubmission = fs, sn_Conflicts = cs \<rparr>))))))))))))))"

end
