(* ===== verification/Board_Protocol.thy ===== *)
theory Board_Protocol
  imports Main
begin

text \<open>
  What the boarding journal promises, as a protocol of guarded events. For every boarding outpoint (named by its operation) a
  numbered list of attempts is registered with the Operator; the current attempt can be deleted or finalized, and is replaced
  only when it cannot take effect any more. The state holds the request digest and the session key of each registered
  attempt, the authorized delete and finalize phases, the requests that left the process, the Operator's results and the
  confirmed conflicts.
\<close>

section \<open>State and events\<close>

record 'd Boarding =
  bg_registers :: "string \<Rightarrow> ('d \<times> 'd) list"
  bg_phases :: "(string \<times> nat \<times> string) set"
  bg_sent :: "(string \<times> nat \<times> string) set"
  bg_results :: "string \<times> nat \<times> string \<Rightarrow> string option"
  bg_conflicts :: "(string \<times> nat) set"

text \<open>An attempt with a final authorization is only given up on a conflict of its commitment. Otherwise it can be replaced when
  its register request was never sent, was rejected, was released by a delete, or was accepted and no delete of it was sent. In the last
  case the journal also waits until the accepted request has expired; the protocol has no clock and leaves that to the journal.\<close>

definition replaceable :: "'d Boarding \<Rightarrow> string \<Rightarrow> nat \<Rightarrow> bool" where
  "replaceable b oid n \<longleftrightarrow>
     (if (oid, n, ''finalize'') \<in> bg_phases b then (oid, n) \<in> bg_conflicts b
      else (oid, n, ''register'') \<notin> bg_sent b \<or> bg_results b (oid, n, ''register'') = Some ''rejected'' \<or>
        bg_results b (oid, n, ''delete'') = Some ''released'' \<or>
        bg_results b (oid, n, ''register'') = Some ''submitted'' \<and> (oid, n, ''delete'') \<notin> bg_sent b)"

inductive boarding_step :: "'d Boarding \<Rightarrow> 'd Boarding \<Rightarrow> bool" where
  register: "\<forall>(d', k')\<in>set (bg_registers b oid). d' \<noteq> d \<and> k' \<noteq> k \<Longrightarrow>
    bg_registers b oid \<noteq> [] \<Longrightarrow> replaceable b oid (length (bg_registers b oid) - 1) \<Longrightarrow>
    boarding_step b (b \<lparr> bg_registers := (bg_registers b) (oid := bg_registers b oid @ [(d, k)]) \<rparr>)"
| first: "bg_registers b oid = [] \<Longrightarrow> boarding_step b (b \<lparr> bg_registers := (bg_registers b) (oid := [(d, k)]) \<rparr>)"
| authorize: "ph \<in> {''delete'', ''finalize''} \<Longrightarrow> length (bg_registers b oid) = Suc n \<Longrightarrow>
    bg_results b (oid, n, ''register'') = Some ''submitted'' \<Longrightarrow>
    (oid, n, if ph = ''finalize'' then ''delete'' else ''finalize'') \<notin> bg_phases b \<Longrightarrow>
    boarding_step b (b \<lparr> bg_phases := insert (oid, n, ph) (bg_phases b) \<rparr>)"
| dispatch: "ph = ''register'' \<or> (oid, n, ph) \<in> bg_phases b \<Longrightarrow> length (bg_registers b oid) = Suc n \<Longrightarrow>
    bg_results b (oid, n, ph) = None \<Longrightarrow> boarding_step b (b \<lparr> bg_sent := insert (oid, n, ph) (bg_sent b) \<rparr>)"
| result: "(oid, n, ph) \<in> bg_sent b \<Longrightarrow> bg_results b (oid, n, ph) = None \<Longrightarrow> (ph = ''finalize'' \<longrightarrow> (oid, n) \<notin> bg_conflicts b) \<Longrightarrow>
    boarding_step b (b \<lparr> bg_results := (bg_results b) ((oid, n, ph) \<mapsto> outcome) \<rparr>)"
| conflict: "(oid, n, ''finalize'') \<in> bg_phases b \<Longrightarrow> length (bg_registers b oid) = Suc n \<Longrightarrow>
    bg_results b (oid, n, ''finalize'') = None \<Longrightarrow> boarding_step b (b \<lparr> bg_conflicts := insert (oid, n) (bg_conflicts b) \<rparr>)"

definition boardingInit :: "'d Boarding" where
  "boardingInit = \<lparr> bg_registers = (\<lambda>_. []), bg_phases = {}, bg_sent = {}, bg_results = (\<lambda>_. None), bg_conflicts = {} \<rparr>"

definition boarding_reach :: "'d Boarding \<Rightarrow> bool" where
  "boarding_reach b \<longleftrightarrow> boarding_step\<^sup>*\<^sup>* boardingInit b"

section \<open>Invariant\<close>

definition boardingInv :: "'d Boarding \<Rightarrow> bool" where
  "boardingInv b \<longleftrightarrow>
     (\<forall>oid. distinct (map fst (bg_registers b oid)) \<and> distinct (map snd (bg_registers b oid))) \<and>
     (\<forall>oid n ph. (oid, n, ph) \<in> bg_phases b \<longrightarrow> ph \<in> {''delete'', ''finalize''} \<and> n < length (bg_registers b oid)) \<and>
     (\<forall>oid n. (oid, n, ''delete'') \<in> bg_phases b \<longrightarrow> (oid, n, ''finalize'') \<notin> bg_phases b) \<and>
     (\<forall>oid n. (oid, n, ''finalize'') \<in> bg_phases b \<and> Suc n < length (bg_registers b oid) \<longrightarrow> (oid, n) \<in> bg_conflicts b) \<and>
     (\<forall>oid n. (oid, n) \<in> bg_conflicts b \<longrightarrow> (oid, n, ''finalize'') \<in> bg_phases b \<and> bg_results b (oid, n, ''finalize'') = None) \<and>
     (\<forall>oid n ph. (oid, n, ph) \<in> bg_sent b \<longrightarrow> ph = ''register'' \<or> (oid, n, ph) \<in> bg_phases b) \<and>
     (\<forall>oid n ph. bg_results b (oid, n, ph) \<noteq> None \<longrightarrow> (oid, n, ph) \<in> bg_sent b)"

lemma boardingInvD:
  assumes "boardingInv b"
  shows "distinct (map fst (bg_registers b oid))" "distinct (map snd (bg_registers b oid))"
    and "(oid, n, ph) \<in> bg_phases b \<Longrightarrow> ph \<in> {''delete'', ''finalize''} \<and> n < length (bg_registers b oid)"
    and "(oid, n, ''delete'') \<in> bg_phases b \<Longrightarrow> (oid, n, ''finalize'') \<notin> bg_phases b"
    and "(oid, n, ''finalize'') \<in> bg_phases b \<Longrightarrow> Suc n < length (bg_registers b oid) \<Longrightarrow> (oid, n) \<in> bg_conflicts b"
    and "(oid, n) \<in> bg_conflicts b \<Longrightarrow> (oid, n, ''finalize'') \<in> bg_phases b \<and> bg_results b (oid, n, ''finalize'') = None"
    and "(oid, n, ph) \<in> bg_sent b \<Longrightarrow> ph = ''register'' \<or> (oid, n, ph) \<in> bg_phases b"
    and "bg_results b (oid, n, ph) \<noteq> None \<Longrightarrow> (oid, n, ph) \<in> bg_sent b"
  using assms unfolding boardingInv_def by blast+

lemma boardingInv_init: "boardingInv boardingInit"
  by (simp add: boardingInv_def boardingInit_def)

lemma boardingInv_register:
  assumes "boardingInv b" "\<forall>(d', k')\<in>set (bg_registers b oid). d' \<noteq> d \<and> k' \<noteq> k"
    and "bg_registers b oid \<noteq> [] \<Longrightarrow> replaceable b oid (length (bg_registers b oid) - 1)"
  shows "boardingInv (b \<lparr> bg_registers := (bg_registers b) (oid := bg_registers b oid @ [(d, k)]) \<rparr>)" (is "boardingInv ?b")
proof -
  note D = boardingInvD [OF assms(1)]
  have "d \<notin> fst ` set (bg_registers b oid)" "k \<notin> snd ` set (bg_registers b oid)" using assms(2) by force+
  then have keys: "distinct (map fst (bg_registers ?b p))" "distinct (map snd (bg_registers ?b p))" for p
    using D(1,2) [of p] by auto
  have bound: "ph \<in> {''delete'', ''finalize''} \<and> n < length (bg_registers ?b p)" if "(p, n, ph) \<in> bg_phases ?b" for p n ph
    using D(3) [of p n ph] that by auto
  have old: "(p, n) \<in> bg_conflicts ?b" if "(p, n, ''finalize'') \<in> bg_phases ?b" "Suc n < length (bg_registers ?b p)" for p n
  proof (cases "p = oid \<and> Suc n = length (bg_registers b oid)")
    case True
    then have "bg_registers b oid \<noteq> []" "length (bg_registers b oid) - 1 = n" by auto
    with assms(3) that(1) True show ?thesis by (simp add: replaceable_def)
  next
    case False
    then have "Suc n < length (bg_registers b p)" using that(2) by (auto split: if_splits)
    with D(5) that(1) show ?thesis by simp
  qed
  show ?thesis unfolding boardingInv_def using keys bound old D(4,6,7,8) by auto
qed

lemma boardingInv_step: "boarding_step b b' \<Longrightarrow> boardingInv b \<Longrightarrow> boardingInv b'"
proof (induction rule: boarding_step.induct)
  case (register b oid d k)
  then show ?case by (intro boardingInv_register)
next
  case (first b oid d k)
  then show ?case using boardingInv_register [of b oid d k] by simp
next
  case (authorize ph b oid n)
  note D = boardingInvD [OF authorize(5)]
  show ?case unfolding boardingInv_def
    using authorize(1-4) by (intro conjI allI impI) (auto simp: D(1,2) dest: D(3,4,6) D(5) D(7) intro: D(8) split: if_splits)
next
  case (dispatch ph oid n b)
  note D = boardingInvD [OF dispatch(4)]
  show ?case unfolding boardingInv_def
    using dispatch(1-3) by (intro conjI allI impI) (auto simp: D(1,2) dest: D(3,4,6) D(5) D(7) intro: D(8) split: if_splits)
next
  case (result oid n ph b outcome)
  note D = boardingInvD [OF result(4)]
  show ?case unfolding boardingInv_def
    using result(1-3) by (intro conjI allI impI) (auto simp: D(1,2) dest: D(3,4,6) D(5) D(7) intro: D(8) split: if_splits)
next
  case (conflict oid n b)
  note D = boardingInvD [OF conflict(4)]
  show ?case unfolding boardingInv_def
    using conflict(1-3) by (intro conjI allI impI) (auto simp: D(1,2) dest: D(3,4,6) D(5) D(7) intro: D(8) split: if_splits)
qed

lemma boarding_reach_inv: "boarding_reach b \<Longrightarrow> boardingInv b"
  unfolding boarding_reach_def by (induction rule: rtranclp_induct) (auto intro: boardingInv_init boardingInv_step)

text \<open>At most one attempt of an operation ever has a final result.\<close>

lemma single_final_result:
  assumes "boardingInv b" "bg_results b (oid, n, ''finalize'') \<noteq> None" "bg_results b (oid, m, ''finalize'') \<noteq> None"
  shows "n = m"
proof (rule ccontr)
  note D = boardingInvD [OF assms(1)]
  have earlier: False if "i < j" "bg_results b (oid, i, ''finalize'') \<noteq> None" "bg_results b (oid, j, ''finalize'') \<noteq> None" for i j
  proof -
    have f: "(oid, i, ''finalize'') \<in> bg_phases b" "(oid, j, ''finalize'') \<in> bg_phases b"
      using D(7) [OF D(8) [OF that(2)]] D(7) [OF D(8) [OF that(3)]] by auto
    have "Suc i < length (bg_registers b oid)" using D(3) [OF f(2)] that(1) by simp
    then show False using D(6) [OF D(5) [OF f(1)]] that(2) by simp
  qed
  assume "n \<noteq> m"
  then show False using earlier [of n m] earlier [of m n] assms(2,3) by (cases "n < m") simp_all
qed

end
