(* ===== verification/Board_Props.thy ===== *)
theory Board_Props
  imports Board_Ledger Board_Protocol
begin

text \<open>
  The boarding journal implements the boarding protocol: \<open>boardAbs\<close> reads the protocol's state off the tables, and every
  writing call is a sequence of protocol events on it. What the protocol guarantees holds of every reachable ledger.
\<close>

section \<open>Abstraction\<close>

definition abKey :: "string \<times> u32 \<times> string \<Rightarrow> string \<times> nat \<times> string" where
  "abKey k = (fst k, unat (fst (snd k)), snd (snd k))"

definition boardAbs :: "DB \<Rightarrow> bytes Boarding" where
  "boardAbs db =
     \<lparr> bg_registers = (\<lambda>oid. map (\<lambda>a. (ba_RequestDigest a, ba_TreeSessionPub a)) (boardRegisters oid db)),
       bg_phases = (\<lambda>a. abKey (baKey a)) ` {a \<in> set (db_vault_board_authorization db). ba_Phase a \<noteq> ''register''},
       bg_sent = (\<lambda>d. abKey (bdKey d)) ` set (db_vault_board_dispatch db),
       bg_results = (\<lambda>k. map_option bs_Outcome (lookupBy (\<lambda>s. abKey (bsKey s) = k) (db_vault_board_submission db))),
       bg_conflicts = (\<lambda>r. (cr_operation_id r, unat (cr_attempt r))) ` set (db_vault_board_conflict db) \<rparr>"

text \<open>The attempts of an operation are numbered from zero without gaps.\<close>

definition numbered :: "DB \<Rightarrow> bool" where
  "numbered db \<longleftrightarrow> (\<forall>oid. map (\<lambda>a. unat (ba_Attempt a)) (boardRegisters oid db) = [0..<length (boardRegisters oid db)])"

lemma abKey_eq [simp]: "abKey k = (oid, unat n, ph) \<longleftrightarrow> k = (oid, n, ph)"
  by (cases k) (auto simp: abKey_def word_unat_eq_iff)

lemma abKey_inject [simp]: "abKey k = abKey k' \<longleftrightarrow> k = k'"
  by (cases k; cases k') (auto simp: abKey_def word_unat_eq_iff)

lemma abs_results: "bg_results (boardAbs db) (oid, unat n, ph) = map_option bs_Outcome (loadVaultBoardSubmission oid n ph db)"
  by (simp add: boardAbs_def loadVaultBoardSubmission_def bsKey_def)

lemma abs_phases:
  "ph \<noteq> ''register'' \<Longrightarrow> (oid, unat n, ph) \<in> bg_phases (boardAbs db) \<longleftrightarrow> loadVaultBoardAuthorization oid n ph db \<noteq> None"
  unfolding loadVaultBoardAuthorization_def not_None_eq [symmetric] lookupBy_None_iff
  by (auto simp: boardAbs_def image_iff baKey_def eq_commute [of "(oid, unat n, ph)"])

lemma abs_sent: "(oid, unat n, ph) \<in> bg_sent (boardAbs db) \<longleftrightarrow> loadVaultBoardDispatch oid n ph db \<noteq> None"
  unfolding loadVaultBoardDispatch_def lookupBy_None_iff
  by (auto simp: boardAbs_def image_iff bdKey_def eq_commute [of "(oid, unat n, ph)"])

lemma abs_registers: "length (bg_registers (boardAbs db) oid) = length (boardRegisters oid db)"
  by (simp add: boardAbs_def)

section \<open>What an insert does to the protocol state\<close>

lemma sort_key_snoc_max:
  assumes "\<forall>x\<in>set xs. f x \<le> f a"
  shows "sort_key f (xs @ [a]) = sort_key f xs @ [a]"
proof (rule properties_for_sort_key)
  show "mset (sort_key f xs @ [a]) = mset (xs @ [a])" by simp
  show "filter (\<lambda>y. f k = f y) (sort_key f xs @ [a]) = filter (\<lambda>y. f k = f y) (xs @ [a])" for k
    using sort_key_stable [of f "f k" xs] by (simp add: eq_commute [of "f k"])
  show "sorted (map f (sort_key f xs @ [a]))" using assms by (simp add: sorted_append)
qed

lemma registers_same [simp]:
  "boardRegisters oid (db \<lparr> db_vault_board_operation := ops \<rparr>) = boardRegisters oid db"
  "boardRegisters oid (db \<lparr> db_vault_board_dispatch := ds \<rparr>) = boardRegisters oid db"
  "boardRegisters oid (db \<lparr> db_vault_board_submission := ss \<rparr>) = boardRegisters oid db"
  "boardRegisters oid (db \<lparr> db_vault_board_conflict := cs \<rparr>) = boardRegisters oid db"
  by (simp_all add: boardRegisters_def)

lemma registers_new:
  assumes "ba_Phase a = ''register''" "\<forall>r\<in>set (boardRegisters (ba_OperationID a) db). unat (ba_Attempt r) \<le> unat (ba_Attempt a)"
  shows "boardRegisters oid (db \<lparr> db_vault_board_authorization := db_vault_board_authorization db @ [a] \<rparr>) =
    (if oid = ba_OperationID a then boardRegisters oid db @ [a] else boardRegisters oid db)"
  using assms sort_key_snoc_max [of "filter (\<lambda>r. ba_OperationID r = oid \<and> ba_Phase r = ''register'') (db_vault_board_authorization db)"
      "\<lambda>r. unat (ba_Attempt r)" a]
  by (auto simp: boardRegisters_def)

lemma registers_phase:
  "ba_Phase a \<noteq> ''register'' \<Longrightarrow>
    boardRegisters oid (db \<lparr> db_vault_board_authorization := db_vault_board_authorization db @ [a] \<rparr>) = boardRegisters oid db"
  by (simp add: boardRegisters_def)

lemma abs_new_operation: "boardAbs (db \<lparr> db_vault_board_operation := ops \<rparr>) = boardAbs db"
  by (simp add: boardAbs_def)

lemma abs_new_register:
  assumes "ba_Phase a = ''register''" "\<forall>r\<in>set (boardRegisters (ba_OperationID a) db). unat (ba_Attempt r) \<le> unat (ba_Attempt a)"
  shows "boardAbs (db \<lparr> db_vault_board_authorization := db_vault_board_authorization db @ [a] \<rparr>) =
    boardAbs db \<lparr> bg_registers := (bg_registers (boardAbs db)) (ba_OperationID a :=
      bg_registers (boardAbs db) (ba_OperationID a) @ [(ba_RequestDigest a, ba_TreeSessionPub a)]) \<rparr>"
  using registers_new [OF assms] assms(1) by (auto simp: boardAbs_def fun_eq_iff)

lemma abs_new_phase:
  assumes "ba_Phase a \<noteq> ''register''"
  shows "boardAbs (db \<lparr> db_vault_board_authorization := db_vault_board_authorization db @ [a] \<rparr>) =
    boardAbs db \<lparr> bg_phases := insert (ba_OperationID a, unat (ba_Attempt a), ba_Phase a) (bg_phases (boardAbs db)) \<rparr>"
  using assms by (auto simp: boardAbs_def registers_phase abKey_def baKey_def)

lemma abs_new_dispatch:
  "boardAbs (db \<lparr> db_vault_board_dispatch := db_vault_board_dispatch db @ [d] \<rparr>) =
    boardAbs db \<lparr> bg_sent := insert (bd_OperationID d, unat (bd_Attempt d), bd_Phase d) (bg_sent (boardAbs db)) \<rparr>"
  by (auto simp: boardAbs_def abKey_def bdKey_def)

lemma abs_new_submission:
  assumes "loadVaultBoardSubmission (bs_OperationID s) (bs_Attempt s) (bs_Phase s) db = None"
  shows "boardAbs (db \<lparr> db_vault_board_submission := db_vault_board_submission db @ [s] \<rparr>) =
    boardAbs db \<lparr> bg_results := (bg_results (boardAbs db)) ((bs_OperationID s, unat (bs_Attempt s), bs_Phase s) \<mapsto> bs_Outcome s) \<rparr>"
proof -
  have k: "abKey (bsKey s) = (bs_OperationID s, unat (bs_Attempt s), bs_Phase s)" by (simp add: abKey_def bsKey_def)
  have "lookupBy (\<lambda>x. abKey (bsKey x) = abKey (bsKey s)) (db_vault_board_submission db) = None"
    using assms by (simp add: loadVaultBoardSubmission_def bsKey_def)
  then show ?thesis by (auto simp: boardAbs_def fun_eq_iff lookupBy_append k [symmetric] split: option.splits)
qed

lemma abs_new_conflict:
  "boardAbs (db \<lparr> db_vault_board_conflict := db_vault_board_conflict db @ [r] \<rparr>) =
    boardAbs db \<lparr> bg_conflicts := insert (cr_operation_id r, unat (cr_attempt r)) (bg_conflicts (boardAbs db)) \<rparr>"
  by (auto simp: boardAbs_def)

lemma numbered_last:
  assumes "numbered db" "boardRegisters oid db \<noteq> []"
  shows "Suc (unat (ba_Attempt (last (boardRegisters oid db)))) = length (boardRegisters oid db)"
proof -
  let ?r = "boardRegisters oid db"
  have "last (map (\<lambda>a. unat (ba_Attempt a)) ?r) = last [0..<length ?r]" using assms(1) unfolding numbered_def by metis
  then show ?thesis using assms(2) by (simp add: last_map last_upt)
qed

lemma numbered_less:
  assumes "numbered db" "r \<in> set (boardRegisters oid db)"
  shows "unat (ba_Attempt r) < length (boardRegisters oid db)"
proof -
  have "unat (ba_Attempt r) \<in> set (map (\<lambda>a. unat (ba_Attempt a)) (boardRegisters oid db))" using assms(2) by simp
  then show ?thesis using assms(1) unfolding numbered_def by (metis atLeastLessThan_iff atLeastLessThan_upt)
qed

section \<open>What the queries show\<close>

lemma optional_loads:
  "loadOptionalVerifiedVaultBoardAuthorization key oid n ph db = Inr a \<Longrightarrow> loadVaultBoardAuthorization oid n ph db = a"
  "loadOptionalVerifiedVaultBoardSubmission key oid n ph db = Inr s \<Longrightarrow> loadVaultBoardSubmission oid n ph db = s"
  "loadOptionalVerifiedVaultBoardDispatch key oid n ph db = Inr d \<Longrightarrow> loadVaultBoardDispatch oid n ph db = d"
  by (auto simp: loadOptionalVerifiedVaultBoardAuthorization_def loadOptionalVerifiedVaultBoardSubmission_def
      loadOptionalVerifiedVaultBoardDispatch_def andThen_Inr_iff split: option.splits)

text \<open>The continuation of a verified load sees the row itself.\<close>

lemma andThen_value: "(\<And>x. m = Inr x \<Longrightarrow> x = v) \<Longrightarrow> andThen m f = Inr y \<longleftrightarrow> \<not> isl m \<and> f v = Inr y"
  by (cases m) auto

lemma optional_binds:
  "andThen (loadOptionalVerifiedVaultBoardAuthorization key oid n ph db) f = Inr y \<longleftrightarrow>
    \<not> isl (loadOptionalVerifiedVaultBoardAuthorization key oid n ph db) \<and> f (loadVaultBoardAuthorization oid n ph db) = Inr y"
  "andThen (loadOptionalVerifiedVaultBoardSubmission key oid n ph db) g = Inr y \<longleftrightarrow>
    \<not> isl (loadOptionalVerifiedVaultBoardSubmission key oid n ph db) \<and> g (loadVaultBoardSubmission oid n ph db) = Inr y"
  "andThen (loadOptionalVerifiedVaultBoardDispatch key oid n ph db) h = Inr y \<longleftrightarrow>
    \<not> isl (loadOptionalVerifiedVaultBoardDispatch key oid n ph db) \<and> h (loadVaultBoardDispatch oid n ph db) = Inr y"
  by (rule andThen_value, erule optional_loads [symmetric])+

lemma rowRequired_Inr_iff: "rowRequired r = Inr x \<longleftrightarrow> r = Some x"
  by (auto simp: rowRequired_def split: option.splits)

lemma andThen_row: "andThen (rowRequired r) f = Inr y \<longleftrightarrow> (\<exists>x. r = Some x \<and> f x = Inr y)"
  by (auto simp: andThen_Inr_iff rowRequired_Inr_iff)

lemma andThen_check: "andThen m f = Inr y \<longleftrightarrow> m = Inr () \<and> f () = Inr y"
  by (cases m) auto

lemmas board_binds = optional_binds andThen_row andThen_check

lemma decodeConflictRows_attempts:
  assumes "decodeConflictRows wire key oid rows = Inr cs"
  shows "map cf_Attempt cs = map cr_attempt rows"
proof -
  have row: "cf_Attempt r = cr_attempt row" if "decodeConflictRow wire key oid row = Inr r" for row r
    using that by (auto simp: decodeConflictRow_def andThen_Inr_iff Let_def split: option.splits if_splits)
  have "foldRes (\<lambda>acc row. andThen (decodeConflictRow wire key oid row) (\<lambda>r. Inr (acc @ [r]))) acc rows = Inr cs \<Longrightarrow>
      map cf_Attempt cs = map cf_Attempt acc @ map cr_attempt rows" for acc
    by (induction rows arbitrary: acc) (auto simp: andThen_Inr_iff dest!: row)
  from this [of "[]"] assms show ?thesis by (simp add: decodeConflictRows_def)
qed

lemma conflicts_abs:
  assumes "loadVaultBoardConflicts wire key oid db = Inr cs"
  shows "(\<exists>c\<in>set cs. cf_Attempt c = n) \<longleftrightarrow> (oid, unat n) \<in> bg_conflicts (boardAbs db)"
proof -
  let ?rows = "sort_key (\<lambda>r. unat (cr_attempt r)) (filter (\<lambda>r. cr_operation_id r = oid) (db_vault_board_conflict db))"
  have "decodeConflictRows wire key oid ?rows = Inr cs"
    using assms by (auto simp: loadVaultBoardConflicts_def andThen_Inr_iff split: if_splits)
  then have "set (map cf_Attempt cs) = set (map cr_attempt ?rows)" by (simp only: decodeConflictRows_attempts)
  then have "n \<in> cf_Attempt ` set cs \<longleftrightarrow> (\<exists>r\<in>set (db_vault_board_conflict db). cr_operation_id r = oid \<and> cr_attempt r = n)" by auto
  moreover have "(oid, unat n) \<in> bg_conflicts (boardAbs db) \<longleftrightarrow>
      (\<exists>r\<in>set (db_vault_board_conflict db). cr_operation_id r = oid \<and> cr_attempt r = n)"
    by (auto simp: boardAbs_def image_iff word_unat_eq_iff)
  ultimately show ?thesis by auto
qed

lemma canRotate_replaceable:
  assumes "requireVaultBoardAttemptCanRotate wire key oid n now db = Inr ()" "boardingInv (boardAbs db)"
  shows "replaceable (boardAbs db) oid (unat n)"
proof -
  note r = assms(1) [unfolded requireVaultBoardAttemptCanRotate_def board_names Let_def]
  have d: "loadVaultBoardAuthorization oid n ''delete'' db = None \<Longrightarrow> loadVaultBoardDispatch oid n ''delete'' db = None"
    using boardingInvD(7) [OF assms(2), of oid "unat n" "''delete''"]
    by (cases "loadVaultBoardDispatch oid n ''delete'' db") (simp_all add: abs_phases abs_sent)
  show ?thesis
  proof (cases "loadVaultBoardAuthorization oid n ''finalize'' db")
    case (Some final)
    with r obtain cs where "loadVaultBoardConflicts wire key oid db = Inr cs" "\<exists>c\<in>set cs. cf_Attempt c = n"
      by (auto simp: optional_binds andThen_Inr_iff [of "loadVaultBoardConflicts _ _ _ _"] split: if_splits)
    with Some show ?thesis by (simp add: replaceable_def abs_phases conflicts_abs)
  next
    case None
    with r d show ?thesis
      by (auto simp: board_binds replaceable_def abs_phases abs_sent abs_results split: option.splits if_splits)
  qed
qed

lemma firstReuse_None:
  "firstReuse request rs = None \<Longrightarrow> \<forall>p\<in>set rs. ba_RequestDigest p \<noteq> rr_RequestDigest request \<and> ba_TreeSessionPub p \<noteq> rr_TreeSessionPub request"
  by (induction rs) (auto split: if_splits)

lemma currentAttempt_latest:
  assumes "currentAttempt key oid n db = Inr ()" "numbered db"
  shows "length (boardRegisters oid db) = Suc (unat n)"
proof -
  have "boardRegisters oid db \<noteq> []" "ba_Attempt (last (boardRegisters oid db)) = n"
    using assms(1) by (auto simp: currentAttempt_def latestVerifiedRegister_def andThen_Inr_iff rowRequired_Inr_iff
        loadLatestVaultBoardRegister_def split: if_splits)
  then show ?thesis using numbered_last [OF assms(2), of oid] by simp
qed

section \<open>Simulation of the writing steps\<close>

definition boardSim :: "DB \<Rightarrow> DB \<Rightarrow> bool" where
  "boardSim db db' \<longleftrightarrow>
     (numbered db \<and> boardingInv (boardAbs db) \<longrightarrow> numbered db' \<and> boarding_step\<^sup>*\<^sup>* (boardAbs db) (boardAbs db'))"

lemma boarding_steps_inv: "boarding_step\<^sup>*\<^sup>* b b' \<Longrightarrow> boardingInv b \<Longrightarrow> boardingInv b'"
  by (induction rule: rtranclp_induct) (auto intro: boardingInv_step)

lemma boardSim_refl [simp]: "boardSim db db"
  by (simp add: boardSim_def)

lemma boardSim_trans: "boardSim a b \<Longrightarrow> boardSim b c \<Longrightarrow> boardSim a c"
  unfolding boardSim_def using boarding_steps_inv rtranclp_trans by metis

lemma boardSim_one:
  "(numbered db \<Longrightarrow> boardingInv (boardAbs db) \<Longrightarrow> numbered db' \<and> boarding_step (boardAbs db) (boardAbs db')) \<Longrightarrow> boardSim db db'"
  unfolding boardSim_def by blast

lemma numbered_same:
  "numbered db \<Longrightarrow> (\<And>oid. boardRegisters oid db' = boardRegisters oid db) \<Longrightarrow> numbered db'"
  by (simp add: numbered_def)

lemma sim_operation: "boardSim db (db \<lparr> db_vault_board_operation := ops \<rparr>)"
  by (auto simp: boardSim_def abs_new_operation intro: numbered_same)

lemma next_number: "n \<noteq> (4294967295 :: u32) \<Longrightarrow> unat (n + 1) = Suc (unat n)"
proof -
  assume "n \<noteq> 4294967295"
  then have "unat n \<noteq> 4294967295" by (simp add: word_unat_eq_iff)
  then have "Suc (unat n) < 4294967296" using unat_u32_less [of n] by simp
  then show ?thesis by (simp add: unat_word_ariths)
qed

lemma sim_register:
  assumes "ba_Phase a = ''register''" "oid = ba_OperationID a" "nextAttempt wire key oid now (boardRegisters oid db) db = Inr (ba_Attempt a)"
    and "\<forall>p\<in>set (boardRegisters oid db). ba_RequestDigest p \<noteq> ba_RequestDigest a \<and> ba_TreeSessionPub p \<noteq> ba_TreeSessionPub a"
  shows "boardSim db (db \<lparr> db_vault_board_authorization := db_vault_board_authorization db @ [a] \<rparr>)" (is "boardSim db ?db")
proof (rule boardSim_one)
  assume num: "numbered db" and inv: "boardingInv (boardAbs db)"
  let ?rs = "boardRegisters oid db"
  have n: "unat (ba_Attempt a) = length ?rs \<and> (?rs \<noteq> [] \<longrightarrow> replaceable (boardAbs db) oid (length ?rs - 1))"
  proof (cases "?rs = []")
    case True
    then show ?thesis using assms(3) by (simp add: nextAttempt_def)
  next
    case False
    let ?n = "ba_Attempt (last ?rs)"
    have "?n \<noteq> 4294967295" "requireVaultBoardAttemptCanRotate wire key oid ?n now db = Inr ()" "ba_Attempt a = ?n + 1"
      using assms(3) False by (auto simp: nextAttempt_def andThen_Inr_iff split: if_splits)
    with canRotate_replaceable [OF _ inv] next_number numbered_last [OF num False] show ?thesis by (metis diff_Suc_1)
  qed
  have le: "\<forall>r\<in>set (boardRegisters (ba_OperationID a) db). unat (ba_Attempt r) \<le> unat (ba_Attempt a)"
    using numbered_less [OF num] n assms(2) by fastforce
  note rs = registers_new [OF assms(1) le]
  have "numbered ?db" using num n assms(2) by (auto simp: numbered_def rs)
  moreover have "\<forall>(d', k')\<in>set (bg_registers (boardAbs db) oid). d' \<noteq> ba_RequestDigest a \<and> k' \<noteq> ba_TreeSessionPub a"
    using assms(4) by (auto simp: boardAbs_def)
  then have "boarding_step (boardAbs db) (boardAbs db \<lparr> bg_registers := (bg_registers (boardAbs db)) (oid :=
      bg_registers (boardAbs db) oid @ [(ba_RequestDigest a, ba_TreeSessionPub a)]) \<rparr>)"
    using n boarding_step.register [of "boardAbs db" oid] boarding_step.first [of "boardAbs db" oid]
    by (cases "?rs = []") (simp_all add: abs_registers boardAbs_def [THEN arg_cong [of _ _ bg_registers]])
  ultimately show "numbered ?db \<and> boarding_step (boardAbs db) (boardAbs ?db)" by (simp add: abs_new_register [OF assms(1) le] assms(2))
qed

lemma sim_phase:
  assumes "ba_Phase a \<in> {''delete'', ''finalize''}" "validateVaultBoardPhaseOrder key a' db = Inr ()"
    and "ba_OperationID a' = ba_OperationID a" "ba_Attempt a' = ba_Attempt a" "ba_Phase a' = ba_Phase a"
  shows "boardSim db (db \<lparr> db_vault_board_authorization := db_vault_board_authorization db @ [a] \<rparr>)" (is "boardSim db ?db")
proof (rule boardSim_one)
  assume num: "numbered db" and inv: "boardingInv (boardAbs db)"
  let ?oid = "ba_OperationID a" and ?n = "ba_Attempt a"
  let ?opp = "if ba_Phase a = ''finalize'' then ''delete'' else ''finalize''"
  have p: "boardRegisters ?oid db \<noteq> []" "ba_Attempt (last (boardRegisters ?oid db)) = ?n"
    "map_option bs_Outcome (loadVaultBoardSubmission ?oid ?n ''register'' db) = Some ''submitted''"
    "loadVaultBoardAuthorization ?oid ?n ?opp db = None"
    using assms by (auto simp: validateVaultBoardPhaseOrder_def latestVerifiedRegister_def loadLatestVaultBoardRegister_def board_binds
        board_names Let_def andThen_Inr_iff [of "andThen _ _"] split: if_splits option.splits)
  have "length (bg_registers (boardAbs db) ?oid) = Suc (unat ?n)"
    using numbered_last [OF num p(1)] p(2) by (simp add: abs_registers)
  moreover have "(?oid, unat ?n, ?opp) \<notin> bg_phases (boardAbs db)" using p(4) by (subst abs_phases) simp_all
  ultimately have "boarding_step (boardAbs db) (boardAbs ?db)"
    using assms(1) p(3) boarding_step.authorize [of "ba_Phase a" "boardAbs db" ?oid "unat ?n"]
    by (auto simp: abs_new_phase abs_results)
  moreover have "ba_Phase a \<noteq> ''register''" using assms(1) by auto
  ultimately show "numbered ?db \<and> boarding_step (boardAbs db) (boardAbs ?db)"
    using num by (auto simp: registers_phase intro: numbered_same)
qed

lemma sim_dispatch:
  assumes "currentAttempt key (bd_OperationID d) (bd_Attempt d) db = Inr ()"
    and "bd_Phase d = ''register'' \<or> loadVaultBoardAuthorization (bd_OperationID d) (bd_Attempt d) (bd_Phase d) db \<noteq> None"
    and "loadVaultBoardSubmission (bd_OperationID d) (bd_Attempt d) (bd_Phase d) db = None"
  shows "boardSim db (db \<lparr> db_vault_board_dispatch := db_vault_board_dispatch db @ [d] \<rparr>)"
proof (rule boardSim_one)
  assume num: "numbered db"
  let ?k = "(bd_OperationID d, unat (bd_Attempt d), bd_Phase d)"
  have "bd_Phase d = ''register'' \<or> ?k \<in> bg_phases (boardAbs db)"
    using assms(2) by (cases "bd_Phase d = ''register''") (simp_all add: abs_phases)
  moreover have "length (bg_registers (boardAbs db) (bd_OperationID d)) = Suc (unat (bd_Attempt d))"
    using currentAttempt_latest [OF assms(1) num] by (simp add: abs_registers)
  moreover have "bg_results (boardAbs db) ?k = None" using assms(3) by (simp add: abs_results)
  ultimately have "boarding_step (boardAbs db) (boardAbs db \<lparr> bg_sent := insert ?k (bg_sent (boardAbs db)) \<rparr>)"
    by (rule boarding_step.dispatch)
  then show "numbered (db \<lparr> db_vault_board_dispatch := db_vault_board_dispatch db @ [d] \<rparr>) \<and>
      boarding_step (boardAbs db) (boardAbs (db \<lparr> db_vault_board_dispatch := db_vault_board_dispatch db @ [d] \<rparr>))"
    using num by (auto simp: abs_new_dispatch intro: numbered_same)
qed

lemma sim_submission:
  assumes "submissionChecks wire key r db = Inr ()" "loadVaultBoardSubmission (bs_OperationID r) (bs_Attempt r) (bs_Phase r) db = None"
    and "bs_OperationID s = bs_OperationID r" "bs_Attempt s = bs_Attempt r" "bs_Phase s = bs_Phase r"
  shows "boardSim db (db \<lparr> db_vault_board_submission := db_vault_board_submission db @ [s] \<rparr>)"
proof (rule boardSim_one)
  assume num: "numbered db"
  let ?k = "(bs_OperationID s, unat (bs_Attempt s), bs_Phase s)"
  have "loadVaultBoardDispatch (bs_OperationID s) (bs_Attempt s) (bs_Phase s) db \<noteq> None"
    using assms by (auto simp: submissionChecks_def Let_def andThen_Inr_iff split: option.splits if_splits)
  then have sent: "?k \<in> bg_sent (boardAbs db)" by (simp add: abs_sent)
  have free: "bs_Phase s = ''finalize'' \<longrightarrow> (bs_OperationID s, unat (bs_Attempt s)) \<notin> bg_conflicts (boardAbs db)"
  proof
    assume "bs_Phase s = ''finalize''"
    then have ph: "bs_Phase r = VaultBoardPhaseFinalize" using assms(5) by (simp add: board_names)
    obtain cs where "loadVaultBoardConflicts wire key (bs_OperationID r) db = Inr cs" "\<not> (\<exists>c\<in>set cs. cf_Attempt c = bs_Attempt r)"
      using assms(1) by (auto simp: submissionChecks_def Let_def ph board_binds andThen_Inr_iff [of "loadVaultBoardConflicts _ _ _ _"] split: if_splits)
    then show "(bs_OperationID s, unat (bs_Attempt s)) \<notin> bg_conflicts (boardAbs db)" by (simp add: conflicts_abs assms(3,4))
  qed
  have none: "bg_results (boardAbs db) ?k = None" using assms by (simp add: abs_results)
  show "numbered (db \<lparr> db_vault_board_submission := db_vault_board_submission db @ [s] \<rparr>) \<and>
      boarding_step (boardAbs db) (boardAbs (db \<lparr> db_vault_board_submission := db_vault_board_submission db @ [s] \<rparr>))"
    using num assms boarding_step.result [OF sent none free, of "bs_Outcome s"] by (auto simp: abs_new_submission intro: numbered_same)
qed

lemma sim_conflict:
  assumes "conflictChecks wire key operation c db = Inr ()" "cr_operation_id r = cf_OperationID c" "cr_attempt r = cf_Attempt c"
  shows "boardSim db (db \<lparr> db_vault_board_conflict := db_vault_board_conflict db @ [r] \<rparr>)"
proof (rule boardSim_one)
  assume num: "numbered db"
  let ?oid = "cr_operation_id r" and ?n = "cr_attempt r"
  have p: "loadVaultBoardAuthorization ?oid ?n ''finalize'' db \<noteq> None" "boardRegisters ?oid db \<noteq> []"
    "ba_Attempt (last (boardRegisters ?oid db)) = ?n" "loadVaultBoardSubmission ?oid ?n ''finalize'' db = None"
    using assms by (auto simp: conflictChecks_def latestVerifiedRegister_def loadLatestVaultBoardRegister_def Let_def andThen_Inr_iff
        rowRequired_Inr_iff board_names split: option.splits if_splits)
  have "boarding_step (boardAbs db) (boardAbs db \<lparr> bg_conflicts := insert (?oid, unat ?n) (bg_conflicts (boardAbs db)) \<rparr>)"
    using p numbered_last [OF num p(2)] by (intro boarding_step.conflict) (simp_all add: abs_phases abs_registers abs_results)
  then show "numbered (db \<lparr> db_vault_board_conflict := db_vault_board_conflict db @ [r] \<rparr>) \<and>
      boarding_step (boardAbs db) (boardAbs (db \<lparr> db_vault_board_conflict := db_vault_board_conflict db @ [r] \<rparr>))"
    using num by (auto simp: abs_new_conflict intro: numbered_same)
qed

section \<open>Simulation of the calls\<close>

lemma observeSequence_frame: "observeSequence w l = (r, l') \<Longrightarrow> lg_db l' = lg_db l \<and> lg_integrityKey l' = lg_integrityKey l"
  by (auto simp: observeSequence_def split: prod.splits dest!: observe_frame)

lemma conflictChecks_frame:
  "requireVaultBoardConflictChecks wire w key oid chain l = (Inr u, l') \<Longrightarrow> lg_db l' = lg_db l"
  by (auto simp: requireVaultBoardConflictChecks_def act_iffs dest!: observe_frame)

lemma phaseChecks_frame: "boardPhaseChecks wire env key oid chain l = (Inr x, l') \<Longrightarrow> lg_db l' = lg_db l"
  by (auto simp: boardPhaseChecks_def act_iffs dest!: conflictChecks_frame)

lemma bindOperation_sim: "bindBoardOperation now key operation l = (Inr x, l') \<Longrightarrow> boardSim (lg_db l) (lg_db l')"
  by (auto simp: bindBoardOperation_def act_iffs insertBoardOperation_def sim_operation split: option.splits sum.splits if_splits)

lemma seal_fields:
  "SealVaultBoardAuthorization a key = Inr a' \<Longrightarrow> \<exists>m. a' = a \<lparr> ba_IntegrityMAC := m \<rparr>"
  "SealVaultBoardSubmission s key = Inr s' \<Longrightarrow> \<exists>m. s' = s \<lparr> bs_IntegrityMAC := m \<rparr>"
  "SealVaultBoardDispatch d key = Inr d' \<Longrightarrow> \<exists>m. d' = d \<lparr> bd_IntegrityMAC := m \<rparr>"
  by (auto simp: board_authorization.seal_iff board_submission.seal_iff board_dispatch.seal_iff)

lemma insert_InrD:
  "insertBoardAuthorization a db = Inr db' \<Longrightarrow> db' = db \<lparr> db_vault_board_authorization := db_vault_board_authorization db @ [a] \<rparr>"
  "insertBoardDispatch d db = Inr db' \<Longrightarrow> db' = db \<lparr> db_vault_board_dispatch := db_vault_board_dispatch db @ [d] \<rparr> \<and>
     bdKey d \<in> baKey ` set (db_vault_board_authorization db)"
  "insertBoardSubmission s db = Inr db' \<Longrightarrow> db' = db \<lparr> db_vault_board_submission := db_vault_board_submission db @ [s] \<rparr>"
  "insertBoardConflict r db = Inr db' \<Longrightarrow> db' = db \<lparr> db_vault_board_conflict := db_vault_board_conflict db @ [r] \<rparr>"
  by (auto simp: insertBoardAuthorization_def insertBoardDispatch_def insertBoardSubmission_def insertBoardConflict_def split: if_splits)

lemma registerAttempt_sim:
  assumes "registerAttempt wire env key oid request (boardRegisters oid (lg_db l)) l = (Inr a, l')"
    and "firstReuse request (boardRegisters oid (lg_db l)) = None"
  shows "boardSim (lg_db l) (lg_db l')"
proof -
  let ?rec = "\<lambda>n. \<lparr> ba_OperationID = oid, ba_Attempt = n, ba_Phase = VaultBoardPhaseRegister, ba_RequestDigest = rr_RequestDigest request,
         ba_TreeSessionPub = rr_TreeSessionPub request, ba_ReceiverSats = rr_ReceiverSats request, ba_FeeSats = rr_FeeSats request,
         ba_ExpireAt = rr_ExpireAt request, ba_CommitmentTxid = [], ba_ReceiverTxid = [], ba_ReceiverVout = 0,
         ba_CreatedAt = formatRFC3339Nano (env_now env), ba_IntegrityMAC = [] \<rparr>"
  obtain n where n: "nextAttempt wire key oid (env_now env) (boardRegisters oid (lg_db l)) (lg_db l) = Inr n"
      "SealVaultBoardAuthorization (?rec n) key = Inr a" "insertBoardAuthorization a (lg_db l) = Inr (lg_db l')"
    using assms(1) unfolding registerAttempt_def act_iffs by (auto dest!: observeSequence_frame)
  obtain m where m: "a = ?rec n \<lparr> ba_IntegrityMAC := m \<rparr>" using seal_fields(1) [OF n(2)] by blast
  have "ba_Phase a = ''register''" "ba_OperationID a = oid" "ba_Attempt a = n" "ba_RequestDigest a = rr_RequestDigest request"
    "ba_TreeSessionPub a = rr_TreeSessionPub request" by (simp_all add: m board_names)
  then show ?thesis unfolding insert_InrD(1) [OF n(3)]
    using n(1) firstReuse_None [OF assms(2)] by (intro sim_register [of a oid wire key "env_now env"]) simp_all
qed

lemma registers_verified: "loadVerifiedVaultBoardRegisters key oid db = Inr rs \<Longrightarrow> rs = boardRegisters oid db"
  by (auto simp: loadVerifiedVaultBoardRegisters_def andThen_Inr_iff)

lemma beginBody_sim:
  assumes "beginBody wire env operation request chain l = (Inr x, l')"
  shows "boardSim (lg_db l) (lg_db l')"
proof -
  let ?oid = "bo_OperationID operation"
  obtain key stored l1 u l2 rs where b: "bindBoardOperation (env_now env) key operation l = (Inr stored, l1)"
      "requireVaultBoardConflictChecks wire (env_write0 env) key ?oid chain l1 = (Inr u, l2)"
      "loadVerifiedVaultBoardRegisters key ?oid (lg_db l2) = Inr rs"
    and rest: "(case firstReuse request rs of
        Some (prior, isLatest) \<Rightarrow>
          if isLatest \<and> sameRegisterRequest prior request
          then actBind (actRead (\<lambda>l. requireVaultBoardAttemptCurrent key ?oid (ba_Attempt prior) (lg_db l))) (\<lambda>_. actPure (stored, prior, False))
          else actRead (\<lambda>_. Inl (Err ''vault-board-v1 attempt must rotate register digest and tree session key''))
      | None \<Rightarrow> actBind (registerAttempt wire env key ?oid request rs) (\<lambda>auth. actPure (stored, auth, True))) l2 = (Inr x, l')"
    using assms unfolding beginBody_def Let_def act_iffs by blast
  have db: "lg_db l2 = lg_db l1" by (rule conflictChecks_frame [OF b(2)])
  have "boardSim (lg_db l2) (lg_db l')"
  proof (cases "firstReuse request rs")
    case None
    with rest obtain a where a: "registerAttempt wire env key ?oid request rs l2 = (Inr a, l')"
      by (auto simp: act_iffs)
    with None registers_verified [OF b(3)] show ?thesis using registerAttempt_sim by blast
  next
    case (Some p)
    with rest show ?thesis by (auto simp: act_iffs split: prod.splits if_splits)
  qed
  with bindOperation_sim [OF b(1)] db boardSim_trans show ?thesis by metis
qed

lemma authorizePhase_sim:
  assumes "authorizeBoardPhase now key auth l = (Inr a, l')" "ba_Phase auth \<in> {''delete'', ''finalize''}"
  shows "boardSim (lg_db l) (lg_db l') \<and> ba_OperationID a = ba_OperationID auth \<and> ba_Attempt a = ba_Attempt auth \<and> ba_Phase a = ba_Phase auth \<and>
    (\<forall>oid. boardRegisters oid (lg_db l') = boardRegisters oid (lg_db l)) \<and>
    loadVaultBoardAuthorization (ba_OperationID a) (ba_Attempt a) (ba_Phase a) (lg_db l') \<noteq> None"
proof (cases "loadVaultBoardAuthorization (ba_OperationID auth) (ba_Attempt auth) (ba_Phase auth) (lg_db l)")
  case (Some stored)
  then have "a = stored" "l' = l" "sameVaultBoardAuthorizationRequest stored auth"
    using assms(1) by (auto simp: authorizeBoardPhase_def split: sum.splits if_splits)
  with Some show ?thesis by (auto simp: sameVaultBoardAuthorizationRequest_def)
next
  case None
  then have v: "validateVaultBoardPhaseOrder key auth (lg_db l) = Inr ()"
    and sl: "SealVaultBoardAuthorization (auth \<lparr> ba_CreatedAt := formatRFC3339Nano now \<rparr>) key = Inr a"
    and ins: "insertBoardAuthorization a (lg_db l) = Inr (lg_db l')"
    using assms(1) by (auto simp: authorizeBoardPhase_def act_iffs)
  obtain m where m: "a = auth \<lparr> ba_CreatedAt := formatRFC3339Nano now, ba_IntegrityMAC := m \<rparr>" using seal_fields(1) [OF sl] by blast
  have ph: "ba_Phase a \<noteq> ''register''" using assms(2) m by auto
  note i = insert_InrD(1) [OF ins]
  have "boardSim (lg_db l) (lg_db l')" unfolding i using assms(2) v by (intro sim_phase [of a key auth]) (simp_all add: m)
  moreover have "loadVaultBoardAuthorization (ba_OperationID a) (ba_Attempt a) (ba_Phase a) (lg_db l') \<noteq> None"
    unfolding loadVaultBoardAuthorization_def lookupBy_None_iff i by auto
  moreover have "\<forall>oid. boardRegisters oid (lg_db l') = boardRegisters oid (lg_db l)" by (simp add: i registers_phase [OF ph])
  moreover have "ba_OperationID a = ba_OperationID auth" "ba_Attempt a = ba_Attempt auth" "ba_Phase a = ba_Phase auth" by (simp_all add: m)
  ultimately show ?thesis by blast
qed

lemma currentAttempt_cong: "boardRegisters oid db' = boardRegisters oid db \<Longrightarrow> currentAttempt key oid n db' = currentAttempt key oid n db"
  by (simp add: currentAttempt_def latestVerifiedRegister_def loadLatestVaultBoardRegister_def)

lemma writeDispatch_sim:
  assumes "writeBoardDispatch env key d l = (Inr x, l')" "currentAttempt key (bd_OperationID d) (bd_Attempt d) (lg_db l) = Inr ()"
    and "loadVaultBoardAuthorization (bd_OperationID d) (bd_Attempt d) (bd_Phase d) (lg_db l) \<noteq> None"
  shows "boardSim (lg_db l) (lg_db l')"
proof -
  have sl: "SealVaultBoardDispatch (d \<lparr> bd_CreatedAt := formatRFC3339Nano (env_now env) \<rparr>) key = Inr x"
    and ins: "insertBoardDispatch x (lg_db l) = Inr (lg_db l')" and none: "loadVaultBoardSubmission (bd_OperationID d) (bd_Attempt d) (bd_Phase d) (lg_db l) = None"
    using assms(1) by (auto simp: writeBoardDispatch_def act_iffs split: option.splits dest!: observeSequence_frame)
  obtain m where m: "x = d \<lparr> bd_CreatedAt := formatRFC3339Nano (env_now env), bd_IntegrityMAC := m \<rparr>" using seal_fields(3) [OF sl] by blast
  show ?thesis unfolding conjunct1 [OF insert_InrD(2) [OF ins]]
    using assms(2,3) none by (intro sim_dispatch [of key]) (simp_all add: m)
qed

lemma authorizeBody_sim:
  assumes "authorizeBody wire env auth chain l = (Inr x, l')" "ba_Phase auth \<in> {''delete'', ''finalize''}"
  shows "boardSim (lg_db l) (lg_db l')"
proof -
  obtain key op l1 u a l2 found where b: "boardPhaseChecks wire env key (ba_OperationID auth) chain l = (Inr op, l1)"
      "currentAttempt key (ba_OperationID auth) (ba_Attempt auth) (lg_db l1) = Inr u"
      "authorizeBoardPhase (env_now env) key auth l1 = (Inr a, l2)"
    and rest: "(case found of
       Some x \<Rightarrow> actPure (a, x, False)
     | None \<Rightarrow> actBind (writeBoardDispatch env key \<lparr> bd_OperationID = ba_OperationID a, bd_Attempt = ba_Attempt a, bd_Phase = ba_Phase a,
               bd_RequestDigest = ba_RequestDigest a, bd_CreatedAt = [], bd_IntegrityMAC = [] \<rparr>) (\<lambda>x. actPure (a, x, True))) l2 = (Inr x, l')"
    using assms(1) unfolding authorizeBody_def Let_def act_iffs by blast
  note a = authorizePhase_sim [OF b(3) assms(2)]
  have cur: "currentAttempt key (ba_OperationID a) (ba_Attempt a) (lg_db l2) = Inr ()"
    using a b(2) currentAttempt_cong by (metis unit_eq)
  have "boardSim (lg_db l2) (lg_db l')"
  proof (cases found)
    case None
    with rest obtain d where "writeBoardDispatch env key \<lparr> bd_OperationID = ba_OperationID a, bd_Attempt = ba_Attempt a, bd_Phase = ba_Phase a,
               bd_RequestDigest = ba_RequestDigest a, bd_CreatedAt = [], bd_IntegrityMAC = [] \<rparr> l2 = (Inr d, l')"
      by (auto simp: act_iffs)
    moreover have "loadVaultBoardAuthorization (ba_OperationID a) (ba_Attempt a) (ba_Phase a) (lg_db l2) \<noteq> None" using a by blast
    ultimately show ?thesis using cur writeDispatch_sim by fastforce
  next
    case (Some d)
    with rest show ?thesis by (simp add: act_iffs)
  qed
  with a phaseChecks_frame [OF b(1)] boardSim_trans show ?thesis by metis
qed

lemma dispatchBody_sim:
  assumes "dispatchBody wire env d chain l = (Inr x, l')"
  shows "boardSim (lg_db l) (lg_db l')"
proof -
  obtain key op l1 found where b: "boardPhaseChecks wire env key (bd_OperationID d) chain l = (Inr op, l1)"
    and rest: "(case found of
       Some x \<Rightarrow> actPure (x, False)
     | None \<Rightarrow>
         actBind (actRead (\<lambda>l. rowRequired (loadVaultBoardAuthorization (bd_OperationID d) (bd_Attempt d) (bd_Phase d) (lg_db l)))) (\<lambda>auth.
         actBind (actRead (\<lambda>_. VerifyVaultBoardAuthorization auth key)) (\<lambda>_.
         actBind (actRead (\<lambda>_. if ba_RequestDigest auth \<noteq> bd_RequestDigest d then Inl (Err ''vault-board-v1 dispatch request changed'')
           else Inr ())) (\<lambda>_.
         actBind (actRead (\<lambda>l. currentAttempt key (bd_OperationID d) (bd_Attempt d) (lg_db l))) (\<lambda>_.
         actBind (writeBoardDispatch env key d) (\<lambda>x. actPure (x, True))))))) l1 = (Inr x, l')"
    using assms unfolding dispatchBody_def act_iffs by blast
  have "boardSim (lg_db l1) (lg_db l')"
  proof (cases found)
    case None
    with rest obtain auth y where "writeBoardDispatch env key d l1 = (Inr y, l')"
        "currentAttempt key (bd_OperationID d) (bd_Attempt d) (lg_db l1) = Inr ()"
        "loadVaultBoardAuthorization (bd_OperationID d) (bd_Attempt d) (bd_Phase d) (lg_db l1) = Some auth"
      by (auto simp: act_iffs rowRequired_Inr_iff)
    then show ?thesis by (intro writeDispatch_sim [of env key d l1]) simp_all
  next
    case (Some y)
    with rest show ?thesis by (simp add: act_iffs)
  qed
  with phaseChecks_frame [OF b] show ?thesis by simp
qed

lemma submissionBody_sim:
  assumes "submissionBody wire env r l = (Inr x, l')"
  shows "boardSim (lg_db l) (lg_db l')"
proof -
  obtain key u l1 found where b: "observeEconomicOutflowsLocked (env_write0 env) l = (Inr u, l1)"
      "loadOptionalVerifiedVaultBoardSubmission key (bs_OperationID r) (bs_Attempt r) (bs_Phase r) (lg_db l1) = Inr found"
    and rest: "(case found of
       Some x \<Rightarrow> if \<not> sameSubmission x r then actRead (\<lambda>_. Inl (Err ''vault-board-v1 Operator result changed'')) else actPure (x, False)
     | None \<Rightarrow>
         actBind (actRead (\<lambda>l. submissionChecks wire key r (lg_db l))) (\<lambda>_.
         actBind (actRead (\<lambda>_. SealVaultBoardSubmission (r \<lparr> bs_CreatedAt := formatRFC3339Nano (env_now env) \<rparr>) key)) (\<lambda>sealed.
         actBind (actDB (\<lambda>l. insertBoardSubmission sealed (lg_db l))) (\<lambda>_.
         actBind (observeSequence (env_write env)) (\<lambda>_. actPure (sealed, True)))))) l1 = (Inr x, l')"
    using assms unfolding submissionBody_def act_iffs by blast
  have "boardSim (lg_db l1) (lg_db l')"
  proof (cases found)
    case None
    with rest obtain s where s: "submissionChecks wire key r (lg_db l1) = Inr ()"
        "SealVaultBoardSubmission (r \<lparr> bs_CreatedAt := formatRFC3339Nano (env_now env) \<rparr>) key = Inr s"
        "insertBoardSubmission s (lg_db l1) = Inr (lg_db l')"
      by (auto simp: act_iffs dest!: observeSequence_frame)
    obtain m where m: "s = r \<lparr> bs_CreatedAt := formatRFC3339Nano (env_now env), bs_IntegrityMAC := m \<rparr>" using seal_fields(2) [OF s(2)] by blast
    have "loadVaultBoardSubmission (bs_OperationID r) (bs_Attempt r) (bs_Phase r) (lg_db l1) = None"
      using b(2) None by (auto simp: loadOptionalVerifiedVaultBoardSubmission_def andThen_Inr_iff split: option.splits)
    then show ?thesis unfolding insert_InrD(3) [OF s(3)] using s(1) by (intro sim_submission [of wire key r]) (simp_all add: m)
  next
    case (Some y)
    with rest show ?thesis by (simp add: act_iffs split: if_splits)
  qed
  with observe_frame [OF b(1)] show ?thesis by simp
qed

lemma conflictBody_sim:
  assumes "conflictBody wire env r chain l = (Inr x, l')"
  shows "boardSim (lg_db l) (lg_db l')"
proof -
  let ?r = "r \<lparr> cf_CreatedAt := formatRFC3339Nano (env_now env) \<rparr>"
  let ?row = "\<lambda>mac. \<lparr> cr_operation_id = cf_OperationID ?r, cr_attempt = cf_Attempt ?r, cr_payload = marshalConflict ?r, cr_integrity_mac = mac \<rparr>"
  obtain key op l1 mac where b: "boardPhaseChecks wire env key (cf_OperationID r) chain l = (Inr op, l1)"
      "conflictChecks wire key op r (lg_db l1) = Inr ()" and ins: "insertBoardConflict (?row mac) (lg_db l1) = Inr (lg_db l')"
    using assms by (auto simp: conflictBody_def Let_def act_iffs split: if_splits dest!: observe_frame)
  note i = insert_InrD(4) [OF ins]
  have "boardSim (lg_db l1) (lg_db l')" unfolding i using b(2) by (intro sim_conflict [of wire key op r]) simp_all
  with phaseChecks_frame [OF b(1)] show ?thesis by simp
qed

end
