(* ===== verification/Board_Reach.thy ===== *)
theory Board_Reach
  imports Board_Props Ledger_Calls
begin

text \<open>
  The boarding calls as one system beside the spends and the renewal journals: a call of either group leaves the other group's
  tables alone, so every history interleaves them, and along every history the boarding tables follow the boarding protocol.
\<close>

section \<open>Calls\<close>

datatype board_call =
    BBegin VaultBoardOperation VaultBoardRegisterRequest VaultBoardChainState
  | BAuthorize VaultBoardAuthorization VaultBoardChainState
  | BDispatch VaultBoardDispatch VaultBoardChainState
  | BSubmit VaultBoardSubmission
  | BConflict VaultBoardConflict VaultBoardChainState

fun boardExec :: "wire \<Rightarrow> Env \<Rightarrow> board_call \<Rightarrow> Ledger \<Rightarrow> unit res \<times> Ledger" where
  "boardExec wire env (BBegin operation request chain) l = forget (BeginVaultBoardAttempt wire env operation request chain l)"
| "boardExec wire env (BAuthorize auth chain) l = forget (AppendVaultBoardAuthorizationAndDispatch wire env auth chain l)"
| "boardExec wire env (BDispatch d chain) l = forget (AppendVaultBoardDispatch wire env d chain l)"
| "boardExec wire env (BSubmit r) l = forget (AppendVaultBoardSubmission wire env r l)"
| "boardExec wire env (BConflict c chain) l = AppendVaultBoardConflict wire env c chain l"

section \<open>Boarding calls change the boarding tables only\<close>

named_theorems boards \<open>actions that change the boarding tables only\<close>

abbreviation boardOnly :: "'a act \<Rightarrow> bool" where "boardOnly \<equiv> frames otherChange"

lemmas other_frame.frame_intros [boards]

lemma boardOnly_inserts [boards]:
  "boardOnly (actDB (\<lambda>l. insertBoardOperation o1 (lg_db l)))" "boardOnly (actDB (\<lambda>l. insertBoardAuthorization a (lg_db l)))"
  "boardOnly (actDB (\<lambda>l. insertBoardDispatch d (lg_db l)))" "boardOnly (actDB (\<lambda>l. insertBoardSubmission s (lg_db l)))"
  "boardOnly (actDB (\<lambda>l. insertBoardConflict c (lg_db l)))"
  by (rule other_frame.frame_DB; auto simp: otherChange_def insertBoardOperation_def dest!: insert_InrD split: if_splits)+

lemma boardOnly_sequence [boards]: "boardOnly (observeSequence w)"
  unfolding observeSequence_def by (intro boards)

lemma boardOnly_steps [boards]:
  "boardOnly (requireVaultBoardConflictChecks wire w key oid chain)"
  "boardOnly (registerAttempt wire env key oid request rs)" "boardOnly (writeBoardDispatch env key d)"
  unfolding requireVaultBoardConflictChecks_def registerAttempt_def writeBoardDispatch_def by (intro boards)+

lemma boardOnly_phase [boards]: "boardOnly (boardPhaseChecks wire env key oid chain)"
  unfolding boardPhaseChecks_def by (intro boards)

lemma boardOnly_bind [boards]: "boardOnly (bindBoardOperation now key operation)"
proof -
  have "boardOnly (actBind (actDB (\<lambda>l. insertBoardOperation sealed (lg_db l))) (\<lambda>_. actPure sealed))" for sealed by (intro boards)
  then show ?thesis unfolding frames_def by (simp add: bindBoardOperation_def other_frame.R_refl split: option.splits sum.splits)
qed

lemma boardOnly_authorize [boards]: "boardOnly (authorizeBoardPhase now key auth)"
proof -
  have "boardOnly (actBind (actRead (\<lambda>l. validateVaultBoardPhaseOrder key auth (lg_db l))) (\<lambda>_.
      actBind (actRead (\<lambda>_. SealVaultBoardAuthorization (auth \<lparr> ba_CreatedAt := formatRFC3339Nano now \<rparr>) key)) (\<lambda>sealed.
      actBind (actDB (\<lambda>l. insertBoardAuthorization sealed (lg_db l))) (\<lambda>_. actPure sealed))))" by (intro boards)
  then show ?thesis unfolding frames_def by (simp add: authorizeBoardPhase_def other_frame.R_refl split: option.splits sum.splits)
qed

lemma boardOnly_bodies:
  "boardOnly (beginBody wire env operation request chain)" "boardOnly (authorizeBody wire env auth chain)"
  "boardOnly (dispatchBody wire env d chain)" "boardOnly (submissionBody wire env s)" "boardOnly (conflictBody wire env c chain)"
  unfolding beginBody_def authorizeBody_def dispatchBody_def submissionBody_def conflictBody_def Let_def
  by (intro boards; auto intro!: boards split: option.splits prod.splits)+

lemmas board_calls_def = BeginVaultBoardAttempt_def AppendVaultBoardAuthorizationAndDispatch_def AppendVaultBoardDispatch_def
  AppendVaultBoardSubmission_def AppendVaultBoardConflict_def

lemma boardExec_otherChange: "boardExec wire env c l = (res, l') \<Longrightarrow> otherChange l l'"
proof -
  note b = boardOnly_bodies [THEN other_frame.frame_inTx, unfolded frames_def, rule_format]
  have "otherChange l (snd (boardExec wire env c l))"
    by (cases c) (auto simp: board_calls_def b other_frame.R_refl split: sum.splits)
  then show "boardExec wire env c l = (res, l') \<Longrightarrow> otherChange l l'" by simp
qed

text \<open>A boarding call therefore keeps every reachable ledger of the spends and journals reachable.\<close>

lemma boardExec_ledger_reach: "ledger_reach key l \<Longrightarrow> boardExec wire env c l = (res, l') \<Longrightarrow> ledger_reach key l'"
  by (rule ledger_reach.other) (auto dest: boardExec_otherChange)

section \<open>The other calls leave the boarding tables alone\<close>

definition boardTables :: "DB \<Rightarrow> VaultBoardAuthorization list \<times> VaultBoardDispatch list \<times> VaultBoardSubmission list \<times> BoardConflictRow list" where
  "boardTables db = (db_vault_board_authorization db, db_vault_board_dispatch db, db_vault_board_submission db, db_vault_board_conflict db)"

definition boardKept :: "Ledger \<Rightarrow> Ledger \<Rightarrow> bool" where
  "boardKept l l' \<longleftrightarrow> boardTables (lg_db l') = boardTables (lg_db l) \<and> lg_integrityKey l' = lg_integrityKey l"

interpretation board_frame: action_frame boardKept
  by unfold_locales (auto simp: boardKept_def)

named_theorems unboarded \<open>actions that leave the boarding tables alone\<close>

abbreviation keepsBoard :: "'a act \<Rightarrow> bool" where "keepsBoard \<equiv> frames boardKept"

lemmas board_frame.frame_intros [unboarded]

lemma boardTables_same [simp]:
  "boardTables (db \<lparr> db_vtxo_operation := a \<rparr>) = boardTables db" "boardTables (db \<lparr> db_vtxo_operation_input := b \<rparr>) = boardTables db"
  "boardTables (db \<lparr> db_light_renewal_operation := c \<rparr>) = boardTables db" "boardTables (db \<lparr> db_light_renewal_event := d \<rparr>) = boardTables db"
  "boardTables (db \<lparr> db_light_delegation_operation := e \<rparr>) = boardTables db" "boardTables (db \<lparr> db_light_delegation_event := f \<rparr>) = boardTables db"
  "boardTables (db \<lparr> db_webauthn_sign_count := g \<rparr>) = boardTables db" "boardTables (updateOps p h db) = boardTables db"
  by (simp_all add: boardTables_def updateOps_def)

lemma keepsBoard_DB: "(\<And>l d. h l = Inr d \<Longrightarrow> boardTables d = boardTables (lg_db l)) \<Longrightarrow> keepsBoard (actDB h)"
  by (rule board_frame.frame_DB) (simp add: boardKept_def)

lemma abortExpired_boardTables: "abortExpiredVtxoLocked now v l = Inr db \<Longrightarrow> boardTables db = boardTables (lg_db l)"
proof -
  assume "abortExpiredVtxoLocked now v l = Inr db"
  then obtain key expired where "foldRes (abortOne key) (lg_db l) expired = Inr db"
    unfolding abortExpiredVtxoLocked_def andThen_Inr_iff by blast
  then show ?thesis
    by (rule foldRes_preserves [where P = "\<lambda>d. boardTables d = boardTables (lg_db l)"]) (auto simp: abortOne_def andThen_Inr_iff)
qed

lemma keepsBoard_inserts [unboarded]:
  "keepsBoard (actDB (\<lambda>l. insertRenewalOperation key r (lg_db l)))" "keepsBoard (actDB (\<lambda>l. insertRenewalEvent key e (lg_db l)))"
  "keepsBoard (actDB (\<lambda>l. insertDelegationEvent key e2 (lg_db l)))"
  "keepsBoard (actDB (\<lambda>l. foldRes (insertDelegationOperation key) (lg_db l) ms))"
  "keepsBoard (actDB (\<lambda>l. insertVtxoOperation r3 (lg_db l)))" "keepsBoard (actDB (\<lambda>l. foldRes (sealAndInsertInput oid key) (lg_db l) ins))"
  "keepsBoard (actDB (abortExpiredVtxoLocked now v))" "keepsBoard (actDB (invalidateArmedDelegations now v ins))"
  by (rule keepsBoard_DB; force dest: insertRenewalOperation_InrD insertRenewalEvent_InrD insertDelegationEvent_InrD
      insertDelegationOperations_InrD insertVtxoOperation_InrD insertInputs_InrD abortExpired_boardTables invalidate_InrD)+

lemma keepsBoard_counters [unboarded]:
  "keepsBoard (advanceSignCountLocked now v c n)" "keepsBoard (renewalCredential now v p c n)"
proof -
  have "boardKept l l'" if "l' = l \<lparr> lg_db := lg_db l \<lparr> db_webauthn_sign_count := ns \<rparr> \<rparr>" for l l' ns
    using that by (simp add: boardKept_def)
  then show "keepsBoard (advanceSignCountLocked now v c n)" "keepsBoard (renewalCredential now v p c n)"
    unfolding frames_def by (metis advanceSignCount_frame surjective_pairing, metis renewalCredential_frame surjective_pairing)
qed

lemma keepsBoard_bodies:
  "keepsBoard (reserveBody now w r inputs cap)" "keepsBoard (reserveRenewalBody env r2 a key)"
  "keepsBoard (appendRenewalBody env e c n key)" "keepsBoard (scheduleBody env ms c n key)" "keepsBoard (advanceBody env e2 a key)"
  unfolding reserveBody_def reserveRenewalBody_def reserveRenewalNew_def appendRenewalBody_def scheduleBody_def scheduleNew_def
    advanceBody_def Let_def
  by (intro unboarded; auto intro!: unboarded split: option.splits)+

lemma keepsBoard_renewalTx: "(\<And>key. keepsBoard (body key)) \<Longrightarrow> keepsBoard (withSpendingRenewalTx env body)"
proof -
  assume b: "\<And>key. keepsBoard (body key)"
  have "keepsBoard (inTx (env_commit env)
    (actBind (body key) (\<lambda>x. actBind (observeEconomicOutflowsLocked (env_write env)) (\<lambda>_. actPure x))))" for key
    by (intro unboarded b)
  then show ?thesis by (simp add: frames_def withSpendingRenewalTx_def board_frame.R_refl split: sum.splits)
qed

lemma keepsBoard_commit: "keepsBoard (CommitSignedVtxoOperation env r cr n)"
proof -
  have k: "keepsBoard (actBind (advanceSignCountLocked t v cr n) (\<lambda>_. actPure x))" for t v and x :: "VtxoOperation \<times> bool"
    by (intro unboarded)
  have u: "boardKept l (l \<lparr> lg_db := db \<rparr>)" if "updateVtxoOperation e s (lg_db l) = Inr (m, db)" for l e s m db
    using that by (auto simp: updateVtxoOperation_def Let_def boardKept_def split: if_splits)
  have "boardKept l l1" if "commitSignedBody t s cr n l = (x, l1)" for t s x l l1
    using that u framesD [OF k] board_frame.R_trans
    by (auto simp: commitSignedBody_def Let_def board_frame.R_refl split: sum.splits prod.splits if_splits) blast+
  then show ?thesis
    unfolding frames_def by (auto simp: CommitSignedVtxoOperation_def board_frame.R_refl split: sum.splits prod.splits)
qed

lemma exec_boardKept: "exec env c l = (res, l') \<Longrightarrow> boardKept l l'"
proof -
  note k = keepsBoard_bodies(2-) [THEN keepsBoard_renewalTx] keepsBoard_bodies(1) [THEN board_frame.frame_inTx] keepsBoard_commit
    keepsBoard_counters(1)
  note b = k [unfolded frames_def, rule_format]
  have "boardKept l (snd (exec env c l))"
  proof (cases c)
    case (CTransition e r)
    then show ?thesis
      by (auto simp: TransitionVtxoOperation_def Let_def updateVtxoOperation_def boardKept_def split: sum.splits if_splits)
  qed (auto simp: b ReserveVtxoOperation_def AdvanceSignCount_def ReserveSpendingRenewal_def AppendSpendingRenewalEvent_def
      ScheduleVtxoDelegationSet_def AdvanceSpendingDelegation_def board_frame.R_refl Let_def split: sum.splits)
  then show "exec env c l = (res, l') \<Longrightarrow> boardKept l l'" by simp
qed

section \<open>Histories\<close>

text \<open>A history starts from empty boarding and spend tables and interleaves boarding calls, spend and journal calls, and changes of
  the other components (enrollments, vaults, the sequence file), with any clock and any failures.\<close>

inductive board_reach :: "wire \<Rightarrow> bytes \<Rightarrow> Ledger \<Rightarrow> bool" for wire key where
  init: "freshLedger l \<Longrightarrow> boardTables (lg_db l) = ([], [], [], []) \<Longrightarrow> lg_integrityKey l = key \<Longrightarrow> board_reach wire key l"
| board: "board_reach wire key l \<Longrightarrow> boardExec wire env c l = (res, l') \<Longrightarrow> board_reach wire key l'"
| ledger: "board_reach wire key l \<Longrightarrow> exec env c' l = (res, l') \<Longrightarrow> board_reach wire key l'"
| other: "board_reach wire key l \<Longrightarrow> otherChange l l' \<Longrightarrow> boardKept l l' \<Longrightarrow> board_reach wire key l'"

lemma board_reach_ledger: "board_reach wire key l \<Longrightarrow> ledger_reach key l"
  by (induction rule: board_reach.induct) (auto intro: ledger_reach.intros boardExec_ledger_reach)

lemma board_reach_key: "board_reach wire key l \<Longrightarrow> lg_integrityKey l = key"
  by (rule reach_key [OF board_reach_ledger])

lemma boardTables_abs: "boardTables db' = boardTables db \<Longrightarrow> boardAbs db' = boardAbs db \<and> (numbered db' \<longleftrightarrow> numbered db)"
  by (simp add: boardTables_def boardAbs_def numbered_def boardRegisters_def)

lemma boardExec_failed: "boardExec wire env c l = (Inl e, l') \<Longrightarrow> lg_db l' = lg_db l"
  by (cases c) (auto simp: board_calls_def forget_Inl_iff dest!: inTx_InlD split: if_splits sum.splits)

lemma boardExec_sim:
  assumes "boardExec wire env c l = (res, l')"
  shows "boardSim (lg_db l) (lg_db l')"
proof (cases res)
  case (Inl e)
  then show ?thesis using boardExec_failed assms by simp
next
  case (Inr u)
  then have ok: "boardExec wire env c l = (Inr (), l')" using assms by simp
  show ?thesis
  proof (cases c)
    case (BBegin operation request chain)
    with ok obtain oid x where "beginBody wire env (operation \<lparr> bo_OperationID := oid \<rparr>) request chain l = (Inr x, l')"
      by (auto simp: BeginVaultBoardAttempt_def forget_Inr_iff inTx_Inr_iff split: sum.splits if_splits)
    then show ?thesis by (rule beginBody_sim)
  next
    case (BAuthorize auth chain)
    with ok obtain x where "authorizeBody wire env auth chain l = (Inr x, l')" "ba_Phase auth \<in> {''delete'', ''finalize''}"
      by (auto simp: AppendVaultBoardAuthorizationAndDispatch_def forget_Inr_iff inTx_Inr_iff board_names split: if_splits)
    then show ?thesis by (rule authorizeBody_sim)
  next
    case (BDispatch d chain)
    with ok obtain x where "dispatchBody wire env d chain l = (Inr x, l')"
      by (auto simp: AppendVaultBoardDispatch_def forget_Inr_iff inTx_Inr_iff)
    then show ?thesis by (rule dispatchBody_sim)
  next
    case (BSubmit r)
    with ok obtain x where "submissionBody wire env r l = (Inr x, l')"
      by (auto simp: AppendVaultBoardSubmission_def forget_Inr_iff inTx_Inr_iff)
    then show ?thesis by (rule submissionBody_sim)
  next
    case (BConflict r chain)
    with ok have "conflictBody wire env r chain l = (Inr (), l')" by (simp add: AppendVaultBoardConflict_def inTx_Inr_iff)
    then show ?thesis by (rule conflictBody_sim)
  qed
qed

lemma board_reach_inv: "board_reach wire key l \<Longrightarrow> numbered (lg_db l) \<and> boarding_reach (boardAbs (lg_db l))"
proof (induction rule: board_reach.induct)
  case (init l)
  have t: "boardTables (lg_db l) = boardTables (lg_db l \<lparr> db_vault_board_authorization := [], db_vault_board_dispatch := [],
      db_vault_board_submission := [], db_vault_board_conflict := [] \<rparr>)" (is "_ = boardTables ?db")
    using init(2) by (simp add: boardTables_def)
  have "numbered ?db" "boardAbs ?db = boardingInit"
    by (simp_all add: numbered_def boardRegisters_def boardAbs_def boardingInit_def)
  then show ?case using boardTables_abs [OF t [symmetric]] by (simp add: boarding_reach_def)
next
  case (board l env c res l')
  then show ?case using boardExec_sim [OF board(2)] boarding_reach_inv
    by (auto simp: boardSim_def boarding_reach_def dest: rtranclp_trans)
next
  case (ledger l env c res l')
  then show ?case using boardTables_abs [of "lg_db l'" "lg_db l"] exec_boardKept [OF ledger(2)] by (simp add: boardKept_def)
next
  case (other l l')
  then show ?case using boardTables_abs [of "lg_db l'" "lg_db l"] by (simp add: boardKept_def)
qed

lemma board_inv: "board_reach wire key l \<Longrightarrow> boardingInv (boardAbs (lg_db l))"
  by (rule boarding_reach_inv) (simp add: board_reach_inv)

section \<open>Rows and protocol state\<close>

lemma final_row:
  assumes "board_reach wire key l" "s \<in> set (db_vault_board_submission (lg_db l))" "bs_Phase s = ''finalize''"
  shows "bg_results (boardAbs (lg_db l)) (bs_OperationID s, unat (bs_Attempt s), ''finalize'') \<noteq> None"
    and "boardRegisters (bs_OperationID s) (lg_db l) \<noteq> [] \<and> ba_Attempt (last (boardRegisters (bs_OperationID s) (lg_db l))) = bs_Attempt s"
proof -
  let ?b = "boardAbs (lg_db l)" and ?oid = "bs_OperationID s" and ?n = "unat (bs_Attempt s)"
  let ?rs = "boardRegisters ?oid (lg_db l)"
  note D = boardingInvD [OF board_inv [OF assms(1)]]
  have "loadVaultBoardSubmission ?oid (bs_Attempt s) ''finalize'' (lg_db l) \<noteq> None"
    unfolding loadVaultBoardSubmission_def lookupBy_None_iff using assms(2,3) by blast
  then show r: "bg_results ?b (?oid, ?n, ''finalize'') \<noteq> None" by (simp add: abs_results)
  have f: "(?oid, ?n, ''finalize'') \<in> bg_phases ?b" using D(7) [OF D(8) [OF r]] by simp
  have "?n < length ?rs" using D(3) [OF f] by (simp add: abs_registers)
  moreover have "\<not> Suc ?n < length ?rs" using D(5) [OF f] D(6) [of ?oid ?n] r by (auto simp: abs_registers)
  ultimately have len: "length ?rs = Suc ?n" by simp
  then have ne: "?rs \<noteq> []" by auto
  have "numbered (lg_db l)" using board_reach_inv [OF assms(1)] by simp
  from numbered_last [OF this ne] len have "unat (ba_Attempt (last ?rs)) = ?n" by simp
  then show "?rs \<noteq> [] \<and> ba_Attempt (last ?rs) = bs_Attempt s" using ne by (simp add: word_unat_eq_iff)
qed

end
