(* ===== verification/Board_Run.thy ===== *)
theory Board_Run
  imports Board_Reach
begin

text \<open>
  What a history of boarding calls guarantees of the stored rows, and one complete boarding as a concrete history: the
  attempt is registered, sent, accepted, finalized, sent and answered.
\<close>

section \<open>A complete boarding\<close>

definition sampleTxidText :: string where "sampleTxidText = hexEncode (replicate 32 6)"

definition sampleBoardOperation :: VaultBoardOperation where
  "sampleBoardOperation = \<lparr> bo_OperationID = [], bo_VaultID = ''v'', bo_Txid = replicate 32 5, bo_Vout = 0, bo_ValueSats = 1010,
     bo_BoardingScript = replicate 34 1, bo_ReceiverScript = [1], bo_SequenceAnchorMTP = 100, bo_CreatedAt = [], bo_IntegrityMAC = [] \<rparr>"

definition sampleRegisterRequest :: VaultBoardRegisterRequest where
  "sampleRegisterRequest = \<lparr> rr_RequestDigest = replicate 32 1, rr_TreeSessionPub = replicate 33 2, rr_ReceiverSats = 1000, rr_FeeSats = 10, rr_ExpireAt = 60 \<rparr>"

definition sampleChain :: VaultBoardChainState where
  "sampleChain = \<lparr> ch_TipMTP = 200, ch_ConflictChecks = [] \<rparr>"

definition sampleBoardID :: string where
  "sampleBoardID = hexEncode (taggedSHA256 vaultBoardOperationIDDomain
     (boardHead vaultBoardOperationIDDomain @ credField (bytes_of ''v'') @ credField (replicate 32 5) @ le32 0))"

lemma sampleBoardID: "ComputeVaultBoardOperationID ''v'' (replicate 32 5) 0 = Inr sampleBoardID"
proof -
  have "boardCanonical vaultBoardOperationIDDomain [bytes_of ''v'', replicate 32 5] =
      Inr (boardHead vaultBoardOperationIDDomain @ credField (bytes_of ''v'') @ credField (replicate 32 5))"
    by (simp add: boardCanonical_Inr_iff vaultBoardOperationIDDomain_def)
  then show ?thesis by (simp add: ComputeVaultBoardOperationID_def sampleBoardID_def)
qed

lemma sampleBoardID_length [simp]: "length sampleBoardID = 64" "sampleBoardID \<noteq> []"
proof -
  show "length sampleBoardID = 64" by (simp add: sampleBoardID_def)
  then show "sampleBoardID \<noteq> []" by auto
qed

lemma sampleTime: "length (formatRFC3339Nano 0) = 20"
  by code_simp

lemma sampleTime_ne [simp]: "formatRFC3339Nano 0 \<noteq> []"
  using sampleTime by auto

text \<open>The rows of the history: what a call writes, before its seal.\<close>

definition rawOperation :: VaultBoardOperation where
  "rawOperation = sampleBoardOperation \<lparr> bo_OperationID := sampleBoardID, bo_CreatedAt := formatRFC3339Nano 0 \<rparr>"

definition rawRegister :: VaultBoardAuthorization where
  "rawRegister = \<lparr> ba_OperationID = sampleBoardID, ba_Attempt = 0, ba_Phase = VaultBoardPhaseRegister, ba_RequestDigest = replicate 32 1,
     ba_TreeSessionPub = replicate 33 2, ba_ReceiverSats = 1000, ba_FeeSats = 10, ba_ExpireAt = 60, ba_CommitmentTxid = [],
     ba_ReceiverTxid = [], ba_ReceiverVout = 0, ba_CreatedAt = formatRFC3339Nano 0, ba_IntegrityMAC = [] \<rparr>"

definition rawFinalize :: VaultBoardAuthorization where
  "rawFinalize = \<lparr> ba_OperationID = sampleBoardID, ba_Attempt = 0, ba_Phase = VaultBoardPhaseFinalize, ba_RequestDigest = replicate 32 3,
     ba_TreeSessionPub = [], ba_ReceiverSats = 0, ba_FeeSats = 0, ba_ExpireAt = 0, ba_CommitmentTxid = sampleTxidText,
     ba_ReceiverTxid = sampleTxidText, ba_ReceiverVout = 0, ba_CreatedAt = formatRFC3339Nano 0, ba_IntegrityMAC = [] \<rparr>"

definition rawDispatch :: "string \<Rightarrow> bytes \<Rightarrow> VaultBoardDispatch" where
  "rawDispatch phase digest = \<lparr> bd_OperationID = sampleBoardID, bd_Attempt = 0, bd_Phase = phase, bd_RequestDigest = digest,
     bd_CreatedAt = formatRFC3339Nano 0, bd_IntegrityMAC = [] \<rparr>"

definition rawAccepted :: VaultBoardSubmission where
  "rawAccepted = \<lparr> bs_OperationID = sampleBoardID, bs_Attempt = 0, bs_Phase = VaultBoardPhaseRegister, bs_RequestDigest = replicate 32 1,
     bs_Outcome = VaultBoardAuthSubmitted, bs_OperatorRef = ''i'', bs_CommitmentTxid = [], bs_ReceiverTxid = [], bs_ReceiverVout = 0,
     bs_CreatedAt = formatRFC3339Nano 0, bs_IntegrityMAC = [] \<rparr>"

definition rawFinalized :: VaultBoardSubmission where
  "rawFinalized = \<lparr> bs_OperationID = sampleBoardID, bs_Attempt = 0, bs_Phase = VaultBoardPhaseFinalize, bs_RequestDigest = replicate 32 3,
     bs_Outcome = VaultBoardAuthSubmitted, bs_OperatorRef = [], bs_CommitmentTxid = sampleTxidText, bs_ReceiverTxid = sampleTxidText,
     bs_ReceiverVout = 0, bs_CreatedAt = formatRFC3339Nano 0, bs_IntegrityMAC = [] \<rparr>"

lemma sampleTxidText: "canonicalTxidText sampleTxidText" "length sampleTxidText = 64" "sqlLength sampleTxidText = 64"
proof -
  show "length sampleTxidText = 64" by (simp add: sampleTxidText_def)
  show "canonicalTxidText sampleTxidText" "sqlLength sampleTxidText = 64" unfolding sampleTxidText_def by code_simp+
qed

text \<open>Each of them is sealed, and the sealed row passes the checks of its table.\<close>

lemma raw_canonical:
  "\<exists>p. canonicalVaultBoardOperation rawOperation = Inr p" "\<exists>p. canonicalVaultBoardAuthorization rawRegister = Inr p"
  "\<exists>p. canonicalVaultBoardAuthorization rawFinalize = Inr p" "\<exists>p. canonicalVaultBoardSubmission rawAccepted = Inr p"
  "\<exists>p. canonicalVaultBoardSubmission rawFinalized = Inr p"
  "ph \<in> {''register'', ''finalize''} \<Longrightarrow> length d = 32 \<Longrightarrow> \<exists>p. canonicalVaultBoardDispatch (rawDispatch ph d) = Inr p"
  by (simp_all add: canonicalVaultBoardOperation_def canonicalVaultBoardAuthorization_def canonicalVaultBoardSubmission_def
      canonicalVaultBoardDispatch_def rawOperation_def rawRegister_def rawFinalize_def rawAccepted_def rawFinalized_def rawDispatch_def
      sampleBoardOperation_def sampleBoardID authorizationFields_def submissionFields_def board_names maxInt64_def sampleTxidText
      MaxVaultBoardOperatorRefBytes_def andThen_Inr_iff boardCanonical_Inr_iff sampleTime vaultBoardOperationMACDomain_def
      vaultBoardAuthorizationDomain_def vaultBoardSubmissionMACDomain_def vaultBoardDispatchMACDomain_def) (auto simp: sampleTime)

definition sOperation :: VaultBoardOperation where "sOperation = projr (SealVaultBoardOperation rawOperation sampleKey)"
definition sRegister :: VaultBoardAuthorization where "sRegister = projr (SealVaultBoardAuthorization rawRegister sampleKey)"
definition sFinalize :: VaultBoardAuthorization where "sFinalize = projr (SealVaultBoardAuthorization rawFinalize sampleKey)"
definition sAccepted :: VaultBoardSubmission where "sAccepted = projr (SealVaultBoardSubmission rawAccepted sampleKey)"
definition sFinalized :: VaultBoardSubmission where "sFinalized = projr (SealVaultBoardSubmission rawFinalized sampleKey)"
definition sSentRegister :: VaultBoardDispatch where
  "sSentRegister = projr (SealVaultBoardDispatch (rawDispatch VaultBoardPhaseRegister (replicate 32 1)) sampleKey)"
definition sSentFinalize :: VaultBoardDispatch where
  "sSentFinalize = projr (SealVaultBoardDispatch (rawDispatch VaultBoardPhaseFinalize (replicate 32 3)) sampleKey)"

context sealed_row
begin

lemma sealed_exists:
  assumes "length k = 32" "\<exists>p. canon r = Inr p" "s = projr (seal r k)"
  shows "\<exists>m. length m = 32 \<and> seal r k = Inr s \<and> s = set_tag m r"
proof -
  obtain p where "canon r = Inr p" using assms(2) by blast
  from seal_total [OF assms(1) this] assms(3) show ?thesis by (intro exI [of _ "hmac_sha256 k p"]) simp
qed

end

lemma sampleKey_length [simp]: "length sampleKey = 32"
  by (simp add: sampleKey_def)

lemma sealed_rows:
  "\<exists>m. length m = 32 \<and> SealVaultBoardOperation rawOperation sampleKey = Inr sOperation \<and> sOperation = rawOperation \<lparr> bo_IntegrityMAC := m \<rparr>"
  "\<exists>m. length m = 32 \<and> SealVaultBoardAuthorization rawRegister sampleKey = Inr sRegister \<and> sRegister = rawRegister \<lparr> ba_IntegrityMAC := m \<rparr>"
  "\<exists>m. length m = 32 \<and> SealVaultBoardAuthorization rawFinalize sampleKey = Inr sFinalize \<and> sFinalize = rawFinalize \<lparr> ba_IntegrityMAC := m \<rparr>"
  "\<exists>m. length m = 32 \<and> SealVaultBoardSubmission rawAccepted sampleKey = Inr sAccepted \<and> sAccepted = rawAccepted \<lparr> bs_IntegrityMAC := m \<rparr>"
  "\<exists>m. length m = 32 \<and> SealVaultBoardSubmission rawFinalized sampleKey = Inr sFinalized \<and> sFinalized = rawFinalized \<lparr> bs_IntegrityMAC := m \<rparr>"
  "\<exists>m. length m = 32 \<and> SealVaultBoardDispatch (rawDispatch VaultBoardPhaseRegister (replicate 32 1)) sampleKey = Inr sSentRegister \<and>
     sSentRegister = rawDispatch VaultBoardPhaseRegister (replicate 32 1) \<lparr> bd_IntegrityMAC := m \<rparr>"
  "\<exists>m. length m = 32 \<and> SealVaultBoardDispatch (rawDispatch VaultBoardPhaseFinalize (replicate 32 3)) sampleKey = Inr sSentFinalize \<and>
     sSentFinalize = rawDispatch VaultBoardPhaseFinalize (replicate 32 3) \<lparr> bd_IntegrityMAC := m \<rparr>"
  by (rule board_operation.sealed_exists board_authorization.sealed_exists board_submission.sealed_exists board_dispatch.sealed_exists;
      simp add: raw_canonical board_names sOperation_def sRegister_def sFinalize_def sAccepted_def sFinalized_def sSentRegister_def
        sSentFinalize_def)+

lemma sealed [simp]:
  "SealVaultBoardOperation rawOperation sampleKey = Inr sOperation" "VerifyVaultBoardOperation sOperation sampleKey = Inr ()"
  "SealVaultBoardAuthorization rawRegister sampleKey = Inr sRegister" "VerifyVaultBoardAuthorization sRegister sampleKey = Inr ()"
  "SealVaultBoardAuthorization rawFinalize sampleKey = Inr sFinalize" "VerifyVaultBoardAuthorization sFinalize sampleKey = Inr ()"
  "SealVaultBoardSubmission rawAccepted sampleKey = Inr sAccepted" "VerifyVaultBoardSubmission sAccepted sampleKey = Inr ()"
  "SealVaultBoardSubmission rawFinalized sampleKey = Inr sFinalized"
  "SealVaultBoardDispatch (rawDispatch VaultBoardPhaseRegister (replicate 32 1)) sampleKey = Inr sSentRegister"
  "VerifyVaultBoardDispatch sSentRegister sampleKey = Inr ()"
  "SealVaultBoardDispatch (rawDispatch VaultBoardPhaseFinalize (replicate 32 3)) sampleKey = Inr sSentFinalize"
  "VerifyVaultBoardDispatch sSentFinalize sampleKey = Inr ()"
  using sealed_rows board_operation.verify_seal board_authorization.verify_seal board_submission.verify_seal board_dispatch.verify_seal
  by blast+

lemma sealed_operation [simp]:
  "bo_OperationID sOperation = sampleBoardID" "bo_VaultID sOperation = ''v''" "bo_Txid sOperation = replicate 32 5" "bo_Vout sOperation = 0"
  "bo_ValueSats sOperation = 1010" "bo_BoardingScript sOperation = replicate 34 1" "bo_ReceiverScript sOperation = [1]"
  "bo_SequenceAnchorMTP sOperation = 100" "length (bo_IntegrityMAC sOperation) = 32"
proof -
  obtain m where m: "length m = 32" "sOperation = rawOperation \<lparr> bo_IntegrityMAC := m \<rparr>" using sealed_rows(1) by blast
  show "bo_OperationID sOperation = sampleBoardID" "bo_VaultID sOperation = ''v''" "bo_Txid sOperation = replicate 32 5" "bo_Vout sOperation = 0"
  "bo_ValueSats sOperation = 1010" "bo_BoardingScript sOperation = replicate 34 1" "bo_ReceiverScript sOperation = [1]"
  "bo_SequenceAnchorMTP sOperation = 100" "length (bo_IntegrityMAC sOperation) = 32"
    by (simp_all add: m rawOperation_def sampleBoardOperation_def)
qed

lemma sealed_authorizations [simp]:
  "ba_OperationID sRegister = sampleBoardID" "ba_Attempt sRegister = 0" "ba_Phase sRegister = ''register''" "ba_RequestDigest sRegister = replicate 32 1"
  "ba_OperationID sFinalize = sampleBoardID" "ba_Attempt sFinalize = 0" "ba_Phase sFinalize = ''finalize''" "ba_RequestDigest sFinalize = replicate 32 3"
  "boardAuthorizationChecks sRegister" "boardAuthorizationChecks sFinalize"
proof -
  obtain m where m: "length m = 32" "sRegister = rawRegister \<lparr> ba_IntegrityMAC := m \<rparr>" using sealed_rows(2) by blast
  obtain n where n: "length n = 32" "sFinalize = rawFinalize \<lparr> ba_IntegrityMAC := n \<rparr>" using sealed_rows(3) by blast
  show "ba_OperationID sRegister = sampleBoardID" "ba_Attempt sRegister = 0" "ba_Phase sRegister = ''register''" "ba_RequestDigest sRegister = replicate 32 1"
  "ba_OperationID sFinalize = sampleBoardID" "ba_Attempt sFinalize = 0" "ba_Phase sFinalize = ''finalize''" "ba_RequestDigest sFinalize = replicate 32 3"
  "boardAuthorizationChecks sRegister" "boardAuthorizationChecks sFinalize"
    by (simp_all add: m n rawRegister_def rawFinalize_def boardAuthorizationChecks_def board_names sampleTxidText)
qed

lemma sealed_dispatches [simp]:
  "bdKey sSentRegister = (sampleBoardID, 0, ''register'')" "bdKey sSentFinalize = (sampleBoardID, 0, ''finalize'')"
  "bd_RequestDigest sSentRegister = replicate 32 1" "bd_RequestDigest sSentFinalize = replicate 32 3"
  "length (bd_IntegrityMAC sSentRegister) = 32" "length (bd_IntegrityMAC sSentFinalize) = 32"
proof -
  obtain m where m: "length m = 32" "sSentRegister = rawDispatch VaultBoardPhaseRegister (replicate 32 1) \<lparr> bd_IntegrityMAC := m \<rparr>"
    using sealed_rows(6) by blast
  obtain n where n: "length n = 32" "sSentFinalize = rawDispatch VaultBoardPhaseFinalize (replicate 32 3) \<lparr> bd_IntegrityMAC := n \<rparr>"
    using sealed_rows(7) by blast
  show "bdKey sSentRegister = (sampleBoardID, 0, ''register'')" "bdKey sSentFinalize = (sampleBoardID, 0, ''finalize'')"
  "bd_RequestDigest sSentRegister = replicate 32 1" "bd_RequestDigest sSentFinalize = replicate 32 3"
  "length (bd_IntegrityMAC sSentRegister) = 32" "length (bd_IntegrityMAC sSentFinalize) = 32"
    by (simp_all add: m n rawDispatch_def board_names bdKey_def)
qed

lemma sealed_submissions [simp]:
  "bsKey sAccepted = (sampleBoardID, 0, ''register'')" "bsKey sFinalized = (sampleBoardID, 0, ''finalize'')"
  "bs_Outcome sAccepted = ''submitted''" "boardSubmissionChecks sAccepted" "boardSubmissionChecks sFinalized"
proof -
  obtain m where m: "length m = 32" "sAccepted = rawAccepted \<lparr> bs_IntegrityMAC := m \<rparr>" using sealed_rows(4) by blast
  obtain n where n: "length n = 32" "sFinalized = rawFinalized \<lparr> bs_IntegrityMAC := n \<rparr>" using sealed_rows(5) by blast
  show "bsKey sAccepted = (sampleBoardID, 0, ''register'')" "bsKey sFinalized = (sampleBoardID, 0, ''finalize'')"
  "bs_Outcome sAccepted = ''submitted''" "boardSubmissionChecks sAccepted" "boardSubmissionChecks sFinalized"
    by (simp_all add: m n rawAccepted_def rawFinalized_def boardSubmissionChecks_def board_names bsKey_def sampleTxidText)
qed

definition sampleBoarding :: VaultBoardEnrollment where
  "sampleBoarding = \<lparr> be_VaultID = ''v'', be_Program = ''vault-board-v1'', be_BoardingPub = replicate 33 2, be_CosignerPub = replicate 33 2,
     be_OperatorPub = replicate 33 2, be_ExitDelay = 7776256, be_ExitDelayUnit = ''seconds'', be_PkScript = replicate 34 1, be_Address = ''a'',
     be_IntegrityMAC = replicate 32 0 \<rparr>"

definition boardStage :: "VaultBoardOperation list \<Rightarrow> VaultBoardAuthorization list \<Rightarrow> VaultBoardDispatch list \<Rightarrow> VaultBoardSubmission list \<Rightarrow> Ledger" where
  "boardStage os as ds ss = sampleLedger \<lparr> lg_db := sampleDB \<lparr> db_vault_board_enrollment := [sampleBoarding],
     db_vault_board_operation := os, db_vault_board_authorization := as, db_vault_board_dispatch := ds, db_vault_board_submission := ss \<rparr> \<rparr>"

lemma stage [simp]:
  "integrityKeyCopy (boardStage os as ds ss) = Inr sampleKey" "lg_network (boardStage os as ds ss) = ''mainnet''"
  "observeEconomicOutflowsLocked w (boardStage os as ds ss) = (Inr (), boardStage os as ds ss)"
  "observeSequence w (boardStage os as ds ss) = (Inr (), boardStage os as ds ss)"
  by (simp_all add: boardStage_def sampleLedger_def integrityKeyCopy_def observeEconomicOutflowsLocked_def observeSequence_def wrapErr_def)

lemma stage_load [simp]:
  "loadVaultBoardOperation oid (lg_db (boardStage os as ds ss)) = lookupBy (\<lambda>r. bo_OperationID r = oid) os"
  "loadVaultBoardAuthorization oid n ph (lg_db (boardStage os as ds ss)) = lookupBy (\<lambda>r. baKey r = (oid, n, ph)) as"
  "loadVaultBoardDispatch oid n ph (lg_db (boardStage os as ds ss)) = lookupBy (\<lambda>r. bdKey r = (oid, n, ph)) ds"
  "loadVaultBoardSubmission oid n ph (lg_db (boardStage os as ds ss)) = lookupBy (\<lambda>r. bsKey r = (oid, n, ph)) ss"
  by (simp_all add: boardStage_def loadVaultBoardOperation_def loadVaultBoardAuthorization_def loadVaultBoardDispatch_def
      loadVaultBoardSubmission_def baKey_def bdKey_def bsKey_def)

lemma stage_actions:
  "baKey a \<notin> baKey ` set as \<Longrightarrow> ba_OperationID a \<in> bo_OperationID ` set os \<Longrightarrow> boardAuthorizationChecks a \<Longrightarrow>
     actDB (\<lambda>l. insertBoardAuthorization a (lg_db l)) (boardStage os as ds ss) = (Inr (), boardStage os (as @ [a]) ds ss)"
  "bdKey d \<notin> bdKey ` set ds \<Longrightarrow> bdKey d \<in> baKey ` set as \<Longrightarrow> length (bd_RequestDigest d) = 32 \<Longrightarrow> length (bd_IntegrityMAC d) = 32 \<Longrightarrow>
     actDB (\<lambda>l. insertBoardDispatch d (lg_db l)) (boardStage os as ds ss) = (Inr (), boardStage os as (ds @ [d]) ss)"
  "bsKey s \<notin> bsKey ` set ss \<Longrightarrow> bsKey s \<in> baKey ` set as \<Longrightarrow> bsKey s \<in> bdKey ` set ds \<Longrightarrow> boardSubmissionChecks s \<Longrightarrow>
     actDB (\<lambda>l. insertBoardSubmission s (lg_db l)) (boardStage os as ds ss) = (Inr (), boardStage os as ds (ss @ [s]))"
  "actDB (\<lambda>l. insertBoardOperation sOperation (lg_db l)) (boardStage [] as ds ss) = (Inr (), boardStage [sOperation] as ds ss)"
  by (simp_all add: actDB_def insertBoardAuthorization_def insertBoardDispatch_def insertBoardSubmission_def insertBoardOperation_def
      boardStage_def sampleBoarding_def)

lemma stage_conflicts [simp]:
  "boardRegisters sampleBoardID (lg_db (boardStage os [] ds ss)) = []"
  "boardRegisters sampleBoardID (lg_db (boardStage os [sRegister] ds ss)) = [sRegister]"
  "boardRegisters sampleBoardID (lg_db (boardStage os [sRegister, sFinalize] ds ss)) = [sRegister]"
  "db_vault_board_conflict (lg_db (boardStage os as ds ss)) = []"
  by (simp_all add: boardStage_def sampleDB_def boardRegisters_def)

lemma stage_window [simp]: "requireVaultBoardCooperativeWindow ''mainnet'' sOperation sampleChain = Inr ()"
  by (simp add: requireVaultBoardCooperativeWindow_def PinsFor_def NetworkMainnet_def NetworkMutinynet_def MainnetVaultBoardV1ExitDelay_def
      sampleChain_def maxInt64_def Let_def)

lemma stage_verified [simp]:
  "loadVerifiedVaultBoardRegisters sampleKey sampleBoardID (lg_db (boardStage os [] ds ss)) = Inr []"
  "loadVerifiedVaultBoardRegisters sampleKey sampleBoardID (lg_db (boardStage os [sRegister] ds ss)) = Inr [sRegister]"
  "loadVerifiedVaultBoardRegisters sampleKey sampleBoardID (lg_db (boardStage os [sRegister, sFinalize] ds ss)) = Inr [sRegister]"
  "latestVerifiedRegister sampleKey sampleBoardID (lg_db (boardStage os [sRegister] ds ss)) = Inr sRegister"
  "latestVerifiedRegister sampleKey sampleBoardID (lg_db (boardStage os [sRegister, sFinalize] ds ss)) = Inr sRegister"
  by (simp_all add: loadVerifiedVaultBoardRegisters_def latestVerifiedRegister_def loadLatestVaultBoardRegister_def rowRequired_def)

lemma stage_no_conflicts [simp]:
  "loadVaultBoardConflicts wire sampleKey sampleBoardID (lg_db (boardStage os [] ds ss)) = Inr []"
  "loadVaultBoardConflicts wire sampleKey sampleBoardID (lg_db (boardStage os [sRegister] ds ss)) = Inr []"
  "loadVaultBoardConflicts wire sampleKey sampleBoardID (lg_db (boardStage os [sRegister, sFinalize] ds ss)) = Inr []"
  by (simp_all add: loadVaultBoardConflicts_def decodeConflictRows_def baKey_def board_names Let_def)

lemma stage_checks [simp]:
  "requireVaultBoardConflictChecks wire w sampleKey sampleBoardID chain (boardStage os [] ds ss) = (Inr (), boardStage os [] ds ss)"
  "requireVaultBoardConflictChecks wire w sampleKey sampleBoardID chain (boardStage os [sRegister] ds ss) = (Inr (), boardStage os [sRegister] ds ss)"
  "boardPhaseChecks wire env sampleKey sampleBoardID sampleChain (boardStage [sOperation] [sRegister] ds ss) =
     (Inr sOperation, boardStage [sOperation] [sRegister] ds ss)"
  by (simp_all add: requireVaultBoardConflictChecks_def boardPhaseChecks_def actBind_def actRead_def actPure_def rowRequired_def)

lemma raw_records [simp]:
  "rawRegister \<lparr> ba_CreatedAt := formatRFC3339Nano 0 \<rparr> = rawRegister" "rawFinalize \<lparr> ba_CreatedAt := formatRFC3339Nano 0 \<rparr> = rawFinalize"
  "rawAccepted \<lparr> bs_CreatedAt := formatRFC3339Nano 0 \<rparr> = rawAccepted" "rawFinalized \<lparr> bs_CreatedAt := formatRFC3339Nano 0 \<rparr> = rawFinalized"
  "rawDispatch ph d \<lparr> bd_CreatedAt := formatRFC3339Nano 0 \<rparr> = rawDispatch ph d"
  "sampleBoardOperation \<lparr> bo_OperationID := sampleBoardID, bo_CreatedAt := formatRFC3339Nano 0 \<rparr> = rawOperation"
  by (simp_all add: rawRegister_def rawFinalize_def rawAccepted_def rawFinalized_def rawDispatch_def rawOperation_def)

lemma sampleEnv_simps [simp]: "env_now sampleEnv = 0" "env_pre sampleEnv = 0" "env_commit sampleEnv"
  by (simp_all add: sampleEnv_def)

lemma run_begin:
  "boardExec wire sampleEnv (BBegin sampleBoardOperation sampleRegisterRequest sampleChain) (boardStage [] [] [] []) =
     (Inr (), boardStage [sOperation] [sRegister] [] [])"
proof -
  let ?op = "sampleBoardOperation \<lparr> bo_OperationID := sampleBoardID \<rparr>"
  have bind: "bindBoardOperation 0 sampleKey ?op (boardStage [] [] [] []) = (Inr sOperation, boardStage [sOperation] [] [] [])"
    by (simp add: bindBoardOperation_def actBind_def actPure_def stage_actions)
  have reg: "registerAttempt wire sampleEnv sampleKey sampleBoardID sampleRegisterRequest [] (boardStage [sOperation] [] [] []) =
      (Inr sRegister, boardStage [sOperation] [sRegister] [] [])"
    using sealed(3) unfolding rawRegister_def
    by (simp add: registerAttempt_def nextAttempt_def actBind_def actRead_def actPure_def stage_actions sampleRegisterRequest_def)
  have "beginBody wire sampleEnv ?op sampleRegisterRequest sampleChain (boardStage [] [] [] []) =
      (Inr (sOperation, sRegister, True), boardStage [sOperation] [sRegister] [] [])"
    using bind reg by (simp add: beginBody_def Let_def actBind_def actRead_def actPure_def)
  then show ?thesis
    by (simp add: BeginVaultBoardAttempt_def inTx_def forget_def sampleBoardID sampleBoardOperation_def sampleRegisterRequest_def maxInt64_def unixSec_def)
qed

lemma stage_attempt [simp]:
  "currentAttempt sampleKey sampleBoardID 0 (lg_db (boardStage os [sRegister] ds ss)) = Inr ()"
  "currentAttempt sampleKey sampleBoardID 0 (lg_db (boardStage os [sRegister, sFinalize] ds ss)) = Inr ()"
  by (simp_all add: currentAttempt_def)

lemma keys_of_rows [simp]: "baKey sRegister = (sampleBoardID, 0, ''register'')" "baKey sFinalize = (sampleBoardID, 0, ''finalize'')"
  by (simp_all add: baKey_def)

lemma run_send:
  "boardExec wire sampleEnv (BDispatch (rawDispatch VaultBoardPhaseRegister (replicate 32 1)) sampleChain) (boardStage [sOperation] [sRegister] [] []) =
     (Inr (), boardStage [sOperation] [sRegister] [sSentRegister] [])"
proof -
  let ?d = "rawDispatch VaultBoardPhaseRegister (replicate 32 1)"
  have f: "bd_OperationID ?d = sampleBoardID" "bd_Attempt ?d = 0" "bd_Phase ?d = ''register''" "bd_RequestDigest ?d = replicate 32 1"
    by (simp_all add: rawDispatch_def board_names)
  have w: "writeBoardDispatch sampleEnv sampleKey ?d (boardStage [sOperation] [sRegister] [] []) =
      (Inr sSentRegister, boardStage [sOperation] [sRegister] [sSentRegister] [])"
    by (simp add: writeBoardDispatch_def actBind_def actRead_def actPure_def stage_actions f)
  show ?thesis
    by (simp add: AppendVaultBoardDispatch_def dispatchBody_def inTx_def forget_def actBind_def actRead_def actPure_def existingDispatch_def
        loadOptionalVerifiedVaultBoardDispatch_def rowRequired_def f w)
qed

lemma run_accept:
  "boardExec wire sampleEnv (BSubmit rawAccepted) (boardStage [sOperation] [sRegister] [sSentRegister] []) =
     (Inr (), boardStage [sOperation] [sRegister] [sSentRegister] [sAccepted])"
proof -
  have f: "bs_OperationID rawAccepted = sampleBoardID" "bs_Attempt rawAccepted = 0" "bs_Phase rawAccepted = ''register''"
    "bs_RequestDigest rawAccepted = replicate 32 1" by (simp_all add: rawAccepted_def board_names)
  show ?thesis
    by (simp add: AppendVaultBoardSubmission_def submissionBody_def submissionChecks_def inTx_def forget_def actBind_def actRead_def actPure_def
        loadOptionalVerifiedVaultBoardSubmission_def rowRequired_def f stage_actions VaultBoardPhaseFinalize_def Let_def)
qed

lemma run_finalize:
  "boardExec wire sampleEnv (BAuthorize rawFinalize sampleChain) (boardStage [sOperation] [sRegister] [sSentRegister] [sAccepted]) =
     (Inr (), boardStage [sOperation] [sRegister, sFinalize] [sSentRegister, sSentFinalize] [sAccepted])"
proof -
  let ?d = "rawDispatch VaultBoardPhaseFinalize (replicate 32 3)"
  let ?raw = "\<lparr> bd_OperationID = sampleBoardID, bd_Attempt = 0, bd_Phase = ''finalize'', bd_RequestDigest = replicate 32 3, bd_CreatedAt = [], bd_IntegrityMAC = [] \<rparr>"
  have f: "ba_OperationID rawFinalize = sampleBoardID" "ba_Attempt rawFinalize = 0" "ba_Phase rawFinalize = ''finalize''"
    by (simp_all add: rawFinalize_def board_names)
  have d: "?raw \<lparr> bd_CreatedAt := formatRFC3339Nano 0 \<rparr> = ?d" by (simp add: rawDispatch_def board_names)
  have a: "authorizeBoardPhase 0 sampleKey rawFinalize (boardStage [sOperation] [sRegister] [sSentRegister] [sAccepted]) =
      (Inr sFinalize, boardStage [sOperation] [sRegister, sFinalize] [sSentRegister] [sAccepted])"
    by (simp add: authorizeBoardPhase_def validateVaultBoardPhaseOrder_def loadOptionalVerifiedVaultBoardAuthorization_def actBind_def actRead_def
        actPure_def stage_actions f board_names Let_def)
  have w: "writeBoardDispatch sampleEnv sampleKey ?raw (boardStage [sOperation] [sRegister, sFinalize] [sSentRegister] [sAccepted]) =
      (Inr sSentFinalize, boardStage [sOperation] [sRegister, sFinalize] [sSentRegister, sSentFinalize] [sAccepted])"
    using d by (simp add: writeBoardDispatch_def actBind_def actRead_def actPure_def stage_actions)
  show ?thesis
    by (simp add: AppendVaultBoardAuthorizationAndDispatch_def authorizeBody_def inTx_def forget_def actBind_def actRead_def actPure_def existingDispatch_def
        loadOptionalVerifiedVaultBoardDispatch_def VaultBoardPhaseFinalize_def f a w Let_def)
qed

lemma run_answer:
  "boardExec wire sampleEnv (BSubmit rawFinalized) (boardStage [sOperation] [sRegister, sFinalize] [sSentRegister, sSentFinalize] [sAccepted]) =
     (Inr (), boardStage [sOperation] [sRegister, sFinalize] [sSentRegister, sSentFinalize] [sAccepted, sFinalized])"
proof -
  have f: "bs_OperationID rawFinalized = sampleBoardID" "bs_Attempt rawFinalized = 0" "bs_Phase rawFinalized = ''finalize''"
    "bs_RequestDigest rawFinalized = replicate 32 3" by (simp_all add: rawFinalized_def board_names)
  show ?thesis
    by (simp add: AppendVaultBoardSubmission_def submissionBody_def submissionChecks_def inTx_def forget_def actBind_def actRead_def actPure_def
        loadOptionalVerifiedVaultBoardSubmission_def rowRequired_def f stage_actions VaultBoardPhaseFinalize_def Let_def)
qed

definition boardedLedger :: Ledger where
  "boardedLedger = boardStage [sOperation] [sRegister, sFinalize] [sSentRegister, sSentFinalize] [sAccepted, sFinalized]"

lemma stage_start: "board_reach wire sampleKey (boardStage [] [] [] [])"
  by (rule board_reach.init) (simp_all add: freshLedger_def boardTables_def boardStage_def sampleLedger_def sampleDB_def)

lemma boarded_reachable: "board_reach wire sampleKey boardedLedger"
  unfolding boardedLedger_def
  by (rule board_reach.board [OF board_reach.board [OF board_reach.board [OF board_reach.board [OF board_reach.board
      [OF stage_start run_begin] run_send] run_accept] run_finalize] run_answer])

section \<open>Guarantees\<close>

text \<open>
  C5: Along every history of calls the stored boarding rows are a state of the boarding protocol, and each boarding call, failed
  or not, is a sequence of protocol events (a failed call is the empty one).
\<close>

theorem board_follows_protocol:
  assumes "board_reach wire key l" "boardExec wire env c l = (res, l')"
  shows "boarding_reach (boardAbs (lg_db l)) \<and> boarding_step\<^sup>*\<^sup>* (boardAbs (lg_db l)) (boardAbs (lg_db l')) \<and>
    ((\<exists>e. res = Inl e) \<longrightarrow> lg_db l' = lg_db l)"
  using board_reach_inv [OF assms(1)] board_inv [OF assms(1)] boardExec_sim [OF assms(2)] boardExec_failed assms(2)
  by (auto simp: boardSim_def)

theorem board_follows_protocol_witness:
  "boarding_step\<^sup>*\<^sup>* (boardAbs (lg_db (boardStage [] [] [] []))) (boardAbs (lg_db (boardStage [sOperation] [sRegister] [] [])))"
  using board_follows_protocol [OF stage_start [of "\<lambda>_. None"] run_begin] by blast

text \<open>
  C4: A boarding the Operator finalized is settled for good: the attempt with the final result stays the latest attempt of its
  outpoint, no other attempt of it has a final result, it was never authorized for deletion, and no conflict of it is ever recorded.
\<close>

theorem finalized_boarding_is_settled:
  assumes "board_reach wire key l" "s \<in> set (db_vault_board_submission (lg_db l))" "bs_Phase s = ''finalize''"
  shows "ba_Attempt (last (boardRegisters (bs_OperationID s) (lg_db l))) = bs_Attempt s \<and>
    (\<forall>t\<in>set (db_vault_board_submission (lg_db l)). bs_Phase t = ''finalize'' \<and> bs_OperationID t = bs_OperationID s \<longrightarrow> bs_Attempt t = bs_Attempt s) \<and>
    loadVaultBoardAuthorization (bs_OperationID s) (bs_Attempt s) ''delete'' (lg_db l) = None \<and>
    (\<forall>c\<in>set (db_vault_board_conflict (lg_db l)). cr_operation_id c = bs_OperationID s \<longrightarrow> cr_attempt c \<noteq> bs_Attempt s)"
proof -
  let ?b = "boardAbs (lg_db l)" and ?oid = "bs_OperationID s" and ?n = "unat (bs_Attempt s)"
  note D = boardingInvD [OF board_inv [OF assms(1)]] and r = final_row [OF assms]
  have "(?oid, ?n, ''finalize'') \<in> bg_phases ?b" using D(7) [OF D(8) [OF r(1)]] by simp
  then have "(?oid, ?n, ''delete'') \<notin> bg_phases ?b" using D(4) by blast
  then have "loadVaultBoardAuthorization ?oid (bs_Attempt s) ''delete'' (lg_db l) = None" by (simp add: abs_phases)
  moreover have "bs_Attempt t = bs_Attempt s"
    if "t \<in> set (db_vault_board_submission (lg_db l))" "bs_Phase t = ''finalize''" "bs_OperationID t = ?oid" for t
    using final_row(2) [OF assms(1) that(1,2)] r(2) that(3) by simp
  moreover have "cr_attempt c \<noteq> bs_Attempt s" if "c \<in> set (db_vault_board_conflict (lg_db l))" "cr_operation_id c = ?oid" for c
  proof
    assume "cr_attempt c = bs_Attempt s"
    with that have "(?oid, ?n) \<in> bg_conflicts ?b" by (force simp: boardAbs_def)
    from conjunct2 [OF D(6) [OF this]] r(1) show False by simp
  qed
  ultimately show ?thesis using r(2) by blast
qed

theorem finalized_boarding_is_settled_witness:
  "sFinalized \<in> set (db_vault_board_submission (lg_db boardedLedger)) \<and>
   ba_Attempt (last (boardRegisters sampleBoardID (lg_db boardedLedger))) = bs_Attempt sFinalized"
proof -
  have k: "bs_OperationID sFinalized = sampleBoardID" "bs_Phase sFinalized = ''finalize''" using sealed_submissions(2) by (simp_all add: bsKey_def)
  have i: "sFinalized \<in> set (db_vault_board_submission (lg_db boardedLedger))" by (simp add: boardedLedger_def boardStage_def)
  show ?thesis using finalized_boarding_is_settled [OF boarded_reachable [of "\<lambda>_. None"] i k(2)] i k(1) by simp
qed

text \<open>
  C6: In every reachable ledger the attempts of an outpoint are numbered 0, 1, 2 and so on, each with a request digest and a session
  key of its own; and an attempt that was replaced although it was authorized to finalize has a recorded conflict and no final result.
\<close>

theorem board_attempts_sound:
  assumes "board_reach wire key l"
  shows "map (\<lambda>a. unat (ba_Attempt a)) (boardRegisters oid (lg_db l)) = [0..<length (boardRegisters oid (lg_db l))] \<and>
    distinct (map ba_RequestDigest (boardRegisters oid (lg_db l))) \<and> distinct (map ba_TreeSessionPub (boardRegisters oid (lg_db l))) \<and>
    (\<forall>a\<in>set (db_vault_board_authorization (lg_db l)). ba_OperationID a = oid \<and> ba_Phase a = ''finalize'' \<and>
       Suc (unat (ba_Attempt a)) < length (boardRegisters oid (lg_db l)) \<longrightarrow>
       loadVaultBoardSubmission oid (ba_Attempt a) ''finalize'' (lg_db l) = None \<and>
       (\<exists>c\<in>set (db_vault_board_conflict (lg_db l)). cr_operation_id c = oid \<and> cr_attempt c = ba_Attempt a))"
proof -
  let ?b = "boardAbs (lg_db l)" and ?rs = "boardRegisters oid (lg_db l)"
  note D = boardingInvD [OF board_inv [OF assms]]
  have keys: "distinct (map ba_RequestDigest ?rs)" "distinct (map ba_TreeSessionPub ?rs)"
    using D(1,2) [of oid] by (simp_all add: boardAbs_def comp_def)
  have replaced: "loadVaultBoardSubmission oid (ba_Attempt a) ''finalize'' (lg_db l) = None \<and>
      (\<exists>c\<in>set (db_vault_board_conflict (lg_db l)). cr_operation_id c = oid \<and> cr_attempt c = ba_Attempt a)"
    if a: "a \<in> set (db_vault_board_authorization (lg_db l))" "ba_OperationID a = oid" "ba_Phase a = ''finalize''"
      "Suc (unat (ba_Attempt a)) < length ?rs" for a
  proof -
    have "loadVaultBoardAuthorization oid (ba_Attempt a) ''finalize'' (lg_db l) \<noteq> None"
      unfolding loadVaultBoardAuthorization_def lookupBy_None_iff using a by blast
    then have "(oid, unat (ba_Attempt a), ''finalize'') \<in> bg_phases ?b" by (simp add: abs_phases)
    then have c: "(oid, unat (ba_Attempt a)) \<in> bg_conflicts ?b" using D(5) a(4) by (simp add: abs_registers)
    with D(6) have "bg_results ?b (oid, unat (ba_Attempt a), ''finalize'') = None" by blast
    then have "loadVaultBoardSubmission oid (ba_Attempt a) ''finalize'' (lg_db l) = None" by (simp add: abs_results)
    moreover have "\<exists>r\<in>set (db_vault_board_conflict (lg_db l)). cr_operation_id r = oid \<and> cr_attempt r = ba_Attempt a"
      using c by (auto simp: boardAbs_def word_unat_eq_iff)
    ultimately show ?thesis by blast
  qed
  have num: "map (\<lambda>a. unat (ba_Attempt a)) ?rs = [0..<length ?rs]"
    using conjunct1 [OF board_reach_inv [OF assms]] by (simp add: numbered_def)
  show ?thesis by (simp add: keys num replaced)
qed

theorem board_attempts_sound_witness:
  "map (\<lambda>a. unat (ba_Attempt a)) (boardRegisters sampleBoardID (lg_db boardedLedger)) = [0] \<and> boardRegisters sampleBoardID (lg_db boardedLedger) = [sRegister]"
  using board_attempts_sound [OF boarded_reachable [of "\<lambda>_. None"], of sampleBoardID] by (simp add: boardedLedger_def)

end
