(* ===== verification/Session.thy ===== *)
theory Session
  imports Webauthn Enrollment Store
begin

text \<open>
  Passkey sessions of the application service (\<open>application/session_challenge.go\<close>, the authentication of
  \<open>application/session.go\<close> and the helpers of \<open>application/service.go\<close> it calls). A challenge is a self-contained ticket:
  its facts and a MAC under a key drawn at process start. The service only remembers the tickets that were spent, until they
  expire. The rate limit of recovery signatures (\<open>application/transition.go\<close>) is the other state kept in memory.

  Random draws are arguments (\<open>None\<close> is a failed draw), the clock is an argument, and a time is printed in UTC.
\<close>

section \<open>Constants and data\<close>

definition passkeyPurposeRecover :: string where "passkeyPurposeRecover = ''recover''"
definition passkeyPurposeInstall :: string where "passkeyPurposeInstall = ''install-envelope''"
definition passkeyPurposeTransition :: string where "passkeyPurposeTransition = ''transition''"
definition passkeyPurposeMapWrite :: string where "passkeyPurposeMapWrite = ''map-write''"
definition recoveryArchivePurpose :: string where "recoveryArchivePurpose = ''recovery-archive-open''"
definition passkeyProofDomain :: string where "passkeyProofDomain = ''arkade-2fa-vault/passkey-proof/v1''"
definition passkeyChallengeTTL :: int where "passkeyChallengeTTL = 2 * 60 * second"
definition passkeyChallengeTicketPrefix :: string where "passkeyChallengeTicketPrefix = ''v2.''"
definition passkeyChallengeTicketLimit :: nat where "passkeyChallengeTicketLimit = 2048"
definition maxConsumedPasskeyChallenges :: nat where "maxConsumedPasskeyChallenges = 4096"
definition maxConsumedPasskeyChallengesPerVault :: nat where "maxConsumedPasskeyChallengesPerVault = 256"
definition ErrVerificationBusy :: go_error where "ErrVerificationBusy = Err ''crypto verification capacity exhausted''"

lemmas session_names [guard_defs] = passkeyChallengeTTL_def passkeyChallengeTicketPrefix_def passkeyChallengeTicketLimit_def
  maxConsumedPasskeyChallenges_def maxConsumedPasskeyChallengesPerVault_def

record passkeyChallenge =
  pc_VaultID :: string
  pc_Purpose :: string
  pc_Challenge :: bytes
  pc_ExpiresAt :: time

record consumedPasskeyChallenge =
  cc_VaultID :: string
  cc_ExpiresAt :: time

record PasskeyChallengeResponse =
  pr_ChallengeID :: string
  pr_Challenge :: string
  pr_AllowCredentialID :: string
  pr_ExpiresInSeconds :: int

record SessionAssertionRequest =
  sr_ChallengeID :: string
  sr_CredentialID :: string
  sr_ClientDataJSON :: string
  sr_AuthenticatorData :: string
  sr_Signature :: string
  sr_DirectProof :: string

text \<open>The session state of the service: the ticket key (empty before the first draw) and the spent tickets by digest.\<close>

record Sessions =
  ss_sessionChallengeKey :: bytes
  ss_consumed :: "(bytes \<times> consumedPasskeyChallenge) list"

section \<open>The JSON of a ticket\<close>

text \<open>\<open>time.Time\<close> is printed as RFC 3339 with nanoseconds and refuses a year outside four digits.\<close>

definition marshalChallenge :: "passkeyChallenge \<Rightarrow> string option" where
  "marshalChallenge r =
     (if \<not> fourDigitYear (pc_ExpiresAt r) then None
      else Some (jsonStruct
        (strField ''VaultID'' (pc_VaultID r) @ strField ''Purpose'' (pc_Purpose r) @
         [(''Challenge'', if pc_Challenge r = [] then ''null'' else jsonString (stdEncode (pc_Challenge r)))] @
         strField ''ExpiresAt'' (formatRFC3339Nano (pc_ExpiresAt r)))))"

fun decTime :: "time \<Rightarrow> json list \<Rightarrow> time option" where
  "decTime acc [] = Some acc"
| "decTime acc (v # vs) =
     (case v of
        JNull \<Rightarrow> decTime acc vs
      | JStr s \<Rightarrow> (case parseRFC3339 s of Some t \<Rightarrow> decTime t vs | None \<Rightarrow> None)
      | _ \<Rightarrow> None)"

definition unmarshalChallenge :: "string \<Rightarrow> passkeyChallenge option" where
  "unmarshalChallenge s =
     (case jsonMembers s of
        None \<Rightarrow> None
      | Some ms \<Rightarrow>
          (case (decStr [] (fieldVals ms ''VaultID''), decStr [] (fieldVals ms ''Purpose''),
                 decBytes [] (fieldVals ms ''Challenge''), decTime zeroTime (fieldVals ms ''ExpiresAt'')) of
             (Some v, Some p, Some c, Some t) \<Rightarrow> Some \<lparr> pc_VaultID = v, pc_Purpose = p, pc_Challenge = c, pc_ExpiresAt = t \<rparr>
           | _ \<Rightarrow> None))"

section \<open>Tickets\<close>

definition challengeMAC :: "bytes \<Rightarrow> bytes \<Rightarrow> bytes" where
  "challengeMAC key payload = hmac_sha256 key (bytes_of ''vaulted/passkey-challenge/v2'' @ [0] @ payload)"

text \<open>\<open>base64.RawURLEncoding.EncodedLen\<close>.\<close>

definition rawEncodedLen :: "nat \<Rightarrow> nat" where
  "rawEncodedLen n = n div 3 * 4 + (n mod 3 * 8 + 5) div 6"

definition issuePasskeyChallenge :: "time \<Rightarrow> bytes option \<Rightarrow> bytes option \<Rightarrow> string \<Rightarrow> string \<Rightarrow> bytes \<Rightarrow> Sessions \<Rightarrow>
    PasskeyChallengeResponse res \<times> Sessions" where
  "issuePasskeyChallenge now draw drawKey vaultID purpose credentialID ss =
     (case draw of
        None \<Rightarrow> (Inl (Err ''rand''), ss)
      | Some challenge \<Rightarrow>
         (case marshalChallenge \<lparr> pc_VaultID = vaultID, pc_Purpose = purpose, pc_Challenge = challenge,
                                  pc_ExpiresAt = now + passkeyChallengeTTL \<rparr> of
            None \<Rightarrow> (Inl (Err ''json''), ss)
          | Some payload \<Rightarrow>
              if length payload + 32 > passkeyChallengeTicketLimit then (Inl (Err ''passkey challenge identity too large''), ss)
              else (case (if ss_sessionChallengeKey ss = [] then drawKey else Some (ss_sessionChallengeKey ss)) of
                  None \<Rightarrow> (Inl (Err ''rand''), ss)
                | Some key \<Rightarrow>
                    let raw = bytes_of payload @ challengeMAC key (bytes_of payload) in
                    (Inr \<lparr> pr_ChallengeID = passkeyChallengeTicketPrefix @ b64Encode raw, pr_Challenge = hexEncode challenge,
                           pr_AllowCredentialID = hexEncode credentialID, pr_ExpiresInSeconds = passkeyChallengeTTL div second \<rparr>,
                     ss \<lparr> ss_sessionChallengeKey := key \<rparr>))))"

text \<open>The authenticated content of a ticket: its payload and the digest it is remembered by.\<close>

definition openTicket :: "bytes \<Rightarrow> string \<Rightarrow> (bytes \<times> bytes) option" where
  "openTicket key tid =
     (if \<not> hasPrefix tid passkeyChallengeTicketPrefix \<or>
         length tid > length passkeyChallengeTicketPrefix + rawEncodedLen passkeyChallengeTicketLimit \<or> length key \<noteq> 32
      then None
      else
        let encoded = trimPrefix tid passkeyChallengeTicketPrefix in
        case b64Decode encoded of
          None \<Rightarrow> None
        | Some raw \<Rightarrow>
            if length raw \<le> 32 \<or> length raw > passkeyChallengeTicketLimit \<or> b64Encode raw \<noteq> encoded then None
            else
              let payload = take (length raw - 32) raw in
              if challengeMAC key payload \<noteq> drop (length raw - 32) raw then None else Some (payload, sha256 raw))"

definition passkeyChallengeLocked :: "time \<Rightarrow> string \<Rightarrow> string \<Rightarrow> string \<Rightarrow> Sessions \<Rightarrow> (passkeyChallenge \<times> bytes) res" where
  "passkeyChallengeLocked now vaultID tid purpose ss =
     (let fail = Inl (Err ''passkey authentication failed'') in
      case openTicket (ss_sessionChallengeKey ss) tid of
        None \<Rightarrow> fail
      | Some (payload, digest) \<Rightarrow>
         (case unmarshalChallenge (string_of payload) of
            None \<Rightarrow> fail
          | Some record \<Rightarrow>
              if marshalChallenge record \<noteq> Some (string_of payload) \<or> pc_VaultID record \<noteq> vaultID \<or> pc_Purpose record \<noteq> purpose \<or>
                 length (pc_Challenge record) \<noteq> 32 \<or> \<not> timeBefore now (pc_ExpiresAt record) then fail
              else if digest \<in> fst ` set (ss_consumed ss) then fail
              else Inr (record, digest)))"

definition readPasskeyChallenge :: "time \<Rightarrow> string \<Rightarrow> string \<Rightarrow> string \<Rightarrow> Sessions \<Rightarrow> passkeyChallenge res" where
  "readPasskeyChallenge now vaultID tid purpose ss = andThen (passkeyChallengeLocked now vaultID tid purpose ss) (\<lambda>(record, _). Inr record)"

text \<open>A ticket of these purposes is issued before its owner is known.\<close>

definition ownerlessPurpose :: "string \<Rightarrow> bool" where
  "ownerlessPurpose purpose \<longleftrightarrow> purpose = recoveryArchivePurpose \<or> purpose = ''lnurl-register'' \<or>
     hasPrefix purpose ''lnurl-register:'' \<or> purpose = ''lnurl-revoke''"

definition liveConsumed :: "time \<Rightarrow> Sessions \<Rightarrow> (bytes \<times> consumedPasskeyChallenge) list" where
  "liveConsumed now ss = filter (\<lambda>(_, spent). timeBefore now (cc_ExpiresAt spent)) (ss_consumed ss)"

text \<open>\<open>t1\<close> and \<open>t2\<close> are the clock at the check of the ticket and at the sweep of the expired entries.\<close>

definition consumePasskeyChallenge :: "time \<Rightarrow> time \<Rightarrow> string \<Rightarrow> string \<Rightarrow> string \<Rightarrow> Sessions \<Rightarrow> bytes res \<times> Sessions" where
  "consumePasskeyChallenge t1 t2 vaultID tid purpose ss =
     (if vaultID = [] then (Inl (Err ''authenticated challenge owner required''), ss)
      else case passkeyChallengeLocked t1 (if ownerlessPurpose purpose then [] else vaultID) tid purpose ss of
        Inl e \<Rightarrow> (Inl e, ss)
      | Inr (record, digest) \<Rightarrow>
          let live = liveConsumed t2 ss; owned = length (filter (\<lambda>(_, spent). cc_VaultID spent = vaultID) live) in
          if length live \<ge> maxConsumedPasskeyChallenges \<or> owned \<ge> maxConsumedPasskeyChallengesPerVault
          then (Inl ErrVerificationBusy, ss \<lparr> ss_consumed := live \<rparr>)
          else (Inr (pc_Challenge record),
                ss \<lparr> ss_consumed := (digest, \<lparr> cc_VaultID = vaultID, cc_ExpiresAt = pc_ExpiresAt record \<rparr>) # live \<rparr>))"

section \<open>Authentication\<close>

definition routeVaultID :: "string \<Rightarrow> string res" where
  "routeVaultID vaultID = (let tid = trimSpace vaultID in if tid = [] then Inl (Err ''vault id required'') else Inr tid)"

definition credentialIntegrityKey :: "bytes \<Rightarrow> bytes res" where
  "credentialIntegrityKey key =
     (if length key = 32 then Inr key
      else if length key \<noteq> 0 then Inl (Err ''credential integrity key must be 32 bytes'')
      else Inl (Err ''credential integrity key is required''))"

definition loadVerifiedCredentialFor :: "bytes \<Rightarrow> string \<Rightarrow> Tenants \<Rightarrow> Credential option res" where
  "loadVerifiedCredentialFor key vaultID t =
     andThen (credentialIntegrityKey key) (\<lambda>key.
     andThen (routeVaultID vaultID) (\<lambda>vaultID.
     andThen (LoadVerifiedVault vaultID key t) (\<lambda>found.
     case found of
       Some (v, Some c) \<Rightarrow> Inr (Some (toCredential v c))
     | _ \<Rightarrow> Inr None)))"

definition loadVerifiedEnvelopeFor :: "bytes \<Rightarrow> string \<Rightarrow> bytes \<Rightarrow> Tenants \<Rightarrow> CredentialEnvelope option res" where
  "loadVerifiedEnvelopeFor key vaultID credentialID t =
     andThen (credentialIntegrityKey key) (\<lambda>key.
     andThen (routeVaultID vaultID) (\<lambda>vaultID.
     andThen (GetVaultEnvelope vaultID t) (\<lambda>envelope.
     case envelope of
       None \<Rightarrow> Inr None
     | Some e \<Rightarrow>
         andThen (wrapErr ''authoritative credential envelope integrity verification failed'' (VerifyVaultEnvelope e vaultID credentialID key))
           (\<lambda>_. Inr (Some e)))))"

definition decodeHexField :: "string \<Rightarrow> bytes res" where
  "decodeHexField s =
     (if s = [] then Inl (Err ''empty'') else case hexDecode s of None \<Rightarrow> Inl (Err ''hex: %w'') | Some b \<Rightarrow> Inr b)"

definition decodeAssertion :: "SessionAssertionRequest \<Rightarrow> Assertion res" where
  "decodeAssertion req =
     andThen (decodeHexField (sr_CredentialID req)) (\<lambda>cid.
     andThen (decodeHexField (sr_ClientDataJSON req)) (\<lambda>cd.
     andThen (decodeHexField (sr_AuthenticatorData req)) (\<lambda>ad.
     andThen (decodeHexField (sr_Signature req)) (\<lambda>sig.
     Inr \<lparr> as_CredentialID = cid, as_ClientDataJSON = cd, as_AuthenticatorData = ad, as_DERSignature = sig \<rparr>))))"

definition decodeBoundedSessionAssertion :: "SessionAssertionRequest \<Rightarrow> Assertion res" where
  "decodeBoundedSessionAssertion req =
     andThen (decodeAssertion req) (\<lambda>a.
     if as_CredentialID a = [] \<or> length (as_CredentialID a) > 1024 \<or> as_ClientDataJSON a = [] \<or> length (as_ClientDataJSON a) > 4096 \<or>
        length (as_AuthenticatorData a) < 37 \<or> length (as_AuthenticatorData a) > 1024 \<or> as_DERSignature a = [] \<or>
        length (as_DERSignature a) > 128
     then Inl (Err ''assertion field size'') else Inr a)"

definition decodeFixedHex :: "string \<Rightarrow> nat \<Rightarrow> bytes res" where
  "decodeFixedHex encoded n =
     (let bad = Inl (Err ''%s must be canonical %d-byte lowercase hex'') in
      if length encoded \<noteq> n * 2 \<or> encoded \<noteq> toLower encoded then bad
      else case hexDecode encoded of
        None \<Rightarrow> bad
      | Some raw \<Rightarrow> if length raw \<noteq> n then bad else Inr raw)"

definition passkeySessionProofDigest :: "string \<Rightarrow> bytes \<Rightarrow> bytes \<Rightarrow> bytes" where
  "passkeySessionProofDigest purpose challenge credentialID =
     sha256 (bytes_of passkeyProofDomain @ [0] @ bytes_of purpose @ [0] @ challenge @ [0] @ credentialID)"

definition verifyDirectAuth :: "bytes \<Rightarrow> bytes \<Rightarrow> bytes \<Rightarrow> unit res" where
  "verifyDirectAuth directPub digest compact =
     andThen (wrapErr ''direct p256'' (ParseCompressedP256 directPub)) (\<lambda>pub. wrapErr ''direct auth'' (VerifyDigestLowS pub digest compact))"

text \<open>What the service holds: its integrity key, the session state and the two groups of tables of its ledger.\<close>

record Service =
  sv_CredentialIntegrityKey :: bytes
  sv_sessions :: Sessions
  sv_tenants :: Tenants
  sv_ledger :: Ledger

definition advanceSignCount :: "time \<Rightarrow> string \<Rightarrow> bytes \<Rightarrow> u32 \<Rightarrow> Service \<Rightarrow> unit res \<times> Service" where
  "advanceSignCount now vaultID credID n s =
     (case andThen (credentialIntegrityKey (sv_CredentialIntegrityKey s)) (\<lambda>key. RequireIntegrityKey key (sv_ledger s)) of
        Inl e \<Rightarrow> (Inl e, s)
      | Inr _ \<Rightarrow> (case AdvanceSignCount now vaultID credID n (sv_ledger s) of (r, l') \<Rightarrow> (r, s \<lparr> sv_ledger := l' \<rparr>)))"

definition passkeyFailure :: go_error where "passkeyFailure = Err ''passkey authentication failed''"

text \<open>The checks before the ticket is claimed, on a ticket that was read: the stored credential, the assertion and the
  proof of the phone key.\<close>

definition verifySession :: "string \<Rightarrow> string \<Rightarrow> SessionAssertionRequest \<Rightarrow> bytes \<Rightarrow> Service \<Rightarrow> (Credential \<times> Verified) res" where
  "verifySession purpose vaultID req challenge s =
     (let fail = Inl passkeyFailure in
      case loadVerifiedCredentialFor (sv_CredentialIntegrityKey s) vaultID (sv_tenants s) of
        Inr (Some cred) \<Rightarrow>
         (case decodeBoundedSessionAssertion req of
            Inl e \<Rightarrow> fail
          | Inr assertion \<Rightarrow>
              if as_CredentialID assertion \<noteq> cr_ID cred then Inl (Err ''this passkey does not belong to this vault'')
              else if ContainsPRFField (as_ClientDataJSON assertion) then fail
              else case Validate assertion \<lparr> ex_CredentialID = cr_ID cred, ex_WebAuthnP256 = Credential.cr_WebAuthnP256 cred,
                  ex_Challenge = challenge, ex_Origin = cr_Origin cred, ex_RPID = cr_RPID cred \<rparr> of
                Inl e \<Rightarrow> fail
              | Inr verified \<Rightarrow>
                 (case decodeFixedHex (sr_DirectProof req) 64 of
                    Inl e \<Rightarrow> fail
                  | Inr proof \<Rightarrow>
                     (case verifyDirectAuth (cr_PhoneDirectP256 cred) (passkeySessionProofDigest purpose challenge (cr_ID cred)) proof of
                        Inl e \<Rightarrow> fail
                      | Inr _ \<Rightarrow> Inr (cred, verified))))
      | _ \<Rightarrow> fail)"

text \<open>\<open>slot\<close> is the outcome of \<open>acquireVerification\<close>; \<open>t1\<close>, \<open>t2\<close>, \<open>t3\<close> and \<open>t4\<close> are the clock at the read of the ticket, at its
  claim (twice) and at the update of the counter.\<close>

definition authenticatePasskeySession :: "unit res \<Rightarrow> time \<Rightarrow> time \<Rightarrow> time \<Rightarrow> time \<Rightarrow> string \<Rightarrow> string \<Rightarrow> SessionAssertionRequest \<Rightarrow> Service \<Rightarrow>
    Credential res \<times> Service" where
  "authenticatePasskeySession slot t1 t2 t3 t4 purpose vaultID req s =
     (case slot of Inl e \<Rightarrow> (Inl e, s) | Inr _ \<Rightarrow>
     (case routeVaultID vaultID of Inl e \<Rightarrow> (Inl e, s) | Inr vaultID \<Rightarrow>
     (case readPasskeyChallenge t1 vaultID (sr_ChallengeID req) purpose (sv_sessions s) of Inl e \<Rightarrow> (Inl passkeyFailure, s) | Inr record \<Rightarrow>
     (case verifySession purpose vaultID req (pc_Challenge record) s of Inl e \<Rightarrow> (Inl e, s) | Inr (cred, verified) \<Rightarrow>
     (case consumePasskeyChallenge t2 t3 vaultID (sr_ChallengeID req) purpose (sv_sessions s) of
        (Inl e, ss) \<Rightarrow> (Inl passkeyFailure, s \<lparr> sv_sessions := ss \<rparr>)
      | (Inr _, ss) \<Rightarrow>
         (case advanceSignCount t4 vaultID (cr_ID cred) (vf_SignCount verified) (s \<lparr> sv_sessions := ss \<rparr>) of
            (Inl e, s') \<Rightarrow> (Inl passkeyFailure, s')
          | (Inr _, s') \<Rightarrow> (Inr cred, s')))))))"

definition IssuePasskeyChallengeFor :: "time \<Rightarrow> bytes option \<Rightarrow> bytes option \<Rightarrow> string \<Rightarrow> string \<Rightarrow> Service \<Rightarrow>
    PasskeyChallengeResponse res \<times> Service" where
  "IssuePasskeyChallengeFor now draw drawKey vaultID purpose s =
     (if purpose \<notin> {passkeyPurposeRecover, passkeyPurposeInstall, passkeyPurposeTransition, passkeyPurposeMapWrite}
      then (Inl (Err ''invalid passkey challenge purpose''), s)
      else case andThen (routeVaultID vaultID) (\<lambda>vaultID.
          andThen (loadVerifiedCredentialFor (sv_CredentialIntegrityKey s) vaultID (sv_tenants s)) (\<lambda>found.
          case found of
            None \<Rightarrow> Inl (Err ''not enrolled'')
          | Some cred \<Rightarrow>
              if purpose = passkeyPurposeRecover then
                andThen (loadVerifiedEnvelopeFor (sv_CredentialIntegrityKey s) vaultID (cr_ID cred) (sv_tenants s)) (\<lambda>envelope.
                if envelope = None then Inl (Err ''passkey sign-in has not been enabled on the original device'') else Inr (vaultID, cred))
              else Inr (vaultID, cred))) of
        Inl e \<Rightarrow> (Inl e, s)
      | Inr (vaultID, cred) \<Rightarrow>
         (case issuePasskeyChallenge now draw drawKey vaultID purpose (cr_ID cred) (sv_sessions s) of
            (r, ss) \<Rightarrow> (r, s \<lparr> sv_sessions := ss \<rparr>)))"

section \<open>Recovery signature rate\<close>

definition maxTransitionsPerVaultPerMinute :: nat where "maxTransitionsPerVaultPerMinute = 10"
definition transitionRateWindow :: int where "transitionRateWindow = 60 * second"

definition allowTransition :: "time \<Rightarrow> string \<Rightarrow> (string \<Rightarrow> time list) \<Rightarrow> unit res \<times> (string \<Rightarrow> time list)" where
  "allowTransition now vaultID hits =
     (let kept = filter (\<lambda>ts. timeAfter ts (now - transitionRateWindow)) (hits vaultID) in
      if length kept \<ge> maxTransitionsPerVaultPerMinute then (Inl (Err ''too many recovery signatures''), hits (vaultID := kept))
      else (Inr (), hits (vaultID := kept @ [now])))"

end
