(* ===== verification/Json_Round.thy ===== *)
theory Json_Round
  imports Base64 Go_Time
begin

text \<open>
  Reading back what \<open>json.Marshal\<close> printed: a flat struct whose strings are printable ASCII without the characters JSON or its
  HTML-safe printing escapes, whose integers fit 64 bits and whose byte slices are base64, is parsed to its own members.
\<close>

section \<open>Plain text\<close>

definition plainChar :: "char \<Rightarrow> bool" where
  "plainChar c \<longleftrightarrow> (let n = of_char c :: nat in 32 \<le> n \<and> n < 127 \<and> n \<notin> {34, 38, 60, 62, 92})"

definition plainText :: "string \<Rightarrow> bool" where
  "plainText s \<longleftrightarrow> list_all plainChar s"

lemma plainText_simps [simp]: "plainText []" "plainText (c # s) \<longleftrightarrow> plainChar c \<and> plainText s" "plainText (s @ t) \<longleftrightarrow> plainText s \<and> plainText t"
  by (simp_all add: plainText_def)

lemma plainChar_not: "plainChar c \<Longrightarrow> c \<noteq> CHR 34 \<and> c \<noteq> CHR 92 \<and> \<not> (of_char c :: nat) < 32 \<and> (of_char c :: nat) < 128"
  by (auto simp: plainChar_def Let_def)

lemma runes_plain: "plainText s \<Longrightarrow> concat (map jsonEscapeRune (runes s)) = s"
proof (induction s)
  case Nil
  then show ?case by (simp add: runes.simps)
next
  case (Cons c s)
  then have "decodeRune (c # s) = (of_char c, 1)" by (simp add: decodeRune_def plainChar_not)
  then have "runes (c # s) = (of_char c, [c]) # runes s" by (simp add: runes.simps [of "c # s"])
  moreover have "jsonEscapeRune (of_char c, [c]) = [c]"
    using Cons.prems by (auto simp: jsonEscapeRune_def plainChar_def Let_def runeError_def)
  ultimately show ?case using Cons by simp
qed

lemma jsonString_plain: "plainText s \<Longrightarrow> jsonString s = CHR 34 # s @ [CHR 34]"
  by (simp add: jsonString_def runes_plain)

lemma scanString_plain: "plainText s \<Longrightarrow> scanString (s @ CHR 34 # r) = Some (s, r)"
  by (induction s) (auto dest: plainChar_not)

lemma unquote_plainText: "plainText s \<Longrightarrow> unquote s = s"
  by (rule unquote_plain) (auto simp: plainText_def list_all_iff dest: plainChar_not)

section \<open>Values\<close>

text \<open>\<open>enc\<close> is read as \<open>v\<close> whenever a comma or a closing brace follows.\<close>

definition readsAs :: "string \<Rightarrow> json \<Rightarrow> bool" where
  "readsAs enc v \<longleftrightarrow> (\<forall>f d c r. c = CHR '','' \<or> c = CHR ''}'' \<longrightarrow> parseValue (Suc f) d (enc @ c # r) = Some (v, c # r))"

lemma reads_string: "plainText s \<Longrightarrow> readsAs (jsonString s) (JStr s)"
  by (auto simp: readsAs_def jsonString_plain skipWs_def isWs_def scanString_plain unquote_plainText)

lemma reads_null: "readsAs ''null'' JNull"
  by (auto simp: readsAs_def skipWs_def isWs_def hasPrefix_def)

lemma digit_code: "isDigitChar c \<longleftrightarrow> 48 \<le> (of_char c :: nat) \<and> (of_char c :: nat) \<le> 57"
  by (simp add: isDigitChar_def digitVal_def Let_def)

lemma zero_digit: "char_of (48 :: nat) = CHR ''0''"
  by code_simp

lemma showNat_head: "\<exists>c t. showNat n = c # t \<and> isDigitChar c \<and> (c = CHR ''0'' \<longrightarrow> t = [])"
proof (induction n rule: showNat.induct)
  case (1 n)
  show ?case
  proof (cases "n < 10")
    case True
    then show ?thesis by (simp add: showNat.simps [of n])
  next
    case False
    with 1 obtain c t where ct: "showNat (n div 10) = c # t" "isDigitChar c" "c = CHR ''0'' \<longrightarrow> t = []" by blast
    have "c \<noteq> CHR ''0''"
    proof
      assume "c = CHR ''0''"
      with ct have "showNat (n div 10) = showNat 0" by (simp add: showNat.simps [of 0] zero_digit)
      with False show False by (simp del: showNat.simps)
    qed
    with False ct show ?thesis by (simp add: showNat.simps [of n])
  qed
qed

lemma scanNumber_showNat:
  assumes "c = CHR '','' \<or> c = CHR ''}''"
  shows "scanNumber (showNat n @ c # r) = Some (showNat n, c # r)"
proof -
  obtain x t where x: "showNat n = x # t" "isDigitChar x" "x = CHR ''0'' \<longrightarrow> t = []" using showNat_head by blast
  have t: "\<forall>y\<in>set t. isDigitChar y" using showNat_digits [of _ n] x(1) by auto
  have nd: "\<not> isDigitChar c" using assms by (auto simp: digit_code)
  have "scanIntPart (x # t @ c # r) = Some (x # t, c # r)"
    using x t nd by (cases "x = CHR ''0''")
      (auto simp: scanIntPart_def scanDigits_def Let_def takeWhile_append dropWhile_append)
  moreover have "x \<noteq> CHR ''-''" using x(2) by (auto simp: digit_code)
  ultimately show ?thesis using assms x(1) by (auto simp: scanNumber_def scanFracPart_def scanExpPart_def)
qed

lemma reads_nat: "0 \<le> i \<Longrightarrow> readsAs (showInt i) (JNum (showInt i))"
proof -
  assume "0 \<le> i"
  then have s: "showInt i = showNat (nat i)" by (simp add: showInt_def)
  obtain x t where x: "showNat (nat i) = x # t" "isDigitChar x" using showNat_head by blast
  have "\<not> isWs x" "x \<notin> {CHR ''{'', CHR ''['', CHR 34, CHR ''t'', CHR ''f'', CHR ''n''}" using x(2) by (auto simp: digit_code isWs_def)
  then show ?thesis using scanNumber_showNat [of _ "nat i"] x(1)
    by (auto simp: readsAs_def s skipWs_def hasPrefix_def)
qed

section \<open>Structs\<close>

lemma parseMembers_fields:
  assumes "list_all2 (\<lambda>(k, e) (k', v). k' = k \<and> plainText k \<and> readsAs e v) fs ms" "fs \<noteq> []" "length fs < f"
  shows "parseMembers f d (joinWith '','' (map (\<lambda>(k, v). jsonString k @ '':'' @ v) fs) @ ''}'' @ r) = Some (ms, r)"
  using assms
proof (induction fs arbitrary: ms f)
  case (Cons kv fs)
  obtain k e where kv: "kv = (k, e)" by fastforce
  obtain v ms' where ms: "ms = (k, v) # ms'" "plainText k" "readsAs e v"
    and rest: "list_all2 (\<lambda>(k, e) (k', v). k' = k \<and> plainText k \<and> readsAs e v) fs ms'"
    using Cons.prems(1) kv by (auto simp: list_all2_Cons1)
  obtain g where f: "f = Suc (Suc g)" using Cons.prems(3) by (metis Suc_lessE length_Cons Suc_less_eq less_iff_Suc_add add_Suc_right)
  have v: "parseValue (Suc g) d (e @ c # s) = Some (v, c # s)" if "c = CHR '','' \<or> c = CHR ''}''" for c s
    using ms(3) that unfolding readsAs_def by blast
  show ?case
  proof (cases fs)
    case Nil
    then show ?thesis using rest v [of "CHR ''}''"]
      by (simp add: kv ms(1) f jsonString_plain [OF ms(2)] skipWs_def isWs_def scanString_plain [OF ms(2)] unquote_plainText [OF ms(2)])
  next
    case (Cons kv2 fs2)
    with Cons.IH [OF rest, of "Suc g"] Cons.prems(3) f
    have "parseMembers (Suc g) d (joinWith '','' (map (\<lambda>(k, v). jsonString k @ '':'' @ v) fs) @ ''}'' @ r) = Some (ms', r)" by simp
    with Cons v [of "CHR '',''"] show ?thesis
      by (simp add: kv ms(1) f jsonString_plain [OF ms(2)] skipWs_def isWs_def scanString_plain [OF ms(2)] unquote_plainText [OF ms(2)]
          del: parseMembers.simps(2)) (subst parseMembers.simps(2), simp add: jsonString_plain [OF ms(2)] skipWs_def isWs_def scanString_plain [OF ms(2)] unquote_plainText [OF ms(2)])
  qed
qed simp

lemma length_joinWith: "length fs \<le> length (joinWith '','' (map (\<lambda>(k, v). jsonString k @ '':'' @ v) fs))"
proof (induction fs)
  case (Cons a fs)
  then show ?case by (cases fs) (auto split: prod.splits)
qed simp

lemma joinWith_quote: "fs \<noteq> [] \<Longrightarrow> \<exists>t. joinWith '','' (map (\<lambda>(k, v). jsonString k @ '':'' @ v) fs) = CHR 34 # t"
  by (cases fs; cases "tl fs") (auto simp: jsonString_def split: prod.splits)

lemma jsonMembers_struct:
  assumes "list_all2 (\<lambda>(k, e) (k', v). k' = k \<and> plainText k \<and> readsAs e v) fs ms" "fs \<noteq> []"
  shows "jsonMembers (jsonStruct fs) = Some ms"
proof -
  let ?j = "joinWith '','' (map (\<lambda>(k, v). jsonString k @ '':'' @ v) fs)"
  obtain t where t: "?j = CHR 34 # t" using joinWith_quote [OF assms(2)] by blast
  have "length fs < 2 * length (jsonStruct fs)" using length_joinWith [of fs] by (simp add: jsonStruct_def)
  from parseMembers_fields [OF assms this, of 1 "[]"]
  have m: "parseMembers (2 * length (jsonStruct fs)) 1 (CHR 34 # t @ ''}'') = Some (ms, [])" unfolding t by simp
  have j: "jsonStruct fs = CHR ''{'' # CHR 34 # t @ ''}''" unfolding jsonStruct_def t by simp
  have "parseValue (Suc (2 * length (jsonStruct fs))) 0 (CHR ''{'' # CHR 34 # t @ ''}'') = Some (JObj ms, [])"
    using m by (subst parseValue.simps(2)) (simp add: skipWs_def isWs_def maxNestingDepth_def del: parseMembers.simps)
  then have "parseValue (Suc (2 * length (jsonStruct fs))) 0 (jsonStruct fs) = Some (JObj ms, [])" by (simp only: j)
  then show ?thesis by (simp add: jsonMembers_def parseJson_def skipWs_def)
qed

section \<open>Times and byte slices\<close>

lemma digitsVal_replicate: "digitsVal a (replicate k CHR ''0'') = Some (a * 10 ^ k)"
  by (induction k arbitrary: a) (simp_all add: digitVal_def)

lemma digitsVal_zeros_right: "digitsVal 0 (s @ replicate k CHR ''0'') = map_option (\<lambda>n. n * 10 ^ k) (digitsVal 0 s)"
  by (simp add: digitsVal_append digitsVal_replicate split: option.splits)

lemma padInt_digits:
  assumes "0 \<le> n" "n < 10 ^ w" "0 < w"
  shows "length (padInt w n) = w" "digitsVal 0 (padInt w n) = Some (nat n)" "\<forall>c\<in>set (padInt w n). isDigitChar c"
proof -
  have "nat n < 10 ^ w" using assms(1,2) by (simp add: nat_less_iff)
  then show "length (padInt w n) = w" using showNat_length_le [of "nat n" w] assms(1,3) by (simp add: padInt_def Let_def)
  show "digitsVal 0 (padInt w n) = Some (nat n)" using assms(1) by (simp add: padInt_def Let_def digitsVal_append digitsVal_replicate)
  show "\<forall>c\<in>set (padInt w n). isDigitChar c" using assms(1) showNat_digits by (auto simp: padInt_def Let_def digit_code)
qed

lemma trimmed_zeros: "\<exists>k. s = rev (dropWhile (\<lambda>c. c = CHR ''0'') (rev s)) @ replicate k CHR ''0''"
proof -
  let ?P = "\<lambda>c. c = CHR ''0''"
  have "takeWhile ?P (rev s) = replicate (length (takeWhile ?P (rev s))) CHR ''0''"
    by (rule replicate_eqI) (auto dest: set_takeWhileD)
  then have "rev (takeWhile ?P (rev s)) = replicate (length (takeWhile ?P (rev s))) CHR ''0''" by (metis rev_replicate)
  moreover have "s = rev (takeWhile ?P (rev s) @ dropWhile ?P (rev s))" by simp
  ultimately show ?thesis by (metis rev_append)
qed

lemma parseFraction_nano:
  assumes "0 \<le> n" "n < second" "frac = rev (dropWhile (\<lambda>c. c = CHR ''0'') (rev (padInt 9 n)))"
  shows "parseFraction ((if frac = [] then [] else CHR ''.'' # frac) @ ''Z'') = (n, ''Z'')"
proof -
  have n9: "n < 10 ^ 9" using assms(2) by (simp add: second_def)
  note p = padInt_digits [OF assms(1) n9]
  obtain k where k: "padInt 9 n = frac @ replicate k CHR ''0''" using trimmed_zeros assms(3) by metis
  have len: "length frac + k = 9" using p(1) k by simp
  have val: "map_option (\<lambda>m. m * 10 ^ k) (digitsVal 0 frac) = Some (nat n)" using p(2) k digitsVal_zeros_right by simp
  then obtain m where m: "digitsVal 0 frac = Some m" "m * 10 ^ k = nat n" by auto
  show ?thesis
  proof (cases frac)
    case Nil
    then show ?thesis using m assms(1) by (simp add: parseFraction_def)
  next
    case (Cons c t)
    have ds: "\<forall>c\<in>set frac. isDigitChar c" using p(3) k by auto
    have z: "\<not> isDigitChar CHR ''Z''" by (simp add: digit_code)
    have "takeWhile isDigitChar (c # t @ ''Z'') = frac" "dropWhile isDigitChar (c # t @ ''Z'') = ''Z''"
      using ds z Cons by (simp_all add: takeWhile_append dropWhile_append)
    moreover have "int m * 10 ^ (9 - length frac) = n"
    proof -
      have "k = 9 - length frac" using len by simp
      then have "int (m * 10 ^ (9 - length frac)) = int (nat n)" using m(2) by simp
      then show ?thesis using assms(1) by simp
    qed
    moreover have "isDigitChar c" "take 9 frac = frac" using ds Cons len by auto
    ultimately show ?thesis using m(1)
      by (simp add: parseFraction_def Let_def Cons del: takeWhile.simps dropWhile.simps digitsVal.simps)
  qed
qed

lemma parse_formatRFC3339Nano:
  assumes "fourDigitYear t"
  shows "parseRFC3339 (formatRFC3339Nano t) = Some t"
proof -
  obtain y m d where c: "civilFromDays (unixSec t div 86400) = (y, m, d)" by (metis prod_cases3)
  have y: "0 \<le> y" "y \<le> 9999" using assms c by (simp_all add: fourDigitYear_def)
  have n: "0 \<le> t mod second" "t mod second < second" by (simp_all add: second_def)
  have "unixSec t * second + t mod second = t" by (simp add: unixSec_def)
  then show ?thesis using parse_dateTime [OF c y] parseFraction_nano [OF n refl]
    by (simp add: formatRFC3339Nano_def Let_def)
qed

lemma plain_stdEncode: "plainText (stdEncode b)"
proof -
  have "b64Val c = Some n \<Longrightarrow> plainChar c" for c n by (auto simp: b64Val_def plainChar_def Let_def split: if_splits)
  then have "n < 64 \<Longrightarrow> plainChar (b64Char n)" for n using b64Val_b64Char by blast
  then have "n < 64 \<Longrightarrow> plainChar (stdChar n)" for n by (simp add: stdChar_def plainChar_def [of "CHR ''+''"] plainChar_def [of "CHR ''/''"])
  moreover have "plainChar CHR ''=''" by code_simp
  ultimately show ?thesis using sextets_less by (auto simp: plainText_def list_all_iff stdEncode_def)
qed

lemma plain_padInt: "0 \<le> n \<Longrightarrow> plainText (padInt w n)"
proof -
  assume "0 \<le> n"
  then have "c \<in> set (padInt w n) \<Longrightarrow> isDigitChar c" for c
    using showNat_digits [of c "nat n"] by (auto simp: padInt_def Let_def digit_code)
  moreover have "isDigitChar c \<Longrightarrow> plainChar c" for c by (auto simp: digit_code plainChar_def Let_def)
  ultimately show ?thesis by (simp add: plainText_def list_all_iff)
qed

lemma plain_time:
  assumes "fourDigitYear t"
  shows "plainText (formatRFC3339Nano t)"
proof -
  obtain y m d where c: "civilFromDays (unixSec t div 86400) = (y, m, d)" by (metis prod_cases3)
  have nn: "0 \<le> y" "0 \<le> m" "0 \<le> d" using assms civilFromDays_spec [OF c] c by (simp_all add: fourDigitYear_def)
  have marks: "plainChar CHR ''-''" "plainChar CHR ''T''" "plainChar CHR '':''" "plainChar CHR ''.''" "plainChar CHR ''Z''" by code_simp+
  have "plainText s \<Longrightarrow> plainText (rev (dropWhile P (rev s)))" for P s
    by (auto simp: plainText_def list_all_iff dest: set_dropWhileD)
  moreover have "0 \<le> t mod second" by (simp add: second_def)
  ultimately show ?thesis using nn marks
    by (simp add: formatRFC3339Nano_def formatDateTime_def c Let_def plain_padInt)
qed

lemma parseInt64_nat:
  assumes "0 \<le> i" "i < 2 ^ 63"
  shows "parseInt64 (showInt i) = Some i"
proof -
  have s: "showInt i = showNat (nat i)" using assms(1) by (simp add: showInt_def)
  obtain x t where x: "showNat (nat i) = x # t" "isDigitChar x" using showNat_head by blast
  have "x \<noteq> CHR ''-''" "x \<noteq> CHR ''+''" using x(2) by (auto simp: digit_code)
  moreover have "digitsVal 0 (x # t) = Some (nat i)" using digitsVal_showNat [of "nat i"] x(1) by metis
  ultimately show ?thesis using assms by (simp add: s parseInt64_def x(1) Let_def nat_less_iff del: digitsVal.simps)
qed

end
