(* ===== verification/Session_Props.thy ===== *)
theory Session_Props
  imports Session Json_Round Ceremony
begin

text \<open>
  What the passkey sessions promise: a spent ticket is never accepted again while the clock does not run backwards, the table of
  spent tickets stays within its bounds, an issued ticket is read back as it was issued until it expires, and an assertion over
  anything but the ticket's own challenge is refused without a trace.
\<close>

section \<open>Atomic sections\<close>

text \<open>Each section below runs under \<open>sessionMu\<close>; the requests in flight interleave between them, each reading a clock that does
  not run backwards.\<close>

inductive session_run :: "time \<Rightarrow> Sessions \<Rightarrow> time \<Rightarrow> Sessions \<Rightarrow> bool" for t0 ss0 where
  start: "session_run t0 ss0 t0 ss0"
| issue: "session_run t0 ss0 t ss \<Longrightarrow> t \<le> now \<Longrightarrow>
    session_run t0 ss0 now (snd (issuePasskeyChallenge now draw drawKey vaultID purpose credentialID ss))"
| claim: "session_run t0 ss0 t ss \<Longrightarrow> t \<le> t1 \<Longrightarrow> t1 \<le> t2 \<Longrightarrow>
    session_run t0 ss0 t2 (snd (consumePasskeyChallenge t1 t2 vaultID tid purpose ss))"

lemma openTicket_content: "openTicket k tid = Some a \<Longrightarrow> openTicket k' tid = Some b \<Longrightarrow> a = b"
  by (auto simp: openTicket_def Let_def split: if_splits option.splits)

lemma issue_consumed: "ss_consumed (snd (issuePasskeyChallenge now draw drawKey vaultID purpose credentialID ss)) = ss_consumed ss"
  by (auto simp: issuePasskeyChallenge_def Let_def split: if_splits option.splits)

lemma locked_Inr:
  "passkeyChallengeLocked now vaultID tid purpose ss = Inr (rcd, digest) \<longleftrightarrow>
     (\<exists>payload. openTicket (ss_sessionChallengeKey ss) tid = Some (payload, digest) \<and>
        unmarshalChallenge (string_of payload) = Some rcd \<and> marshalChallenge rcd = Some (string_of payload)) \<and>
     pc_VaultID rcd = vaultID \<and> pc_Purpose rcd = purpose \<and> length (pc_Challenge rcd) = 32 \<and>
     now < pc_ExpiresAt rcd \<and> digest \<notin> fst ` set (ss_consumed ss)"
  by (auto simp: passkeyChallengeLocked_def Let_def timeBefore_def split: option.splits if_splits)

text \<open>The three outcomes of a claim.\<close>

lemma consume_cases:
  assumes "consumePasskeyChallenge t1 t2 vaultID tid purpose ss = (r, ss')"
  obtains (refused) e where "r = Inl e" "ss' = ss"
  | (full) "r = Inl ErrVerificationBusy" "ss' = ss \<lparr> ss_consumed := liveConsumed t2 ss \<rparr>"
  | (taken) rcd digest where "r = Inr (pc_Challenge rcd)" "vaultID \<noteq> []"
      "passkeyChallengeLocked t1 (if ownerlessPurpose purpose then [] else vaultID) tid purpose ss = Inr (rcd, digest)"
      "length (liveConsumed t2 ss) < maxConsumedPasskeyChallenges"
      "length (filter (\<lambda>(_, spent). cc_VaultID spent = vaultID) (liveConsumed t2 ss)) < maxConsumedPasskeyChallengesPerVault"
      "ss' = ss \<lparr> ss_consumed := (digest, \<lparr> cc_VaultID = vaultID, cc_ExpiresAt = pc_ExpiresAt rcd \<rparr>) # liveConsumed t2 ss \<rparr>"
  using assms by (auto simp: consumePasskeyChallenge_def Let_def not_le split: if_splits sum.splits prod.splits)

section \<open>Single use\<close>

text \<open>A ticket is out of use: it has expired, or its digest is remembered until it does.\<close>

definition outOfUse :: "string \<Rightarrow> time \<Rightarrow> Sessions \<Rightarrow> bool" where
  "outOfUse tid now ss \<longleftrightarrow>
     (\<exists>k payload digest rcd. openTicket k tid = Some (payload, digest) \<and> unmarshalChallenge (string_of payload) = Some rcd \<and>
        (pc_ExpiresAt rcd \<le> now \<or> (\<exists>v. (digest, \<lparr> cc_VaultID = v, cc_ExpiresAt = pc_ExpiresAt rcd \<rparr>) \<in> set (ss_consumed ss))))"

lemma outOfUse_later: "outOfUse tid t ss \<Longrightarrow> t \<le> t' \<Longrightarrow> outOfUse tid t' ss"
  by (force simp: outOfUse_def)

lemma outOfUse_keeps:
  assumes "outOfUse tid t ss" "t \<le> t'" "set (liveConsumed t' ss) \<subseteq> set (ss_consumed ss')"
  shows "outOfUse tid t' ss'"
proof -
  from assms(1) obtain k payload digest rcd where o: "openTicket k tid = Some (payload, digest)"
    "unmarshalChallenge (string_of payload) = Some rcd"
    and u: "pc_ExpiresAt rcd \<le> t \<or> (\<exists>v. (digest, \<lparr> cc_VaultID = v, cc_ExpiresAt = pc_ExpiresAt rcd \<rparr>) \<in> set (ss_consumed ss))"
    unfolding outOfUse_def by blast
  have "pc_ExpiresAt rcd \<le> t' \<or> (\<exists>v. (digest, \<lparr> cc_VaultID = v, cc_ExpiresAt = pc_ExpiresAt rcd \<rparr>) \<in> set (ss_consumed ss'))"
  proof (cases "pc_ExpiresAt rcd \<le> t'")
    case False
    with u assms(2) obtain v where "(digest, \<lparr> cc_VaultID = v, cc_ExpiresAt = pc_ExpiresAt rcd \<rparr>) \<in> set (ss_consumed ss)" by force
    with False have "(digest, \<lparr> cc_VaultID = v, cc_ExpiresAt = pc_ExpiresAt rcd \<rparr>) \<in> set (liveConsumed t' ss)"
      by (simp add: liveConsumed_def timeBefore_def)
    with assms(3) show ?thesis by blast
  qed simp
  with o show ?thesis unfolding outOfUse_def by blast
qed

lemma live_subset: "set (liveConsumed t ss) \<subseteq> set (ss_consumed ss)"
  by (auto simp: liveConsumed_def)

lemma consume_keeps_live: "consumePasskeyChallenge t1 t2 vaultID tid purpose ss = (r, ss') \<Longrightarrow> set (liveConsumed t2 ss) \<subseteq> set (ss_consumed ss')"
  by (erule consume_cases) (use live_subset in auto)

lemma outOfUse_run: "session_run t0 ss0 t ss \<Longrightarrow> outOfUse tid t0 ss0 \<Longrightarrow> t0 \<le> t \<and> outOfUse tid t ss"
proof (induction rule: session_run.induct)
  case (issue t ss now draw drawKey vaultID purpose credentialID)
  then show ?case using outOfUse_keeps [of tid t ss now] live_subset [of now ss] by (simp add: issue_consumed)
next
  case (claim t ss t1 t2 vaultID tid' purpose)
  then show ?case using outOfUse_keeps [of tid t ss t2] consume_keeps_live [of t1 t2 vaultID tid' purpose ss] by (simp add: prod_eq_iff)
qed simp

lemma consumed_outOfUse: "consumePasskeyChallenge t1 t2 vaultID tid purpose ss = (Inr c, ss') \<Longrightarrow> outOfUse tid t2 ss'"
proof (erule consume_cases)
  fix rcd digest
  assume l: "passkeyChallengeLocked t1 (if ownerlessPurpose purpose then [] else vaultID) tid purpose ss = Inr (rcd, digest)"
    and s: "ss' = ss \<lparr> ss_consumed := (digest, \<lparr> cc_VaultID = vaultID, cc_ExpiresAt = pc_ExpiresAt rcd \<rparr>) # liveConsumed t2 ss \<rparr>"
  have "\<exists>v. (digest, \<lparr> cc_VaultID = v, cc_ExpiresAt = pc_ExpiresAt rcd \<rparr>) \<in> set (ss_consumed ss')" using s by auto
  with l show "outOfUse tid t2 ss'" unfolding outOfUse_def locked_Inr by blast
qed auto

lemma outOfUse_locked:
  assumes "outOfUse tid t ss" "t \<le> now"
  shows "passkeyChallengeLocked now vaultID tid purpose ss = Inl passkeyFailure"
proof (cases "passkeyChallengeLocked now vaultID tid purpose ss")
  case (Inl e)
  then show ?thesis by (auto simp: passkeyChallengeLocked_def passkeyFailure_def Let_def split: option.splits if_splits)
next
  case (Inr rd)
  obtain rcd digest where rd: "rd = (rcd, digest)" by fastforce
  from outOfUse_later [OF assms] obtain k payload digest' rcd' where o: "openTicket k tid = Some (payload, digest')"
    "unmarshalChallenge (string_of payload) = Some rcd'"
    "pc_ExpiresAt rcd' \<le> now \<or> (\<exists>v. (digest', \<lparr> cc_VaultID = v, cc_ExpiresAt = pc_ExpiresAt rcd' \<rparr>) \<in> set (ss_consumed ss))"
    unfolding outOfUse_def by blast
  from Inr rd obtain payload2 where p: "openTicket (ss_sessionChallengeKey ss) tid = Some (payload2, digest)"
    "unmarshalChallenge (string_of payload2) = Some rcd" "now < pc_ExpiresAt rcd" "digest \<notin> fst ` set (ss_consumed ss)"
    by (auto simp: locked_Inr)
  from openTicket_content [OF o(1) p(1)] o p have False by (force simp: image_iff)
  then show ?thesis ..
qed

lemma outOfUse_claim: "outOfUse tid t ss \<Longrightarrow> t \<le> t1 \<Longrightarrow> \<exists>e. consumePasskeyChallenge t1 t2 vaultID tid purpose ss = (Inl e, ss)"
  by (simp add: consumePasskeyChallenge_def outOfUse_locked)

text \<open>
  C8: after a ticket has been spent, whatever requests issue and spend tickets in between, neither a claim nor a whole
  authentication with the same ticket succeeds again, for any vault, purpose and assertion, and neither changes the state.\<close>

theorem ticket_single_use:
  assumes "consumePasskeyChallenge t1 t2 vaultID tid purpose ss = (Inr challenge, ss1)"
    and "session_run t2 ss1 t ss2" and "t \<le> t3" and "sv_sessions s = ss2" and "sr_ChallengeID req = tid"
  shows "(\<exists>e. consumePasskeyChallenge t3 t4 vaultID' tid purpose' ss2 = (Inl e, ss2)) \<and>
         (\<exists>e. authenticatePasskeySession slot t3 t4 t5 t6 purpose' vaultID' req s = (Inl e, s))"
proof -
  have o: "outOfUse tid t ss2" using outOfUse_run [OF assms(2) consumed_outOfUse [OF assms(1)]] by simp
  have "\<exists>e. authenticatePasskeySession slot t3 t4 t5 t6 purpose' vaultID' req s = (Inl e, s)"
    using outOfUse_locked [OF o assms(3)] assms(4,5)
    by (simp add: authenticatePasskeySession_def readPasskeyChallenge_def andThen_def split: sum.splits)
  with outOfUse_claim [OF o assms(3)] show ?thesis by blast
qed

section \<open>Bounds of the table of spent tickets\<close>

definition spentWithinBounds :: "Sessions \<Rightarrow> bool" where
  "spentWithinBounds ss \<longleftrightarrow> distinct (map fst (ss_consumed ss)) \<and> length (ss_consumed ss) \<le> maxConsumedPasskeyChallenges \<and>
     (\<forall>v. length (filter (\<lambda>(_, spent). cc_VaultID spent = v) (ss_consumed ss)) \<le> maxConsumedPasskeyChallengesPerVault)"

lemma bounds_filter:
  assumes "spentWithinBounds ss"
  shows "spentWithinBounds (ss \<lparr> ss_consumed := filter P (ss_consumed ss) \<rparr>)"
proof -
  have "length (filter Q (filter P xs)) \<le> length (filter Q xs)" for Q and xs :: "(bytes \<times> consumedPasskeyChallenge) list"
    by (induction xs) auto
  then show ?thesis using assms le_trans [OF length_filter_le] by (fastforce simp: spentWithinBounds_def distinct_map_filter intro: le_trans)
qed

lemma bounds_consume:
  assumes "spentWithinBounds ss" "consumePasskeyChallenge t1 t2 vaultID tid purpose ss = (r, ss')"
  shows "spentWithinBounds ss'"
  using assms(2)
proof (cases rule: consume_cases)
  case (taken rcd digest)
  have live: "spentWithinBounds (ss \<lparr> ss_consumed := liveConsumed t2 ss \<rparr>)"
    using bounds_filter [OF assms(1)] by (simp add: liveConsumed_def)
  have "digest \<notin> fst ` set (liveConsumed t2 ss)" using taken(3) live_subset by (auto simp: locked_Inr)
  with live taken(4,5) show ?thesis by (simp add: spentWithinBounds_def taken(6))
qed (use assms(1) bounds_filter [OF assms(1)] in \<open>simp_all add: liveConsumed_def\<close>)

text \<open>
  C37: whatever requests issue and spend tickets, the spent tickets of a service that started with none are remembered once each,
  at most 4096 in all and at most 256 under one owner id. An owner id is the text a claim was made under: \<open>openBackup\<close> passes the vault id
  as the request spells it, so the bound is per spelling of an id and not per vault.\<close>

theorem spent_tickets_bounded:
  assumes "session_run t0 \<lparr> ss_sessionChallengeKey = key, ss_consumed = [] \<rparr> t ss"
  shows "distinct (map fst (ss_consumed ss)) \<and> length (ss_consumed ss) \<le> 4096 \<and>
    length (filter (\<lambda>(_, spent). cc_VaultID spent = vaultID) (ss_consumed ss)) \<le> 256"
proof -
  have "spentWithinBounds ss" using assms
  proof (induction rule: session_run.induct)
    case start
    then show ?case by (simp add: spentWithinBounds_def)
  next
    case (issue t ss now draw drawKey vaultID purpose credentialID)
    then show ?case by (simp add: spentWithinBounds_def issue_consumed)
  next
    case (claim t ss t1 t2 vaultID tid purpose)
    then show ?case using bounds_consume by (metis prod.collapse)
  qed
  then show ?thesis by (simp add: spentWithinBounds_def session_names)
qed

section \<open>An issued ticket\<close>

lemma rawEncodedLen_ceil: "rawEncodedLen k = (4 * k + 2) div 3"
proof -
  obtain q r where k: "k = 3 * q + r" "r < 3" using mod_less_divisor [of 3 k] mult_div_mod_eq [of 3 k] by (metis zero_less_numeral)
  have "r = 0 \<or> r = 1 \<or> r = 2" using k(2) by auto
  moreover have "(4 * (3 * q + r) + 2) div 3 = 4 * q + (4 * r + 2) div 3" by (simp add: algebra_simps)
  moreover have "(3 * q + r) div 3 = q" "(3 * q + r) mod 3 = r" using k(2) by simp_all
  ultimately show ?thesis unfolding rawEncodedLen_def k(1) by (elim disjE) simp_all
qed

lemma rawEncodedLen_Suc3: "rawEncodedLen (Suc (Suc (Suc n))) = 4 + rawEncodedLen n"
  unfolding rawEncodedLen_ceil by presburger

lemma length_b64Sextets: "length (b64Sextets b) = rawEncodedLen (length b)"
  by (induction b rule: b64Sextets.induct) (simp_all add: rawEncodedLen_Suc3, simp_all add: rawEncodedLen_def)

lemma rawEncodedLen_mono: "m \<le> n \<Longrightarrow> rawEncodedLen m \<le> rawEncodedLen n"
  by (simp add: rawEncodedLen_ceil div_le_mono)

lemma openTicket_issued:
  assumes "length key = 32" "payload \<noteq> []" "length payload + 32 \<le> passkeyChallengeTicketLimit"
    "raw = payload @ challengeMAC key payload"
  shows "openTicket key (passkeyChallengeTicketPrefix @ b64Encode raw) = Some (payload, sha256 raw)"
proof -
  have mac: "length (challengeMAC key payload) = 32" by (simp add: challengeMAC_def)
  then have raw: "length raw = length payload + 32" "take (length raw - 32) raw = payload" "drop (length raw - 32) raw = challengeMAC key payload"
    by (simp_all add: assms(4))
  have "length (b64Encode raw) \<le> rawEncodedLen passkeyChallengeTicketLimit"
    using rawEncodedLen_mono [of "length raw"] assms(3) raw(1) by (simp add: b64Encode_sextets length_b64Sextets)
  then show ?thesis using assms(1,2,3) raw
    by (simp add: openTicket_def Let_def hasPrefix_def trimPrefix_def passkeyChallengeTicketPrefix_def b64_round_trip)
qed

lemma challenge_fields:
  "foldKey ''VaultID'' \<noteq> foldKey ''Purpose''" "foldKey ''VaultID'' \<noteq> foldKey ''Challenge''" "foldKey ''VaultID'' \<noteq> foldKey ''ExpiresAt''"
  "foldKey ''Purpose'' \<noteq> foldKey ''Challenge''" "foldKey ''Purpose'' \<noteq> foldKey ''ExpiresAt''" "foldKey ''Challenge'' \<noteq> foldKey ''ExpiresAt''"
  by code_simp+

lemma unmarshal_challenge:
  assumes "plainText (pc_VaultID r)" "plainText (pc_Purpose r)" "pc_Challenge r \<noteq> []" "marshalChallenge r = Some payload"
  shows "unmarshalChallenge payload = Some r"
proof -
  have y: "fourDigitYear (pc_ExpiresAt r)" using assms(4) by (auto simp: marshalChallenge_def split: if_splits)
  let ?fs = "[(''VaultID'', jsonString (pc_VaultID r)), (''Purpose'', jsonString (pc_Purpose r)),
     (''Challenge'', jsonString (stdEncode (pc_Challenge r))), (''ExpiresAt'', jsonString (formatRFC3339Nano (pc_ExpiresAt r)))]"
  let ?ms = "[(''VaultID'', JStr (pc_VaultID r)), (''Purpose'', JStr (pc_Purpose r)),
     (''Challenge'', JStr (stdEncode (pc_Challenge r))), (''ExpiresAt'', JStr (formatRFC3339Nano (pc_ExpiresAt r)))]"
  have p: "payload = jsonStruct ?fs" using assms(3,4) y by (simp add: marshalChallenge_def strField_def)
  have keys: "plainText ''VaultID''" "plainText ''Purpose''" "plainText ''Challenge''" "plainText ''ExpiresAt''" by code_simp+
  have "jsonMembers payload = Some ?ms" unfolding p
    by (rule jsonMembers_struct) (simp_all add: keys [unfolded plainText_simps] reads_string assms(1,2) plain_stdEncode plain_time [OF y])
  then show ?thesis using y challenge_fields challenge_fields [symmetric]
    by (simp add: unmarshalChallenge_def fieldVals_def std_round_trip parse_formatRFC3339Nano)
qed

lemma marshal_not_Nil: "marshalChallenge r = Some payload \<Longrightarrow> payload \<noteq> []"
  by (auto simp: marshalChallenge_def jsonStruct_def split: if_splits)

text \<open>The ticket of an issued challenge, and what a claim sees of it.\<close>

lemma issued_ticket:
  assumes "issuePasskeyChallenge now (Some challenge) drawKey vaultID purpose credentialID ss = (Inr resp, ss1)"
    and "plainText vaultID" "plainText purpose" "length challenge = 32" "length (ss_sessionChallengeKey ss1) = 32"
  obtains payload digest where "openTicket (ss_sessionChallengeKey ss1) (pr_ChallengeID resp) = Some (bytes_of payload, digest)"
    "unmarshalChallenge payload =
       Some \<lparr> pc_VaultID = vaultID, pc_Purpose = purpose, pc_Challenge = challenge, pc_ExpiresAt = now + passkeyChallengeTTL \<rparr>"
    "marshalChallenge \<lparr> pc_VaultID = vaultID, pc_Purpose = purpose, pc_Challenge = challenge, pc_ExpiresAt = now + passkeyChallengeTTL \<rparr> = Some payload"
proof -
  let ?r = "\<lparr> pc_VaultID = vaultID, pc_Purpose = purpose, pc_Challenge = challenge, pc_ExpiresAt = now + passkeyChallengeTTL \<rparr>"
  let ?k = "ss_sessionChallengeKey ss1"
  obtain payload where m: "marshalChallenge ?r = Some payload" and l: "length payload + 32 \<le> passkeyChallengeTicketLimit"
    and i: "pr_ChallengeID resp = passkeyChallengeTicketPrefix @ b64Encode (bytes_of payload @ challengeMAC ?k (bytes_of payload))"
    using assms(1) by (auto simp: issuePasskeyChallenge_def Let_def not_less split: option.splits if_splits)
  have o: "openTicket ?k (pr_ChallengeID resp) = Some (bytes_of payload, sha256 (bytes_of payload @ challengeMAC ?k (bytes_of payload)))"
    unfolding i by (rule openTicket_issued [OF assms(5)]) (use l marshal_not_Nil [OF m] in auto)
  have "unmarshalChallenge payload = Some ?r" by (rule unmarshal_challenge [OF _ _ _ m]) (use assms(2-4) in auto)
  from that [OF o this m] show ?thesis .
qed

lemma issued_locked:
  assumes "issuePasskeyChallenge now (Some challenge) drawKey vaultID purpose credentialID ss = (Inr resp, ss1)"
    and "plainText vaultID" "plainText purpose" "length challenge = 32" "length (ss_sessionChallengeKey ss1) = 32"
    and "now' < now + passkeyChallengeTTL" "ss_sessionChallengeKey ss2 = ss_sessionChallengeKey ss1"
    and "\<And>payload digest. openTicket (ss_sessionChallengeKey ss1) (pr_ChallengeID resp) = Some (payload, digest) \<Longrightarrow> digest \<notin> fst ` set (ss_consumed ss2)"
  shows "\<exists>digest. passkeyChallengeLocked now' vaultID (pr_ChallengeID resp) purpose ss2 =
    Inr (\<lparr> pc_VaultID = vaultID, pc_Purpose = purpose, pc_Challenge = challenge, pc_ExpiresAt = now + passkeyChallengeTTL \<rparr>, digest)"
proof (rule issued_ticket [OF assms(1-5)])
  fix payload digest
  assume o: "openTicket (ss_sessionChallengeKey ss1) (pr_ChallengeID resp) = Some (bytes_of payload, digest)"
    and "unmarshalChallenge payload = Some \<lparr> pc_VaultID = vaultID, pc_Purpose = purpose, pc_Challenge = challenge, pc_ExpiresAt = now + passkeyChallengeTTL \<rparr>"
    "marshalChallenge \<lparr> pc_VaultID = vaultID, pc_Purpose = purpose, pc_Challenge = challenge, pc_ExpiresAt = now + passkeyChallengeTTL \<rparr> = Some payload"
  then show ?thesis using assms(4,6,7) assms(8) [OF o] by (auto simp: locked_Inr)
qed

text \<open>Whoever reads an issued ticket, at whatever time, reads the challenge it was issued with.\<close>

lemma issued_reads:
  assumes "issuePasskeyChallenge now (Some challenge) drawKey vaultID purpose credentialID ss = (Inr resp, ss1)"
    and "plainText vaultID" "plainText purpose" "length challenge = 32" "length (ss_sessionChallengeKey ss1) = 32"
    and "ss_sessionChallengeKey ss2 = ss_sessionChallengeKey ss1" "readPasskeyChallenge now' v (pr_ChallengeID resp) p ss2 = Inr rcd"
  shows "pc_Challenge rcd = challenge"
proof -
  obtain digest where "passkeyChallengeLocked now' v (pr_ChallengeID resp) p ss2 = Inr (rcd, digest)"
    using assms(7) by (auto simp: readPasskeyChallenge_def andThen_Inr_iff)
  then obtain payload where o: "openTicket (ss_sessionChallengeKey ss1) (pr_ChallengeID resp) = Some (payload, digest)"
    "unmarshalChallenge (string_of payload) = Some rcd" unfolding locked_Inr assms(6) by blast
  obtain payload' digest' where "openTicket (ss_sessionChallengeKey ss1) (pr_ChallengeID resp) = Some (bytes_of payload', digest')"
    "unmarshalChallenge payload' = Some \<lparr> pc_VaultID = vaultID, pc_Purpose = purpose, pc_Challenge = challenge, pc_ExpiresAt = now + passkeyChallengeTTL \<rparr>"
    by (rule issued_ticket [OF assms(1-5)])
  with o show ?thesis by auto
qed

lemma issue_key:
  assumes "ss_sessionChallengeKey ss \<noteq> []"
  shows "ss_sessionChallengeKey (snd (issuePasskeyChallenge now draw drawKey vaultID purpose credentialID ss)) = ss_sessionChallengeKey ss"
  using assms by (auto simp: issuePasskeyChallenge_def Let_def split: if_splits option.splits)

lemma consume_key: "ss_sessionChallengeKey (snd (consumePasskeyChallenge t1 t2 vaultID tid purpose ss)) = ss_sessionChallengeKey ss"
  by (cases "consumePasskeyChallenge t1 t2 vaultID tid purpose ss") (auto elim: consume_cases)

lemma key_kept:
  assumes "session_run t0 ss0 t ss" "ss_sessionChallengeKey ss0 \<noteq> []"
  shows "ss_sessionChallengeKey ss = ss_sessionChallengeKey ss0"
  using assms by (induction rule: session_run.induct) (simp_all add: issue_key consume_key)

text \<open>
  C30: a ticket issued for a vault and a purpose is read back with its own challenge until two minutes have passed or it has
  been spent, whatever tickets were issued and spent meanwhile, and it is of no use for another vault or purpose.\<close>

theorem issued_ticket_accepted:
  assumes "issuePasskeyChallenge now (Some challenge) drawKey vaultID purpose credentialID ss = (Inr resp, ss1)"
    and "plainText vaultID" "plainText purpose" "length challenge = 32" "length (ss_sessionChallengeKey ss1) = 32"
    and "session_run now ss1 t ss2" "now' < now + passkeyChallengeTTL"
    and "\<And>payload digest. openTicket (ss_sessionChallengeKey ss1) (pr_ChallengeID resp) = Some (payload, digest) \<Longrightarrow>
           digest \<notin> fst ` set (ss_consumed ss2)"
  shows "\<exists>rcd. readPasskeyChallenge now' vaultID (pr_ChallengeID resp) purpose ss2 = Inr rcd \<and> pc_Challenge rcd = challenge \<and>
    pr_Challenge resp = hexEncode challenge \<and>
    (\<forall>v p. (v, p) \<noteq> (vaultID, purpose) \<longrightarrow> readPasskeyChallenge now' v (pr_ChallengeID resp) p ss2 = Inl passkeyFailure)"
proof -
  have k: "ss_sessionChallengeKey ss2 = ss_sessionChallengeKey ss1" by (rule key_kept [OF assms(6)]) (use assms(5) in auto)
  obtain digest where l: "passkeyChallengeLocked now' vaultID (pr_ChallengeID resp) purpose ss2 =
      Inr (\<lparr> pc_VaultID = vaultID, pc_Purpose = purpose, pc_Challenge = challenge, pc_ExpiresAt = now + passkeyChallengeTTL \<rparr>, digest)"
    using issued_locked [OF assms(1-5,7) k] assms(8) by blast
  have "passkeyChallengeLocked now' v (pr_ChallengeID resp) p ss2 = Inl passkeyFailure" if "(v, p) \<noteq> (vaultID, purpose)" for v p
    using l that by (auto simp: passkeyChallengeLocked_def passkeyFailure_def Let_def split: option.splits if_splits)
  moreover have "pr_Challenge resp = hexEncode challenge"
    using assms(1) by (auto simp: issuePasskeyChallenge_def Let_def split: option.splits if_splits)
  ultimately show ?thesis using l by (simp add: readPasskeyChallenge_def andThen_def)
qed

section \<open>What a ticket can be used with\<close>

text \<open>The verification accepts no client data that names another challenge than the one it is given.\<close>

lemma verified_challenge:
  assumes "verifySession purpose vaultID req challenge s = Inr (cred, verified)" "hexDecode (sr_ClientDataJSON req) = Some cdj" "length challenge = 32"
  shows "ChallengeFromClientDataJSON cdj = Inr challenge"
proof -
  obtain a where a: "decodeBoundedSessionAssertion req = Inr a"
    and v: "Validate a \<lparr> ex_CredentialID = cr_ID cred, ex_WebAuthnP256 = Credential.cr_WebAuthnP256 cred, ex_Challenge = challenge,
      ex_Origin = cr_Origin cred, ex_RPID = cr_RPID cred \<rparr> = Inr verified"
    using assms(1) unfolding verifySession_def Let_def by (auto split: sum.splits option.splits if_splits)
  have "as_ClientDataJSON a = cdj"
    using a assms(2) by (auto simp: decodeBoundedSessionAssertion_def decodeAssertion_def decodeHexField_def andThen_Inr_iff split: if_splits option.splits)
  moreover obtain cd where "readClientData (as_ClientDataJSON a) = Inr cd" "decodeChallenge (cd_Challenge cd) = Inr challenge"
    using v by (rule Validate_InrD) simp
  ultimately show ?thesis using assms(3) by (simp add: ChallengeFromClientDataJSON_def)
qed

text \<open>
  C13: an assertion made for one ticket is of no use with another. Whatever tickets are issued and spent after a ticket was issued, an
  authentication with it whose client data does not name the challenge drawn for this ticket (a captured assertion over another
  ticket's challenge, above all) is refused, for every vault, purpose, time and signature, and changes nothing: neither is the ticket
  spent, so it stays good for its owner, nor does the counter move. Ids and purposes are plain text.\<close>

theorem replayed_assertion_refused:
  assumes "issuePasskeyChallenge now (Some challenge) drawKey vaultID purpose credentialID ss = (Inr resp, ss1)"
    and "plainText vaultID" "plainText purpose" "length challenge = 32" "length (ss_sessionChallengeKey ss1) = 32"
    and "session_run now ss1 t (sv_sessions s)" "sr_ChallengeID req = pr_ChallengeID resp"
    and "hexDecode (sr_ClientDataJSON req) = Some cdj" "ChallengeFromClientDataJSON cdj \<noteq> Inr challenge"
  shows "\<exists>e. authenticatePasskeySession slot t1 t2 t3 t4 purpose' vaultID' req s = (Inl e, s)"
proof -
  have k: "ss_sessionChallengeKey (sv_sessions s) = ss_sessionChallengeKey ss1" by (rule key_kept [OF assms(6)]) (use assms(5) in auto)
  have "\<exists>e. verifySession purpose' v req (pc_Challenge rcd) s = Inl e"
    if "readPasskeyChallenge t1 v (sr_ChallengeID req) purpose' (sv_sessions s) = Inr rcd" for v rcd
  proof (cases "verifySession purpose' v req (pc_Challenge rcd) s")
    case (Inr cv)
    have c: "pc_Challenge rcd = challenge" by (rule issued_reads [OF assms(1-5) k that [unfolded assms(7)]])
    obtain cred verified where "cv = (cred, verified)" by fastforce
    with Inr c have "verifySession purpose' v req challenge s = Inr (cred, verified)" by simp
    from verified_challenge [OF this assms(8,4)] assms(9) show ?thesis by simp
  qed simp
  then show ?thesis by (fastforce simp: authenticatePasskeySession_def split: sum.splits)
qed

section \<open>The rate of recovery signatures\<close>

text \<open>A history of requests, each at its time: the limiter's decisions in order.\<close>

fun allowed :: "(time \<times> string) list \<Rightarrow> (string \<Rightarrow> time list) \<Rightarrow> (time \<times> string) list" where
  "allowed [] hits = []"
| "allowed ((now, v) # rs) hits =
     (case allowTransition now v hits of (Inl e, hits') \<Rightarrow> allowed rs hits' | (Inr _, hits') \<Rightarrow> (now, v) # allowed rs hits')"

text \<open>The limiter remembers, of one vault, the granted times inside the window.\<close>

definition remembers :: "time \<Rightarrow> string \<Rightarrow> time list \<Rightarrow> (string \<Rightarrow> time list) \<Rightarrow> bool" where
  "remembers now v past hits \<longleftrightarrow>
     filter (\<lambda>t. now - transitionRateWindow < t) (hits v) = filter (\<lambda>t. now - transitionRateWindow < t) past"

lemma remembers_later:
  assumes "remembers now v past hits" "now \<le> now'"
  shows "remembers now' v past hits"
proof -
  have "filter (\<lambda>t. now' - transitionRateWindow < t) xs =
      filter (\<lambda>t. now' - transitionRateWindow < t) (filter (\<lambda>t. now - transitionRateWindow < t) xs)" for xs
    using assms(2) by (auto simp: filter_filter intro: filter_cong)
  then show ?thesis using assms(1) unfolding remembers_def by metis
qed

lemma remembers_step:
  assumes "remembers now v past hits" "allowTransition now u hits = (r, hits')"
  shows "remembers now v (past @ (if isl r \<or> u \<noteq> v then [] else [now])) hits'"
  using assms by (auto simp: remembers_def allowTransition_def Let_def timeAfter_def filter_filter split: if_splits)

lemma granted_room:
  assumes "remembers now v past hits" "allowTransition now v hits = (Inr x, hits')"
  shows "length (filter (\<lambda>t. now - transitionRateWindow < t) past) < maxTransitionsPerVaultPerMinute"
  using assms by (auto simp: remembers_def allowTransition_def Let_def timeAfter_def not_le split: if_splits)

text \<open>Every granted time has at most nine granted before it inside the window that ends at it.\<close>

lemma allowed_room:
  assumes "remembers now0 v past hits" "sorted (now0 # map fst rs)" "allowed rs hits = gs @ (now, v) # gs'"
  shows "length (filter (\<lambda>t. now - transitionRateWindow < t) (past @ map fst (filter (\<lambda>g. snd g = v) gs))) < maxTransitionsPerVaultPerMinute"
  using assms
proof (induction rs arbitrary: now0 past hits gs)
  case (Cons r rs)
  obtain t u where r: "r = (t, u)" by fastforce
  obtain d hits' where a: "allowTransition t u hits = (d, hits')" by fastforce
  have m: "remembers t v past hits" using remembers_later [OF Cons.prems(1)] Cons.prems(2) r by simp
  note m' = remembers_step [OF m a]
  have s: "sorted (t # map fst rs)" using Cons.prems(2) r by simp
  show ?case
  proof (cases d)
    case (Inl e)
    then show ?thesis using Cons.IH [OF m' s] Cons.prems(3) r a by simp
  next
    case (Inr x)
    show ?thesis
    proof (cases gs)
      case Nil
      then show ?thesis using granted_room [OF m] Cons.prems(3) r a Inr by simp
    next
      case (Cons g gs2)
      then have "g = (t, u)" "allowed rs hits' = gs2 @ (now, v) # gs'" using Cons.prems(3) r a Inr by auto
      with Cons.IH [OF m' s] Cons Inr show ?thesis by (cases "u = v") simp_all
    qed
  qed
qed simp

text \<open>
  C31: when the requests arrive in the order of their times, a service that starts with no history grants at most ten recovery
  signatures of one vault in any minute.\<close>

theorem transition_rate_limited:
  assumes "sorted (map fst rs)"
  shows "length (filter (\<lambda>(t, u). u = v \<and> w < t \<and> t \<le> w + transitionRateWindow) (allowed rs (\<lambda>_. []))) \<le> maxTransitionsPerVaultPerMinute"
proof (cases "\<exists>g\<in>set (allowed rs (\<lambda>_. [])). snd g = v \<and> w < fst g \<and> fst g \<le> w + transitionRateWindow")
  case False
  then have "filter (\<lambda>(t, u). u = v \<and> w < t \<and> t \<le> w + transitionRateWindow) (allowed rs (\<lambda>_. [])) = []" by (auto simp: filter_empty_conv)
  then show ?thesis by (simp only: list.size)
next
  case True
  then obtain gs g gs' where a: "allowed rs (\<lambda>_. []) = gs @ g # gs'" "snd g = v \<and> w < fst g \<and> fst g \<le> w + transitionRateWindow"
    "\<forall>h\<in>set gs'. \<not> (snd h = v \<and> w < fst h \<and> fst h \<le> w + transitionRateWindow)"
    using split_list_last_prop [OF True] by blast
  obtain now where g: "g = (now, v)" "w < now" "now \<le> w + transitionRateWindow" using a(2) by (cases g) auto
  have rs: "rs \<noteq> []" using a(1) by auto
  have "sorted (fst (hd rs) # map fst rs)" using assms rs by (cases rs) auto
  moreover have "remembers (fst (hd rs)) v [] (\<lambda>_. [])" by (simp add: remembers_def)
  ultimately have room: "length (filter (\<lambda>t. now - transitionRateWindow < t) (map fst (filter (\<lambda>g. snd g = v) gs))) < maxTransitionsPerVaultPerMinute"
    using allowed_room [of _ v "[]" "\<lambda>_. []" rs gs now gs'] a(1) g(1) by simp
  let ?in = "\<lambda>(t, u). u = v \<and> w < t \<and> t \<le> w + transitionRateWindow"
  have "length (filter ?in xs) \<le> length (filter (\<lambda>t. now - transitionRateWindow < t) (map fst (filter (\<lambda>g. snd g = v) xs)))" for xs
    using g(3) by (induction xs) auto
  from le_less_trans [OF this room] have "length (filter ?in gs) < maxTransitionsPerVaultPerMinute" .
  moreover have "filter ?in gs' = []" using a(3) by (auto simp: filter_empty_conv)
  moreover have "?in g" using g by simp
  ultimately show ?thesis by (simp only: a(1) filter_append filter.simps if_True length_append list.size)
qed

theorem transition_rate_limited_witness:
  "length (filter (\<lambda>(t, u). u = ''a'' \<and> 0 < t \<and> t \<le> 0 + transitionRateWindow) (allowed (map (\<lambda>i. (int i, ''a'')) [1..<13]) (\<lambda>_. []))) \<le>
     maxTransitionsPerVaultPerMinute \<and> length (allowed (map (\<lambda>i. (int i, ''a'')) [1..<13]) (\<lambda>_. [])) = 10"
proof -
  have "length (allowed (map (\<lambda>i. (int i, ''a'')) [1..<13]) (\<lambda>_. [])) = 10" by code_simp
  moreover have "sorted (map fst (map (\<lambda>i. (int i, ''a'')) [1..<13]))" by code_simp
  ultimately show ?thesis using transition_rate_limited [of "map (\<lambda>i. (int i, ''a'')) [1..<13]" "''a''" 0] by simp
qed

section \<open>A ticket, issued and spent\<close>

definition sampleIssue :: "PasskeyChallengeResponse res \<times> Sessions" where
  "sampleIssue = issuePasskeyChallenge 0 (Some (replicate 32 7)) (Some (replicate 32 9)) ''v1'' passkeyPurposeRecover [1]
     \<lparr> ss_sessionChallengeKey = [], ss_consumed = [] \<rparr>"

lemma sampleIssue_ok:
  obtains resp where "sampleIssue = (Inr resp, \<lparr> ss_sessionChallengeKey = replicate 32 9, ss_consumed = [] \<rparr>)"
proof -
  let ?r = "\<lparr> pc_VaultID = ''v1'', pc_Purpose = passkeyPurposeRecover, pc_Challenge = replicate 32 7, pc_ExpiresAt = 0 + passkeyChallengeTTL \<rparr>"
  have t: "formatRFC3339Nano (0 + passkeyChallengeTTL) = ''1970-01-01T00:02:00Z''" "fourDigitYear (0 + passkeyChallengeTTL)" by code_simp+
  have "plainText ''v1''" "plainText ''recover''" "plainText ''VaultID''" "plainText ''Purpose''" "plainText ''Challenge''"
    "plainText ''ExpiresAt''" "plainText ''1970-01-01T00:02:00Z''" by code_simp+
  note plain = this [THEN jsonString_plain]
  have "length (stdEncode (replicate 32 7)) = 44" by (simp add: stdEncode_def length_b64Sextets rawEncodedLen_def)
  then have "\<exists>p. marshalChallenge ?r = Some p \<and> length p + 32 \<le> passkeyChallengeTicketLimit"
    using t(2) by (simp add: marshalChallenge_def t(1) [simplified] strField_def jsonStruct_def plain jsonString_plain [OF plain_stdEncode]
        passkeyChallengeTicketLimit_def passkeyPurposeRecover_def)
  then show ?thesis using that by (auto simp: sampleIssue_def issuePasskeyChallenge_def Let_def)
qed

abbreviation sampleSessions :: Sessions where
  "sampleSessions \<equiv> \<lparr> ss_sessionChallengeKey = replicate 32 9, ss_consumed = [] \<rparr>"

lemma sample_plain: "plainText ''v1''" "plainText passkeyPurposeRecover"
  by code_simp+

theorem issued_ticket_accepted_witness:
  "\<exists>tid rcd. readPasskeyChallenge 1 ''v1'' tid passkeyPurposeRecover (snd sampleIssue) = Inr rcd \<and> pc_Challenge rcd = replicate 32 7 \<and>
     readPasskeyChallenge 1 ''v2'' tid passkeyPurposeRecover (snd sampleIssue) = Inl passkeyFailure"
proof -
  obtain resp where r: "sampleIssue = (Inr resp, sampleSessions)" by (rule sampleIssue_ok)
  have "\<exists>rcd. readPasskeyChallenge 1 ''v1'' (pr_ChallengeID resp) passkeyPurposeRecover sampleSessions = Inr rcd \<and>
      pc_Challenge rcd = replicate 32 7 \<and> pr_Challenge resp = hexEncode (replicate 32 7) \<and>
      (\<forall>v p. (v, p) \<noteq> (''v1'', passkeyPurposeRecover) \<longrightarrow> readPasskeyChallenge 1 v (pr_ChallengeID resp) p sampleSessions = Inl passkeyFailure)"
    by (rule issued_ticket_accepted [OF r [unfolded sampleIssue_def] sample_plain _ _ session_run.start])
      (simp_all add: passkeyChallengeTTL_def second_def)
  then obtain rcd where "readPasskeyChallenge 1 ''v1'' (pr_ChallengeID resp) passkeyPurposeRecover sampleSessions = Inr rcd"
    "pc_Challenge rcd = replicate 32 7"
    and o: "\<forall>v p. (v, p) \<noteq> (''v1'', passkeyPurposeRecover) \<longrightarrow> readPasskeyChallenge 1 v (pr_ChallengeID resp) p sampleSessions = Inl passkeyFailure"
    by blast
  moreover have "readPasskeyChallenge 1 ''v2'' (pr_ChallengeID resp) passkeyPurposeRecover sampleSessions = Inl passkeyFailure"
    using o [rule_format, of "''v2''" passkeyPurposeRecover] by simp
  ultimately show ?thesis unfolding r snd_conv by blast
qed

lemma sample_spent:
  obtains tid ss where "consumePasskeyChallenge 1 1 ''v1'' tid passkeyPurposeRecover sampleSessions = (Inr (replicate 32 7), ss)"
proof -
  obtain resp where r: "sampleIssue = (Inr resp, sampleSessions)" by (rule sampleIssue_ok)
  have "\<exists>digest. passkeyChallengeLocked 1 ''v1'' (pr_ChallengeID resp) passkeyPurposeRecover sampleSessions =
      Inr (\<lparr> pc_VaultID = ''v1'', pc_Purpose = passkeyPurposeRecover, pc_Challenge = replicate 32 7, pc_ExpiresAt = 0 + passkeyChallengeTTL \<rparr>, digest)"
    by (rule issued_locked [OF r [unfolded sampleIssue_def] sample_plain]) (simp_all add: passkeyChallengeTTL_def second_def)
  moreover have "\<not> ownerlessPurpose passkeyPurposeRecover" by code_simp
  ultimately have "\<exists>ss. consumePasskeyChallenge 1 1 ''v1'' (pr_ChallengeID resp) passkeyPurposeRecover sampleSessions = (Inr (replicate 32 7), ss)"
    by (auto simp: consumePasskeyChallenge_def liveConsumed_def Let_def session_names)
  then show ?thesis using that by blast
qed

theorem ticket_single_use_witness:
  "\<exists>tid ss. consumePasskeyChallenge 1 1 ''v1'' tid passkeyPurposeRecover sampleSessions = (Inr (replicate 32 7), ss) \<and>
     (\<exists>e. consumePasskeyChallenge 2 2 ''v1'' tid passkeyPurposeRecover ss = (Inl e, ss))"
proof -
  obtain tid ss where c: "consumePasskeyChallenge 1 1 ''v1'' tid passkeyPurposeRecover sampleSessions = (Inr (replicate 32 7), ss)"
    by (rule sample_spent)
  have "\<exists>(s :: Service) (req :: SessionAssertionRequest). sv_sessions s = ss \<and> sr_ChallengeID req = tid" by (metis Service.select_convs(2) SessionAssertionRequest.select_convs(1))
  then obtain s :: Service and req :: SessionAssertionRequest where sr: "sv_sessions s = ss" "sr_ChallengeID req = tid" by blast
  have "(1 :: int) \<le> 2" by simp
  note ticket_single_use [OF c session_run.start this sr, of 2 "''v1''" passkeyPurposeRecover]
  with c show ?thesis by blast
qed

theorem replayed_assertion_refused_witness:
  "\<exists>resp. sampleIssue = (Inr resp, sampleSessions) \<and>
     (\<forall>s. \<exists>e. authenticatePasskeySession (Inr ()) 1 1 1 1 passkeyPurposeRecover ''v1''
        \<lparr> sr_ChallengeID = pr_ChallengeID resp, sr_CredentialID = ''01'', sr_ClientDataJSON = hexEncode (bytes_of sampleGetData),
          sr_AuthenticatorData = hexEncode (replicate 37 5), sr_Signature = ''30'', sr_DirectProof = replicate 128 CHR ''0'' \<rparr>
        (s \<lparr> sv_sessions := sampleSessions \<rparr>) = (Inl e, s \<lparr> sv_sessions := sampleSessions \<rparr>))"
proof -
  obtain resp where r: "sampleIssue = (Inr resp, sampleSessions)" by (rule sampleIssue_ok)
  have "decodeChallenge (replicate 43 (CHR ''A'')) = Inr (replicate 32 0)" unfolding decodeChallenge_def by code_simp
  then have c: "ChallengeFromClientDataJSON (bytes_of sampleGetData) \<noteq> Inr (replicate 32 7)"
    by (simp add: ChallengeFromClientDataJSON_def sampleGetData_reads)
  have "\<exists>e. authenticatePasskeySession (Inr ()) 1 1 1 1 passkeyPurposeRecover ''v1''
        \<lparr> sr_ChallengeID = pr_ChallengeID resp, sr_CredentialID = ''01'', sr_ClientDataJSON = hexEncode (bytes_of sampleGetData),
          sr_AuthenticatorData = hexEncode (replicate 37 5), sr_Signature = ''30'', sr_DirectProof = replicate 128 CHR ''0'' \<rparr>
        (s \<lparr> sv_sessions := sampleSessions \<rparr>) = (Inl e, s \<lparr> sv_sessions := sampleSessions \<rparr>)" for s :: Service
    by (rule replayed_assertion_refused [OF r [unfolded sampleIssue_def] sample_plain _ _ _ _ _ c, where t = 0])
      (simp_all add: session_run.start)
  with r show ?thesis by blast
qed

theorem spent_tickets_bounded_witness:
  "\<exists>tid ss. ss = snd (consumePasskeyChallenge 1 1 ''v1'' tid passkeyPurposeRecover sampleSessions) \<and> length (ss_consumed ss) = 1 \<and>
     length (filter (\<lambda>(_, spent). cc_VaultID spent = ''v1'') (ss_consumed ss)) \<le> 256"
proof -
  obtain tid ss where c: "consumePasskeyChallenge 1 1 ''v1'' tid passkeyPurposeRecover sampleSessions = (Inr (replicate 32 7), ss)"
    by (rule sample_spent)
  then have l: "length (ss_consumed ss) = 1" by (rule consume_cases) (auto simp: liveConsumed_def)
  have "session_run 0 sampleSessions 1 ss" using session_run.claim [OF session_run.start, of 0 1 1 sampleSessions "''v1''" tid passkeyPurposeRecover] c by simp
  from spent_tickets_bounded [OF this, of "''v1''"] c l show ?thesis by (intro exI [of _ tid]) simp
qed

end
