(* ===== verification/Savings_Ledger.thy ===== *)
theory Savings_Ledger
  imports Enrollment Store Json_Round
begin

text \<open>
  The Ledger Savings journal (\<open>policy/ledger_savings.go\<close>, \<open>policy/ledger_savings_replay.go\<close>): the sealed enrollment of a vault
  and the append-only log of recovery reservations and their signed completions. Every event is read and authenticated before
  a new one is decided; the last event of the vault, outpoint and purpose is the state the decision is taken on.

  The clock, the outcomes of the two writes of the sequence file and of the COMMIT are arguments. An empty byte slice is printed
  as \<open>null\<close>, as a nil slice is.
\<close>

section \<open>Data\<close>

definition sessionPurposeInitiate :: string where "sessionPurposeInitiate = ''initiate''"
definition sessionPurposeClawback :: string where "sessionPurposeClawback = ''clawback''"

record RecoverySession =
  rs_VaultID :: string
  rs_Purpose :: string
  rs_InputTxid :: string
  rs_InputVout :: int
  rs_DestScript :: string
  rs_LastSighash :: string
  rs_Signature :: bytes
  rs_CreatedAt :: string
  rs_UpdatedAt :: string
  rs_IntegrityMAC :: bytes

record LedgerSavingsRecovery = RecoverySession +
  lr_CandidatePSBT :: string
  lr_DirectProof :: bytes

datatype ReplayAction = ReplaySign | ReplayReplay | ReplayResign

definition ErrRecoveryBusy :: go_error where "ErrRecoveryBusy = Err ''recovery session already in progress''"

section \<open>Enrollment\<close>

fun ledgerSavingsFields :: "bytes list \<Rightarrow> bytes" where
  "ledgerSavingsFields [] = []"
| "ledgerSavingsFields (f # fs) = le32 (word_of_nat (length f)) @ f @ ledgerSavingsFields fs"

definition ledgerSavingsMAC :: "bytes \<Rightarrow> string \<Rightarrow> bytes list \<Rightarrow> bytes" where
  "ledgerSavingsMAC key domain fs = hmac_sha256 key (ledgerSavingsFields (bytes_of domain # fs))"

definition savingsEnrollmentDomain :: string where "savingsEnrollmentDomain = ''vaulted/ledger-guardian-savings-v1/enrollment''"
definition recoveryEventDomain :: string where "recoveryEventDomain = ''vaulted/ledger-guardian-savings-v1/recovery-event''"

definition savingsEnrollmentMAC :: "bytes \<Rightarrow> LedgerSavingsEnrollment \<Rightarrow> bytes" where
  "savingsEnrollmentMAC key rec = ledgerSavingsMAC key savingsEnrollmentDomain
     [bytes_of (le_VaultID rec), le_ContextJSON rec, bytes_of (le_DescriptorHash rec)]"

definition SealLedgerSavingsEnrollment :: "LedgerSavingsEnrollment \<Rightarrow> bytes \<Rightarrow> LedgerSavingsEnrollment res" where
  "SealLedgerSavingsEnrollment rec key =
     (if length key \<noteq> 32 then Inl (Err ''Ledger Savings integrity key required'')
      else andThen (validateLedgerSavingsEnrollment rec) (\<lambda>_. Inr (rec \<lparr> le_IntegrityMAC := savingsEnrollmentMAC key rec \<rparr>)))"

definition verifyLedgerSavingsEnrollment :: "LedgerSavingsEnrollment \<Rightarrow> bytes \<Rightarrow> unit res" where
  "verifyLedgerSavingsEnrollment rec key =
     (if length key \<noteq> 32 \<or> le_IntegrityMAC rec \<noteq> savingsEnrollmentMAC key rec then Inl (Err ''Ledger Savings enrollment MAC mismatch'')
      else validateLedgerSavingsEnrollment rec)"

definition GetLedgerSavingsEnrollment :: "string \<Rightarrow> Ledger \<Rightarrow> LedgerSavingsEnrollment option res" where
  "GetLedgerSavingsEnrollment vaultID l =
     (case lookupBy (\<lambda>r. le_VaultID r = vaultID) (db_ledger_savings_enrollment (lg_db l)) of
        None \<Rightarrow> Inr None
      | Some rec \<Rightarrow> andThen (verifyLedgerSavingsEnrollment rec (lg_integrityKey l)) (\<lambda>_. Inr (Some rec)))"

section \<open>The decision\<close>

definition requireSessionPurpose :: "string \<Rightarrow> unit res" where
  "requireSessionPurpose purpose =
     (if purpose \<noteq> sessionPurposeInitiate \<and> purpose \<noteq> sessionPurposeClawback then Inl (Err ''purpose must be initiate or clawback'') else Inr ())"

text \<open>The normalised outpoint and destination are compared with the stored ones.\<close>

definition DecideReplay :: "RecoverySession option \<Rightarrow> RecoverySession \<Rightarrow> ReplayAction res" where
  "DecideReplay existing nxt =
     andThen (requireSessionPurpose (rs_Purpose nxt)) (\<lambda>_.
     let txid = toLower (trimSpace (rs_InputTxid nxt)); dest = toLower (trimSpace (rs_DestScript nxt)) in
     if rs_VaultID nxt = [] \<or> txid = [] \<or> dest = [] then Inl (Err ''recovery session dest and outpoint required'')
     else case existing of
       None \<Rightarrow> Inr ReplaySign
     | Some ex \<Rightarrow>
         if rs_DestScript ex \<noteq> dest then Inl (Err ''second dest for this outpoint'')
         else if rs_InputTxid ex \<noteq> txid \<or> rs_InputVout ex \<noteq> rs_InputVout nxt then Inl (Err ''overlapping input set for this outpoint'')
         else if rs_Signature ex = [] then
           (if rs_LastSighash ex = [] \<or> rs_LastSighash nxt = [] \<or> rs_LastSighash ex \<noteq> rs_LastSighash nxt
            then Inl ErrRecoveryBusy else Inr ReplayResign)
         else if rs_LastSighash nxt \<noteq> [] \<and> rs_LastSighash ex = rs_LastSighash nxt \<and> rs_Signature ex \<noteq> [] then Inr ReplayReplay
         else if rs_Signature nxt \<noteq> [] then Inl ErrRecoveryBusy
         else Inr ReplayResign)"

definition canonicalHex :: "string \<Rightarrow> bool" where
  "canonicalHex s \<longleftrightarrow> (case hexDecode s of None \<Rightarrow> False | Some b \<Rightarrow> hexEncode b = s)"

definition validateLedgerSavingsRecovery :: "LedgerSavingsRecovery \<Rightarrow> unit res" where
  "validateLedgerSavingsRecovery rec =
     andThen (requireSessionPurpose (rs_Purpose rec)) (\<lambda>_.
     if rs_VaultID rec = [] \<or> length (rs_InputTxid rec) \<noteq> 64 \<or> rs_InputVout rec < 0 \<or> rs_InputVout rec > 4294967295 \<or>
        length (rs_DestScript rec) \<noteq> 68 \<or> length (rs_LastSighash rec) \<noteq> 64 \<or> lr_CandidatePSBT rec = [] \<or>
        length (lr_CandidatePSBT rec) > 131072 \<or> length (rs_Signature rec) > 131072 \<or>
        (lr_DirectProof rec \<noteq> [] \<and> length (lr_DirectProof rec) \<noteq> 64)
     then Inl (Err ''Ledger Savings recovery bounds'')
     else if \<not> canonicalHex (rs_InputTxid rec) \<or> \<not> canonicalHex (rs_DestScript rec) \<or> \<not> canonicalHex (rs_LastSighash rec)
     then Inl (Err ''Ledger Savings recovery encoding must be canonical'') else Inr ())"

section \<open>The stored events\<close>

definition bytesField :: "string \<Rightarrow> bytes \<Rightarrow> (string \<times> string) list" where
  "bytesField k b = [(k, if b = [] then ''null'' else jsonString (stdEncode b))]"

text \<open>The embedded session's fields come first.\<close>

definition recoveryFields :: "LedgerSavingsRecovery \<Rightarrow> (string \<times> string) list" where
  "recoveryFields r =
     strField ''VaultID'' (rs_VaultID r) @ strField ''Purpose'' (rs_Purpose r) @ strField ''InputTxid'' (rs_InputTxid r) @
     intField ''InputVout'' (rs_InputVout r) @ strField ''DestScript'' (rs_DestScript r) @ strField ''LastSighash'' (rs_LastSighash r) @
     bytesField ''Signature'' (rs_Signature r) @ strField ''CreatedAt'' (rs_CreatedAt r) @ strField ''UpdatedAt'' (rs_UpdatedAt r) @
     bytesField ''IntegrityMAC'' (rs_IntegrityMAC r) @ strField ''CandidatePSBT'' (lr_CandidatePSBT r) @ bytesField ''DirectProof'' (lr_DirectProof r)"

definition marshalRecovery :: "LedgerSavingsRecovery \<Rightarrow> bytes" where
  "marshalRecovery r = bytes_of (jsonStruct (recoveryFields r))"

definition unmarshalRecovery :: "bytes \<Rightarrow> LedgerSavingsRecovery option" where
  "unmarshalRecovery raw =
     (case jsonMembers (string_of raw) of
        None \<Rightarrow> None
      | Some ms \<Rightarrow>
          let str = (\<lambda>k. decStr [] (fieldVals ms k)); byt = (\<lambda>k. decBytes [] (fieldVals ms k)) in
          (case (str ''VaultID'', str ''Purpose'', str ''InputTxid'', decInt64 0 (fieldVals ms ''InputVout''), str ''DestScript'', str ''LastSighash'') of
             (Some v, Some p, Some t, Some n, Some d, Some h) \<Rightarrow>
               (case (byt ''Signature'', str ''CreatedAt'', str ''UpdatedAt'', byt ''IntegrityMAC'', str ''CandidatePSBT'', byt ''DirectProof'') of
                  (Some sig, Some ca, Some ua, Some mac, Some psbt, Some dp) \<Rightarrow>
                    Some \<lparr> rs_VaultID = v, rs_Purpose = p, rs_InputTxid = t, rs_InputVout = n, rs_DestScript = d, rs_LastSighash = h,
                      rs_Signature = sig, rs_CreatedAt = ca, rs_UpdatedAt = ua, rs_IntegrityMAC = mac, lr_CandidatePSBT = psbt, lr_DirectProof = dp \<rparr>
                | _ \<Rightarrow> None)
           | _ \<Rightarrow> None))"

definition recoveryEventMAC :: "bytes \<Rightarrow> int \<Rightarrow> string \<Rightarrow> bytes \<Rightarrow> bytes" where
  "recoveryEventMAC key eid vaultID raw = ledgerSavingsMAC key recoveryEventDomain [le64 (u64_of eid), bytes_of vaultID, raw]"

definition sameRecovery :: "LedgerSavingsRecovery \<Rightarrow> LedgerSavingsRecovery \<Rightarrow> bool" where
  "sameRecovery a b \<longleftrightarrow> rs_VaultID a = rs_VaultID b \<and> rs_InputTxid a = rs_InputTxid b \<and> rs_InputVout a = rs_InputVout b \<and> rs_Purpose a = rs_Purpose b"

text \<open>The loop over the rows in the order of their ids.\<close>

fun scanRecoveryEvents :: "bytes \<Rightarrow> LedgerSavingsRecovery \<Rightarrow> SavingsEventRow list \<Rightarrow> int \<Rightarrow> LedgerSavingsRecovery option \<Rightarrow>
    (int \<times> LedgerSavingsRecovery option) res" where
  "scanRecoveryEvents key nxt [] lastID existing = Inr (lastID, existing)"
| "scanRecoveryEvents key nxt (row # rows) lastID existing =
     (if se_integrity_mac row \<noteq> recoveryEventMAC key (se_event_id row) (se_vault_id row) (se_record row)
      then Inl (Err ''Ledger Savings recovery event MAC mismatch'')
      else case unmarshalRecovery (se_record row) of
        None \<Rightarrow> Inl (Err ''json'')
      | Some event \<Rightarrow>
          andThen (validateLedgerSavingsRecovery event) (\<lambda>_.
          if rs_VaultID event \<noteq> se_vault_id row \<or> se_event_id row \<le> lastID then Inl (Err ''Ledger Savings recovery event identity mismatch'')
          else scanRecoveryEvents key nxt rows (se_event_id row) (if sameRecovery event nxt then Some event else existing)))"

definition insertRecoveryEvent :: "SavingsEventRow \<Rightarrow> DB \<Rightarrow> DB res" where
  "insertRecoveryEvent row db =
     (if se_event_id row \<in> se_event_id ` set (db_ledger_savings_recovery_event db) then Inl (ErrConstraint ''UNIQUE ledger_savings_recovery_event.event_id'')
      else if se_vault_id row \<notin> le_VaultID ` set (db_ledger_savings_enrollment db) then Inl (ErrConstraint ''FOREIGN KEY ledger_savings_recovery_event.vault_id'')
      else if se_event_id row \<le> 0 \<or> se_record row = [] \<or> length (se_record row) > 393216 \<or> length (se_integrity_mac row) \<noteq> 32
        then Inl (ErrConstraint ''CHECK ledger_savings_recovery_event'')
      else Inr (db \<lparr> db_ledger_savings_recovery_event := db_ledger_savings_recovery_event db @ [row] \<rparr>))"

text \<open>What the transaction decides: the stored record is returned as it is, or a record is appended under an id.\<close>

datatype recovery_plan =
    Keep ReplayAction LedgerSavingsRecovery
  | Append ReplayAction LedgerSavingsRecovery int

definition planRecovery :: "time \<Rightarrow> LedgerSavingsRecovery \<Rightarrow> Ledger \<Rightarrow> recovery_plan res" where
  "planRecovery now nxt l =
     andThen (scanRecoveryEvents (lg_integrityKey l) nxt (sort_key se_event_id (db_ledger_savings_recovery_event (lg_db l))) 0 None) (\<lambda>(lastID, existing).
     if rs_Signature nxt \<noteq> [] \<and>
        (case existing of None \<Rightarrow> True | Some ex \<Rightarrow> lr_CandidatePSBT nxt \<noteq> lr_CandidatePSBT ex \<or> lr_DirectProof nxt \<noteq> lr_DirectProof ex)
     then Inl (Err ''Ledger Savings completion must match the durable candidate'')
     else andThen (DecideReplay (map_option RecoverySession.truncate existing) (RecoverySession.truncate nxt)) (\<lambda>action.
       let fresh = (\<lambda>created. nxt \<lparr> rs_CreatedAt := created, rs_UpdatedAt := formatRFC3339Nano now, rs_IntegrityMAC := [] \<rparr>);
           append = (\<lambda>created. if lastID = maxInt64 then Inl (Err ''Ledger Savings event ID overflow'') else Inr (Append action (fresh created) (lastID + 1)))
       in case existing of
         None \<Rightarrow> append (formatRFC3339Nano now)
       | Some ex \<Rightarrow>
           if action = ReplayReplay \<or> (rs_Signature ex = [] \<and> rs_Signature nxt = [] \<and> rs_LastSighash ex = rs_LastSighash nxt)
           then Inr (Keep action ex) else append (rs_CreatedAt ex)))"

definition storeRecovery :: "LedgerSavingsRecovery \<Rightarrow> int \<Rightarrow> unit act" where
  "storeRecovery rec eid =
     actDB (\<lambda>l. insertRecoveryEvent
       \<lparr> se_event_id = eid, se_vault_id = rs_VaultID rec, se_record = marshalRecovery rec,
         se_integrity_mac = recoveryEventMAC (lg_integrityKey l) eid (rs_VaultID rec) (marshalRecovery rec) \<rparr> (lg_db l))"

text \<open>\<open>w1\<close> and \<open>w2\<close> are the outcomes of writing the sequence file at the first and at the second observation. The second one
  comes before the return of a stored record, and after the COMMIT of an appended one.\<close>

definition ApplyLedgerSavingsRecovery :: "write_result \<Rightarrow> write_result \<Rightarrow> bool \<Rightarrow> time \<Rightarrow> LedgerSavingsRecovery \<Rightarrow>
    (ReplayAction \<times> LedgerSavingsRecovery) act" where
  "ApplyLedgerSavingsRecovery w1 w2 commit_ok now nxt l =
     (if length (lg_integrityKey l) \<noteq> 32 then (Inl (Err ''Ledger Savings integrity key required''), l)
      else case validateLedgerSavingsRecovery nxt of
        Inl e \<Rightarrow> (Inl e, l)
      | Inr _ \<Rightarrow>
         (case actBind (observeEconomicOutflowsLocked w1) (\<lambda>_. actRead (planRecovery now nxt)) l of
            (Inl e, l1) \<Rightarrow> (Inl e, l1)
          | (Inr (Keep action ex), l1) \<Rightarrow> actBind (observeEconomicOutflowsLocked w2) (\<lambda>_. actPure (action, ex)) l1
          | (Inr (Append action rec eid), l1) \<Rightarrow>
              actBind (inTx commit_ok (storeRecovery rec eid)) (\<lambda>_.
              actBind (observeEconomicOutflowsLocked w2) (\<lambda>_. actPure (action, rec))) l1))"

end
