(* ===== verification/Savings_Props.thy ===== *)
theory Savings_Props
  imports Savings_Ledger
begin

text \<open>
  The Ledger Savings recovery log under every sequence of requests: each outpoint and purpose has one destination, reservations
  and completions alternate, a completion is for the reservation before it, and a signed answer is repeated exactly.
\<close>

section \<open>Canonical hexadecimal\<close>

lemma canonicalHex_chars: "canonicalHex s \<Longrightarrow> c \<in> set s \<Longrightarrow> (of_char c :: nat) \<in> {48..57} \<union> {97..102}"
  using hexEncode_chars by (auto simp: canonicalHex_def split: option.splits)

lemma canonicalHex_plain: "canonicalHex s \<Longrightarrow> plainText s"
  using canonicalHex_chars by (force simp: plainText_def list_all_iff plainChar_def Let_def)

lemma canonicalHex_normal:
  assumes "canonicalHex s"
  shows "toLower (trimSpace s) = s"
proof -
  have ascii: "(of_char c :: nat) < 128" and visible: "\<not> isSpaceRune (of_char c)" if "c \<in> set s" for c
    using canonicalHex_chars [OF assms that] by (auto simp: isSpaceRune_def)
  have "trimSpace s = s"
    by (rule trimSpace_ends) (use ascii in blast, use visible hd_in_set in blast, use visible last_in_set in blast)
  moreover have "toLowerChar c = c" if "c \<in> set s" for c
    using canonicalHex_chars [OF assms that] by (auto simp: toLowerChar_def Let_def)
  then have "toLower s = s" by (simp add: toLower_def map_idI)
  ultimately show ?thesis by simp
qed

section \<open>Stored events are read back\<close>

lemma recovery_keys:
  "foldKey ''VaultID'' = ''VAULTID''" "foldKey ''Purpose'' = ''PURPOSE''" "foldKey ''InputTxid'' = ''INPUTTXID''"
  "foldKey ''InputVout'' = ''INPUTVOUT''" "foldKey ''DestScript'' = ''DESTSCRIPT''" "foldKey ''LastSighash'' = ''LASTSIGHASH''"
  "foldKey ''Signature'' = ''SIGNATURE''" "foldKey ''CreatedAt'' = ''CREATEDAT''" "foldKey ''UpdatedAt'' = ''UPDATEDAT''"
  "foldKey ''IntegrityMAC'' = ''INTEGRITYMAC''" "foldKey ''CandidatePSBT'' = ''CANDIDATEPSBT''" "foldKey ''DirectProof'' = ''DIRECTPROOF''"
  by code_simp+

lemma recovery_keys_plain:
  "plainText ''VaultID''" "plainText ''Purpose''" "plainText ''InputTxid''" "plainText ''InputVout''" "plainText ''DestScript''" "plainText ''LastSighash''"
  "plainText ''Signature''" "plainText ''CreatedAt''" "plainText ''UpdatedAt''" "plainText ''IntegrityMAC''" "plainText ''CandidatePSBT''" "plainText ''DirectProof''"
  by code_simp+

definition jsonBytes :: "bytes \<Rightarrow> json" where
  "jsonBytes b = (if b = [] then JNull else JStr (stdEncode b))"

lemma reads_bytes: "readsAs (if b = [] then ''null'' else jsonString (stdEncode b)) (jsonBytes b)"
  by (simp add: jsonBytes_def reads_null reads_string plain_stdEncode)

lemma dec_jsonBytes: "decBytes [] [jsonBytes b] = Some b"
  by (simp add: jsonBytes_def std_round_trip)

definition plainRecovery :: "LedgerSavingsRecovery \<Rightarrow> bool" where
  "plainRecovery r \<longleftrightarrow> plainText (rs_VaultID r) \<and> plainText (rs_CreatedAt r) \<and> plainText (rs_UpdatedAt r) \<and> plainText (lr_CandidatePSBT r)"

lemma unmarshal_recovery:
  assumes "validateLedgerSavingsRecovery r = Inr ()" "plainRecovery r"
  shows "unmarshalRecovery (marshalRecovery r) = Some r"
proof -
  have v: "canonicalHex (rs_InputTxid r)" "canonicalHex (rs_DestScript r)" "canonicalHex (rs_LastSighash r)" "0 \<le> rs_InputVout r"
    "rs_InputVout r \<le> 4294967295" "rs_Purpose r = ''initiate'' \<or> rs_Purpose r = ''clawback''"
    using assms(1) by (auto simp: validateLedgerSavingsRecovery_def requireSessionPurpose_def sessionPurposeInitiate_def sessionPurposeClawback_def
        andThen_Inr_iff split: if_splits)
  have "plainText ''initiate''" "plainText ''clawback''" by code_simp+
  with v(6) have purpose: "plainText (rs_Purpose r)" by auto
  note plain = assms(2) [unfolded plainRecovery_def]
  let ?ms = "[(''VaultID'', JStr (rs_VaultID r)), (''Purpose'', JStr (rs_Purpose r)), (''InputTxid'', JStr (rs_InputTxid r)),
    (''InputVout'', JNum (showInt (rs_InputVout r))), (''DestScript'', JStr (rs_DestScript r)), (''LastSighash'', JStr (rs_LastSighash r)),
    (''Signature'', jsonBytes (rs_Signature r)), (''CreatedAt'', JStr (rs_CreatedAt r)), (''UpdatedAt'', JStr (rs_UpdatedAt r)),
    (''IntegrityMAC'', jsonBytes (rs_IntegrityMAC r)), (''CandidatePSBT'', JStr (lr_CandidatePSBT r)), (''DirectProof'', jsonBytes (lr_DirectProof r))]"
  have "jsonMembers (jsonStruct (recoveryFields r)) = Some ?ms"
    by (rule jsonMembers_struct) (simp_all add: recoveryFields_def strField_def intField_def bytesField_def recovery_keys_plain [unfolded plainText_simps]
        reads_string reads_bytes reads_nat v(4) purpose plain v(1-3) [THEN canonicalHex_plain] split del: if_split)
  moreover have "parseInt64 (showInt (rs_InputVout r)) = Some (rs_InputVout r)" using v(4,5) by (intro parseInt64_nat) auto
  ultimately show ?thesis
    by (simp add: unmarshalRecovery_def marshalRecovery_def fieldVals_def recovery_keys dec_jsonBytes Let_def del: decBytes.simps)
qed

section \<open>The log\<close>

text \<open>The rows that hold a list of events, numbered from one.\<close>

definition eventRow :: "bytes \<Rightarrow> nat \<Rightarrow> LedgerSavingsRecovery \<Rightarrow> SavingsEventRow" where
  "eventRow key n e = \<lparr> se_event_id = int n, se_vault_id = rs_VaultID e, se_record = marshalRecovery e,
     se_integrity_mac = recoveryEventMAC key (int n) (rs_VaultID e) (marshalRecovery e) \<rparr>"

fun rowsFrom :: "bytes \<Rightarrow> nat \<Rightarrow> LedgerSavingsRecovery list \<Rightarrow> SavingsEventRow list" where
  "rowsFrom key n [] = []"
| "rowsFrom key n (e # es) = eventRow key (Suc n) e # rowsFrom key (Suc n) es"

definition goodEvent :: "LedgerSavingsRecovery \<Rightarrow> bool" where
  "goodEvent e \<longleftrightarrow> validateLedgerSavingsRecovery e = Inr () \<and> plainRecovery e"

text \<open>The event that decides a request: the last of its vault, outpoint and purpose.\<close>

definition latest :: "LedgerSavingsRecovery \<Rightarrow> LedgerSavingsRecovery list \<Rightarrow> LedgerSavingsRecovery option" where
  "latest nxt es = foldl (\<lambda>acc e. if sameRecovery e nxt then Some e else acc) None es"

lemma latest_snoc: "latest nxt (es @ [e]) = (if sameRecovery e nxt then Some e else latest nxt es)"
  by (simp add: latest_def)

lemma latest_same: "latest nxt es = Some e \<Longrightarrow> e \<in> set es \<and> sameRecovery e nxt"
  by (induction es rule: rev_induct) (auto simp: latest_snoc latest_def [of _ "[]"] split: if_splits)

lemma latest_None: "latest nxt es = None \<Longrightarrow> e \<in> set es \<Longrightarrow> \<not> sameRecovery e nxt"
  by (induction es rule: rev_induct) (auto simp: latest_snoc split: if_splits)

lemma sameRecovery_equiv: "sameRecovery a a" "sameRecovery a b \<Longrightarrow> sameRecovery b a" "sameRecovery a b \<Longrightarrow> sameRecovery b c \<Longrightarrow> sameRecovery a c"
  by (simp_all add: sameRecovery_def)

lemma latest_cong: "sameRecovery a b \<Longrightarrow> latest a es = latest b es"
proof -
  assume "sameRecovery a b"
  then have "sameRecovery e a = sameRecovery e b" for e by (auto simp: sameRecovery_def)
  then show ?thesis by (simp add: latest_def)
qed

lemma rowsFrom_append: "rowsFrom key n (es @ [e]) = rowsFrom key n es @ [eventRow key (Suc (n + length es)) e]"
  by (induction es arbitrary: n) simp_all

lemma rowsFrom_ids: "map se_event_id (rowsFrom key n es) = map int [Suc n..<Suc (n + length es)]"
  by (induction es arbitrary: n) (simp_all add: eventRow_def upt_conv_Cons del: upt_Suc)

lemma rowsFrom_sorted: "sort_key se_event_id (rowsFrom key n es) = rowsFrom key n es"
  by (intro sort_key_id_if_sorted) (simp add: rowsFrom_ids sorted_map del: upt_Suc)

lemma scan_rows:
  assumes "list_all goodEvent es"
  shows "scanRecoveryEvents key nxt (rowsFrom key n es) (int n) acc =
    Inr (int (n + length es), foldl (\<lambda>acc e. if sameRecovery e nxt then Some e else acc) acc es)"
  using assms
proof (induction es arbitrary: n acc)
  case (Cons e es)
  then have e: "unmarshalRecovery (marshalRecovery e) = Some e" "validateLedgerSavingsRecovery e = Inr ()"
    by (simp_all add: goodEvent_def unmarshal_recovery)
  show ?case using Cons.IH [of "Suc n"] Cons.prems e by (simp add: eventRow_def andThen_def)
qed simp

lemma scan_log:
  assumes "list_all goodEvent es"
  shows "scanRecoveryEvents key nxt (sort_key se_event_id (rowsFrom key 0 es)) 0 None = Inr (int (length es), latest nxt es)"
  using scan_rows [OF assms, of key nxt 0 None] by (simp add: rowsFrom_sorted latest_def)

section \<open>Decisions\<close>

lemma valid_fields:
  assumes "validateLedgerSavingsRecovery r = Inr ()"
  shows "requireSessionPurpose (rs_Purpose r) = Inr ()" "rs_VaultID r \<noteq> []" "rs_InputTxid r \<noteq> []" "rs_DestScript r \<noteq> []" "rs_LastSighash r \<noteq> []"
    "toLower (trimSpace (rs_InputTxid r)) = rs_InputTxid r" "toLower (trimSpace (rs_DestScript r)) = rs_DestScript r"
  using assms canonicalHex_normal by (auto simp: validateLedgerSavingsRecovery_def andThen_Inr_iff split: if_splits)

text \<open>The decision on a validated request against the last event of its outpoint.\<close>

lemma decide_first: "validateLedgerSavingsRecovery nxt = Inr () \<Longrightarrow> DecideReplay None (RecoverySession.truncate nxt) = Inr ReplaySign"
  by (simp add: DecideReplay_def valid_fields Let_def andThen_def RecoverySession.defs)

lemma decide_next:
  assumes "validateLedgerSavingsRecovery nxt = Inr ()" "validateLedgerSavingsRecovery ex = Inr ()" "sameRecovery ex nxt"
  shows "DecideReplay (Some (RecoverySession.truncate ex)) (RecoverySession.truncate nxt) =
    (if rs_DestScript ex \<noteq> rs_DestScript nxt then Inl (Err ''second dest for this outpoint'')
     else if rs_LastSighash ex = rs_LastSighash nxt then Inr (if rs_Signature ex = [] then ReplayResign else ReplayReplay)
     else if rs_Signature ex = [] \<or> rs_Signature nxt \<noteq> [] then Inl ErrRecoveryBusy else Inr ReplayResign)"
  using assms(3) valid_fields [OF assms(1)] valid_fields [OF assms(2)]
  by (auto simp: DecideReplay_def Let_def andThen_def RecoverySession.defs sameRecovery_def)

text \<open>What may follow the last event of an outpoint: a first reservation, the completion of the open reservation, or a new
  reservation of another transaction to the same destination after a completion.\<close>

definition follows :: "LedgerSavingsRecovery option \<Rightarrow> LedgerSavingsRecovery \<Rightarrow> bool" where
  "follows prev e \<longleftrightarrow>
     (case prev of
        None \<Rightarrow> rs_Signature e = []
      | Some p \<Rightarrow> rs_DestScript p = rs_DestScript e \<and>
          (if rs_Signature e = [] then rs_Signature p \<noteq> [] \<and> rs_LastSighash p \<noteq> rs_LastSighash e
           else rs_Signature p = [] \<and> rs_LastSighash p = rs_LastSighash e \<and> lr_CandidatePSBT p = lr_CandidatePSBT e \<and>
             lr_DirectProof p = lr_DirectProof e))"

definition logSound :: "LedgerSavingsRecovery list \<Rightarrow> bool" where
  "logSound es \<longleftrightarrow> (\<forall>xs e ys. es = xs @ e # ys \<longrightarrow> follows (latest e xs) e)"

lemma logSound_snoc: "logSound es \<Longrightarrow> follows (latest e es) e \<Longrightarrow> logSound (es @ [e])"
  by (auto simp: logSound_def append_eq_append_conv2 append_eq_Cons_conv Cons_eq_append_conv)

lemma logSound_init: "logSound (es @ [e]) \<Longrightarrow> logSound es \<and> follows (latest e es) e"
  by (fastforce simp: logSound_def)

lemma plan_cases:
  assumes "validateLedgerSavingsRecovery nxt = Inr ()" "list_all goodEvent es"
    "db_ledger_savings_recovery_event (lg_db l) = rowsFrom (lg_integrityKey l) 0 es" "planRecovery now nxt l = Inr p"
  obtains (keep) action ex where "p = Keep action ex" "latest nxt es = Some ex" "rs_LastSighash ex = rs_LastSighash nxt"
      "rs_DestScript ex = rs_DestScript nxt"
  | (append) action created where "p = Append action (nxt \<lparr> rs_CreatedAt := created, rs_UpdatedAt := formatRFC3339Nano now, rs_IntegrityMAC := [] \<rparr>)
       (int (length es) + 1)" "follows (latest nxt es) nxt" "created = formatRFC3339Nano now \<or> (\<exists>ex. latest nxt es = Some ex \<and> created = rs_CreatedAt ex)"
proof -
  have sc: "scanRecoveryEvents (lg_integrityKey l) nxt (sort_key se_event_id (db_ledger_savings_recovery_event (lg_db l))) 0 None =
      Inr (int (length es), latest nxt es)" using scan_log [OF assms(2)] assms(3) by simp
  show ?thesis
  proof (cases "latest nxt es")
    case None
    then show ?thesis using assms(4) decide_first [OF assms(1)] append
      by (auto simp: planRecovery_def sc andThen_def Let_def follows_def split: if_splits)
  next
    case (Some ex)
    then have ex: "ex \<in> set es" "sameRecovery ex nxt" using latest_same by auto
    with assms(2) have "validateLedgerSavingsRecovery ex = Inr ()" by (auto simp: list_all_iff goodEvent_def)
    note d = decide_next [OF assms(1) this ex(2)]
    show ?thesis using assms(4) Some d keep append
      by (auto simp: planRecovery_def sc andThen_def Let_def follows_def split: if_splits)
  qed
qed

section \<open>Requests\<close>

definition storedLog :: "LedgerSavingsRecovery list \<Rightarrow> Ledger \<Rightarrow> bool" where
  "storedLog es l \<longleftrightarrow> db_ledger_savings_recovery_event (lg_db l) = rowsFrom (lg_integrityKey l) 0 es \<and> list_all goodEvent es \<and> logSound es"

lemma good_append:
  assumes "validateLedgerSavingsRecovery nxt = Inr ()" "plainText (rs_VaultID nxt)" "plainText (lr_CandidatePSBT nxt)" "plainText created" "fourDigitYear now"
  shows "goodEvent (nxt \<lparr> rs_CreatedAt := created, rs_UpdatedAt := formatRFC3339Nano now, rs_IntegrityMAC := [] \<rparr>)"
  using assms by (auto simp: goodEvent_def plainRecovery_def plain_time validateLedgerSavingsRecovery_def andThen_Inr_iff split: if_splits)

lemma follows_stamped: "follows prev (nxt \<lparr> rs_CreatedAt := c, rs_UpdatedAt := u, rs_IntegrityMAC := m \<rparr>) = follows prev nxt"
  by (simp add: follows_def split: option.split)

lemma latest_stamped: "latest (nxt \<lparr> rs_CreatedAt := c, rs_UpdatedAt := u, rs_IntegrityMAC := m \<rparr>) es = latest nxt es"
  by (rule latest_cong) (simp add: sameRecovery_def)

lemma store_log:
  assumes "storedLog es l" "goodEvent rec" "follows (latest rec es) rec" "inTx commit_ok (storeRecovery rec (int (length es) + 1)) l = (u, l')"
  shows "lg_integrityKey l' = lg_integrityKey l \<and> (if isl u then lg_db l' = lg_db l else storedLog (es @ [rec]) l')"
proof (cases u)
  case (Inl e)
  then show ?thesis using assms(4) by (auto simp: inTx_def storeRecovery_def actDB_def split: prod.splits sum.splits if_splits)
next
  case (Inr x)
  have "lg_integrityKey l' = lg_integrityKey l"
    "db_ledger_savings_recovery_event (lg_db l') = db_ledger_savings_recovery_event (lg_db l) @ [eventRow (lg_integrityKey l) (Suc (length es)) rec]"
    using assms(4) Inr by (auto simp: inTx_Inr_iff storeRecovery_def actDB_Inr_iff insertRecoveryEvent_def eventRow_def add.commute split: if_splits)
  with Inr assms(1-3) show ?thesis by (simp add: storedLog_def rowsFrom_append logSound_snoc)
qed

lemma storedLog_cong: "storedLog es l \<Longrightarrow> lg_db l' = lg_db l \<Longrightarrow> lg_integrityKey l' = lg_integrityKey l \<Longrightarrow> storedLog es l'"
  by (simp add: storedLog_def)

lemma observed:
  obtains r l' where "observeEconomicOutflowsLocked w l = (r, l')" "lg_db l' = lg_db l" "lg_integrityKey l' = lg_integrityKey l"
  by (metis observe_frame surj_pair)

text \<open>A request leaves the log as it is or appends one event; a stored answer is the last event of the outpoint.\<close>

lemma apply_log:
  assumes "storedLog es l" "ApplyLedgerSavingsRecovery w1 w2 commit_ok now nxt l = (r, l')"
    "plainText (rs_VaultID nxt)" "plainText (lr_CandidatePSBT nxt)" "fourDigitYear now"
  obtains (same) "lg_db l' = lg_db l" "lg_integrityKey l' = lg_integrityKey l"
      "\<And>action rec. r = Inr (action, rec) \<Longrightarrow> latest nxt es = Some rec \<and> rs_LastSighash rec = rs_LastSighash nxt"
  | (grown) rec where "storedLog (es @ [rec]) l'" "sameRecovery rec nxt" "rs_LastSighash rec = rs_LastSighash nxt" "lg_integrityKey l' = lg_integrityKey l"
      "\<And>action rec'. r = Inr (action, rec') \<Longrightarrow> rec' = rec"
proof (cases "length (lg_integrityKey l) = 32 \<and> validateLedgerSavingsRecovery nxt = Inr ()")
  case False
  then have "l' = l" "\<exists>e. r = Inl e" using assms(2) by (auto simp: ApplyLedgerSavingsRecovery_def split: sum.splits if_splits)
  then show ?thesis using same by auto
next
  case True
  then have v: "validateLedgerSavingsRecovery nxt = Inr ()" and k: "length (lg_integrityKey l) = 32" by auto
  obtain r1 l1 where o1: "observeEconomicOutflowsLocked w1 l = (r1, l1)" and f1: "lg_db l1 = lg_db l" "lg_integrityKey l1 = lg_integrityKey l" by (rule observed)
  note es1 = storedLog_cong [OF assms(1) f1]
  then have g: "list_all goodEvent es" "db_ledger_savings_recovery_event (lg_db l1) = rowsFrom (lg_integrityKey l1) 0 es" by (simp_all add: storedLog_def)
  note unfolded = assms(2) [unfolded ApplyLedgerSavingsRecovery_def actBind_def actRead_def actPure_def]
  show ?thesis
  proof (cases "\<exists>p. r1 = Inr () \<and> planRecovery now nxt l1 = Inr p")
    case False
    then have "l' = l1" "\<exists>e. r = Inl e" using unfolded o1 v k by (auto split: sum.splits)
    then show ?thesis using same f1 by auto
  next
    case True
    then obtain p where p: "r1 = Inr ()" "planRecovery now nxt l1 = Inr p" by blast
    from v g p(2) show ?thesis
    proof (cases rule: plan_cases)
      case (keep action ex)
      obtain r2 l2 where o2: "observeEconomicOutflowsLocked w2 l1 = (r2, l2)" and f2: "lg_db l2 = lg_db l1" "lg_integrityKey l2 = lg_integrityKey l1" by (rule observed)
      have "l' = l2" "r = Inr (action', rec) \<Longrightarrow> rec = ex" for action' rec using keep unfolded o1 o2 v k p by (auto split: sum.splits)
      then show ?thesis by (intro same) (use keep f1 f2 in auto)
    next
      case (append action created)
      define rec where "rec = nxt \<lparr> rs_CreatedAt := created, rs_UpdatedAt := formatRFC3339Nano now, rs_IntegrityMAC := [] \<rparr>"
      have "plainText created" using append(3) plain_time [OF assms(5)] latest_same g(1) by (auto simp: list_all_iff goodEvent_def plainRecovery_def)
      then have "goodEvent rec" unfolding rec_def by (intro good_append) (use v assms in auto)
      moreover have "follows (latest rec es) rec" using append(2) by (simp add: rec_def follows_stamped latest_stamped)
      moreover obtain u l3 where t: "inTx commit_ok (storeRecovery rec (int (length es) + 1)) l1 = (u, l3)" by fastforce
      ultimately have s: "lg_integrityKey l3 = lg_integrityKey l1" "if isl u then lg_db l3 = lg_db l1 else storedLog (es @ [rec]) l3"
        using store_log [OF es1] by blast+
      obtain r3 l4 where o3: "observeEconomicOutflowsLocked w2 l3 = (r3, l4)" and f3: "lg_db l4 = lg_db l3" "lg_integrityKey l4 = lg_integrityKey l3" by (rule observed)
      have l': "if isl u then l' = l3 \<and> (\<exists>e. r = Inl e) else l' = l4" "\<And>action' rec'. r = Inr (action', rec') \<Longrightarrow> rec' = rec"
        using unfolded o1 o3 v k p append(1) t by (auto simp: rec_def [symmetric] split: sum.splits)
      show ?thesis
      proof (cases "isl u")
        case True
        then show ?thesis using same s l' f1 by auto
      next
        case False
        then show ?thesis using s l' storedLog_cong [of "es @ [rec]" l3 l4] f3 f1 by (intro grown [of rec]) (auto simp: rec_def sameRecovery_def)
      qed
    qed
  qed
qed

section \<open>Every sequence of requests\<close>

text \<open>The requests of a service on a ledger that started with an empty log; every other call leaves the log alone.\<close>

inductive savings_reach :: "bytes \<Rightarrow> Ledger \<Rightarrow> bool" for key where
  init: "lg_integrityKey l = key \<Longrightarrow> db_ledger_savings_recovery_event (lg_db l) = [] \<Longrightarrow> savings_reach key l"
| request: "savings_reach key l \<Longrightarrow> plainText (rs_VaultID nxt) \<Longrightarrow> plainText (lr_CandidatePSBT nxt) \<Longrightarrow> fourDigitYear now \<Longrightarrow>
    savings_reach key (snd (ApplyLedgerSavingsRecovery w1 w2 commit_ok now nxt l))"
| other: "savings_reach key l \<Longrightarrow> lg_integrityKey l' = key \<Longrightarrow>
    db_ledger_savings_recovery_event (lg_db l') = db_ledger_savings_recovery_event (lg_db l) \<Longrightarrow> savings_reach key l'"

lemma reach_log: "savings_reach key l \<Longrightarrow> lg_integrityKey l = key \<and> (\<exists>es. storedLog es l)"
proof (induction rule: savings_reach.induct)
  case (init l)
  then have "storedLog [] l" by (simp add: storedLog_def logSound_def)
  with init show ?case by blast
next
  case (request l nxt now w1 w2 commit_ok)
  obtain r l' where a: "ApplyLedgerSavingsRecovery w1 w2 commit_ok now nxt l = (r, l')" by fastforce
  from request.IH obtain es where es: "storedLog es l" "lg_integrityKey l = key" by blast
  from es(1) a request.hyps(2-4) show ?case by (cases rule: apply_log) (use a es storedLog_cong in \<open>auto simp: storedLog_def\<close>)
qed (auto simp: storedLog_def)

lemma one_destination: "logSound es \<Longrightarrow> a \<in> set es \<Longrightarrow> b \<in> set es \<Longrightarrow> sameRecovery a b \<Longrightarrow> rs_DestScript a = rs_DestScript b"
proof (induction es arbitrary: a b rule: rev_induct)
  case (snoc e es)
  then have f: "logSound es" "follows (latest e es) e" using logSound_init by blast+
  have last: "rs_DestScript x = rs_DestScript e" if x: "x \<in> set es" "sameRecovery x e" for x
  proof (cases "latest e es")
    case None
    then show ?thesis using latest_None x by blast
  next
    case (Some p)
    then have "p \<in> set es" "sameRecovery p e" using latest_same by auto
    then have "rs_DestScript x = rs_DestScript p" using snoc.IH [OF f(1)] x sameRecovery_equiv by blast
    then show ?thesis using f(2) Some by (simp add: follows_def)
  qed
  show ?case using snoc f last sameRecovery_equiv(2) by auto
qed simp

lemma rows_decode: "list_all goodEvent es \<Longrightarrow> map (unmarshalRecovery \<circ> se_record) (rowsFrom key n es) = map Some es"
  by (induction es arbitrary: n) (simp_all add: eventRow_def goodEvent_def unmarshal_recovery)

text \<open>
  C9: after any sequence of recovery requests the stored events decode, reservations and completions of one vault, outpoint and
  purpose alternate, each completion is for the transaction, candidate and proof of the reservation before it, a new
  reservation only follows a completion of another transaction, and all of them pay one destination.\<close>

theorem savings_recovery_log_sound:
  assumes "savings_reach key l"
  shows "\<exists>es. map (unmarshalRecovery \<circ> se_record) (db_ledger_savings_recovery_event (lg_db l)) = map Some es \<and>
    (\<forall>xs e ys. es = xs @ e # ys \<longrightarrow> follows (latest e xs) e) \<and>
    (\<forall>a b. a \<in> set es \<and> b \<in> set es \<and> sameRecovery a b \<longrightarrow> rs_DestScript a = rs_DestScript b)"
proof -
  obtain es where es: "storedLog es l" using reach_log [OF assms] by blast
  then have "map (unmarshalRecovery \<circ> se_record) (db_ledger_savings_recovery_event (lg_db l)) = map Some es" "logSound es"
    by (simp_all only: storedLog_def rows_decode)
  then show ?thesis using one_destination unfolding logSound_def by blast
qed

text \<open>The answer to a request is the last event of its outpoint.\<close>

lemma answered_log:
  assumes "savings_reach key l" "ApplyLedgerSavingsRecovery w1 w2 commit_ok now nxt l = (Inr (action, rec), l1)"
    "plainText (rs_VaultID nxt)" "plainText (lr_CandidatePSBT nxt)" "fourDigitYear now"
  shows "lg_integrityKey l1 = key \<and> sameRecovery rec nxt \<and> (\<exists>es. storedLog es l1 \<and> latest nxt es = Some rec)"
proof -
  obtain es where es: "storedLog es l" "lg_integrityKey l = key" using reach_log [OF assms(1)] by blast
  from es(1) assms(2-5) show ?thesis
  proof (cases rule: apply_log)
    case same
    then have "latest nxt es = Some rec" "storedLog es l1" using storedLog_cong [OF es(1)] by auto
    then show ?thesis using latest_same same es(2) by blast
  next
    case (grown rec')
    then have "rec' = rec" by blast
    then show ?thesis using grown es(2) by (auto simp: latest_snoc)
  qed
qed

text \<open>
  C32: once a signed recovery has been answered, an unsigned request for the same transaction is answered with the same stored
  signature and appends nothing, as long as the sequence file can be written.\<close>

theorem signed_recovery_replays:
  assumes "savings_reach key l" "ApplyLedgerSavingsRecovery w1 w2 commit_ok now nxt l = (Inr (action, rec), l1)" "rs_Signature rec \<noteq> []"
    and "plainText (rs_VaultID nxt)" "plainText (lr_CandidatePSBT nxt)" "fourDigitYear now"
    and "validateLedgerSavingsRecovery again = Inr ()" "sameRecovery again rec" "rs_LastSighash again = rs_LastSighash rec"
      "rs_DestScript again = rs_DestScript rec" "rs_Signature again = []" "length key = 32"
    and "observeEconomicOutflowsLocked w3 l1 = (Inr (), l2)" "observeEconomicOutflowsLocked w4 l2 = (Inr (), l3)"
  shows "ApplyLedgerSavingsRecovery w3 w4 commit_ok' now' again l1 = (Inr (ReplayReplay, rec), l3) \<and> lg_db l3 = lg_db l1"
proof -
  from answered_log [OF assms(1,2,4-6)] obtain es where es: "storedLog es l1" "latest nxt es = Some rec" "sameRecovery rec nxt" "lg_integrityKey l1 = key" by blast
  have la: "latest again es = Some rec" using es(2,3) assms(8) latest_cong sameRecovery_equiv by metis
  note f2 = observe_frame [OF assms(13)] and f3 = observe_frame [OF assms(14)]
  have g: "list_all goodEvent es" "db_ledger_savings_recovery_event (lg_db l2) = rowsFrom (lg_integrityKey l2) 0 es" using es(1) f2 by (simp_all add: storedLog_def)
  have "validateLedgerSavingsRecovery rec = Inr ()" using g(1) latest_same [OF es(2)] by (auto simp: list_all_iff goodEvent_def)
  from decide_next [OF assms(7) this] assms(3,8-10) sameRecovery_equiv(2)
  have "DecideReplay (Some (RecoverySession.truncate rec)) (RecoverySession.truncate again) = Inr ReplayReplay" by simp
  then have "planRecovery now' again l2 = Inr (Keep ReplayReplay rec)"
    using scan_log [OF g(1), of "lg_integrityKey l2" again] la assms(11) by (simp add: planRecovery_def g(2) andThen_def Let_def)
  then show ?thesis using assms(7,12-14) es(4) f2 f3 by (simp add: ApplyLedgerSavingsRecovery_def actBind_def actRead_def actPure_def)
qed

section \<open>Every request that may follow is taken\<close>

lemma plan_append:
  assumes "validateLedgerSavingsRecovery nxt = Inr ()" "list_all goodEvent es" "follows (latest nxt es) nxt" "int (length es) < maxInt64"
    "db_ledger_savings_recovery_event (lg_db l) = rowsFrom (lg_integrityKey l) 0 es"
  shows "\<exists>action created. planRecovery now nxt l =
    Inr (Append action (nxt \<lparr> rs_CreatedAt := created, rs_UpdatedAt := formatRFC3339Nano now, rs_IntegrityMAC := [] \<rparr>) (int (length es) + 1)) \<and>
    created = (case latest nxt es of None \<Rightarrow> formatRFC3339Nano now | Some ex \<Rightarrow> rs_CreatedAt ex)"
proof -
  note sc = scan_log [OF assms(2), of "lg_integrityKey l" nxt]
  show ?thesis
  proof (cases "latest nxt es")
    case None
    then show ?thesis using assms(3,4) decide_first [OF assms(1)] by (simp add: planRecovery_def assms(5) sc andThen_def Let_def follows_def)
  next
    case (Some ex)
    then have ex: "ex \<in> set es" "sameRecovery ex nxt" using latest_same by auto
    with assms(2) have "validateLedgerSavingsRecovery ex = Inr ()" by (auto simp: list_all_iff goodEvent_def)
    note d = decide_next [OF assms(1) this ex(2)]
    from assms(3) Some have f: "rs_DestScript ex = rs_DestScript nxt"
      "if rs_Signature nxt = [] then rs_Signature ex \<noteq> [] \<and> rs_LastSighash ex \<noteq> rs_LastSighash nxt
       else rs_Signature ex = [] \<and> rs_LastSighash ex = rs_LastSighash nxt \<and> lr_CandidatePSBT ex = lr_CandidatePSBT nxt \<and> lr_DirectProof ex = lr_DirectProof nxt"
      by (simp_all add: follows_def)
    then have "DecideReplay (Some (RecoverySession.truncate ex)) (RecoverySession.truncate nxt) = Inr ReplayResign" using d by (simp split: if_splits)
    then show ?thesis using f assms(4) by (cases "rs_Signature nxt = []") (simp_all add: planRecovery_def assms(5) sc andThen_def Let_def Some)
  qed
qed

lemma request_taken:
  assumes "storedLog es l" "lg_monotonic l = None" "length (lg_integrityKey l) = 32" "validateLedgerSavingsRecovery nxt = Inr ()"
    "follows (latest nxt es) nxt" "int (length es) < maxInt64" "rs_VaultID nxt \<in> le_VaultID ` set (db_ledger_savings_enrollment (lg_db l))"
    "\<And>created. created = formatRFC3339Nano now \<or> created \<in> rs_CreatedAt ` set es \<Longrightarrow>
       length (marshalRecovery (nxt \<lparr> rs_CreatedAt := created, rs_UpdatedAt := formatRFC3339Nano now, rs_IntegrityMAC := [] \<rparr>)) \<le> 393216"
  shows "\<exists>action created l'. ApplyLedgerSavingsRecovery w1 w2 True now nxt l =
      (Inr (action, nxt \<lparr> rs_CreatedAt := created, rs_UpdatedAt := formatRFC3339Nano now, rs_IntegrityMAC := [] \<rparr>), l') \<and>
    (created = formatRFC3339Nano now \<or> created \<in> rs_CreatedAt ` set es) \<and>
    lg_monotonic l' = None \<and> db_ledger_savings_enrollment (lg_db l') = db_ledger_savings_enrollment (lg_db l)"
proof -
  have g: "list_all goodEvent es" "db_ledger_savings_recovery_event (lg_db l) = rowsFrom (lg_integrityKey l) 0 es"
    using assms(1) by (simp_all add: storedLog_def)
  obtain action created where p: "planRecovery now nxt l =
      Inr (Append action (nxt \<lparr> rs_CreatedAt := created, rs_UpdatedAt := formatRFC3339Nano now, rs_IntegrityMAC := [] \<rparr>) (int (length es) + 1))"
    and c: "created = (case latest nxt es of None \<Rightarrow> formatRFC3339Nano now | Some ex \<Rightarrow> rs_CreatedAt ex)"
    using plan_append [OF assms(4) g(1) assms(5,6) g(2)] by blast
  have c': "created = formatRFC3339Nano now \<or> created \<in> rs_CreatedAt ` set es" using c latest_same by (auto split: option.splits)
  have "se_event_id ` set (rowsFrom (lg_integrityKey l) 0 es) = set (map se_event_id (rowsFrom (lg_integrityKey l) 0 es))" by simp
  then have ids: "int (length es) + 1 \<notin> se_event_id ` set (rowsFrom (lg_integrityKey l) 0 es)" unfolding rowsFrom_ids by auto
  have "marshalRecovery r \<noteq> []" for r by (simp add: marshalRecovery_def jsonStruct_def)
  then show ?thesis using assms(2-4,7) assms(8) [OF c'] p c' ids
    by (auto simp: ApplyLedgerSavingsRecovery_def actBind_def actRead_def actPure_def observeEconomicOutflowsLocked_def inTx_def storeRecovery_def
        actDB_def insertRecoveryEvent_def g(2) recoveryEventMAC_def ledgerSavingsMAC_def)
qed

section \<open>A recovery, reserved and signed\<close>

definition sampleRecovery :: "bytes \<Rightarrow> LedgerSavingsRecovery" where
  "sampleRecovery sig = \<lparr> rs_VaultID = ''v'', rs_Purpose = ''initiate'', rs_InputTxid = replicate 64 CHR ''0'', rs_InputVout = 1,
     rs_DestScript = replicate 68 CHR ''1'', rs_LastSighash = replicate 64 CHR ''2'', rs_Signature = sig, rs_CreatedAt = [], rs_UpdatedAt = [],
     rs_IntegrityMAC = [], lr_CandidatePSBT = ''cHNidA=='', lr_DirectProof = [] \<rparr>"

definition savingsLedger :: Ledger where
  "savingsLedger = sampleLedger \<lparr> lg_db := sampleDB \<lparr> db_ledger_savings_enrollment :=
     [\<lparr> le_VaultID = ''v'', le_ContextJSON = [], le_DescriptorHash = [], le_IntegrityMAC = [] \<rparr>] \<rparr> \<rparr>"

lemma sampleRecovery_valid:
  assumes "length sig \<le> 131072"
  shows "validateLedgerSavingsRecovery (sampleRecovery sig) = Inr ()"
proof -
  have "canonicalHex (replicate 64 CHR ''0'')" "canonicalHex (replicate 68 CHR ''1'')" "canonicalHex (replicate 64 CHR ''2'')" by code_simp+
  then show ?thesis using assms by (simp add: validateLedgerSavingsRecovery_def sampleRecovery_def requireSessionPurpose_def
      sessionPurposeInitiate_def andThen_def)
qed

lemma sampleRecovery_size:
  assumes "c = ''1970-01-01T00:00:00Z''" "sig = [] \<or> sig = [1]"
  shows "length (marshalRecovery (sampleRecovery sig \<lparr> rs_CreatedAt := c, rs_UpdatedAt := ''1970-01-01T00:00:00Z'', rs_IntegrityMAC := [] \<rparr>)) \<le> 393216"
proof -
  have hex: "plainText (replicate 64 CHR ''0'')" "plainText (replicate 68 CHR ''1'')" "plainText (replicate 64 CHR ''2'')" by code_simp+
  have lit: "plainText ''v''" "plainText ''initiate''" "plainText ''1970-01-01T00:00:00Z''" "plainText ''cHNidA==''" by code_simp+
  have sig: "stdEncode [1] = ''AQ==''" "plainText ''AQ==''" by code_simp+
  note js = hex [THEN jsonString_plain] lit [THEN jsonString_plain] recovery_keys_plain [THEN jsonString_plain] sig(2) [THEN jsonString_plain]
  have "showInt 1 = ''1''" by code_simp
  then show ?thesis using assms(2)
    by (auto simp: marshalRecovery_def jsonStruct_def recoveryFields_def strField_def intField_def bytesField_def sampleRecovery_def assms(1) js sig(1))
qed

lemma sample_time: "formatRFC3339Nano 0 = ''1970-01-01T00:00:00Z''" "fourDigitYear 0"
  by code_simp+

lemma sample_recovery_fields:
  "rs_VaultID (sampleRecovery sig) = ''v''" "rs_Signature (sampleRecovery sig) = sig" "plainText (rs_VaultID (sampleRecovery sig))"
  "plainText (lr_CandidatePSBT (sampleRecovery sig))" "sameRecovery (sampleRecovery sig) (sampleRecovery sig')"
proof -
  have "plainText ''v''" "plainText ''cHNidA==''" by code_simp+
  then show "rs_VaultID (sampleRecovery sig) = ''v''" "rs_Signature (sampleRecovery sig) = sig" "plainText (rs_VaultID (sampleRecovery sig))"
    "plainText (lr_CandidatePSBT (sampleRecovery sig))" "sameRecovery (sampleRecovery sig) (sampleRecovery sig')"
    unfolding sampleRecovery_def by (simp_all add: sameRecovery_def)
qed

abbreviation stamped :: "bytes \<Rightarrow> LedgerSavingsRecovery" where
  "stamped sig \<equiv> sampleRecovery sig \<lparr> rs_CreatedAt := ''1970-01-01T00:00:00Z'', rs_UpdatedAt := ''1970-01-01T00:00:00Z'', rs_IntegrityMAC := [] \<rparr>"

lemma sample_taken:
  assumes "savings_reach sampleKey l" "storedLog es l" "lg_monotonic l = None" "sig = [] \<or> sig = [1]" "follows (latest (sampleRecovery sig) es) (sampleRecovery sig)"
    "int (length es) < maxInt64" "''v'' \<in> le_VaultID ` set (db_ledger_savings_enrollment (lg_db l))" "set es \<subseteq> {stamped []}"
  shows "\<exists>action l'. ApplyLedgerSavingsRecovery w1 w2 True 0 (sampleRecovery sig) l = (Inr (action, stamped sig), l') \<and> savings_reach sampleKey l' \<and>
    lg_monotonic l' = None \<and> db_ledger_savings_enrollment (lg_db l') = db_ledger_savings_enrollment (lg_db l)"
proof -
  have k: "length (lg_integrityKey l) = 32" using reach_log [OF assms(1)] by (simp add: sampleKey_def)
  have v: "validateLedgerSavingsRecovery (sampleRecovery sig) = Inr ()" by (rule sampleRecovery_valid) (use assms(4) in auto)
  have c: "created = ''1970-01-01T00:00:00Z''" if "created = formatRFC3339Nano 0 \<or> created \<in> rs_CreatedAt ` set es" for created
    using that assms(8) by (auto simp: sample_time)
  have n: "length (marshalRecovery (sampleRecovery sig \<lparr> rs_CreatedAt := created, rs_UpdatedAt := formatRFC3339Nano 0, rs_IntegrityMAC := [] \<rparr>)) \<le> 393216"
    if "created = formatRFC3339Nano 0 \<or> created \<in> rs_CreatedAt ` set es" for created
    using sampleRecovery_size [OF c [OF that] assms(4)] by (simp add: sample_time)
  obtain action created l' where a: "ApplyLedgerSavingsRecovery w1 w2 True 0 (sampleRecovery sig) l =
      (Inr (action, sampleRecovery sig \<lparr> rs_CreatedAt := created, rs_UpdatedAt := formatRFC3339Nano 0, rs_IntegrityMAC := [] \<rparr>), l')"
    "created = formatRFC3339Nano 0 \<or> created \<in> rs_CreatedAt ` set es" "lg_monotonic l' = None"
    "db_ledger_savings_enrollment (lg_db l') = db_ledger_savings_enrollment (lg_db l)"
    using request_taken [OF assms(2,3) k v assms(5,6) assms(7) [folded sample_recovery_fields(1) [of sig]] n] by blast
  have "savings_reach sampleKey (snd (ApplyLedgerSavingsRecovery w1 w2 True 0 (sampleRecovery sig) l))"
    by (rule savings_reach.request [OF assms(1) sample_recovery_fields(3,4) sample_time(2)])
  then have "savings_reach sampleKey l'" using a(1) by simp
  with a c [OF a(2)] show ?thesis by (simp add: sample_time)
qed

lemma sample_reserved:
  obtains action l1 where "ApplyLedgerSavingsRecovery w1 w2 True 0 (sampleRecovery []) savingsLedger = (Inr (action, stamped []), l1)"
    "savings_reach sampleKey l1" "lg_monotonic l1 = None" "''v'' \<in> le_VaultID ` set (db_ledger_savings_enrollment (lg_db l1))" "storedLog [stamped []] l1"
proof -
  have init: "savings_reach sampleKey savingsLedger" by (rule savings_reach.init) (simp_all add: savingsLedger_def sampleLedger_def sampleDB_def)
  have log: "storedLog [] savingsLedger" by (simp add: storedLog_def logSound_def savingsLedger_def sampleLedger_def sampleDB_def)
  have "\<exists>action l'. ApplyLedgerSavingsRecovery w1 w2 True 0 (sampleRecovery []) savingsLedger = (Inr (action, stamped []), l') \<and> savings_reach sampleKey l' \<and>
    lg_monotonic l' = None \<and> db_ledger_savings_enrollment (lg_db l') = db_ledger_savings_enrollment (lg_db savingsLedger)"
    by (rule sample_taken [OF init log]) (simp_all add: savingsLedger_def sampleLedger_def sampleDB_def latest_def follows_def sample_recovery_fields maxInt64_def)
  then obtain action l1 where a: "ApplyLedgerSavingsRecovery w1 w2 True 0 (sampleRecovery []) savingsLedger = (Inr (action, stamped []), l1)"
    "savings_reach sampleKey l1" "lg_monotonic l1 = None" "db_ledger_savings_enrollment (lg_db l1) = db_ledger_savings_enrollment (lg_db savingsLedger)" by blast
  have "storedLog [stamped []] l1" using log a(1) sample_recovery_fields(3,4) sample_time(2) by (cases rule: apply_log) (auto simp: latest_def)
  with a that show ?thesis by (simp add: savingsLedger_def sampleLedger_def sampleDB_def)
qed

lemma sample_signed:
  obtains action l1 l2 where "savings_reach sampleKey l1" "ApplyLedgerSavingsRecovery w1 w2 True 0 (sampleRecovery [1]) l1 = (Inr (action, stamped [1]), l2)"
    "savings_reach sampleKey l2" "lg_monotonic l2 = None"
proof -
  obtain action l1 where a: "savings_reach sampleKey l1" "lg_monotonic l1 = None" "''v'' \<in> le_VaultID ` set (db_ledger_savings_enrollment (lg_db l1))"
    "storedLog [stamped []] l1" by (rule sample_reserved)
  have "sameRecovery (stamped []) (sampleRecovery [1])" using sample_recovery_fields(5) by (simp add: sameRecovery_def)
  then have "latest (sampleRecovery [1]) [stamped []] = Some (stamped [])" by (simp add: latest_def)
  then have "follows (latest (sampleRecovery [1]) [stamped []]) (sampleRecovery [1])" by (simp add: follows_def sampleRecovery_def)
  then have "\<exists>action l'. ApplyLedgerSavingsRecovery w1 w2 True 0 (sampleRecovery [1]) l1 = (Inr (action, stamped [1]), l') \<and> savings_reach sampleKey l' \<and>
    lg_monotonic l' = None \<and> db_ledger_savings_enrollment (lg_db l') = db_ledger_savings_enrollment (lg_db l1)"
    by (intro sample_taken [OF a(1,4,2) _ _ _ a(3)]) (simp_all add: maxInt64_def)
  with a(1) that show ?thesis by blast
qed

text \<open>The hypotheses of both theorems hold on this ledger.\<close>

theorem savings_recovery_log_sound_witness:
  "\<exists>l es. savings_reach sampleKey l \<and> db_ledger_savings_recovery_event (lg_db l) \<noteq> [] \<and>
     map (unmarshalRecovery \<circ> se_record) (db_ledger_savings_recovery_event (lg_db l)) = map Some es"
proof -
  obtain action :: ReplayAction and l1 where a: "savings_reach sampleKey l1" "storedLog [stamped []] l1" by (rule sample_reserved)
  have "db_ledger_savings_recovery_event (lg_db l1) \<noteq> []" using a(2) by (simp add: storedLog_def)
  with savings_recovery_log_sound [OF a(1)] a(1) show ?thesis by blast
qed

theorem signed_recovery_replays_witness:
  "\<exists>l2. savings_reach sampleKey l2 \<and>
     ApplyLedgerSavingsRecovery WriteOk WriteOk True 0 (sampleRecovery []) l2 = (Inr (ReplayReplay, stamped [1]), l2)"
proof -
  obtain action l1 l2 where a: "savings_reach sampleKey l1" "ApplyLedgerSavingsRecovery WriteOk WriteOk True 0 (sampleRecovery [1]) l1 = (Inr (action, stamped [1]), l2)"
    "savings_reach sampleKey l2" "lg_monotonic l2 = None" by (rule sample_signed)
  have o: "observeEconomicOutflowsLocked w l2 = (Inr (), l2)" for w using a(4) by (simp add: observeEconomicOutflowsLocked_def)
  have "ApplyLedgerSavingsRecovery WriteOk WriteOk True 0 (sampleRecovery []) l2 = (Inr (ReplayReplay, stamped [1]), l2) \<and> lg_db l2 = lg_db l2"
    by (rule signed_recovery_replays [OF a(1,2) _ sample_recovery_fields(3,4) sample_time(2) sampleRecovery_valid _ _ _ _ _ o o])
      (simp_all add: sampleRecovery_def sameRecovery_def sampleKey_def)
  with a show ?thesis by blast
qed

end
