(* ===== verification/Runtime_Host.thy ===== *)
theory Runtime_Host
  imports Go_Text
begin

text \<open>
  The runtime shell (\<open>runtime/registry.go\<close>, \<open>runtime/host.go\<close>; the profile linked into the binary is in \<open>Vault_Profile\<close>): compiling profile definitions into an immutable registry, mounting selected profiles on
  one application, and the life of the host, whose shutdown runs once.

  A definition is a value, so the copies \<open>cloneDefinition\<close> makes are equal to the originals. \<open>upper\<close> is \<open>strings.ToUpper\<close> on
  text outside ASCII, which depends on the Unicode tables; on ASCII text the model computes it.
\<close>

section \<open>Definitions of profiles\<close>

record Route =
  rt_Method :: string
  rt_Path :: string

record ModuleDefinition =
  md_ID :: string
  md_Programs :: "string list"
  md_Policies :: "string list"
  md_Stores :: "string list"
  md_KeyScopes :: "string list"

record ProfileDefinition =
  pd_ID :: string
  pd_Modules :: "ModuleDefinition list"
  pd_Routes :: "Route list"

record Profile =
  pf_definition :: ProfileDefinition

record Registry =
  rg_profiles :: "(string \<times> Profile) list"

definition cloneDefinition :: "ProfileDefinition \<Rightarrow> ProfileDefinition" where
  "cloneDefinition i =
     \<lparr> pd_ID = pd_ID i,
       pd_Modules = map (\<lambda>m. \<lparr> md_ID = md_ID m, md_Programs = md_Programs m, md_Policies = md_Policies m, md_Stores = md_Stores m,
         md_KeyScopes = md_KeyScopes m \<rparr>) (pd_Modules i),
       pd_Routes = pd_Routes i \<rparr>"

definition profileID :: "Profile \<Rightarrow> string" where "profileID p = pd_ID (pf_definition p)"
definition profileModules :: "Profile \<Rightarrow> ModuleDefinition list" where "profileModules p = pd_Modules (cloneDefinition (pf_definition p))"
definition profileRoutes :: "Profile \<Rightarrow> Route list" where "profileRoutes p = pd_Routes (pf_definition p)"

section \<open>Compiling a registry\<close>

text \<open>The claimed identifiers by kind, with the owner of each.\<close>

type_synonym seen = "string \<times> string \<Rightarrow> string option"

definition validIdentifier :: "string \<Rightarrow> string \<Rightarrow> unit res" where
  "validIdentifier kind ident =
     (if ident = [] \<or> trimSpace ident \<noteq> ident \<or> CHR 0x00 \<in> set ident then Inl (Err ''runtime registry: invalid %s identifier %q'') else Inr ())"

definition claimIdentifier :: "string \<Rightarrow> string \<Rightarrow> seen \<Rightarrow> string \<Rightarrow> seen res" where
  "claimIdentifier kind owner seen ident =
     andThen (validIdentifier kind ident) (\<lambda>_.
     case seen (kind, ident) of
       Some previous \<Rightarrow> Inl (Err ''runtime registry: duplicate %s %q in %q and %q'')
     | None \<Rightarrow> Inr (seen ((kind, ident) \<mapsto> owner)))"

definition compileModule :: "string \<Rightarrow> seen \<Rightarrow> ModuleDefinition \<Rightarrow> seen res" where
  "compileModule profile seen m =
     andThen (claimIdentifier ''module'' profile seen (md_ID m)) (\<lambda>seen.
     if md_Programs m = [] \<and> md_Policies m = [] then Inl (Err ''runtime registry: module %q has no programs or policies'')
     else andThen (foldRes (claimIdentifier ''program'' (md_ID m)) seen (md_Programs m)) (\<lambda>seen.
       andThen (foldRes (claimIdentifier ''policy'' (md_ID m)) seen (md_Policies m)) (\<lambda>seen.
       andThen (foldRes (claimIdentifier ''store'' (md_ID m)) seen (md_Stores m)) (\<lambda>seen.
       foldRes (claimIdentifier ''key scope'' (md_ID m)) seen (md_KeyScopes m)))))"

definition toUpperChar :: "char \<Rightarrow> char" where
  "toUpperChar c = (let n = of_char c :: nat in if 97 \<le> n \<and> n \<le> 122 then char_of (n - 32) else c)"

definition toUpper :: "(string \<Rightarrow> string) \<Rightarrow> string \<Rightarrow> string" where
  "toUpper upper s = (if list_all (\<lambda>c. (of_char c :: nat) < 128) s then map toUpperChar s else upper s)"

definition validMethod :: "(string \<Rightarrow> string) \<Rightarrow> string \<Rightarrow> bool" where
  "validMethod upper m \<longleftrightarrow> m \<noteq> [] \<and> m = toUpper upper m \<and> trimSpace m = m"

definition validPath :: "string \<Rightarrow> bool" where
  "validPath p \<longleftrightarrow> p \<noteq> [] \<and> hd p = CHR ''/'' \<and> trimSpace p = p \<and> CHR ''?'' \<notin> set p \<and> CHR ''#'' \<notin> set p"

definition routeKey :: "Route \<Rightarrow> string" where
  "routeKey r = rt_Method r @ '' '' @ rt_Path r"

definition compileRoute :: "(string \<Rightarrow> string) \<Rightarrow> string \<Rightarrow> seen \<Rightarrow> Route \<Rightarrow> seen res" where
  "compileRoute upper profile seen r =
     (if \<not> validMethod upper (rt_Method r) then Inl (Err ''runtime registry: profile %q has invalid route method %q'')
      else if \<not> validPath (rt_Path r) then Inl (Err ''runtime registry: profile %q has invalid route path %q'')
      else claimIdentifier ''route'' profile seen (routeKey r))"

record Compiling =
  cp_profiles :: "(string \<times> Profile) list"
  cp_seen :: seen

definition compileProfile :: "(string \<Rightarrow> string) \<Rightarrow> Compiling \<Rightarrow> ProfileDefinition \<Rightarrow> Compiling res" where
  "compileProfile upper c source =
     (let d = cloneDefinition source in
      andThen (validIdentifier ''profile'' (pd_ID d)) (\<lambda>_.
      if pd_ID d \<in> fst ` set (cp_profiles c) then Inl (Err ''runtime registry: duplicate profile %q'')
      else if pd_Modules d = [] then Inl (Err ''runtime registry: profile %q has no modules'')
      else if pd_Routes d = [] then Inl (Err ''runtime registry: profile %q has no routes'')
      else andThen (foldRes (compileModule (pd_ID d)) (cp_seen c) (pd_Modules d)) (\<lambda>seen.
        andThen (foldRes (compileRoute upper (pd_ID d)) seen (pd_Routes d)) (\<lambda>seen.
        Inr \<lparr> cp_profiles = cp_profiles c @ [(pd_ID d, \<lparr> pf_definition = d \<rparr>)], cp_seen = seen \<rparr>))))"

definition Compile :: "(string \<Rightarrow> string) \<Rightarrow> ProfileDefinition list \<Rightarrow> Registry res" where
  "Compile upper definitions =
     (if definitions = [] then Inl (Err ''runtime registry: at least one profile is required'')
      else andThen (foldRes (compileProfile upper) \<lparr> cp_profiles = [], cp_seen = (\<lambda>_. None) \<rparr> definitions) (\<lambda>c.
        Inr \<lparr> rg_profiles = cp_profiles c \<rparr>))"

definition registryProfile :: "Registry \<Rightarrow> string \<Rightarrow> Profile option" where
  "registryProfile r ident = map_option (\<lambda>p. \<lparr> pf_definition = cloneDefinition (pf_definition p) \<rparr>) (map_of (rg_profiles r) ident)"

definition ProfileIDs :: "Registry \<Rightarrow> string list" where
  "ProfileIDs r = sort (map fst (rg_profiles r))"

section \<open>The host\<close>

datatype State = StateOpen | StateClosing | StateClosed

definition ErrClosed :: go_error where "ErrClosed = Err ''Arkade Runtime is closed''"

text \<open>A mounted application: its handler (of any type), its readiness and its shutdown; each may be nil.\<close>

record 'h Mount =
  mt_Handler :: "'h option"
  mt_Readiness :: bool
  mt_Shutdown :: bool

text \<open>Whether \<open>close.Do\<close> has not begun, is running, or has returned.\<close>

datatype once = OnceFresh | OnceRunning | OnceDone

record 'h Host =
  ho_profile :: Profile
  ho_profiles :: "Profile list"
  ho_mount :: "'h Mount"
  ho_state :: State
  ho_closeErr :: "go_error option"
  ho_close :: once

definition openHost :: "Registry option \<Rightarrow> string \<Rightarrow> 'h Mount \<Rightarrow> 'h Host res" where
  "openHost registry ident mount =
     (case registry of
        None \<Rightarrow> Inl (Err ''Arkade Runtime registry required'')
      | Some r \<Rightarrow>
         (case registryProfile r ident of
            None \<Rightarrow> Inl (Err ''Arkade Runtime profile %q is not compiled'')
          | Some profile \<Rightarrow>
              if mt_Handler mount = None then Inl (Err ''Arkade Runtime handler required'')
              else if \<not> mt_Readiness mount then Inl (Err ''Arkade Runtime readiness required'')
              else if \<not> mt_Shutdown mount then Inl (Err ''Arkade Runtime shutdown required'')
              else Inr \<lparr> ho_profile = profile, ho_profiles = [], ho_mount = mount, ho_state = StateOpen, ho_closeErr = None, ho_close = OnceFresh \<rparr>))"

definition selectProfile :: "Registry \<Rightarrow> string set \<times> 'h Host \<Rightarrow> string \<Rightarrow> (string set \<times> 'h Host) res" where
  "selectProfile registry s ident =
     (if ident \<in> fst s then Inl (Err ''duplicate selected profile %q'')
      else case registryProfile registry ident of
        None \<Rightarrow> Inl (Err ''Arkade Runtime profile %q is not compiled'')
      | Some profile \<Rightarrow> Inr (insert ident (fst s), (snd s) \<lparr> ho_profiles := ho_profiles (snd s) @ [profile] \<rparr>))"

definition OpenProfiles :: "Registry option \<Rightarrow> string list \<Rightarrow> 'h Mount \<Rightarrow> 'h Host res" where
  "OpenProfiles registry profileIDs mount =
     (case profileIDs of
        [] \<Rightarrow> Inl (Err ''compiled profile selection required'')
      | first # _ \<Rightarrow>
          andThen (openHost registry first mount) (\<lambda>host.
          andThen (foldRes (selectProfile (the registry)) ({}, host) profileIDs) (\<lambda>(_, host). Inr host)))"

definition hostProfile :: "'h Host \<Rightarrow> Profile" where
  "hostProfile h = \<lparr> pf_definition = cloneDefinition (pf_definition (ho_profile h)) \<rparr>"

definition hostProfiles :: "'h Host \<Rightarrow> Profile list" where
  "hostProfiles h = map (\<lambda>p. \<lparr> pf_definition = cloneDefinition (pf_definition p) \<rparr>)
     (if ho_profiles h = [] then [ho_profile h] else ho_profiles h)"

text \<open>\<open>Handler\<close> answers \<open>None\<close> for the not-found handler; \<open>ready\<close> is the answer of the mounted readiness check.\<close>

definition hostHandler :: "'h Host \<Rightarrow> 'h option" where
  "hostHandler h = (if ho_state h \<noteq> StateOpen then None else mt_Handler (ho_mount h))"

definition hostReady :: "unit res \<Rightarrow> 'h Host \<Rightarrow> unit res" where
  "hostReady ready h = (if ho_state h \<noteq> StateOpen then Inl ErrClosed else ready)"

text \<open>\<open>Close\<close> in its atomic sections: the first caller enters \<open>Do\<close>, runs the shutdown outside the lock and records its result;
  every caller returns the recorded result once \<open>Do\<close> has returned.\<close>

definition beginClose :: "'h Host \<Rightarrow> 'h Host option" where
  "beginClose h = (if ho_close h \<noteq> OnceFresh then None else Some (h \<lparr> ho_close := OnceRunning, ho_state := StateClosing \<rparr>))"

definition finishClose :: "go_error option \<Rightarrow> 'h Host \<Rightarrow> 'h Host option" where
  "finishClose err h =
     (if ho_close h \<noteq> OnceRunning then None else Some (h \<lparr> ho_close := OnceDone, ho_closeErr := err, ho_state := StateClosed \<rparr>))"

definition closeResult :: "'h Host \<Rightarrow> go_error option option" where
  "closeResult h = (if ho_close h \<noteq> OnceDone then None else Some (ho_closeErr h))"

end
