(* ===== verification/Vault_Profile.thy ===== *)
theory Vault_Profile
  imports Runtime_Host Program
begin

text \<open>The profile definition compiled into the service (\<open>profile/arkadevaultv1/profile.go\<close>).\<close>

definition ProfileID :: string where "ProfileID = ''arkade-vault-v1''"
definition ModuleID :: string where "ModuleID = ''arkade-vault-v1''"
definition LedgerSavingsProgram :: string where "LedgerSavingsProgram = ''phone-ledger-guardian-savings-v1''"
definition SpendingPolicyName :: string where "SpendingPolicyName = ''vault-spending-policy-v1''"

definition VaultBoardV1 :: string where "VaultBoardV1 = ''vault-board-v1''"

text \<open>The method names of \<open>net/http\<close>.\<close>

definition MethodGet :: string where "MethodGet = ''GET''"
definition MethodPost :: string where "MethodPost = ''POST''"
definition MethodOptions :: string where "MethodOptions = ''OPTIONS''"

definition route :: "string \<Rightarrow> string \<Rightarrow> Route" where
  "route m p = \<lparr> rt_Method = m, rt_Path = p \<rparr>"

definition routes :: "Route list" where
  "routes = [
     route MethodPost ''/v1/lnurl/challenge'',
     route MethodOptions ''/v1/lnurl/challenge'',
     route MethodPost ''/v1/lnurl/register'',
     route MethodOptions ''/v1/lnurl/register'',
     route MethodPost ''/v1/lnurl/revoke'',
     route MethodOptions ''/v1/lnurl/revoke'',
     route MethodGet ''/v1/vtxo/bitcoin/info'',
     route MethodOptions ''/v1/vtxo/bitcoin/info'',
     route MethodPost ''/v1/vtxo/bitcoin/prepare'',
     route MethodOptions ''/v1/vtxo/bitcoin/prepare'',
     route MethodPost ''/v1/vtxo/bitcoin/register'',
     route MethodOptions ''/v1/vtxo/bitcoin/register'',
     route MethodPost ''/v1/vtxo/bitcoin/final'',
     route MethodOptions ''/v1/vtxo/bitcoin/final'',
     route MethodPost ''/v1/vtxo/bitcoin/status'',
     route MethodOptions ''/v1/vtxo/bitcoin/status'',
     route MethodPost ''/v1/vtxo/bitcoin/release'',
     route MethodOptions ''/v1/vtxo/bitcoin/release'',
     route MethodPost ''/v1/vtxo/delegate/info'',
     route MethodOptions ''/v1/vtxo/delegate/info'',
     route MethodPost ''/v1/vtxo/delegate/schedule'',
     route MethodOptions ''/v1/vtxo/delegate/schedule'',
     route MethodPost ''/v1/vtxo/delegate/status'',
     route MethodOptions ''/v1/vtxo/delegate/status'',
     route MethodPost ''/v1/vtxo/delegate/list'',
     route MethodOptions ''/v1/vtxo/delegate/list'',
     route MethodPost ''/v1/vtxo/delegate/cancel'',
     route MethodOptions ''/v1/vtxo/delegate/cancel'',
     route MethodPost ''/v1/recovery-archive/challenge'',
     route MethodOptions ''/v1/recovery-archive/challenge'',
     route MethodPost ''/v1/recovery-archive/open'',
     route MethodOptions ''/v1/recovery-archive/open'',
     route MethodPost ''/v1/recovery-archive/read'',
     route MethodOptions ''/v1/recovery-archive/read'',
     route MethodPost ''/v1/recovery-archive/write'',
     route MethodOptions ''/v1/recovery-archive/write'',
     route MethodGet ''/v1/status'',
     route MethodOptions ''/v1/status'',
     route MethodGet ''/v1/invite'',
     route MethodOptions ''/v1/invite'',
     route MethodPost ''/v1/enroll/session'',
     route MethodOptions ''/v1/enroll/session'',
     route MethodPost ''/v1/enroll/start'',
     route MethodOptions ''/v1/enroll/start'',
     route MethodPost ''/v1/enroll/propose'',
     route MethodOptions ''/v1/enroll/propose'',
     route MethodPost ''/v1/enroll/finish'',
     route MethodOptions ''/v1/enroll/finish'',
     route MethodPost ''/v1/initiate'',
     route MethodOptions ''/v1/initiate'',
     route MethodPost ''/v1/clawback'',
     route MethodOptions ''/v1/clawback'',
     route MethodPost ''/v1/passkey/challenge'',
     route MethodOptions ''/v1/passkey/challenge'',
     route MethodPost ''/v1/passkey/binding'',
     route MethodOptions ''/v1/passkey/binding'',
     route MethodPost ''/v1/passkey/install'',
     route MethodOptions ''/v1/passkey/install'',
     route MethodPost ''/v1/passkey/recover'',
     route MethodOptions ''/v1/passkey/recover'',
     route MethodGet ''/v1/map'',
     route MethodPost ''/v1/map'',
     route MethodOptions ''/v1/map'',
     route MethodPost ''/v1/vtxo/reserve'',
     route MethodOptions ''/v1/vtxo/reserve'',
     route MethodPost ''/v1/vtxo/authorize'',
     route MethodOptions ''/v1/vtxo/authorize'',
     route MethodPost ''/v1/vtxo/checkpoints/authorize'',
     route MethodOptions ''/v1/vtxo/checkpoints/authorize'',
     route MethodPost ''/v1/vtxo/finalize'',
     route MethodOptions ''/v1/vtxo/finalize'',
     route MethodGet ''/v1/vtxo/operation'',
     route MethodOptions ''/v1/vtxo/operation'',
     route MethodPost ''/v1/vtxo/abort'',
     route MethodOptions ''/v1/vtxo/abort'',
     route MethodPost ''/v1/vtxo/board/prepare'',
     route MethodOptions ''/v1/vtxo/board/prepare'',
     route MethodPost ''/v1/vtxo/board/register'',
     route MethodOptions ''/v1/vtxo/board/register'',
     route MethodPost ''/v1/vtxo/board/release'',
     route MethodOptions ''/v1/vtxo/board/release'',
     route MethodPost ''/v1/vtxo/board/final'',
     route MethodOptions ''/v1/vtxo/board/final'']"

definition Definition :: ProfileDefinition where
  "Definition =
     \<lparr> pd_ID = ProfileID,
       pd_Modules = [\<lparr> md_ID = ModuleID,
         md_Programs = [LedgerSavingsProgram, VaultBoardV1, VaultPolicyV1],
         md_Policies = [SpendingPolicyName],
         md_Stores = [''identity-store'', ''allowance-store'', ''vtxo-operation-store'', ''ledger-savings-store'', ''map-store'',
           ''vault-board-store'', ''recovery-archive-store'', ''vtxo-delegation-store''],
         md_KeyScopes = [''enrollment-derivation'', ''ledger-savings-recovery-authorization'', ''vtxo-transaction-authorization'',
           ''vtxo-checkpoint-authorization'', ''vtxo-delegation-authorization'', ''vault-board-authorization''] \<rparr>],
       pd_Routes = routes \<rparr>"

end
