(* ===== verification/Runtime_Props.thy ===== *)
theory Runtime_Props
  imports Vault_Profile
begin

text \<open>
  What the runtime shell promises: compiling accepts exactly the well-formed sets of profiles with no identifier claimed twice, the
  linked profile is one of them, and the mounted application is shut down once, its handler never handed out afterwards.
\<close>

section \<open>Claims\<close>

text \<open>A step that claims the keys \<open>ks\<close>: it fails exactly when the guard is false, a key comes twice or a key is taken.\<close>

definition claimer :: "('s \<Rightarrow> 'k set) \<Rightarrow> ('s \<Rightarrow> 's res) \<Rightarrow> bool \<Rightarrow> 'k list \<Rightarrow> bool" where
  "claimer taken f ok ks \<longleftrightarrow>
     (\<forall>s. if ok \<and> distinct ks \<and> set ks \<inter> taken s = {} then \<exists>s'. f s = Inr s' \<and> taken s' = taken s \<union> set ks else \<exists>e. f s = Inl e)"

lemma claimer_then:
  assumes "claimer taken f ok ks" "claimer taken g ok' ks'"
  shows "claimer taken (\<lambda>s. andThen (f s) g) (ok \<and> ok') (ks @ ks')"
proof -
  have "if (ok \<and> ok') \<and> distinct (ks @ ks') \<and> set (ks @ ks') \<inter> taken s = {}
    then \<exists>s'. andThen (f s) g = Inr s' \<and> taken s' = taken s \<union> set (ks @ ks') else \<exists>e. andThen (f s) g = Inl e" for s
  proof (cases "f s")
    case (Inl e)
    then show ?thesis using assms(1) [unfolded claimer_def, rule_format, of s] by (auto simp: andThen_def split: if_splits)
  next
    case (Inr s1)
    then have t: "ok" "distinct ks" "set ks \<inter> taken s = {}" "taken s1 = taken s \<union> set ks"
      using assms(1) [unfolded claimer_def, rule_format, of s] by (auto split: if_splits)
    show ?thesis using assms(2) [unfolded claimer_def, rule_format, of s1] t Inr
      by (auto simp: andThen_def split: if_splits)
  qed
  then show ?thesis unfolding claimer_def by blast
qed

lemma claimer_guard: "claimer taken f ok ks \<Longrightarrow> claimer taken (\<lambda>s. if b then Inl e else f s) (\<not> b \<and> ok) ks"
  by (simp add: claimer_def)

lemma claimer_pure: "claimer taken Inr True []"
  by (simp add: claimer_def)

lemma claimer_fold:
  assumes "\<And>x. x \<in> set xs \<Longrightarrow> claimer taken (\<lambda>s. f s x) (ok x) (ks x)"
  shows "claimer taken (\<lambda>s. foldRes f s xs) (\<forall>x\<in>set xs. ok x) (concat (map ks xs))"
  using assms
proof (induction xs)
  case Nil
  then show ?case using claimer_pure by simp
next
  case (Cons x xs)
  have "claimer taken (\<lambda>s. andThen (f s x) (\<lambda>s'. foldRes f s' xs)) (ok x \<and> (\<forall>y\<in>set xs. ok y)) (ks x @ concat (map ks xs))"
    by (rule claimer_then) (use Cons in auto)
  then show ?case by simp
qed

definition validIdent :: "string \<Rightarrow> bool" where
  "validIdent s \<longleftrightarrow> s \<noteq> [] \<and> trimSpace s = s \<and> CHR 0x00 \<notin> set s"

lemma claimer_ident: "claimer dom (\<lambda>seen. claimIdentifier kind owner seen s) (validIdent s) [(kind, s)]"
  by (auto simp: claimer_def claimIdentifier_def validIdentifier_def validIdent_def andThen_def split: option.splits)

lemma claimer_idents: "claimer dom (\<lambda>seen. foldRes (claimIdentifier kind owner) seen ss) (\<forall>s\<in>set ss. validIdent s) (map (Pair kind) ss)"
proof -
  have "claimer dom (\<lambda>seen. foldRes (claimIdentifier kind owner) seen ss) (\<forall>s\<in>set ss. validIdent s) (concat (map (\<lambda>s. [(kind, s)]) ss))"
    by (rule claimer_fold) (rule claimer_ident)
  then show ?thesis by (simp add: concat_map_singleton)
qed

section \<open>Well-formed profiles\<close>

definition moduleKeys :: "ModuleDefinition \<Rightarrow> (string \<times> string) list" where
  "moduleKeys m = [(''module'', md_ID m)] @ map (Pair ''program'') (md_Programs m) @ map (Pair ''policy'') (md_Policies m) @
     map (Pair ''store'') (md_Stores m) @ map (Pair ''key scope'') (md_KeyScopes m)"

definition moduleOk :: "ModuleDefinition \<Rightarrow> bool" where
  "moduleOk m \<longleftrightarrow> (md_Programs m \<noteq> [] \<or> md_Policies m \<noteq> []) \<and>
     list_all validIdent (md_ID m # md_Programs m @ md_Policies m @ md_Stores m @ md_KeyScopes m)"

definition routeOk :: "(string \<Rightarrow> string) \<Rightarrow> Route \<Rightarrow> bool" where
  "routeOk upper r \<longleftrightarrow> validMethod upper (rt_Method r) \<and> validPath (rt_Path r) \<and> validIdent (routeKey r)"

definition profileKeys :: "ProfileDefinition \<Rightarrow> (string \<times> string) list" where
  "profileKeys d = concat (map moduleKeys (pd_Modules d)) @ map (\<lambda>r. (''route'', routeKey r)) (pd_Routes d)"

definition profileOk :: "(string \<Rightarrow> string) \<Rightarrow> ProfileDefinition \<Rightarrow> bool" where
  "profileOk upper d \<longleftrightarrow> validIdent (pd_ID d) \<and> pd_Modules d \<noteq> [] \<and> pd_Routes d \<noteq> [] \<and> list_all moduleOk (pd_Modules d) \<and>
     list_all (routeOk upper) (pd_Routes d)"

lemma claimer_module: "claimer dom (\<lambda>seen. compileModule profile seen m) (moduleOk m) (moduleKeys m)"
proof -
  have "claimer dom (\<lambda>seen. compileModule profile seen m)
    (validIdent (md_ID m) \<and> \<not> (md_Programs m = [] \<and> md_Policies m = []) \<and> (\<forall>s\<in>set (md_Programs m). validIdent s) \<and>
     (\<forall>s\<in>set (md_Policies m). validIdent s) \<and> (\<forall>s\<in>set (md_Stores m). validIdent s) \<and> (\<forall>s\<in>set (md_KeyScopes m). validIdent s)) (moduleKeys m)"
    unfolding compileModule_def moduleKeys_def by (intro claimer_then claimer_guard claimer_ident claimer_idents)
  moreover have "moduleOk m \<longleftrightarrow> validIdent (md_ID m) \<and> \<not> (md_Programs m = [] \<and> md_Policies m = []) \<and> (\<forall>s\<in>set (md_Programs m). validIdent s) \<and>
     (\<forall>s\<in>set (md_Policies m). validIdent s) \<and> (\<forall>s\<in>set (md_Stores m). validIdent s) \<and> (\<forall>s\<in>set (md_KeyScopes m). validIdent s)"
    by (auto simp: moduleOk_def list_all_iff)
  ultimately show ?thesis by simp
qed

lemma claimer_route: "claimer dom (\<lambda>seen. compileRoute upper profile seen r) (routeOk upper r) [(''route'', routeKey r)]"
proof -
  have "claimer dom (\<lambda>seen. compileRoute upper profile seen r)
    (\<not> \<not> validMethod upper (rt_Method r) \<and> \<not> \<not> validPath (rt_Path r) \<and> validIdent (routeKey r)) [(''route'', routeKey r)]"
    unfolding compileRoute_def by (intro claimer_guard claimer_ident)
  then show ?thesis by (simp add: routeOk_def)
qed

lemma claimer_body:
  "claimer dom (\<lambda>seen. andThen (foldRes (compileModule (pd_ID d)) seen (pd_Modules d)) (\<lambda>seen. foldRes (compileRoute upper (pd_ID d)) seen (pd_Routes d)))
     (list_all moduleOk (pd_Modules d) \<and> list_all (routeOk upper) (pd_Routes d)) (profileKeys d)"
proof -
  have r: "claimer dom (\<lambda>seen. foldRes (compileRoute upper (pd_ID d)) seen (pd_Routes d)) (\<forall>r\<in>set (pd_Routes d). routeOk upper r)
      (concat (map (\<lambda>r. [(''route'', routeKey r)]) (pd_Routes d)))" by (rule claimer_fold) (rule claimer_route)
  have m: "claimer dom (\<lambda>seen. foldRes (compileModule (pd_ID d)) seen (pd_Modules d)) (\<forall>m\<in>set (pd_Modules d). moduleOk m)
      (concat (map moduleKeys (pd_Modules d)))" by (rule claimer_fold) (rule claimer_module)
  from claimer_then [OF m r] show ?thesis by (simp add: profileKeys_def list_all_iff concat_map_singleton)
qed

lemma cloneDefinition_id [simp]: "cloneDefinition d = d"
proof -
  have "\<lparr> md_ID = md_ID m, md_Programs = md_Programs m, md_Policies = md_Policies m, md_Stores = md_Stores m, md_KeyScopes = md_KeyScopes m \<rparr> = m" for m :: ModuleDefinition
    by (cases m) simp
  then have "(\<lambda>m. \<lparr> md_ID = md_ID m, md_Programs = md_Programs m, md_Policies = md_Policies m, md_Stores = md_Stores m, md_KeyScopes = md_KeyScopes m \<rparr>) =
      (\<lambda>m :: ModuleDefinition. m)" by blast
  then show ?thesis by (cases d) (simp only: cloneDefinition_def ProfileDefinition.select_convs list.map_ident)
qed

definition compiled :: "ProfileDefinition list \<Rightarrow> (string \<times> Profile) list" where
  "compiled ds = map (\<lambda>d. (pd_ID d, \<lparr> pf_definition = d \<rparr>)) ds"

lemma compile_profile:
  "if profileOk upper d \<and> pd_ID d \<notin> fst ` set (cp_profiles c) \<and> distinct (profileKeys d) \<and> set (profileKeys d) \<inter> dom (cp_seen c) = {}
   then \<exists>c'. compileProfile upper c d = Inr c' \<and> cp_profiles c' = cp_profiles c @ compiled [d] \<and> dom (cp_seen c') = dom (cp_seen c) \<union> set (profileKeys d)
   else \<exists>e. compileProfile upper c d = Inl e"
proof -
  have v: "validIdentifier ''profile'' (pd_ID d) = (if validIdent (pd_ID d) then Inr () else Inl (Err ''runtime registry: invalid %s identifier %q''))"
    by (simp add: validIdentifier_def validIdent_def)
  have assoc: "andThen (foldRes (compileModule (pd_ID d)) (cp_seen c) (pd_Modules d)) (\<lambda>seen.
      andThen (foldRes (compileRoute upper (pd_ID d)) seen (pd_Routes d)) k) =
    andThen (andThen (foldRes (compileModule (pd_ID d)) (cp_seen c) (pd_Modules d)) (\<lambda>seen. foldRes (compileRoute upper (pd_ID d)) seen (pd_Routes d))) k"
    for k :: "seen \<Rightarrow> Compiling res" by (simp add: andThen_def split: sum.splits)
  show ?thesis using claimer_body [of d upper, unfolded claimer_def, rule_format, of "cp_seen c"]
    by (auto simp: compileProfile_def v assoc Let_def profileOk_def compiled_def andThen_def [of "Inr _"] andThen_def [of "Inl _"] split: if_splits)
qed

lemma compile_profiles:
  "foldRes (compileProfile upper) c ds = Inr c' \<longrightarrow> cp_profiles c' = cp_profiles c @ compiled ds"
  "(\<exists>c'. foldRes (compileProfile upper) c ds = Inr c') \<longleftrightarrow>
     list_all (profileOk upper) ds \<and> distinct (map pd_ID ds) \<and> pd_ID ` set ds \<inter> fst ` set (cp_profiles c) = {} \<and>
     distinct (concat (map profileKeys ds)) \<and> set (concat (map profileKeys ds)) \<inter> dom (cp_seen c) = {}"
proof (induction ds arbitrary: c c')
  case (Cons d ds)
  {
    case 1
    then show ?case using Cons(1) compile_profile [of upper d c] by (auto simp: andThen_Inr_iff compiled_def split: if_splits)
  next
    case 2
    show ?case
    proof (cases "compileProfile upper c d")
      case (Inl e)
      then show ?thesis using compile_profile [of upper d c] by (auto simp: andThen_def split: if_splits)
    next
      case (Inr c1)
      with compile_profile [of upper d c]
      have t: "profileOk upper d" "pd_ID d \<notin> fst ` set (cp_profiles c)" "distinct (profileKeys d)" "set (profileKeys d) \<inter> dom (cp_seen c) = {}"
        "cp_profiles c1 = cp_profiles c @ compiled [d]" "dom (cp_seen c1) = dom (cp_seen c) \<union> set (profileKeys d)"
        by (auto split: if_splits)
      show ?thesis using Cons(2) [of c1] t Inr by (auto simp: andThen_def compiled_def)
    qed
  }
qed (simp_all add: compiled_def)

lemma compile_iff:
  "Compile upper ds = Inr reg \<longleftrightarrow>
     ds \<noteq> [] \<and> list_all (profileOk upper) ds \<and> distinct (map pd_ID ds) \<and> distinct (concat (map profileKeys ds)) \<and>
     reg = \<lparr> rg_profiles = map (\<lambda>d. (pd_ID d, \<lparr> pf_definition = d \<rparr>)) ds \<rparr>"
proof -
  let ?c = "\<lparr> cp_profiles = [], cp_seen = (\<lambda>_. None) \<rparr> :: Compiling"
  have ok: "(\<exists>c'. foldRes (compileProfile upper) ?c ds = Inr c') \<longleftrightarrow>
      list_all (profileOk upper) ds \<and> distinct (map pd_ID ds) \<and> distinct (concat (map profileKeys ds))"
    using compile_profiles(2) [of upper ?c ds] by simp
  have "foldRes (compileProfile upper) ?c ds = Inr c' \<Longrightarrow> cp_profiles c' = map (\<lambda>d. (pd_ID d, \<lparr> pf_definition = d \<rparr>)) ds" for c'
    using compile_profiles(1) [of upper ?c ds c'] by (simp add: compiled_def)
  with ok show ?thesis by (cases "foldRes (compileProfile upper) ?c ds") (auto simp: Compile_def andThen_def)
qed

text \<open>
  C26: a registry is compiled exactly from a non-empty list of profiles in which every profile, module, program, policy, store, key
  scope and route identifier is well formed, every profile has modules and routes, every module a program or a policy,
  and no identifier of a kind is claimed twice, in one profile or in two; the registry then holds exactly those profiles.\<close>

theorem compile_accepts_exactly:
  "Compile upper ds = Inr reg \<longleftrightarrow>
     ds \<noteq> [] \<and> list_all (profileOk upper) ds \<and> distinct (map pd_ID ds) \<and> distinct (concat (map profileKeys ds)) \<and>
     reg = \<lparr> rg_profiles = map (\<lambda>d. (pd_ID d, \<lparr> pf_definition = d \<rparr>)) ds \<rparr>"
  by (rule compile_iff)

section \<open>The linked profile\<close>

text \<open>An identifier of printable ASCII with no space at either end.\<close>

definition tidyIdent :: "string \<Rightarrow> bool" where
  "tidyIdent s \<longleftrightarrow> (case s of [] \<Rightarrow> False | c # t \<Rightarrow> c \<noteq> CHR '' '' \<and> last s \<noteq> CHR '' '') \<and> list_all (\<lambda>c. 32 \<le> (of_char c :: nat) \<and> (of_char c :: nat) < 127) s"

lemma tidy_trim:
  assumes "tidyIdent s"
  shows "trimSpace s = s" "validIdent s" "s \<noteq> []" "list_all (\<lambda>c. (of_char c :: nat) < 128) s"
proof -
  have ne: "s \<noteq> []" and h: "hd s \<noteq> CHR '' ''" "last s \<noteq> CHR '' ''" using assms by (auto simp: tidyIdent_def split: list.splits)
  have r: "32 \<le> (of_char c :: nat) \<and> (of_char c :: nat) < 127" if "c \<in> set s" for c using assms that by (simp add: tidyIdent_def list_all_iff)
  have sp: "\<not> isSpaceRune (of_char c)" if "c \<in> set s" "c \<noteq> CHR '' ''" for c
  proof -
    have "(of_char c :: nat) \<noteq> of_char (CHR '' '')" using that(2) by (metis char_of_char)
    then have "(of_char c :: nat) \<noteq> 32" by simp
    then show ?thesis using r [OF that(1)] by (auto simp: isSpaceRune_def)
  qed
  show t: "trimSpace s = s" by (rule trimSpace_ends) (use r sp h hd_in_set [OF ne] last_in_set [OF ne] in force)+
  show "s \<noteq> []" by (rule ne)
  have "CHR 0x00 \<notin> set s" using r by force
  with t ne show "validIdent s" by (simp add: validIdent_def)
  show "list_all (\<lambda>c. (of_char c :: nat) < 128) s" using r by (force simp: list_all_iff)
qed

definition tidyRoute :: "Route \<Rightarrow> bool" where
  "tidyRoute r \<longleftrightarrow> tidyIdent (rt_Method r) \<and> map toUpperChar (rt_Method r) = rt_Method r \<and> tidyIdent (rt_Path r) \<and> hd (rt_Path r) = CHR ''/'' \<and>
     CHR ''?'' \<notin> set (rt_Path r) \<and> CHR ''#'' \<notin> set (rt_Path r) \<and> tidyIdent (routeKey r)"

lemma tidyRoute_ok: "tidyRoute r \<Longrightarrow> routeOk upper r"
  by (simp add: tidyRoute_def routeOk_def validMethod_def validPath_def toUpper_def tidy_trim)

text \<open>The literals are checked by rewriting.\<close>

lemma tidy_routes: "list_all tidyRoute routes"
  unfolding routes_def MethodGet_def MethodPost_def MethodOptions_def by (simp add: tidyRoute_def tidyIdent_def route_def routeKey_def toUpperChar_def)

lemma tidy_identifiers:
  "list_all tidyIdent [ProfileID, ModuleID, LedgerSavingsProgram, VaultBoardV1, VaultPolicyV1, SpendingPolicyName]"
  "list_all (\<lambda>m. list_all tidyIdent (md_Stores m @ md_KeyScopes m)) (pd_Modules Definition)"
  unfolding Definition_def
  by (simp_all add: tidyIdent_def ProfileID_def ModuleID_def LedgerSavingsProgram_def VaultBoardV1_def VaultPolicyV1_def SpendingPolicyName_def)

lemma distinct_routes: "distinct (map routeKey routes)"
  unfolding routes_def MethodGet_def MethodPost_def MethodOptions_def by (simp add: routeKey_def route_def)

lemma linked_profile_ok: "profileOk upper Definition \<and> distinct (profileKeys Definition)"
proof -
  have "validIdent s" if "s \<in> {ProfileID, ModuleID, LedgerSavingsProgram, VaultBoardV1, VaultPolicyV1, SpendingPolicyName}" for s
    using tidy_identifiers(1) tidy_trim(2) that by auto
  moreover have "list_all validIdent (md_Stores m @ md_KeyScopes m)" if "m \<in> set (pd_Modules Definition)" for m
    using tidy_identifiers(2) tidy_trim(2) that by (auto simp: list_all_iff)
  moreover have "list_all (routeOk upper) routes" using tidy_routes tidyRoute_ok by (auto simp: list_all_iff)
  moreover have "routes \<noteq> []" by (simp add: routes_def)
  ultimately have "profileOk upper Definition" by (simp add: profileOk_def Definition_def moduleOk_def)
  moreover have "distinct (map (\<lambda>r. (''route'', routeKey r)) routes)" using distinct_routes by (simp add: distinct_map inj_on_def)
  then have "distinct (profileKeys Definition)"
    by (simp add: profileKeys_def Definition_def moduleKeys_def LedgerSavingsProgram_def VaultBoardV1_def VaultPolicyV1_def image_iff)
  ultimately show ?thesis by blast
qed

text \<open>
  C38: the profile linked into the service compiles, and mounting it with a handler, a readiness check and a shutdown gives an open host
  that serves that handler and reports exactly that profile.\<close>

theorem linked_profile_hosts:
  assumes "mt_Handler mount \<noteq> None" "mt_Readiness mount" "mt_Shutdown mount"
  shows "\<exists>reg host. Compile upper [Definition] = Inr reg \<and> OpenProfiles (Some reg) [ProfileID] mount = Inr host \<and>
    ho_state host = StateOpen \<and> hostHandler host = mt_Handler mount \<and> hostProfiles host = [\<lparr> pf_definition = Definition \<rparr>]"
proof -
  let ?reg = "\<lparr> rg_profiles = [(ProfileID, \<lparr> pf_definition = Definition \<rparr>)] \<rparr> :: Registry"
  have "pd_ID Definition = ProfileID" by (simp add: Definition_def)
  then have c: "Compile upper [Definition] = Inr ?reg" using linked_profile_ok [of upper] by (simp add: compile_iff)
  have "registryProfile ?reg ProfileID = Some \<lparr> pf_definition = Definition \<rparr>" by (simp add: registryProfile_def)
  then show ?thesis using assms c
    by (simp add: OpenProfiles_def openHost_def selectProfile_def hostHandler_def hostProfiles_def andThen_def)
qed

theorem linked_profile_hosts_witness:
  "\<exists>reg host. Compile id [Definition] = Inr reg \<and>
     OpenProfiles (Some reg) [ProfileID] \<lparr> mt_Handler = Some (), mt_Readiness = True, mt_Shutdown = True \<rparr> = Inr host \<and> hostHandler host = Some ()"
  using linked_profile_hosts [of "\<lparr> mt_Handler = Some (), mt_Readiness = True, mt_Shutdown = True \<rparr>" id] by auto

section \<open>The life of a host\<close>

text \<open>The callers of \<open>Close\<close> interleave; \<open>n\<close> counts how often the mounted shutdown was entered.\<close>

inductive host_run :: "'h Host \<Rightarrow> nat \<Rightarrow> 'h Host \<Rightarrow> bool" for h0 where
  start: "host_run h0 0 h0"
| enter: "host_run h0 n h \<Longrightarrow> beginClose h = Some h' \<Longrightarrow> host_run h0 (Suc n) h'"
| leave: "host_run h0 n h \<Longrightarrow> finishClose err h = Some h' \<Longrightarrow> host_run h0 n h'"

lemmas close_defs = beginClose_def finishClose_def closeResult_def hostHandler_def hostReady_def

text \<open>The phase of a host that was opened.\<close>

definition hostPhase :: "nat \<Rightarrow> 'h Host \<Rightarrow> bool" where
  "hostPhase n h \<longleftrightarrow>
     (case ho_close h of
        OnceFresh \<Rightarrow> n = 0 \<and> ho_state h = StateOpen
      | OnceRunning \<Rightarrow> n = 1 \<and> ho_state h = StateClosing
      | OnceDone \<Rightarrow> n = 1 \<and> ho_state h = StateClosed)"

lemma hostPhase_begin: "hostPhase n h \<Longrightarrow> beginClose h = Some h' \<Longrightarrow> hostPhase (Suc n) h' \<and> ho_mount h' = ho_mount h"
  unfolding hostPhase_def beginClose_def by (cases "ho_close h") auto

lemma hostPhase_finish: "hostPhase n h \<Longrightarrow> finishClose err h = Some h' \<Longrightarrow> hostPhase n h' \<and> ho_mount h' = ho_mount h"
  unfolding hostPhase_def finishClose_def by (cases "ho_close h") auto

lemma hostPhase_run: "host_run h0 n h \<Longrightarrow> hostPhase 0 h0 \<Longrightarrow> hostPhase n h \<and> ho_mount h = ho_mount h0"
proof (induction rule: host_run.induct)
  case (enter n h h')
  then show ?case using hostPhase_begin [of n h h'] by simp
next
  case (leave n h err h')
  then show ?case using hostPhase_finish [of n h err h'] by simp
qed simp

lemma closed_stays: "host_run h0 n h \<Longrightarrow> ho_close h0 = OnceDone \<Longrightarrow> n = 0 \<and> h = h0"
proof (induction rule: host_run.induct)
  case (enter n h h')
  then have "ho_close h = OnceDone" by simp
  with enter.hyps(2) show ?case by (simp add: beginClose_def)
next
  case (leave n h err h')
  then have "ho_close h = OnceDone" by simp
  with leave.hyps(2) show ?case by (simp add: finishClose_def)
qed simp

lemma select_open: "foldRes (selectProfile r) s ids = Inr s' \<Longrightarrow> ho_close (snd s') = ho_close (snd s) \<and> ho_state (snd s') = ho_state (snd s) \<and> ho_mount (snd s') = ho_mount (snd s)"
  by (induction ids arbitrary: s) (fastforce simp: selectProfile_def andThen_Inr_iff split: if_splits option.splits)+

lemma opened_phase:
  assumes "OpenProfiles r ids mount = Inr h"
  shows "hostPhase 0 h \<and> ho_mount h = mount"
proof -
  obtain i rest host s' where a: "ids = i # rest" "openHost r i mount = Inr host" "foldRes (selectProfile (the r)) ({}, host) ids = Inr s'" "h = snd s'"
    using assms by (auto simp: OpenProfiles_def andThen_Inr_iff split: list.splits)
  have "ho_close host = OnceFresh" "ho_state host = StateOpen" "ho_mount host = mount"
    using a(2) by (auto simp: openHost_def split: option.splits if_splits)
  with select_open [OF a(3)] a(4) show ?thesis by (simp add: hostPhase_def)
qed

text \<open>
  C27: however the callers of \<open>Close\<close> interleave, an opened host enters the mounted shutdown at most once; it serves the mounted handler
  and asks the readiness check exactly as long as no caller has entered \<open>Close\<close>, and once a caller has returned, every caller
  returns the same result for good.\<close>

theorem host_shuts_down_once:
  assumes "OpenProfiles r ids mount = Inr h0" "host_run h0 n h"
  shows "n \<le> 1 \<and> hostHandler h = (if n = 0 then mt_Handler mount else None) \<and> hostReady ready h = (if n = 0 then ready else Inl ErrClosed) \<and>
    (\<forall>e m h'. closeResult h = Some e \<and> host_run h m h' \<longrightarrow> m = 0 \<and> closeResult h' = Some e)"
proof -
  note o = opened_phase [OF assms(1)]
  with hostPhase_run [OF assms(2)] have p: "hostPhase n h" "ho_mount h = mount" by simp_all
  have "n \<le> 1 \<and> hostHandler h = (if n = 0 then mt_Handler mount else None) \<and> hostReady ready h = (if n = 0 then ready else Inl ErrClosed)"
    using p by (auto simp: hostPhase_def close_defs split: once.splits)
  moreover have "\<forall>e m h'. closeResult h = Some e \<and> host_run h m h' \<longrightarrow> m = 0 \<and> closeResult h' = Some e"
    using closed_stays [of h] by (auto simp: closeResult_def split: if_splits)
  ultimately show ?thesis by blast
qed

theorem host_shuts_down_once_witness:
  "\<exists>reg h0 h. OpenProfiles (Some reg) [''p''] \<lparr> mt_Handler = Some (), mt_Readiness = True, mt_Shutdown = True \<rparr> = Inr h0 \<and> host_run h0 1 h \<and>
     hostHandler h = None \<and> closeResult h = Some None"
proof -
  let ?d = "\<lparr> pd_ID = ''p'', pd_Modules = [], pd_Routes = [] \<rparr> :: ProfileDefinition"
  let ?reg = "\<lparr> rg_profiles = [(''p'', \<lparr> pf_definition = ?d \<rparr>)] \<rparr> :: Registry"
  let ?m = "\<lparr> mt_Handler = Some (), mt_Readiness = True, mt_Shutdown = True \<rparr>"
  obtain h0 where o: "OpenProfiles (Some ?reg) [''p''] ?m = Inr h0"
    by (simp add: OpenProfiles_def openHost_def selectProfile_def registryProfile_def andThen_def)
  then have "ho_close h0 = OnceFresh" using opened_phase [OF o] by (auto simp: hostPhase_def split: once.splits)
  then obtain h1 h2 where h: "beginClose h0 = Some h1" "finishClose None h1 = Some h2" "closeResult h2 = Some None" by (auto simp: close_defs)
  have "host_run h0 (Suc 0) h2" by (rule host_run.leave [OF host_run.enter [OF host_run.start h(1)] h(2)])
  with host_shuts_down_once [OF o this] o h(3) show ?thesis by auto
qed

end
