(* ===== verification/Archive.thy ===== *)
theory Archive
  imports Session Recovery_Backup Json_Round "HOL-Library.AList"
begin

text \<open>
  Recovery archive sessions (\<open>application/backup_session.go\<close>, \<open>application/recovery_archive.go\<close>): opening the encrypted archive of a
  vault with its passkey gives a bearer token for reading and writing it; the first header a session sees is pinned. The archive
  itself is the versioned row of \<open>Recovery_Backup\<close>.

  \<open>network\<close> is the deployment's network and \<open>descriptorHash\<close> the hash of the enrolled account descriptor, which the service rebuilds
  from scripts of third-party packages.
\<close>

section \<open>Data\<close>

definition SpendingOnlyTemplate :: string where "SpendingOnlyTemplate = ''vaulted-spending-v1''"
definition LedgerNativeTemplate :: string where "LedgerNativeTemplate = ''phone-ledger-guardian-savings-v1''"
definition maxBackupSessions :: nat where "maxBackupSessions = 256"
definition backupSessionTTL :: int where "backupSessionTTL = 8 * 3600 * second"

record RecoveryArchiveBinding =
  ab_VaultID :: string
  ab_Network :: string
  ab_TemplateVersion :: string
  ab_ProtectionTier :: string
  ab_PolicyVersion :: string
  ab_SpendingPolicyDigest :: string
  ab_DescriptorHash :: string

definition noBinding :: RecoveryArchiveBinding where
  "noBinding = \<lparr> ab_VaultID = [], ab_Network = [], ab_TemplateVersion = [], ab_ProtectionTier = [], ab_PolicyVersion = [],
     ab_SpendingPolicyDigest = [], ab_DescriptorHash = [] \<rparr>"

definition noDigest :: bytes where "noDigest = replicate 32 0"

record backupSession =
  bs_VaultID :: string
  bs_Purpose :: string
  bs_ExpiresAt :: time
  bs_Binding :: RecoveryArchiveBinding
  bs_HeaderDigest :: bytes

record BackupOpenRequest =
  bo_VaultID :: string
  bo_Assertion :: SessionAssertionRequest

record BackupRequest =
  bq_Token :: string
  bq_Revision :: nat
  bq_Payload :: string

record RecoveryArchiveOpenResponse =
  ao_Token :: string
  ao_VaultID :: string
  ao_ExpiresAt :: string
  ao_Backup :: "RecoveryBackup option"
  ao_Binding :: RecoveryArchiveBinding

text \<open>The service with its archive sessions, by the hash of their token, and the archive rows of its ledger.\<close>

record ArchiveService =
  ar_service :: Service
  ar_backupSessions :: "(bytes \<times> backupSession) list"
  ar_backups :: "BackupRow list"

section \<open>The enrolled facts\<close>

definition recoveryArchiveCredentialAllowed :: "Credential \<Rightarrow> bool" where
  "recoveryArchiveCredentialAllowed cred \<longleftrightarrow>
     (if cr_TemplateVersion cred = SpendingOnlyTemplate then cr_ProtectionTier cred = ProtectionTierLight
      else cr_TemplateVersion cred = LedgerNativeTemplate \<and>
        (cr_ProtectionTier cred = ProtectionTierStandard \<or> cr_ProtectionTier cred = ProtectionTierAdvanced))"

definition backupCredentialAllowed :: "Credential option \<Rightarrow> string \<Rightarrow> bool" where
  "backupCredentialAllowed cred purpose \<longleftrightarrow>
     (case cred of None \<Rightarrow> False | Some c \<Rightarrow> purpose = recoveryArchivePurpose \<and> recoveryArchiveCredentialAllowed c)"

definition spendingPolicyFromCredential :: "Credential \<Rightarrow> SpendingPolicy res" where
  "spendingPolicyFromCredential cred =
     SpendingPolicyFromValues (cr_TxRecipientCapSats cred) (cr_PeriodAllowanceSats cred) (cr_AbsoluteFeeCapSats cred) (cr_FeerateCapSatPerV cred)"

definition recoveryArchiveBinding :: "string \<Rightarrow> (Credential \<Rightarrow> string res) \<Rightarrow> Credential option \<Rightarrow> RecoveryArchiveBinding res" where
  "recoveryArchiveBinding network descriptorHash found =
     (case found of
        None \<Rightarrow> Inl (Err ''unsupported recovery archive enrollment'')
      | Some cred \<Rightarrow>
          if \<not> recoveryArchiveCredentialAllowed cred \<or> cr_Network cred \<noteq> network \<or> cr_PolicyVersion cred \<noteq> PolicyVersion
          then Inl (Err ''unsupported recovery archive enrollment'')
          else andThen (descriptorHash cred) (\<lambda>hash.
            andThen (andThen (spendingPolicyFromCredential cred) (SpendingPolicyDigestHexFor (cr_Network cred))) (\<lambda>digest.
            Inr \<lparr> ab_VaultID = cr_VaultID cred, ab_Network = cr_Network cred, ab_TemplateVersion = cr_TemplateVersion cred,
              ab_ProtectionTier = cr_ProtectionTier cred, ab_PolicyVersion = cr_PolicyVersion cred, ab_SpendingPolicyDigest = digest,
              ab_DescriptorHash = hash \<rparr>)))"

section \<open>The archive envelope\<close>

text \<open>The members of an object with the text of each value, as \<open>json.RawMessage\<close> keeps it.\<close>

fun rawMembers :: "nat \<Rightarrow> string \<Rightarrow> ((string \<times> json \<times> string) list \<times> string) option" where
  "rawMembers 0 s = None"
| "rawMembers (Suc f) s =
     (case skipWs s of
        [] \<Rightarrow> None
      | c # t \<Rightarrow>
          if c \<noteq> CHR 34 then None
          else case scanString t of
                 None \<Rightarrow> None
               | Some (k, r) \<Rightarrow>
                  (case skipWs r of
                     [] \<Rightarrow> None
                   | x # u \<Rightarrow>
                       if x \<noteq> CHR '':'' then None
                       else let text = skipWs u in
                         case parseValue (2 * length text + 1) 1 text of
                           None \<Rightarrow> None
                         | Some (v, r2) \<Rightarrow>
                            (case skipWs r2 of
                               [] \<Rightarrow> None
                             | y # w \<Rightarrow>
                                 let m = (unquote k, v, take (length text - length r2) text) in
                                 if y = CHR ''}'' then Some ([m], w)
                                 else if y = CHR '','' then map_option (\<lambda>(ms, r'). (m # ms, r')) (rawMembers f w)
                                 else None)))"

text \<open>One object and nothing after it but white space.\<close>

definition onlyObject :: "string \<Rightarrow> (string \<times> json \<times> string) list option" where
  "onlyObject s =
     (case skipWs s of
        c # t \<Rightarrow>
          if c \<noteq> CHR ''{'' then None
          else (case skipWs t of
                  [] \<Rightarrow> None
                | x # u \<Rightarrow>
                    (case (if x = CHR ''}'' then Some ([], u) else rawMembers (length t) (x # u)) of
                       None \<Rightarrow> None
                     | Some (ms, r) \<Rightarrow> if skipWs r = [] then Some ms else None))
      | [] \<Rightarrow> None)"

record ArchiveEnvelope =
  ae_Name :: string
  ae_Version :: int
  ae_Header :: string
  ae_Nonce :: string
  ae_Ciphertext :: string

text \<open>\<open>DisallowUnknownFields\<close>: every key is one of the five, up to case folding.\<close>

definition decodeEnvelope :: "string \<Rightarrow> ArchiveEnvelope option" where
  "decodeEnvelope payload =
     (case onlyObject payload of
        None \<Rightarrow> None
      | Some ms \<Rightarrow>
          if list_all (\<lambda>(k, _, _). foldKey k \<in> {''NAME'', ''VERSION'', ''HEADER'', ''NONCE'', ''CIPHERTEXT''}) ms
          then let vals = map (\<lambda>(k, v, _). (k, v)) ms; raws = map (\<lambda>(_, _, t). t) (filter (\<lambda>(k, _, _). foldKey k = ''HEADER'') ms) in
            (case (decStr [] (fieldVals vals ''name''), decInt64 0 (fieldVals vals ''version''), decStr [] (fieldVals vals ''nonce''),
                   decStr [] (fieldVals vals ''ciphertext'')) of
               (Some n, Some v, Some nonce, Some c) \<Rightarrow>
                 Some \<lparr> ae_Name = n, ae_Version = v, ae_Header = (if raws = [] then [] else last raws), ae_Nonce = nonce, ae_Ciphertext = c \<rparr>
             | _ \<Rightarrow> None)
          else None)"

text \<open>\<open>base64.StdEncoding.Strict()\<close> also refuses trailing bits that are not zero.\<close>

definition strictDecode :: "string \<Rightarrow> bytes option" where
  "strictDecode s =
     (case stdDecode s of
        Some b \<Rightarrow> if stdEncode b = filter (\<lambda>c. c \<noteq> CHR 10 \<and> c \<noteq> CHR 13) s then Some b else None
      | None \<Rightarrow> None)"

fun decBinding :: "RecoveryArchiveBinding \<Rightarrow> json list \<Rightarrow> RecoveryArchiveBinding option" where
  "decBinding acc [] = Some acc"
| "decBinding acc (v # vs) =
     (case v of
        JNull \<Rightarrow> decBinding acc vs
      | JObj ms \<Rightarrow>
          (case (decStr (ab_VaultID acc) (fieldVals ms ''vaultId''), decStr (ab_Network acc) (fieldVals ms ''network''),
                 decStr (ab_TemplateVersion acc) (fieldVals ms ''templateVersion''), decStr (ab_ProtectionTier acc) (fieldVals ms ''protectionTier''),
                 decStr (ab_PolicyVersion acc) (fieldVals ms ''policyVersion''), decStr (ab_SpendingPolicyDigest acc) (fieldVals ms ''spendingPolicyDigest''),
                 decStr (ab_DescriptorHash acc) (fieldVals ms ''descriptorHash'')) of
             (Some a, Some b, Some c, Some d, Some e, Some f, Some g) \<Rightarrow>
               decBinding \<lparr> ab_VaultID = a, ab_Network = b, ab_TemplateVersion = c, ab_ProtectionTier = d, ab_PolicyVersion = e,
                 ab_SpendingPolicyDigest = f, ab_DescriptorHash = g \<rparr> vs
           | _ \<Rightarrow> None)
      | _ \<Rightarrow> None)"

definition validateRecoveryArchive :: "string \<Rightarrow> RecoveryArchiveBinding \<Rightarrow> bytes res" where
  "validateRecoveryArchive payload binding =
     (let bad = Inl (Err ''valid encrypted recovery archive required'') in
      if payload = [] \<or> length payload > MaxRecoveryBackupBytes then bad
      else case decodeEnvelope payload of
        None \<Rightarrow> bad
      | Some e \<Rightarrow>
          if ae_Name e \<noteq> ''vaulted-recovery-backup'' \<or> ae_Version e \<noteq> 1 \<or> length (ae_Header e) > 96 * 1024 then bad
          else if isl (decodeFixedHex (ae_Nonce e) 12) then bad
          else (case strictDecode (ae_Ciphertext e) of
              None \<Rightarrow> bad
            | Some sealed \<Rightarrow>
                if length sealed \<le> 16 then bad
                else (case jsonMembers (ae_Header e) of
                    None \<Rightarrow> bad
                  | Some ms \<Rightarrow>
                      (case decBinding noBinding (fieldVals ms ''binding'') of
                         None \<Rightarrow> bad
                       | Some b \<Rightarrow> if b \<noteq> binding then bad else Inr (sha256 (bytes_of (ae_Header e)))))))"

section \<open>Opening an archive\<close>

definition issueBackupChallenge :: "time \<Rightarrow> bytes option \<Rightarrow> bytes option \<Rightarrow> string \<Rightarrow> ArchiveService \<Rightarrow> PasskeyChallengeResponse res \<times> ArchiveService" where
  "issueBackupChallenge now draw drawKey purpose st =
     (case issuePasskeyChallenge now draw drawKey [] purpose [] (sv_sessions (ar_service st)) of
        (r, ss) \<Rightarrow> (r, st \<lparr> ar_service := (ar_service st) \<lparr> sv_sessions := ss \<rparr> \<rparr>))"

definition IssueRecoveryArchiveChallenge :: "time \<Rightarrow> bytes option \<Rightarrow> bytes option \<Rightarrow> ArchiveService \<Rightarrow> PasskeyChallengeResponse res \<times> ArchiveService" where
  "IssueRecoveryArchiveChallenge now draw drawKey = issueBackupChallenge now draw drawKey recoveryArchivePurpose"

definition verifyBackup :: "string \<Rightarrow> BackupOpenRequest \<Rightarrow> bytes \<Rightarrow> Service \<Rightarrow> (Credential \<times> Verified) res" where
  "verifyBackup purpose req challenge s =
     (let fail = Inl passkeyFailure in
      case loadVerifiedCredentialFor (sv_CredentialIntegrityKey s) (bo_VaultID req) (sv_tenants s) of
        Inl e \<Rightarrow> fail
      | Inr found \<Rightarrow>
          if \<not> backupCredentialAllowed found purpose then fail
          else let cred = the found in
            case decodeBoundedSessionAssertion (bo_Assertion req) of
              Inl e \<Rightarrow> fail
            | Inr assertion \<Rightarrow>
                if as_CredentialID assertion \<noteq> cr_ID cred \<or> ContainsPRFField (as_ClientDataJSON assertion) then fail
                else case Validate assertion \<lparr> ex_CredentialID = cr_ID cred, ex_WebAuthnP256 = Credential.cr_WebAuthnP256 cred,
                    ex_Challenge = challenge, ex_Origin = cr_Origin cred, ex_RPID = cr_RPID cred \<rparr> of
                  Inl e \<Rightarrow> fail
                | Inr verified \<Rightarrow>
                   (case decodeFixedHex (sr_DirectProof (bo_Assertion req)) 64 of
                      Inl e \<Rightarrow> fail
                    | Inr proof \<Rightarrow>
                       (case verifyDirectAuth (cr_PhoneDirectP256 cred) (passkeySessionProofDigest purpose challenge (cr_ID cred)) proof of
                          Inl e \<Rightarrow> fail
                        | Inr _ \<Rightarrow> Inr (cred, verified))))"

text \<open>The session of an opened archive: its binding and the header it starts from.\<close>

definition startSession :: "string \<Rightarrow> (Credential \<Rightarrow> string res) \<Rightarrow> string \<Rightarrow> string \<Rightarrow> Credential \<Rightarrow> RecoveryBackup option \<Rightarrow> time \<Rightarrow> backupSession res" where
  "startSession network descriptorHash vaultID purpose cred backup expires =
     (if purpose = recoveryArchivePurpose then
        andThen (recoveryArchiveBinding network descriptorHash (Some cred)) (\<lambda>binding.
        andThen (case backup of None \<Rightarrow> Inr noDigest | Some b \<Rightarrow> validateRecoveryArchive (rb_Payload b) binding) (\<lambda>digest.
        Inr \<lparr> bs_VaultID = vaultID, bs_Purpose = purpose, bs_ExpiresAt = expires, bs_Binding = binding, bs_HeaderDigest = digest \<rparr>))
      else Inr \<lparr> bs_VaultID = vaultID, bs_Purpose = purpose, bs_ExpiresAt = expires, bs_Binding = noBinding, bs_HeaderDigest = noDigest \<rparr>)"

definition openBackup :: "string \<Rightarrow> (Credential \<Rightarrow> string res) \<Rightarrow> unit res \<Rightarrow> time \<Rightarrow> time \<Rightarrow> time \<Rightarrow> time \<Rightarrow> bytes option \<Rightarrow> time \<Rightarrow>
    BackupOpenRequest \<Rightarrow> string \<Rightarrow> ArchiveService \<Rightarrow> RecoveryArchiveOpenResponse res \<times> ArchiveService" where
  "openBackup network descriptorHash slot t1 t2 t3 t4 draw now req purpose st =
     (let s = ar_service st; tid = sr_ChallengeID (bo_Assertion req); v = bo_VaultID req in
      case slot of Inl e \<Rightarrow> (Inl e, st) | Inr _ \<Rightarrow>
      case readPasskeyChallenge t1 [] tid purpose (sv_sessions s) of Inl e \<Rightarrow> (Inl passkeyFailure, st) | Inr record \<Rightarrow>
      case verifyBackup purpose req (pc_Challenge record) s of Inl e \<Rightarrow> (Inl e, st) | Inr (cred, verified) \<Rightarrow>
      case consumePasskeyChallenge t2 t3 v tid purpose (sv_sessions s) of
        (Inl e, ss) \<Rightarrow> (Inl passkeyFailure, st \<lparr> ar_service := s \<lparr> sv_sessions := ss \<rparr> \<rparr>)
      | (Inr _, ss) \<Rightarrow>
          case advanceSignCount t4 v (cr_ID cred) (vf_SignCount verified) (s \<lparr> sv_sessions := ss \<rparr>) of
            (Inl e, s') \<Rightarrow> (Inl e, st \<lparr> ar_service := s' \<rparr>)
          | (Inr _, s') \<Rightarrow>
              let st' = st \<lparr> ar_service := s' \<rparr> in
              case GetRecoveryBackup (lg_integrityKey (sv_ledger s')) v (ar_backups st) of Inl e \<Rightarrow> (Inl e, st') | Inr backup \<Rightarrow>
              case startSession network descriptorHash v purpose cred backup (now + backupSessionTTL) of Inl e \<Rightarrow> (Inl e, st') | Inr session \<Rightarrow>
              case draw of None \<Rightarrow> (Inl (Err ''rand''), st') | Some token \<Rightarrow>
                let live = filter (\<lambda>(_, x). timeBefore now (bs_ExpiresAt x)) (ar_backupSessions st') in
                if length live \<ge> maxBackupSessions then (Inl ErrVerificationBusy, st' \<lparr> ar_backupSessions := live \<rparr>)
                else (Inr \<lparr> ao_Token = hexEncode token, ao_VaultID = v, ao_ExpiresAt = formatRFC3339 (bs_ExpiresAt session), ao_Backup = backup,
                        ao_Binding = bs_Binding session \<rparr>,
                      st' \<lparr> ar_backupSessions := AList.update (sha256 token) session live \<rparr>))"

definition OpenRecoveryArchive :: "string \<Rightarrow> (Credential \<Rightarrow> string res) \<Rightarrow> unit res \<Rightarrow> time \<Rightarrow> time \<Rightarrow> time \<Rightarrow> time \<Rightarrow> bytes option \<Rightarrow> time \<Rightarrow>
    BackupOpenRequest \<Rightarrow> ArchiveService \<Rightarrow> RecoveryArchiveOpenResponse res \<times> ArchiveService" where
  "OpenRecoveryArchive network descriptorHash slot t1 t2 t3 t4 draw now req =
     openBackup network descriptorHash slot t1 t2 t3 t4 draw now req recoveryArchivePurpose"

section \<open>Reading and writing\<close>

text \<open>An expired token is deleted.\<close>

definition backupSessionLocked :: "time \<Rightarrow> string \<Rightarrow> string \<Rightarrow> (bytes \<times> backupSession) list \<Rightarrow>
    (bytes \<times> backupSession) res \<times> (bytes \<times> backupSession) list" where
  "backupSessionLocked now token purpose sessions =
     (case decodeFixedHex token 32 of
        Inl e \<Rightarrow> (Inl (Err ''open backup with your passkey''), sessions)
      | Inr raw \<Rightarrow>
          let key = sha256 raw; expired = (Inl (Err ''open backup with your passkey''), filter (\<lambda>(k, _). k \<noteq> key) sessions) in
          (case map_of sessions key of
             None \<Rightarrow> expired
           | Some session \<Rightarrow>
               if \<not> timeBefore now (bs_ExpiresAt session) then expired
               else if bs_Purpose session \<noteq> purpose then (Inl (Err ''backup session belongs to another program''), sessions)
               else (Inr (key, session), sessions)))"

definition verifiedArchiveSessionLocked :: "string \<Rightarrow> (Credential \<Rightarrow> string res) \<Rightarrow> time \<Rightarrow> string \<Rightarrow> ArchiveService \<Rightarrow>
    (bytes \<times> backupSession) res \<times> ArchiveService" where
  "verifiedArchiveSessionLocked network descriptorHash now token st =
     (case backupSessionLocked now token recoveryArchivePurpose (ar_backupSessions st) of
        (Inl e, ses) \<Rightarrow> (Inl e, st \<lparr> ar_backupSessions := ses \<rparr>)
      | (Inr (key, session), ses) \<Rightarrow>
          (let s = ar_service st in
           (andThen (loadVerifiedCredentialFor (sv_CredentialIntegrityKey s) (bs_VaultID session) (sv_tenants s)) (\<lambda>cred.
            andThen (recoveryArchiveBinding network descriptorHash cred) (\<lambda>binding.
            if binding \<noteq> bs_Binding session then Inl (Err ''recovery archive enrollment changed; reopen with your passkey'')
            else Inr (key, session))),
            st \<lparr> ar_backupSessions := ses \<rparr>)))"

text \<open>The digest of the stored header must be the pinned one; the first one seen is pinned.\<close>

definition checkHeader :: "bytes \<Rightarrow> backupSession \<Rightarrow> unit res" where
  "checkHeader digest session =
     (if bs_HeaderDigest session \<noteq> noDigest \<and> bs_HeaderDigest session \<noteq> digest then Inl (Err ''recovery archive header changed'') else Inr ())"

definition readArchiveLocked :: "backupSession \<Rightarrow> ArchiveService \<Rightarrow> (RecoveryBackup option \<times> backupSession) res" where
  "readArchiveLocked session st =
     andThen (GetRecoveryBackup (lg_integrityKey (sv_ledger (ar_service st))) (bs_VaultID session) (ar_backups st)) (\<lambda>backup.
     case backup of
       None \<Rightarrow> Inr (None, session)
     | Some b \<Rightarrow>
         andThen (validateRecoveryArchive (rb_Payload b) (bs_Binding session)) (\<lambda>digest.
         andThen (checkHeader digest session) (\<lambda>_. Inr (Some b, session \<lparr> bs_HeaderDigest := digest \<rparr>))))"

definition ReadRecoveryArchive :: "string \<Rightarrow> (Credential \<Rightarrow> string res) \<Rightarrow> time \<Rightarrow> BackupRequest \<Rightarrow> ArchiveService \<Rightarrow>
    RecoveryBackup option res \<times> ArchiveService" where
  "ReadRecoveryArchive network descriptorHash now req st =
     (case verifiedArchiveSessionLocked network descriptorHash now (bq_Token req) st of
        (Inl e, st) \<Rightarrow> (Inl e, st)
      | (Inr (key, session), st) \<Rightarrow>
          (case readArchiveLocked session st of
             Inl e \<Rightarrow> (Inl e, st)
           | Inr (backup, session) \<Rightarrow> (Inr backup, st \<lparr> ar_backupSessions := AList.update key session (ar_backupSessions st) \<rparr>)))"

definition WriteRecoveryArchive :: "string \<Rightarrow> (Credential \<Rightarrow> string res) \<Rightarrow> bool \<Rightarrow> time \<Rightarrow> BackupRequest \<Rightarrow> ArchiveService \<Rightarrow>
    RecoveryBackup res \<times> ArchiveService" where
  "WriteRecoveryArchive network descriptorHash commit_ok now req st =
     (case verifiedArchiveSessionLocked network descriptorHash now (bq_Token req) st of
        (Inl e, st) \<Rightarrow> (Inl e, st)
      | (Inr (key, session), st) \<Rightarrow>
          (case andThen (readArchiveLocked session st) (\<lambda>(_, session).
              andThen (validateRecoveryArchive (bq_Payload req) (bs_Binding session)) (\<lambda>digest.
              andThen (checkHeader digest session) (\<lambda>_. Inr (session, digest)))) of
             Inl e \<Rightarrow> (Inl e, st)
           | Inr (session, digest) \<Rightarrow>
               (case PutRecoveryBackup (map vr_VaultID (tn_vault (sv_tenants (ar_service st)))) (lg_integrityKey (sv_ledger (ar_service st))) commit_ok
                   (bs_VaultID session) (bq_Revision req) (bq_Payload req) (ar_backups st) of
                  (Inl e, rows) \<Rightarrow> (Inl e, st \<lparr> ar_backups := rows \<rparr>)
                | (Inr saved, rows) \<Rightarrow>
                    (Inr saved, st \<lparr> ar_backups := rows, ar_backupSessions := AList.update key (session \<lparr> bs_HeaderDigest := digest \<rparr>) (ar_backupSessions st) \<rparr>))))"

end
