(* ===== verification/Archive_Props.thy ===== *)
theory Archive_Props
  imports Archive
begin

text \<open>
  The header of a stored recovery archive is pinned: whatever sessions open, read and write, the header an archive was first
  stored with is kept by every later write, and a write only ever changes the archive of the vault its session was opened for.
\<close>

section \<open>Stored archives\<close>

definition archivePayload :: "string \<Rightarrow> BackupRow list \<Rightarrow> string option" where
  "archivePayload vaultID rows = map_option (\<lambda>r. rb_Payload (bk_backup r)) (lookupBy (\<lambda>r. bk_vault_id r = vaultID) rows)"

definition headerDigest :: "string \<Rightarrow> bytes option" where
  "headerDigest payload = map_option (\<lambda>e. sha256 (bytes_of (ae_Header e))) (decodeEnvelope payload)"

lemma validate_digest: "validateRecoveryArchive payload binding = Inr d \<Longrightarrow> headerDigest payload = Some d"
  by (auto simp: validateRecoveryArchive_def headerDigest_def Let_def split: if_splits option.splits)

lemma readArchive_payload:
  assumes "GetRecoveryBackup key vaultID rows = Inr backup"
  shows "map_option rb_Payload backup = archivePayload vaultID rows"
  using assms by (auto simp: GetRecoveryBackup_def readRecoveryBackup_def archivePayload_def split: if_splits option.splits)

lemma put_payload:
  assumes "PutRecoveryBackup vaults key commit_ok vaultID expected payload rows = (r, rows')"
  shows "(\<forall>v. v \<noteq> vaultID \<longrightarrow> archivePayload v rows' = archivePayload v rows) \<and>
    (if isl r then rows' = rows else archivePayload vaultID rows' = Some payload)"
proof (cases r)
  case (Inl e)
  then have "rows' = rows" using assms by (auto simp: PutRecoveryBackup_def Let_def split: if_splits sum.splits)
  with Inl show ?thesis by simp
next
  case (Inr saved)
  obtain old where old: "readRecoveryBackup vaultID key rows = Inr old" and k: "length key = 32"
    using assms Inr by (auto simp: PutRecoveryBackup_def split: if_splits sum.splits)
  have p: "map_option rb_Payload old = archivePayload vaultID rows" by (rule readArchive_payload [of key]) (use old k in \<open>simp add: GetRecoveryBackup_def\<close>)
  let ?row = "\<lparr> bk_vault_id = vaultID, bk_backup = \<lparr> rb_Revision = expected + 1, rb_Payload = payload \<rparr>,
    bk_integrity_mac = recoveryBackupMAC vaultID \<lparr> rb_Revision = expected + 1, rb_Payload = payload \<rparr> key \<rparr>"
  consider "rows' = rows" "archivePayload vaultID rows = Some payload" | "upsertBackup vaults ?row rows = Inr rows'"
    using assms Inr old p by (auto simp: PutRecoveryBackup_def Let_def split: if_splits sum.splits option.splits)
  then show ?thesis
  proof cases
    case 1
    with Inr show ?thesis by simp
  next
    case 2
    then show ?thesis using upsertBackup_lookup [OF 2] Inr by (simp add: archivePayload_def)
  qed
qed

section \<open>Sessions\<close>

lemma session_backups: "verifiedArchiveSessionLocked network descriptorHash now token st = (r, st') \<Longrightarrow> ar_backups st' = ar_backups st \<and> ar_service st' = ar_service st"
  by (auto simp: verifiedArchiveSessionLocked_def Let_def split: sum.splits prod.splits)

lemma open_backups: "ar_backups (snd (openBackup network descriptorHash slot t1 t2 t3 t4 draw now req purpose st)) = ar_backups st"
  by (simp add: openBackup_def Let_def split: sum.splits prod.splits option.splits)

lemma challenge_backups: "ar_backups (snd (issueBackupChallenge now draw drawKey purpose st)) = ar_backups st"
  by (simp add: issueBackupChallenge_def split: prod.splits)

lemma read_backups: "ar_backups (snd (ReadRecoveryArchive network descriptorHash now req st)) = ar_backups st"
  using session_backups by (fastforce simp: ReadRecoveryArchive_def split: sum.splits prod.splits)

text \<open>A write leaves the rows alone or stores, for the vault of its session, a payload with the header that is already stored.\<close>

lemma write_cases:
  assumes "WriteRecoveryArchive network descriptorHash commit_ok now req st = (r, st')"
  obtains (same) "ar_backups st' = ar_backups st"
  | (stored) v d where "archivePayload v (ar_backups st') = Some (bq_Payload req)" "headerDigest (bq_Payload req) = Some d"
      "\<forall>u. u \<noteq> v \<longrightarrow> archivePayload u (ar_backups st') = archivePayload u (ar_backups st)"
      "\<forall>p. archivePayload v (ar_backups st) = Some p \<longrightarrow> headerDigest p = Some d \<or> headerDigest p = Some noDigest"
proof -
  obtain ses st1 where s1: "verifiedArchiveSessionLocked network descriptorHash now (bq_Token req) st = (ses, st1)" by fastforce
  note b1 = session_backups [OF s1, THEN conjunct1]
  show ?thesis
  proof (cases "\<exists>key session d. ses = Inr (key, session) \<and>
      andThen (readArchiveLocked session st1) (\<lambda>(_, session). andThen (validateRecoveryArchive (bq_Payload req) (bs_Binding session)) (\<lambda>digest.
        andThen (checkHeader digest session) (\<lambda>_. Inr (session, digest)))) = Inr d")
    case False
    then have "ar_backups st' = ar_backups st1" using assms s1
      by (auto simp: WriteRecoveryArchive_def split: sum.splits prod.splits)
    then show ?thesis using same b1 by simp
  next
    case True
    then obtain key session backup session' d where a: "ses = Inr (key, session)" "readArchiveLocked session st1 = Inr (backup, session')"
      "validateRecoveryArchive (bq_Payload req) (bs_Binding session') = Inr d" "checkHeader d session' = Inr ()"
      by (auto simp: andThen_Inr_iff)
    let ?put = "PutRecoveryBackup (map vr_VaultID (tn_vault (sv_tenants (ar_service st1)))) (lg_integrityKey (sv_ledger (ar_service st1))) commit_ok
        (bs_VaultID session') (bq_Revision req) (bq_Payload req) (ar_backups st1)"
    obtain pr rows where p: "?put = (pr, rows)" by fastforce
    have st': "ar_backups st' = rows" using assms s1 a p
      by (auto simp: WriteRecoveryArchive_def andThen_def split: sum.splits prod.splits)
    show ?thesis
    proof (cases "isl pr")
      case True
      then show ?thesis using same put_payload [OF p] st' b1 by simp
    next
      case False
      have v: "bs_VaultID session' = bs_VaultID session" "\<And>q. archivePayload (bs_VaultID session) (ar_backups st1) = Some q \<Longrightarrow> headerDigest q = Some (bs_HeaderDigest session')"
        using a(2) validate_digest readArchive_payload
        by (fastforce simp: readArchiveLocked_def andThen_Inr_iff split: option.splits)+
      have "headerDigest q = Some d \<or> headerDigest q = Some noDigest" if "archivePayload (bs_VaultID session') (ar_backups st) = Some q" for q
        using v that b1 a(4) by (auto simp: checkHeader_def split: if_splits)
      then show ?thesis using stored [of "bs_VaultID session'" d] put_payload [OF p] False st' b1 validate_digest [OF a(3)] by auto
    qed
  qed
qed

section \<open>Every sequence of requests\<close>

text \<open>The requests on the archives of one service. Every other request may change the service, but neither the archive rows nor the
  archive sessions.\<close>

inductive archive_run :: "ArchiveService \<Rightarrow> ArchiveService \<Rightarrow> bool" for st0 where
  start: "archive_run st0 st0"
| challenge: "archive_run st0 st \<Longrightarrow> archive_run st0 (snd (IssueRecoveryArchiveChallenge now draw drawKey st))"
| opened: "archive_run st0 st \<Longrightarrow> archive_run st0 (snd (OpenRecoveryArchive network descriptorHash slot t1 t2 t3 t4 draw now opening st))"
| reading: "archive_run st0 st \<Longrightarrow> archive_run st0 (snd (ReadRecoveryArchive network descriptorHash now req st))"
| writing: "archive_run st0 st \<Longrightarrow> archive_run st0 (snd (WriteRecoveryArchive network descriptorHash commit_ok now req st))"
| other: "archive_run st0 st \<Longrightarrow> archive_run st0 (st \<lparr> ar_service := s \<rparr>)"

text \<open>
  C12: whatever archives are opened, read and written, through however many sessions and devices, an archive that is stored stays
  stored and every payload that replaces it has the header it was first stored with (unless that header hashes to 32 zero
  bytes, the value that stands for no header).
\<close>

theorem archive_header_pinned:
  assumes "archive_run st st'" "archivePayload v (ar_backups st) = Some p" "headerDigest p = Some d"
  shows "\<exists>p'. archivePayload v (ar_backups st') = Some p' \<and> (headerDigest p' = Some d \<or> d = noDigest)"
  using assms(1)
proof (induction rule: archive_run.induct)
  case start
  then show ?case using assms by simp
next
  case (writing st1 network descriptorHash commit_ok now req)
  obtain r st2 where w: "WriteRecoveryArchive network descriptorHash commit_ok now req st1 = (r, st2)" by fastforce
  from w show ?case
  proof (cases rule: write_cases)
    case same
    with w writing.IH show ?thesis by simp
  next
    case (stored u d')
    show ?thesis
    proof (cases "u = v")
      case True
      with stored writing.IH have "headerDigest (bq_Payload req) = Some d \<or> d = noDigest" by auto
      with stored(1) True w show ?thesis by simp
    next
      case False
      with stored(3) w writing.IH show ?thesis by auto
    qed
  qed
qed (simp_all add: open_backups challenge_backups read_backups OpenRecoveryArchive_def IssueRecoveryArchiveChallenge_def)

section \<open>Printed archives\<close>

text \<open>The text of a member's value: not starting with white space, read to its end inside an object.\<close>

definition memberText :: "string \<Rightarrow> json \<Rightarrow> bool" where
  "memberText e v \<longleftrightarrow> e \<noteq> [] \<and> \<not> isWs (hd e) \<and>
     (\<forall>f c r. c = CHR '','' \<or> c = CHR ''}'' \<longrightarrow> parseValue (Suc f) 1 (e @ c # r) = Some (v, c # r))"

lemma memberText_string: "plainText s \<Longrightarrow> memberText (jsonString s) (JStr s)"
  using reads_string [of s] by (auto simp: memberText_def readsAs_def jsonString_plain isWs_def simp del: parseValue.simps)

lemma memberText_nat:
  assumes "0 \<le> i"
  shows "memberText (showInt i) (JNum (showInt i))"
proof -
  obtain x t where x: "showInt i = x # t" "isDigitChar x" using showNat_head [of "nat i"] assms by (auto simp: showInt_def)
  then have "\<not> isWs x" by (auto simp: digit_code isWs_def)
  with x reads_nat [OF assms] show ?thesis unfolding memberText_def readsAs_def by simp
qed

lemma memberText_empty: "memberText ''{}'' (JObj [])"
  by (auto simp: memberText_def skipWs_def isWs_def maxNestingDepth_def)

lemma rawMembers_fields:
  assumes "list_all2 (\<lambda>(k, e) (k', v, t). k' = k \<and> plainText k \<and> memberText e v \<and> t = e) fs ms" "fs \<noteq> []" "length fs \<le> f"
  shows "rawMembers f (joinWith '','' (map (\<lambda>(k, v). jsonString k @ '':'' @ v) fs) @ ''}'' @ r) = Some (ms, r)"
  using assms
proof (induction fs arbitrary: ms f)
  case (Cons kv fs)
  obtain k e where kv: "kv = (k, e)" by fastforce
  obtain v ms' where ms: "ms = (k, v, e) # ms'" "plainText k" "memberText e v"
    and rest: "list_all2 (\<lambda>(k, e) (k', v, t). k' = k \<and> plainText k \<and> memberText e v \<and> t = e) fs ms'"
    using Cons.prems(1) kv by (auto simp: list_all2_Cons1)
  obtain g where f: "f = Suc g" "length fs \<le> g" using Cons.prems(3) by (cases f) auto
  have ws: "skipWs (e @ c # s) = e @ c # s" for c s using ms(3) by (cases e) (auto simp: memberText_def skipWs_def)
  have v: "parseValue (2 * length (e @ c # s) + 1) 1 (e @ c # s) = Some (v, c # s)" if "c = CHR '','' \<or> c = CHR ''}''" for c s
    using ms(3) that unfolding memberText_def by (simp only: Suc_eq_plus1 [symmetric])
  note k = jsonString_plain [OF ms(2)] scanString_plain [OF ms(2)] unquote_plainText [OF ms(2)]
  show ?case
  proof (cases fs)
    case Nil
    then show ?thesis using rest v [of "CHR ''}''" r] ws [of "CHR ''}''" r]
      by (simp add: kv ms(1) f k skipWs_def [of "CHR 34 # _"] skipWs_def [of "CHR '':'' # _"] skipWs_def [of "CHR ''}'' # _"] isWs_def Let_def del: parseValue.simps)
  next
    case (Cons kv2 fs2)
    let ?tl = "joinWith '','' (map (\<lambda>(k, v). jsonString k @ '':'' @ v) fs) @ ''}'' @ r"
    have ih: "rawMembers g ?tl = Some (ms', r)" using Cons.IH [OF rest _ f(2)] Cons by simp
    have j: "joinWith '','' (map (\<lambda>(k, v). jsonString k @ '':'' @ v) (kv # fs)) @ ''}'' @ r = CHR 34 # k @ CHR 34 # CHR '':'' # e @ CHR '','' # ?tl"
      by (simp add: Cons kv k)
    show ?thesis unfolding j f(1) rawMembers.simps
      using ih v [of "CHR '',''" ?tl] ws [of "CHR '',''" ?tl]
      by (simp add: ms(1) k skipWs_def [of "CHR 34 # _"] skipWs_def [of "CHR '':'' # _"] skipWs_def [of "CHR '','' # _"] isWs_def Let_def del: parseValue.simps)
  qed
qed simp

lemma onlyObject_struct:
  assumes "list_all2 (\<lambda>(k, e) (k', v, t). k' = k \<and> plainText k \<and> memberText e v \<and> t = e) fs ms" "fs \<noteq> []"
  shows "onlyObject (jsonStruct fs) = Some ms"
proof -
  let ?j = "joinWith '','' (map (\<lambda>(k, v). jsonString k @ '':'' @ v) fs)"
  obtain t where t: "?j = CHR 34 # t" using joinWith_quote [OF assms(2)] by blast
  have j: "jsonStruct fs = CHR ''{'' # CHR 34 # t @ ''}''" unfolding jsonStruct_def t by simp
  have "length fs \<le> length (?j @ ''}'')" using length_joinWith [of fs] by simp
  from rawMembers_fields [OF assms this, of "[]"] have m: "rawMembers (length (CHR 34 # t @ ''}'')) (CHR 34 # t @ ''}'') = Some (ms, [])" unfolding t by simp
  show ?thesis unfolding j onlyObject_def using m
    by (simp add: skipWs_def [of "CHR ''{'' # _"] skipWs_def [of "CHR 34 # _"] skipWs_def [of "[]"] isWs_def del: rawMembers.simps)
qed

definition sampleArchive :: string where
  "sampleArchive = jsonStruct (strField ''name'' ''vaulted-recovery-backup'' @ intField ''version'' 1 @ [(''header'', ''{}'')] @
     strField ''nonce'' ''000000000000000000000000'' @ strField ''ciphertext'' ''AAAA'')"

definition sampleArchives :: "Service \<Rightarrow> ArchiveService" where
  "sampleArchives s = \<lparr> ar_service = s, ar_backupSessions = [],
     ar_backups = [\<lparr> bk_vault_id = ''v'', bk_backup = \<lparr> rb_Revision = 1, rb_Payload = sampleArchive \<rparr>, bk_integrity_mac = [] \<rparr>] \<rparr>"

lemma sampleArchive_header: "map_option ae_Header (decodeEnvelope sampleArchive) = Some ''{}''"
proof -
  let ?ms = "[(''name'', JStr ''vaulted-recovery-backup'', jsonString ''vaulted-recovery-backup''), (''version'', JNum (showInt 1), showInt 1),
    (''header'', JObj [], ''{}''), (''nonce'', JStr ''000000000000000000000000'', jsonString ''000000000000000000000000''),
    (''ciphertext'', JStr ''AAAA'', jsonString ''AAAA'')]"
  have plain: "plainText ''name''" "plainText ''version''" "plainText ''header''" "plainText ''nonce''" "plainText ''ciphertext''"
    "plainText ''vaulted-recovery-backup''" "plainText ''000000000000000000000000''" "plainText ''AAAA''" by code_simp+
  have keys: "foldKey ''name'' = ''NAME''" "foldKey ''version'' = ''VERSION''" "foldKey ''header'' = ''HEADER''" "foldKey ''nonce'' = ''NONCE''"
    "foldKey ''ciphertext'' = ''CIPHERTEXT''" by code_simp+
  have "onlyObject sampleArchive = Some ?ms" unfolding sampleArchive_def
    by (rule onlyObject_struct) (simp_all add: strField_def intField_def plain [unfolded plainText_simps] plain(6-8) [THEN memberText_string] memberText_nat memberText_empty)
  moreover have "parseInt64 (showInt 1) = Some 1" by (rule parseInt64_nat) simp_all
  ultimately show ?thesis by (simp add: decodeEnvelope_def fieldVals_def keys Let_def del: foldKey.simps)
qed

theorem archive_header_pinned_witness:
  "\<forall>s req. \<exists>p'. archivePayload ''v'' (ar_backups (snd (WriteRecoveryArchive ''mainnet'' (\<lambda>_. Inr []) True 0 req (sampleArchives s)))) = Some p' \<and>
     (headerDigest p' = Some (sha256 (bytes_of ''{}'')) \<or> sha256 (bytes_of ''{}'') = noDigest)"
proof (intro allI)
  fix s req
  have "archive_run (sampleArchives s) (snd (WriteRecoveryArchive ''mainnet'' (\<lambda>_. Inr []) True 0 req (sampleArchives s)))"
    by (rule archive_run.writing [OF archive_run.start])
  moreover have "archivePayload ''v'' (ar_backups (sampleArchives s)) = Some sampleArchive"
    by (simp add: archivePayload_def sampleArchives_def)
  moreover have "headerDigest sampleArchive = Some (sha256 (bytes_of ''{}''))" using sampleArchive_header by (auto simp: headerDigest_def)
  ultimately show "\<exists>p'. archivePayload ''v'' (ar_backups (snd (WriteRecoveryArchive ''mainnet'' (\<lambda>_. Inr []) True 0 req (sampleArchives s)))) = Some p' \<and>
     (headerDigest p' = Some (sha256 (bytes_of ''{}'')) \<or> sha256 (bytes_of ''{}'') = noDigest)" by (rule archive_header_pinned)
qed

end
