(* ===== verification/Vault_Map.thy ===== *)
theory Vault_Map
  imports Enrollment Go_Time Crypto
begin

text \<open>
  The authenticated public recovery map of a vault (\<open>policy/vaultmap.go\<close>). \<open>lower\<close> is \<open>strings.ToLower\<close> on text outside ASCII, which depends
  on the Unicode tables; on ASCII text the model computes it. \<open>vaults\<close> are the ids of the vault table.
\<close>

definition vaultMapMACDomain :: string where "vaultMapMACDomain = ''arkade-2fa-vault/vault-map/v1''"

record VaultMap =
  vm_VaultID :: string
  vm_KitHash :: string
  vm_Payload :: string

record VaultMapRow =
  vw_map :: VaultMap
  vw_updated_at :: string
  vw_integrity_mac :: bytes

definition vaultMapMAC :: "VaultMap \<Rightarrow> bytes \<Rightarrow> bytes" where
  "vaultMapMAC rec key =
     hmac_sha256 key (bytes_of vaultMapMACDomain @ bytes_of (vm_VaultID rec) @ bytes_of (vm_KitHash rec) @ bytes_of (vm_Payload rec))"

definition lowerText :: "(string \<Rightarrow> string) \<Rightarrow> string \<Rightarrow> string" where
  "lowerText lower s = (if list_all (\<lambda>c. (of_char c :: nat) < 128) s then toLower s else lower s)"

definition normalMap :: "(string \<Rightarrow> string) \<Rightarrow> VaultMap \<Rightarrow> VaultMap" where
  "normalMap lower rec = rec \<lparr> vm_VaultID := trimSpace (vm_VaultID rec), vm_KitHash := lowerText lower (trimSpace (vm_KitHash rec)) \<rparr>"

text \<open>\<open>INSERT ... ON CONFLICT(vault_id) DO UPDATE\<close>, with the constraints of \<open>vault_map\<close>.\<close>

definition upsertVaultMap :: "string list \<Rightarrow> VaultMapRow \<Rightarrow> VaultMapRow list \<Rightarrow> VaultMapRow list res" where
  "upsertVaultMap vaults row rows =
     (let rec = vw_map row in
      if vm_VaultID rec \<notin> set vaults then Inl (ErrConstraint ''FOREIGN KEY vault_map.vault_id'')
      else if sqlLength (vm_KitHash rec) \<noteq> 64 \<or> sqlLength (vm_Payload rec) = 0 \<or> sqlLength (vm_Payload rec) > 98304 \<or> length (vw_integrity_mac row) \<noteq> 32
        then Inl (ErrConstraint ''CHECK vault_map'')
      else Inr (if \<exists>r\<in>set rows. vm_VaultID (vw_map r) = vm_VaultID rec
                then map (\<lambda>r. if vm_VaultID (vw_map r) = vm_VaultID rec then row else r) rows else rows @ [row]))"

definition PutVaultMap :: "(string \<Rightarrow> string) \<Rightarrow> string list \<Rightarrow> bytes \<Rightarrow> time \<Rightarrow> VaultMap \<Rightarrow> VaultMapRow list \<Rightarrow> unit res \<times> VaultMapRow list" where
  "PutVaultMap lower vaults key now rec0 rows =
     (if length key \<noteq> 32 then (Inl (Err ''map ledger required''), rows)
      else let rec = normalMap lower rec0 in
        if vm_VaultID rec = [] \<or> length (vm_KitHash rec) \<noteq> 64 \<or> vm_Payload rec = [] \<or> length (vm_Payload rec) > 98304
        then (Inl (Err ''vault map required''), rows)
        else case upsertVaultMap vaults \<lparr> vw_map = rec, vw_updated_at = formatRFC3339Nano now, vw_integrity_mac = vaultMapMAC rec key \<rparr> rows of
          Inl e \<Rightarrow> (Inl e, rows)
        | Inr rows' \<Rightarrow> (Inr (), rows'))"

definition GetVaultMap :: "bytes \<Rightarrow> string \<Rightarrow> VaultMapRow list \<Rightarrow> VaultMap option res" where
  "GetVaultMap key vaultID rows =
     (if length key \<noteq> 32 then Inl (Err ''map ledger required'')
      else let v = trimSpace vaultID in
        if v = [] then Inl (Err ''vault id required'')
        else case lookupBy (\<lambda>r. vm_VaultID (vw_map r) = v) rows of
          None \<Rightarrow> Inr None
        | Some r \<Rightarrow>
            if vw_integrity_mac r \<noteq> vaultMapMAC (vw_map r) key then Inl (Err ''vault map MAC mismatch'') else Inr (Some (vw_map r)))"

section \<open>Lemmas\<close>

lemma lookup_replaced:
  "lookupBy (\<lambda>r. vm_VaultID (vw_map r) = v) (map (\<lambda>r. if vm_VaultID (vw_map r) = vm_VaultID (vw_map row) then row else r) rows) =
     (if v = vm_VaultID (vw_map row) \<and> (\<exists>r\<in>set rows. vm_VaultID (vw_map r) = vm_VaultID (vw_map row)) then Some row
      else lookupBy (\<lambda>r. vm_VaultID (vw_map r) = v) rows)"
  by (induction rows) auto

lemma upsertVaultMap_lookup:
  assumes "upsertVaultMap vaults row rows = Inr rows'"
  shows "lookupBy (\<lambda>r. vm_VaultID (vw_map r) = v) rows' =
    (if v = vm_VaultID (vw_map row) then Some row else lookupBy (\<lambda>r. vm_VaultID (vw_map r) = v) rows)"
proof (cases "\<exists>r\<in>set rows. vm_VaultID (vw_map r) = vm_VaultID (vw_map row)")
  case True
  then show ?thesis using assms by (auto simp: upsertVaultMap_def Let_def lookup_replaced split: if_splits)
next
  case False
  then have "lookupBy (\<lambda>r. vm_VaultID (vw_map r) = vm_VaultID (vw_map row)) rows = None" by (simp add: lookupBy_None_iff)
  with False show ?thesis using assms by (auto simp: upsertVaultMap_def Let_def lookupBy_append split: if_splits option.splits)
qed

text \<open>
  A stored map is read back, normalised, under every spelling of its vault id, and no other vault's map is touched; a refused
  map changes nothing.
\<close>

theorem vault_map_round_trip:
  assumes "PutVaultMap lower vaults key now rec rows = (r, rows')"
  shows "if isl r then rows' = rows
    else (\<forall>v. trimSpace v = trimSpace (vm_VaultID rec) \<longrightarrow> GetVaultMap key v rows' = Inr (Some (normalMap lower rec))) \<and>
         (\<forall>v. trimSpace v \<noteq> trimSpace (vm_VaultID rec) \<longrightarrow> GetVaultMap key v rows' = GetVaultMap key v rows)"
proof (cases r)
  case (Inl e)
  then show ?thesis using assms by (auto simp: PutVaultMap_def Let_def split: if_splits sum.splits)
next
  case (Inr u)
  let ?rec = "normalMap lower rec"
  have k: "length key = 32" "vm_VaultID ?rec \<noteq> []"
    and up: "upsertVaultMap vaults \<lparr> vw_map = ?rec, vw_updated_at = formatRFC3339Nano now, vw_integrity_mac = vaultMapMAC ?rec key \<rparr> rows = Inr rows'"
    using assms Inr by (auto simp: PutVaultMap_def Let_def split: if_splits sum.splits)
  have v: "vm_VaultID ?rec = trimSpace (vm_VaultID rec)" by (simp add: normalMap_def)
  show ?thesis using Inr k upsertVaultMap_lookup [OF up] v by (simp add: GetVaultMap_def Let_def)
qed

text \<open>The MAC of a map does not separate its fields: moving the tail of the vault id into the kit hash gives the same tag.\<close>

theorem vault_map_mac_ambiguous:
  "vaultMapMAC \<lparr> vm_VaultID = vault @ suffix, vm_KitHash = kit, vm_Payload = payload \<rparr> key =
    vaultMapMAC \<lparr> vm_VaultID = vault, vm_KitHash = take 64 (suffix @ kit), vm_Payload = drop 64 (suffix @ kit) @ payload \<rparr> key"
proof -
  have split: "bytes_of (take 64 s) @ bytes_of (drop 64 s @ payload) = bytes_of (s @ payload)" for s
    unfolding bytes_of_def by (metis append_assoc append_take_drop_id map_append)
  have "bytes_of (vault @ suffix) @ bytes_of kit @ bytes_of payload = bytes_of vault @ bytes_of ((suffix @ kit) @ payload)" by (simp add: bytes_of_def)
  then show ?thesis unfolding vaultMapMAC_def VaultMap.select_convs split [of "suffix @ kit"] by simp
qed

end
