(* ===== verification/Spec2Isabelle.thy ===== *)
theory Spec2Isabelle
  imports Ledger_Props Ceremony Enrollment_Props Recovery_Backup Board_Run Json Program
    Session_Props Savings_Props Runtime_Props Archive_Props Vault_Map
begin

text \<open>
  Verification of the Guardian authorizer (the Arkade vault runtime, a Go service).

  \<^bold>\<open>The program.\<close> The service guards Bitcoin vaults. A user enrolls a vault with a passkey; the service then co-signs payments within a
  frozen spending policy, keeps the batches and delegations that renew the vault's coins, boards onchain coins, stores encrypted recovery
  archives and signs recoveries. Everything it has promised is kept in an SQLite ledger whose rows carry MACs, next to a small
  sequence file that makes a restored old database detectable. A signature leaves the process only after the row that records it is
  committed, so what the service guarantees is what the ledger guarantees. Requests reach the ledger through passkey sessions.
  All of it is compiled into one profile, hosted by a small runtime.

  Names of definitions are those of the source, except where a name is taken in HOL; \<open>internal/\<close> is left out of file names below.

  \<^bold>\<open>Foundations.\<close>
  \<^item> \<open>Prelude\<close>: bytes, words, results (\<open>go_error + 'a\<close>), 64-bit wrap-around, folds that stop at an error, lookups in tables.
  \<^item> \<open>Go_Text\<close>, \<open>Go_Time\<close>, \<open>Json\<close>, \<open>Base64\<close>, \<open>Crypto\<close>: what the source uses of the Go library (hex, decimal, UTF-8, trimming, RFC 3339
    times, JSON, base64, SHA-256, HMAC). \<open>Json_Round\<close> shows that printed flat structs of plain text are read back.
  \<^item> \<open>Program\<close>: \<open>program/\<close>, the pins, tiers and spending policies.

  \<^bold>\<open>The authenticated ledger (\<open>policy/\<close>).\<close>
  \<^item> \<open>Vtxo\<close> (\<open>vtxo.go\<close>), \<open>Tenant\<close> (\<open>tenant.go\<close>, \<open>envelope.go\<close>), \<open>Board_Data\<close> (the rows of \<open>vault_board.go\<close>): rows, canonical encodings,
    MACs. The locale \<open>sealed_row\<close> states when an encoding authenticates a row and is interpreted on nine row types; a verified row that was
    changed exhibits a MAC collision.
  \<^item> \<open>Monotonic\<close> (\<open>monotonic.go\<close>): the sequence file. The locale \<open>sequence_guard\<close> is what the ledger relies on; \<open>Observe\<close> interprets it.
  \<^item> \<open>Store\<close> (\<open>ledger.go\<close>, \<open>sequence_base.go\<close>, \<open>signcount.go\<close>): the ledger's state, transactions, the economic sequence, the sign counters.
    The locale \<open>action_frame\<close> carries facts that every primitive of a transaction keeps to whole calls.
  \<^item> \<open>Spend_Ledger\<close> (\<open>vtxo_ledger.go\<close>) with \<open>Spend_Facts\<close>: reserving, moving and signing payments, the rolling allowance.
  \<^item> \<open>Renewal\<close> (\<open>spending_renewal.go\<close>, \<open>bitcoin_conflict.go\<close>, \<open>bitcoin_ended_batch.go\<close>), \<open>Delegation\<close> (\<open>spending_delegation.go\<close>) and
    \<open>Journal_Ledger\<close>: the two event journals with their phase machines. \<open>Journal_Law\<close> states the contract of such a journal as the locale
    \<open>journal\<close> and interprets it on both.
  \<^item> \<open>Ledger_Calls\<close>, \<open>Ledger_Fence\<close>, \<open>Ledger_Props\<close>: the writing calls as one transition system. The locale \<open>ledger_invariant\<close> lifts what
    each call keeps to every reachable ledger; its interpretations give exclusive inputs, one unresolved payment per vault, and one
    payment, batch or delegation in flight per vault.
  \<^item> \<open>Board_Ledger\<close> (\<open>vault_board.go\<close>, \<open>vault_board_conflict.go\<close>): the boarding journal. \<open>Board_Protocol\<close> is its abstract specification,
    guarded events on attempts; \<open>Board_Props\<close> shows that every call implements a sequence of events, \<open>Board_Reach\<close> puts the calls beside the
    other writers of the ledger, and \<open>Board_Run\<close> draws the conclusions and runs a whole boarding.
  \<^item> \<open>Enrollment\<close> (\<open>tenant.go\<close>, \<open>invite.go\<close>, \<open>enrollment_session.go\<close>, \<open>pending.go\<close>, \<open>vault_create.go\<close>) with \<open>Enrollment_Props\<close>: the tenant
    tables, their invariant, atomic creation, invites spent once, and the way from a session to a vault with its board.
  \<^item> \<open>Recovery_Backup\<close> (\<open>recovery_backup.go\<close>): archives with revisions, shown to implement a versioned register (locale \<open>versioned_store\<close>).
  \<^item> \<open>Savings_Ledger\<close> (\<open>ledger_savings.go\<close>, \<open>ledger_savings_replay.go\<close>) with \<open>Savings_Props\<close>: the log of savings recoveries under every
    sequence of requests.
  \<^item> \<open>Vault_Map\<close> (\<open>vaultmap.go\<close>): the public recovery map, its round trip and what its MAC leaves open.

  \<^bold>\<open>Passkeys and sessions.\<close>
  \<^item> \<open>Cbor\<close>, \<open>P256\<close>, \<open>Webauthn\<close> (\<open>webauthn/\<close>) with \<open>Ceremony\<close>: the strict CBOR codec, COSE keys, ECDSA, both ceremonies. The decoder accepts
    exactly canonical encodings, a created credential is read back, and an assertion serves one context only.
  \<^item> \<open>Session\<close> (\<open>application/session.go\<close>, \<open>session_challenge.go\<close>, parts of \<open>service.go\<close> and \<open>transition.go\<close>) with \<open>Session_Props\<close>: stateless
    challenge tickets, authentication, the rate limit. A ticket is good once and only with an assertion over its own challenge. The sections under \<open>sessionMu\<close> are the steps of \<open>session_run\<close>, and requests
    interleave between them.
  \<^item> \<open>Archive\<close> (\<open>application/backup_session.go\<close>, \<open>recovery_archive.go\<close>) with \<open>Archive_Props\<close>: sessions over the archives; a stored
    header is pinned.

  \<^bold>\<open>The runtime.\<close> \<open>Runtime_Host\<close> (\<open>runtime/registry.go\<close>, \<open>runtime/host.go\<close>), \<open>Vault_Profile\<close> (\<open>profile/arkadevaultv1/profile.go\<close>) and
  \<open>Runtime_Props\<close>: which sets of profiles compile, that the linked one does, and a shutdown that runs once whoever calls \<open>Close\<close>.

  \<^bold>\<open>Conventions.\<close> A call is a function of the state that returns its result and the state after it. What a call meets outside is an
  argument: the clock (an argument for each reading, except that the readings inside one locked section of the ledger share one, but for vault
  creation, which has both), random draws (\<open>None\<close> for a failed draw), the outcome of COMMIT and of writing the
  sequence file, a free verification slot. A lock makes the section under it one step. SQL constraints and foreign keys are
  written out at the statements. Errors carry the message of the source before formatting. A nil and an empty slice are the same value;
  where the source tells them apart, the theory says so. Times are instants, printed in UTC.

  \<^bold>\<open>Termination and bounds.\<close> All definitions are total. The JSON parser runs on fuel, twice the length of the text and one more, and
  \<open>parseValue_fuel\<close> shows that more fuel changes nothing; the decoders of CBOR and UTF-8 have termination proofs on the length of what is
  left. Go's \<open>int64\<close> additions that can overflow are written with \<open>i64\<close>; \<open>uint32\<close> values are words.

  \<^bold>\<open>Parameters.\<close> Code outside the repository is an argument: \<open>wire\<close> decodes Bitcoin transactions, \<open>descriptorHash\<close> is the hash of the
  account descriptor built from scripts, \<open>upper\<close> and \<open>lower\<close> map the case of text that is not ASCII, \<open>network\<close> is the configured network.

  \<^bold>\<open>What the proofs showed.\<close> Three MACs authenticate less than the row: \<open>canonicalVtxoOperationInput\<close> truncates the output index
  (\<open>input_vout_truncated\<close>), and the messages of \<open>signCountMAC\<close> and \<open>vaultMapMAC\<close> have no length prefixes (\<open>sign_count_message_ambiguous\<close>,
  \<open>vault_map_mac_ambiguous\<close>). \<open>openBackup\<close> counts the spent tickets of a vault under the id as it was sent and not as it was looked up, so the
  bound on them is per spelling of an id. \<open>ReserveVtxoOperation\<close> takes the creation time of an operation from its caller unchecked; what that
  means for the allowance is part of \<open>reserve_within_allowance\<close> (the application always passes the current time).

  \<^bold>\<open>Not modelled.\<close> The comparison of SQL DDL text with SQLite's catalogue and the migrations (\<open>schema*.go\<close>); key derivation, tapscript and
  savings trees (\<open>vtxo_script.go\<close>, \<open>vault/savings/\<close>), which are calls of secp256k1 and btcd packages; the HTTP handlers and the flows of
  \<open>application/\<close> that build and check Ark and Bitcoin transactions with third-party types (\<open>vtxo.go\<close>, \<open>ark_resolver.go\<close>, boarding, renewal
  and delegation attempts); configuration, wiring and the process entry, which only do input and output. Failures of the SQLite driver
  other than a failed COMMIT are not represented.
\<close>

end
